(* ===== verification/Prelude.thy ===== *)
theory Prelude
  imports Main "HOL-Library.Word" "HOL-Library.Monad_Syntax"
begin

text \<open>
  Shared by every theory of the development: the fixed-width integer types of the firmware,
  memory accesses that fail when they leave their array, counted loops over such accesses, and
  the byte encodings the code obtains from \<open>memcpy\<close>, \<open>reinterpret_cast\<close> and shifts.

  A C++ access outside its array is undefined behaviour.  The model makes it a value: the
  operations that index memory return an \<open>option\<close>, and \<open>None\<close> means that the code
  performed such an access.  A theorem that an operation returns \<open>Some\<close> is therefore a
  memory-safety statement.

  The targets are 32-bit little-endian microcontrollers (Cortex-M, Xtensa): \<open>size_t\<close> and
  pointers have 32 bits and a \<open>uint16_t\<close> or \<open>uint32_t\<close> is stored low byte first.
\<close>

unbundle bit_operations_syntax

type_synonym u8 = "8 word"
type_synonym u16 = "16 word"
type_synonym u32 = "32 word"

text \<open>The collections the component theories add to: \<open>mem\<close> evaluates checked accesses that
  are in range, \<open>enc\<close> evaluates byte encodings, \<open>frame\<close> says which fields an operation
  leaves alone.\<close>

named_theorems mem
named_theorems enc
named_theorems frame

section \<open>Word values\<close>

lemma unat_u8_less [simp]: "unat (x :: u8) < 256"
  using unsigned_less [of x, where ?'a = nat] by simp

lemma unat_u16_less [simp]: "unat (x :: u16) < 65536"
  using unsigned_less [of x, where ?'a = nat] by simp

lemma unat_u32_less [simp]: "unat (x :: u32) < 4294967296"
  using unsigned_less [of x, where ?'a = nat] by simp

lemma unat_u8_le: "unat (x :: u8) \<le> 255"
  using unat_u8_less [of x] by linarith

lemma unat_u16_le: "unat (x :: u16) \<le> 65535"
  using unat_u16_less [of x] by linarith

lemma unat_u8_u32 [simp]: "unat (ucast (x :: u8) :: u32) = unat x"
  by (simp add: unsigned_ucast_eq take_bit_nat_eq_self less_trans [OF unat_u8_less])

lemma unat_u16_u32 [simp]: "unat (ucast (x :: u16) :: u32) = unat x"
  by (simp add: unsigned_ucast_eq take_bit_nat_eq_self less_trans [OF unat_u16_less])

lemma unat_u32_mult: "unat a * unat b < 4294967296 \<Longrightarrow> unat (a * b :: u32) = unat a * unat b"
  by (simp add: unat_word_ariths)

lemma unat_u32_add: "unat a + unat b < 4294967296 \<Longrightarrow> unat (a + b :: u32) = unat a + unat b"
  by (simp add: unat_word_ariths)

lemma mult_u8_2: "unat (x :: u8) * unat (y :: u8) \<le> 65025"
  using mult_le_mono [OF unat_u8_le unat_u8_le, of x y] by simp

lemma mult_u8_3: "unat (x :: u8) * unat (y :: u8) * unat (z :: u8) \<le> 16581375"
  using mult_le_mono [OF mult_u8_2 unat_u8_le, of x y z] by simp

text \<open>The idiom \<open>(int32_t)(now - deadline) >= 0\<close> compares distances below \<open>2^31\<close>.\<close>

lemma odd_half: "0 \<le> k \<Longrightarrow> k < 4294967296 \<Longrightarrow> odd (k div 2147483648) \<longleftrightarrow> \<not> k < (2147483648 :: int)"
proof (cases "k < 2147483648")
  case False
  assume "0 \<le> k" "k < 4294967296"
  with False have "k div 2147483648 = 1" using div_pos_geq [of 2147483648 k] by simp
  with False show ?thesis by simp
qed simp

lemma sub_mod: "0 \<le> a \<Longrightarrow> a < 2147483648 \<Longrightarrow> 0 \<le> b \<Longrightarrow> b < 2147483648 \<Longrightarrow>
  (a - b) mod 4294967296 < 2147483648 \<longleftrightarrow> b \<le> (a::int)"
proof (cases "b \<le> a")
  case False
  assume "0 \<le> a" "a < 2147483648" "0 \<le> b" "b < 2147483648"
  with False have "(a - b + 4294967296) mod 4294967296 = a - b + 4294967296" by (intro mod_pos_pos_trivial) auto
  then have "(a - b) mod 4294967296 = a - b + 4294967296" by simp
  with False \<open>0 \<le> a\<close> \<open>b < 2147483648\<close> show ?thesis by simp
qed simp

lemma sint_nonneg_u32: "0 \<le> sint (x :: u32) \<longleftrightarrow> uint x < 2147483648"
proof -
  have "0 \<le> sint x \<longleftrightarrow> \<not> bit x 31" using bit_last_iff [of x] by auto
  also have "bit x 31 \<longleftrightarrow> bit (uint x) 31" by (simp add: bit_uint_iff)
  also have "\<dots> \<longleftrightarrow> odd (uint x div 2147483648)" by (simp add: bit_iff_odd)
  also have "\<dots> \<longleftrightarrow> \<not> uint x < 2147483648"
    using uint_bounded [of x] by (intro odd_half) simp_all
  finally show ?thesis by simp
qed

lemma unat_less_u31: "unat (x :: u32) < 2147483648 \<longleftrightarrow> uint x < 2147483648"
proof -
  have "unat x < 2147483648 \<longleftrightarrow> int (unat x) < int 2147483648" by (simp only: of_nat_less_iff)
  then show ?thesis by simp
qed

lemma signed_deadline:
  assumes "unat (b :: u32) < 2147483648" "unat a < 2147483648"
  shows "0 \<le> sint (a - b) \<longleftrightarrow> b \<le> a"
proof -
  have u: "uint b < 2147483648" "uint a < 2147483648" using assms by (simp_all add: unat_less_u31)
  have "uint (a - b) = (uint a - uint b) mod 4294967296" by (simp add: uint_word_ariths)
  then have "0 \<le> sint (a - b) \<longleftrightarrow> uint b \<le> uint a" using sub_mod [of "uint a" "uint b"] u sint_nonneg_u32 [of "a - b"] by simp
  then show ?thesis by (simp add: word_le_def)
qed

section \<open>Checked memory\<close>

definition arr_get :: "'a list \<Rightarrow> nat \<Rightarrow> 'a option" where
  "arr_get xs i = (if i < length xs then Some (xs ! i) else None)"

definition arr_set :: "'a list \<Rightarrow> nat \<Rightarrow> 'a \<Rightarrow> 'a list option" where
  "arr_set xs i v = (if i < length xs then Some (xs[i := v]) else None)"

text \<open>\<open>overwrite xs off ys\<close> is the array after \<open>memcpy(xs + off, ys, length ys)\<close>.\<close>

definition overwrite :: "'a list \<Rightarrow> nat \<Rightarrow> 'a list \<Rightarrow> 'a list" where
  "overwrite xs off ys = take off xs @ ys @ drop (off + length ys) xs"

definition mem_read :: "'a list \<Rightarrow> nat \<Rightarrow> nat \<Rightarrow> 'a list option" where
  "mem_read xs off n = (if off + n \<le> length xs then Some (take n (drop off xs)) else None)"

definition mem_write :: "'a list \<Rightarrow> nat \<Rightarrow> 'a list \<Rightarrow> 'a list option" where
  "mem_write xs off ys =
     (if off + length ys \<le> length xs then Some (overwrite xs off ys) else None)"

lemma arr_get_ok [mem]: "i < length xs \<Longrightarrow> arr_get xs i = Some (xs ! i)"
  by (simp add: arr_get_def)

lemma arr_set_ok [mem]: "i < length xs \<Longrightarrow> arr_set xs i v = Some (xs[i := v])"
  by (simp add: arr_set_def)

lemma mem_read_ok [mem]: "off + n \<le> length xs \<Longrightarrow> mem_read xs off n = Some (take n (drop off xs))"
  by (simp add: mem_read_def)

lemma mem_write_ok [mem]: "off + length ys \<le> length xs \<Longrightarrow> mem_write xs off ys = Some (overwrite xs off ys)"
  by (simp add: mem_write_def)

lemma mem_read_all [mem]: "n = length xs \<Longrightarrow> mem_read xs 0 n = Some xs"
  by (simp add: mem_read_def)

lemma mem_write_all [mem]: "length ys = length xs \<Longrightarrow> mem_write xs 0 ys = Some ys"
  by (simp add: mem_write_def overwrite_def)

lemma length_splice [simp]:
  "off + length ys \<le> length xs \<Longrightarrow> length (overwrite xs off ys) = length xs"
  by (simp add: overwrite_def)

lemma overwrite_nil [simp]: "overwrite xs off [] = xs"
  by (simp add: overwrite_def)

lemma overwrite_all: "length ys = length xs \<Longrightarrow> overwrite xs 0 ys = ys"
  by (simp add: overwrite_def)

lemma nth_splice:
  assumes "off + length ys \<le> length xs" and "i < length xs"
  shows "overwrite xs off ys ! i =
    (if off \<le> i \<and> i < off + length ys then ys ! (i - off) else xs ! i)"
  using assms by (auto simp: overwrite_def nth_append)

lemma take_drop_splice_same:
  "off + length ys \<le> length xs \<Longrightarrow> take (length ys) (drop off (overwrite xs off ys)) = ys"
  by (simp add: overwrite_def)

lemma overwrite_append_split:
  "overwrite xs off (ys @ zs) = overwrite (overwrite xs off ys) (off + length ys) zs"
  if "off + length ys + length zs \<le> length xs"
proof -
  have "take off xs @ ys = take (off + length ys) (overwrite xs off ys)"
    using that by (simp add: overwrite_def)
  moreover have "drop (off + length ys + length zs) (overwrite xs off ys) = drop (off + length ys + length zs) xs"
    using that by (simp add: overwrite_def ac_simps)
  ultimately show ?thesis using that by (simp add: overwrite_def ac_simps)
qed

section \<open>Counted loops\<close>

text \<open>\<open>for_up i k f s\<close> runs \<open>f i\<close>, \<open>f (i + 1)\<close>, ... \<open>f (i + k - 1)\<close> on the state, as
  \<open>for (j = i; j < i + k; ++j)\<close> does.  The counters of the code are 8 or 16 bits wide and their
  bounds fit that width, so no counter wraps.\<close>

fun for_up :: "nat \<Rightarrow> nat \<Rightarrow> (nat \<Rightarrow> 's \<Rightarrow> 's option) \<Rightarrow> 's \<Rightarrow> 's option" where
  "for_up i 0 f s = Some s"
| "for_up i (Suc k) f s = Option.bind (f i s) (for_up (Suc i) k f)"

lemma for_up_total:
  assumes "P i s"
    and "\<And>j t. i \<le> j \<Longrightarrow> j < i + k \<Longrightarrow> P j t \<Longrightarrow> \<exists>t'. f j t = Some t' \<and> P (Suc j) t'"
  shows "\<exists>s'. for_up i k f s = Some s' \<and> P (i + k) s'"
  using assms
proof (induction k arbitrary: i s)
  case 0
  then show ?case by simp
next
  case (Suc k)
  from Suc.prems obtain t where t: "f i s = Some t" "P (Suc i) t" by fastforce
  have "\<exists>s'. for_up (Suc i) k f t = Some s' \<and> P (Suc i + k) s'"
    by (rule Suc.IH [OF t(2)]) (use Suc.prems(2) in auto)
  with t(1) show ?case by simp
qed

lemma for_up_inv:
  assumes "for_up i k f s = Some s'" and "P i s"
    and "\<And>j t t'. i \<le> j \<Longrightarrow> j < i + k \<Longrightarrow> P j t \<Longrightarrow> f j t = Some t' \<Longrightarrow> P (Suc j) t'"
  shows "P (i + k) s'"
  using assms
proof (induction k arbitrary: i s)
  case 0
  then show ?case by simp
next
  case (Suc k)
  from Suc.prems(1) obtain t where t: "f i s = Some t" "for_up (Suc i) k f t = Some s'"
    by (auto split: bind_splits)
  have "P (Suc i) t" using Suc.prems(2,3) t(1) by auto
  then have "P (Suc i + k) s'"
    by (rule Suc.IH [OF t(2)]) (use Suc.prems(3) in auto)
  then show ?case by simp
qed

lemma for_up_cong:
  assumes "\<And>j t. i \<le> j \<Longrightarrow> j < i + k \<Longrightarrow> f j t = g j t"
  shows "for_up i k f s = for_up i k g s"
  using assms
proof (induction k arbitrary: i s)
  case (Suc k)
  have "for_up (Suc i) k f = for_up (Suc i) k g"
    by (rule ext, rule Suc.IH) (use Suc.prems in auto)
  with Suc.prems show ?case by simp
qed simp

text \<open>A loop that fills consecutive cells.\<close>

lemma overwrite_snoc:
  assumes "off + length ys < length xs"
  shows "(overwrite xs off ys)[off + length ys := v] = overwrite xs off (ys @ [v])"
proof -
  have "drop (off + length ys) xs = xs ! (off + length ys) # drop (Suc (off + length ys)) xs"
    using assms by (rule Cons_nth_drop_Suc [symmetric])
  with assms show ?thesis by (simp add: overwrite_def list_update_append min_def)
qed

lemma overwrite_Cons:
  assumes "k < length xs"
  shows "overwrite (xs[k := v]) (Suc k) zs = overwrite xs k (v # zs)"
  using assms by (simp add: overwrite_def take_Suc_conv_app_nth)

lemma for_up_fill:
  assumes "\<And>i out. i < n \<Longrightarrow> f i out = arr_set out (off + i) (g i)" and "off + n \<le> length xs"
  shows "for_up 0 n f xs = Some (overwrite xs off (map g [0..<n]))"
proof -
  have "for_up j k f (overwrite xs off (map g [0..<j])) = Some (overwrite xs off (map g [0..<j + k]))"
    if "j + k \<le> n" for j k
    using that
  proof (induction k arbitrary: j)
    case (Suc k)
    have len: "off + length (map g [0..<j]) < length xs" using Suc.prems assms(2) by simp
    have "f j (overwrite xs off (map g [0..<j])) = Some (overwrite xs off (map g [0..<Suc j]))"
      using overwrite_snoc [OF len, of "g j"] Suc.prems assms len by (simp add: mem)
    then have "for_up j (Suc k) f (overwrite xs off (map g [0..<j])) =
        for_up (Suc j) k f (overwrite xs off (map g [0..<Suc j]))"
      by (simp del: upt_Suc)
    also have "\<dots> = Some (overwrite xs off (map g [0..<Suc j + k]))"
      using Suc.prems by (intro Suc.IH) simp
    finally show ?case by simp
  qed simp
  from this [of 0 n] show ?thesis by simp
qed

text \<open>Mixed-radix indices.\<close>

lemma radix_less: "i < m \<Longrightarrow> j < n \<Longrightarrow> i * n + j < m * (n :: nat)"
proof -
  assume "i < m" "j < n"
  have "Suc i * n \<le> m * n" using \<open>i < m\<close> by (intro mult_le_mono1) simp
  with \<open>j < n\<close> show ?thesis by simp
qed

lemma radix_inj: "j < n \<Longrightarrow> j' < n \<Longrightarrow> i * n + j = i' * n + j' \<longleftrightarrow> i = i' \<and> j = (j' :: nat)"
  by (metis div_mult_self3 div_less add.right_neutral less_nat_zero_code mod_less mod_mult_self3)

section \<open>Byte encodings\<close>

text \<open>Little-endian images of integers, as \<open>reinterpret_cast\<close> exposes them.\<close>

definition le16 :: "u16 \<Rightarrow> u8 list" where
  "le16 w = [ucast w, ucast (drop_bit 8 w)]"

definition le32 :: "u32 \<Rightarrow> u8 list" where
  "le32 w = [ucast w, ucast (drop_bit 8 w), ucast (drop_bit 16 w), ucast (drop_bit 24 w)]"

definition of_le16 :: "u8 list \<Rightarrow> u16" where
  "of_le16 bs = ucast (bs ! 0) OR push_bit 8 (ucast (bs ! 1))"

definition of_le32 :: "u8 list \<Rightarrow> u32" where
  "of_le32 bs = ucast (bs ! 0) OR push_bit 8 (ucast (bs ! 1)) OR push_bit 16 (ucast (bs ! 2))
     OR push_bit 24 (ucast (bs ! 3))"

text \<open>The byte image of a \<open>uint16_t\<close> array, and the array a byte image denotes.\<close>

definition bytes16 :: "u16 list \<Rightarrow> u8 list" where
  "bytes16 ws = concat (map le16 ws)"

fun of_bytes16 :: "u8 list \<Rightarrow> u16 list" where
  "of_bytes16 (a # b # bs) = of_le16 [a, b] # of_bytes16 bs"
| "of_bytes16 _ = []"

text \<open>Big-endian fields of VIA packets.\<close>

definition hi8 :: "u16 \<Rightarrow> u8" where "hi8 w = ucast (drop_bit 8 w)"

definition lo8 :: "u16 \<Rightarrow> u8" where "lo8 w = ucast w"

definition be16 :: "u8 \<Rightarrow> u8 \<Rightarrow> u16" where
  "be16 hi lo = push_bit 8 (ucast hi) OR ucast lo"

definition be32 :: "u32 \<Rightarrow> u8 list" where
  "be32 w = [ucast (drop_bit 24 w), ucast (drop_bit 16 w), ucast (drop_bit 8 w), ucast w]"

definition of_be32 :: "u8 \<Rightarrow> u8 \<Rightarrow> u8 \<Rightarrow> u8 \<Rightarrow> u32" where
  "of_be32 a b c d =
     push_bit 24 (ucast a) OR push_bit 16 (ucast b) OR push_bit 8 (ucast c) OR ucast d"

lemma length_le [simp]: "length (le16 w) = 2" "length (le32 v) = 4"
  by (simp_all add: le16_def le32_def)

lemma length_be32 [simp]: "length (be32 v) = 4"
  by (simp add: be32_def)

lemma of_le16_le16 [enc]: "of_le16 (le16 w) = w"
  by (rule bit_word_eqI)
     (auto simp: of_le16_def le16_def bit_simps)

lemma of_le32_le32 [enc]: "of_le32 (le32 w) = w"
proof (rule bit_word_eqI)
  fix n assume "n < LENGTH(32)"
  then consider "n < 8" | "8 \<le> n" "n < 16" | "16 \<le> n" "n < 24" | "24 \<le> n" "n < 32"
    by fastforce
  then show "bit (of_le32 (le32 w)) n = bit w n"
    by cases (auto simp: of_le32_def le32_def bit_simps)
qed

lemma bit_u8_ge: "8 \<le> n \<Longrightarrow> \<not> bit (a :: u8) n"
  using bit_imp_le_length [of a n] by auto

lemma le16_of_le16 [enc]: "le16 (of_le16 [a, b]) = [a, b]"
  unfolding le16_def of_le16_def
  by (auto intro!: bit_word_eqI simp: bit_simps bit_u8_ge)

lemma le32_of_le32 [enc]: "le32 (of_le32 [a, b, c, d]) = [a, b, c, d]"
  unfolding le32_def of_le32_def
  by (auto intro!: bit_word_eqI simp: bit_simps bit_u8_ge)

lemma length_4_cases:
  assumes "length xs = 4"
  obtains a b c d where "xs = [a, b, c, d]"
  using assms by (auto simp: numeral_eq_Suc length_Suc_conv)

lemma le32_of_le32_list: "length bs = 4 \<Longrightarrow> le32 (of_le32 bs) = bs"
  by (erule length_4_cases) (simp add: le32_of_le32)

lemma be16_hi_lo [enc]: "be16 (hi8 w) (lo8 w) = w"
  by (rule bit_word_eqI) (auto simp: be16_def hi8_def lo8_def bit_simps)

lemma hi8_lo8_eq: "hi8 v = hi8 w \<Longrightarrow> lo8 v = lo8 w \<Longrightarrow> v = w"
  by (metis be16_hi_lo)

lemma hi8_be16 [enc]: "hi8 (be16 a b) = a"
  by (rule bit_word_eqI) (auto simp: be16_def hi8_def bit_simps dest: bit_imp_le_length)

lemma lo8_be16 [enc]: "lo8 (be16 a b) = b"
  by (rule bit_word_eqI) (auto simp: be16_def lo8_def bit_simps)

lemma length_bytes16 [simp]: "length (bytes16 ws) = 2 * length ws"
  by (induction ws) (auto simp: bytes16_def)

lemma bytes16_Cons: "bytes16 (w # ws) = le16 w @ bytes16 ws"
  by (simp add: bytes16_def)

lemma bytes16_eq_Nil [simp]: "bytes16 ws = [] \<longleftrightarrow> ws = []"
  by (cases ws) (simp_all add: bytes16_def le16_def)

lemma bytes16_Nil [simp]: "bytes16 [] = []"
  by simp

lemma bytes16_append: "bytes16 (xs @ ys) = bytes16 xs @ bytes16 ys"
  by (simp add: bytes16_def)

lemma of_bytes16_bytes16 [enc]: "of_bytes16 (bytes16 ws) = ws"
proof (induction ws)
  case (Cons w ws)
  have "of_bytes16 (bytes16 (w # ws)) = of_le16 (le16 w) # of_bytes16 (bytes16 ws)"
    by (simp add: bytes16_Cons le16_def)
  with Cons show ?case by (simp add: enc)
qed (simp add: bytes16_def)

lemma bytes16_of_bytes16 [enc]: "even (length bs) \<Longrightarrow> bytes16 (of_bytes16 bs) = bs"
  by (induction bs rule: of_bytes16.induct) (auto simp: bytes16_Cons le16_of_le16)

lemma length_of_bytes16: "length (of_bytes16 bs) = length bs div 2"
  by (induction bs rule: of_bytes16.induct) auto

lemma of_be32_bytes [enc]:
  "of_be32 (ucast (drop_bit 24 w)) (ucast (drop_bit 16 w)) (ucast (drop_bit 8 w)) (ucast w) = w"
proof (rule bit_word_eqI)
  fix n assume "n < LENGTH(32)"
  then consider "n < 8" | "8 \<le> n" "n < 16" | "16 \<le> n" "n < 24" | "24 \<le> n" "n < 32"
    by fastforce
  then show "bit (of_be32 (ucast (drop_bit 24 w)) (ucast (drop_bit 16 w)) (ucast (drop_bit 8 w))
      (ucast w)) n = bit w n"
    by cases (auto simp: of_be32_def bit_simps)
qed

end
