(* ===== verification/Interfaces.thy ===== *)
theory Interfaces
  imports Prelude
begin

text \<open>
  The abstract base classes of \<open>src/VIA_Protocol.h\<close> (\<open>Transport\<close>, \<open>Storage\<close>,
  \<open>CustomValue\<close>, \<open>Callbacks\<close>) as tables of functions over the state of the derived class:
  a virtual method of a class with state \<open>'s\<close> takes that state and returns its result and the
  new state.  A buffer the method fills is passed in with its old contents and comes back with
  its new contents, also when the method reports failure.

  The contracts the comments of the header state are locales over these tables.  The protocol
  core is proved against the contracts; every bundled adapter that honours one interprets it in
  its own theory.
\<close>

section \<open>Transport\<close>

definition kPacketSize :: nat where "kPacketSize = 32"

record 't transport_vt =
  tp_receive :: "'t \<Rightarrow> u8 list \<Rightarrow> bool \<times> u8 list \<times> 't"
  tp_send :: "'t \<Rightarrow> u8 list \<Rightarrow> bool \<times> 't"
  tp_sendComplete :: "'t \<Rightarrow> bool \<times> 't"

text \<open>Synchronous adapters inherit \<open>Transport::sendComplete\<close>.\<close>

definition transport_sendComplete :: "'t \<Rightarrow> bool \<times> 't" where
  "transport_sendComplete t = (True, t)"

text \<open>The only law the core needs of a transport is that it fills the 32-byte packet it is given.\<close>

locale transport_contract =
  fixes tv :: "'t transport_vt"
  assumes receive_length:
    "tp_receive tv t pkt = (ok, pkt', t') \<Longrightarrow> length pkt = kPacketSize \<Longrightarrow> length pkt' = kPacketSize"

section \<open>Storage\<close>

record 's storage_vt =
  st_capacity :: "'s \<Rightarrow> nat"
  st_read :: "'s \<Rightarrow> nat \<Rightarrow> u8 list \<Rightarrow> bool \<times> u8 list \<times> 's"
  st_write :: "'s \<Rightarrow> nat \<Rightarrow> u8 list \<Rightarrow> bool \<times> 's"
  st_commit :: "'s \<Rightarrow> bool \<times> 's"
  st_erase :: "'s \<Rightarrow> bool \<times> 's"

text \<open>
  The contract of a byte store: \<open>view s\<close> is the content a \<open>read\<close> sees.  Accesses of at least
  one byte inside the capacity succeed; a write replaces exactly the addressed bytes; a commit
  leaves the content alone, whether or not it succeeds; an erase keeps the size.
\<close>

locale storage_contract =
  fixes vt :: "'s storage_vt" and sinv :: "'s \<Rightarrow> bool" and view :: "'s \<Rightarrow> u8 list"
  assumes capacity_view: "sinv s \<Longrightarrow> st_capacity vt s = length (view s)"
    and read_view: "sinv s \<Longrightarrow> buf \<noteq> [] \<Longrightarrow> off + length buf \<le> length (view s) \<Longrightarrow>
      st_read vt s off buf = (True, take (length buf) (drop off (view s)), s)"
    and write_view: "sinv s \<Longrightarrow> bs \<noteq> [] \<Longrightarrow> off + length bs \<le> length (view s) \<Longrightarrow>
      \<exists>s'. st_write vt s off bs = (True, s') \<and> sinv s' \<and> view s' = overwrite (view s) off bs"
    and commit_view: "sinv s \<Longrightarrow> st_commit vt s = (ok, s') \<Longrightarrow> sinv s' \<and> view s' = view s"
    and erase_view: "sinv s \<Longrightarrow> st_erase vt s = (ok, s') \<Longrightarrow>
      sinv s' \<and> length (view s') = length (view s)"

text \<open>
  ``Adapters claiming atomic commits must keep erase/write changes provisional until commit()
  selects the new durable record'' (comment of \<open>class Storage\<close>).  \<open>durable s\<close> is the content a
  power cycle in state \<open>s\<close> leaves behind.
\<close>

locale atomic_storage = storage_contract +
  fixes durable :: "'s \<Rightarrow> u8 list"
  assumes write_durable: "sinv s \<Longrightarrow> st_write vt s off bs = (ok, s') \<Longrightarrow> durable s' = durable s"
    and erase_durable: "sinv s \<Longrightarrow> st_erase vt s = (ok, s') \<Longrightarrow> durable s' = durable s"
    and read_durable: "sinv s \<Longrightarrow> st_read vt s off buf = (ok, out, s') \<Longrightarrow> durable s' = durable s"
    and commit_durable: "sinv s \<Longrightarrow> st_commit vt s = (ok, s') \<Longrightarrow>
      durable s' = (if ok then view s else durable s)"

text \<open>A sequence of writes that stops at the first one that fails, as the chains of
  \<open>if (!storage_->write(...)) return false;\<close> in the core do.\<close>

fun write_seq :: "'s storage_vt \<Rightarrow> 's \<Rightarrow> (nat \<times> u8 list) list \<Rightarrow> bool \<times> 's" where
  "write_seq vt s [] = (True, s)"
| "write_seq vt s ((off, bs) # ws) =
     (case st_write vt s off bs of
        (True, s') \<Rightarrow> write_seq vt s' ws
      | (False, s') \<Rightarrow> (False, s'))"

lemma write_seq_append:
  "write_seq vt s (ws @ ws') =
     (case write_seq vt s ws of (True, s') \<Rightarrow> write_seq vt s' ws' | (False, s') \<Rightarrow> (False, s'))"
  by (induction vt s ws rule: write_seq.induct) (auto split: prod.splits bool.splits)

text \<open>The content a successful sequence of writes leaves.\<close>

definition overwrites :: "u8 list \<Rightarrow> (nat \<times> u8 list) list \<Rightarrow> u8 list" where
  "overwrites xs ws = fold (\<lambda>(off, bs) ys. overwrite ys off bs) ws xs"

lemma overwrites_simps [simp]:
  "overwrites xs [] = xs" "overwrites xs ((off, bs) # ws) = overwrites (overwrite xs off bs) ws"
  by (simp_all add: overwrites_def)

lemma overwrites_append: "overwrites xs (ws @ ws') = overwrites (overwrites xs ws) ws'"
  by (simp add: overwrites_def)

context storage_contract
begin

lemma write_seq_view:
  assumes "sinv s"
    and "\<forall>(off, bs) \<in> set ws. bs \<noteq> [] \<and> off + length bs \<le> length (view s)"
  shows "\<exists>s'. write_seq vt s ws = (True, s') \<and> sinv s' \<and> view s' = overwrites (view s) ws"
  using assms
proof (induction ws arbitrary: s)
  case Nil
  then show ?case by simp
next
  case (Cons w ws)
  obtain off bs where w: "w = (off, bs)" by (cases w)
  have b: "bs \<noteq> []" "off + length bs \<le> length (view s)" using Cons.prems(2) w by auto
  obtain s1 where s1: "st_write vt s off bs = (True, s1)" "sinv s1" "view s1 = overwrite (view s) off bs"
    using write_view [OF Cons.prems(1) b] by blast
  have "length (view s1) = length (view s)" using b s1(3) by simp
  then have "\<forall>(off, bs) \<in> set ws. bs \<noteq> [] \<and> off + length bs \<le> length (view s1)"
    using Cons.prems(2) by auto
  from Cons.IH [OF s1(2) this] obtain s' where
    "write_seq vt s1 ws = (True, s')" "sinv s'" "view s' = overwrites (view s1) ws" by blast
  with w s1 show ?case by simp
qed

end

context atomic_storage
begin

lemma write_seq_durable:
  assumes "sinv s" and "\<forall>(off, bs) \<in> set ws. bs \<noteq> [] \<and> off + length bs \<le> length (view s)"
    and "write_seq vt s ws = (ok, s')"
  shows "durable s' = durable s"
  using assms
proof (induction ws arbitrary: s)
  case Nil
  then show ?case by simp
next
  case (Cons w ws)
  obtain off bs where w: "w = (off, bs)" by (cases w)
  have b: "bs \<noteq> []" "off + length bs \<le> length (view s)" using Cons.prems(2) w by auto
  obtain s1 where s1: "st_write vt s off bs = (True, s1)" "sinv s1" "view s1 = overwrite (view s) off bs"
    using write_view [OF Cons.prems(1) b] by blast
  have "length (view s1) = length (view s)" using b s1(3) by simp
  then have r: "\<forall>(off, bs) \<in> set ws. bs \<noteq> [] \<and> off + length bs \<le> length (view s1)"
    using Cons.prems(2) by auto
  have "write_seq vt s1 ws = (ok, s')" using Cons.prems(3) w s1(1) by simp
  with s1(2) r have "durable s' = durable s1" by (rule Cons.IH)
  also have "durable s1 = durable s" using write_durable Cons.prems(1) s1(1) by blast
  finally show ?case .
qed

end

section \<open>Custom values\<close>

record 'c custom_vt =
  cv_set :: "'c \<Rightarrow> u8 list \<Rightarrow> bool \<times> u8 list \<times> 'c"
  cv_get :: "'c \<Rightarrow> u8 list \<Rightarrow> bool \<times> u8 list \<times> 'c"
  cv_save :: "'c \<Rightarrow> u8 list \<Rightarrow> bool \<times> u8 list \<times> 'c"
  cv_reset :: "'c \<Rightarrow> 'c"
  cv_stateSize :: "'c \<Rightarrow> nat"
  cv_saveState :: "'c \<Rightarrow> u8 list \<Rightarrow> bool \<times> u8 list"
  cv_validateState :: "'c \<Rightarrow> u8 list \<Rightarrow> bool"
  cv_loadState :: "'c \<Rightarrow> u8 list \<Rightarrow> bool \<times> 'c"

text \<open>The methods a \<open>CustomValue\<close> inherits when it does not override them.\<close>

definition custom_save :: "'c \<Rightarrow> u8 list \<Rightarrow> bool \<times> u8 list \<times> 'c" where
  "custom_save c pkt = (pkt ! 1 = 0x02, pkt, c)"

definition custom_reset :: "'c \<Rightarrow> 'c" where "custom_reset c = c"

definition custom_stateSize :: "'c \<Rightarrow> nat" where "custom_stateSize c = 0"

definition custom_saveState :: "'c \<Rightarrow> u8 list \<Rightarrow> bool \<times> u8 list" where
  "custom_saveState c out = (True, out)"

definition custom_validateState :: "('c \<Rightarrow> nat) \<Rightarrow> 'c \<Rightarrow> u8 list \<Rightarrow> bool" where
  "custom_validateState stateSize c bs \<longleftrightarrow> length bs = stateSize c"

definition custom_loadState :: "'c \<Rightarrow> u8 list \<Rightarrow> bool \<times> 'c" where
  "custom_loadState c bs = (True, c)"

text \<open>
  The contract of \<open>CustomValue\<close>: packets keep their size, the size of the persisted state is
  fixed, and ``returning true [from validateState] guarantees that loadState() succeeds''.
\<close>

locale custom_contract =
  fixes cv :: "'c custom_vt" and cinv :: "'c \<Rightarrow> bool" and csize :: nat
  assumes stateSize_csize: "cinv c \<Longrightarrow> cv_stateSize cv c = csize"
    and set_packet: "cinv c \<Longrightarrow> length pkt = kPacketSize \<Longrightarrow> cv_set cv c pkt = (ok, pkt', c') \<Longrightarrow>
      cinv c' \<and> length pkt' = kPacketSize"
    and get_packet: "cinv c \<Longrightarrow> length pkt = kPacketSize \<Longrightarrow> cv_get cv c pkt = (ok, pkt', c') \<Longrightarrow>
      cinv c' \<and> length pkt' = kPacketSize"
    and save_packet: "cinv c \<Longrightarrow> length pkt = kPacketSize \<Longrightarrow> cv_save cv c pkt = (ok, pkt', c') \<Longrightarrow>
      cinv c' \<and> length pkt' = kPacketSize"
    and reset_inv: "cinv c \<Longrightarrow> cinv (cv_reset cv c)"
    and saveState_length: "cinv c \<Longrightarrow> cv_saveState cv c out = (ok, bs) \<Longrightarrow> length bs = length out"
    and validate_load: "cinv c \<Longrightarrow> length bs = csize \<Longrightarrow> cv_validateState cv c bs \<Longrightarrow>
      \<exists>c'. cv_loadState cv c bs = (True, c')"
    and load_inv: "cinv c \<Longrightarrow> cv_loadState cv c bs = (ok, c') \<Longrightarrow> cinv c'"

text \<open>A custom value whose saved bytes restore, in any instance, what is visible (\<open>cview\<close>) of
  the state they were saved from.\<close>

locale custom_persistent = custom_contract +
  fixes cview :: "'c \<Rightarrow> 'v"
  assumes save_validates: "cinv c \<Longrightarrow> cinv e \<Longrightarrow> length out = csize \<Longrightarrow>
      cv_saveState cv c out = (True, bs) \<Longrightarrow> cv_validateState cv e bs"
    and save_load: "cinv c \<Longrightarrow> cinv e \<Longrightarrow> length out = csize \<Longrightarrow>
      cv_saveState cv c out = (True, bs) \<Longrightarrow> cv_loadState cv e bs = (ok, e') \<Longrightarrow> cview e' = cview c"

section \<open>Callbacks\<close>

text \<open>The void callbacks of \<open>class Callbacks\<close>, as the events the core emits in order.
  \<open>matrixRow\<close> returns a value and is a parameter of the protocol.\<close>

datatype callback =
    DeviceIndication u8
  | LayoutOptionsChanged u32
  | Changed
  | BootloaderJump

end
