(* ===== verification/Crc.thy ===== *)
theory Crc
  imports Prelude
begin

text \<open>
  The reflected CRC-32 (polynomial 0xEDB88320), which the code writes three times: \<open>crc32Update\<close>
  of \<open>src/VIA_Protocol.cpp\<close>, \<open>FlashStorage::crc32\<close> of \<open>src/VIA_STM32F1_Flash.cpp\<close> and
  \<open>crc32\<close> of \<open>src/VIA_nRF52_InternalFS.cpp\<close>.  The lemmas relate the three and show what the
  check detects.
\<close>

section \<open>The three routines\<close>

text \<open>One iteration of the bit loop of \<open>crc32Update\<close>, with its mask \<open>-(int32_t)(crc & 1U)\<close>.\<close>

definition crc32Update_bit :: "u32 \<Rightarrow> u32" where
  "crc32Update_bit crc = drop_bit 1 crc XOR (0xEDB88320 AND (- (crc AND 1)))"

definition crc32Update :: "u32 \<Rightarrow> u8 \<Rightarrow> u32" where
  "crc32Update crc value = (crc32Update_bit ^^ 8) (crc XOR ucast value)"

text \<open>The loops of the core that feed bytes to \<open>crc32Update\<close>.\<close>

definition crc32_bytes :: "u32 \<Rightarrow> u8 list \<Rightarrow> u32" where
  "crc32_bytes crc bs = foldl crc32Update crc bs"

definition flash_crc32_bit :: "u32 \<Rightarrow> u32" where
  "flash_crc32_bit crc =
     (if crc AND 1 \<noteq> 0 then 0xEDB88320 XOR drop_bit 1 crc else drop_bit 1 crc)"

definition flash_crc32 :: "u8 list \<Rightarrow> u32" where
  "flash_crc32 bs =
     foldl (\<lambda>crc v. (flash_crc32_bit ^^ 8) (crc XOR ucast v)) 0xFFFFFFFF bs XOR 0xFFFFFFFF"

definition nrf52_crc32_bit :: "u32 \<Rightarrow> u32" where
  "nrf52_crc32_bit crc =
     (if crc AND 1 \<noteq> 0 then drop_bit 1 crc XOR 0xEDB88320 else drop_bit 1 crc)"

definition nrf52_crc32 :: "u8 list \<Rightarrow> u32 \<Rightarrow> u32" where
  "nrf52_crc32 bs crc = foldl (\<lambda>crc v. (nrf52_crc32_bit ^^ 8) (crc XOR ucast v)) crc bs"

section \<open>They compute the same function\<close>

lemma crc32Update_bit_if:
  "crc32Update_bit crc = (if odd crc then drop_bit 1 crc XOR 0xEDB88320 else drop_bit 1 crc)"
  by (simp add: crc32Update_bit_def and_one_eq odd_iff_mod_2_eq_one)

lemma flash_crc32_bit_eq: "flash_crc32_bit = crc32Update_bit"
  by (rule ext) (simp add: crc32Update_bit_if flash_crc32_bit_def and_one_eq odd_iff_mod_2_eq_one
      xor.commute)

lemma nrf52_crc32_bit_eq: "nrf52_crc32_bit = crc32Update_bit"
  by (rule ext) (simp add: crc32Update_bit_if nrf52_crc32_bit_def and_one_eq odd_iff_mod_2_eq_one)

lemma nrf52_crc32_eq: "nrf52_crc32 bs crc = crc32_bytes crc bs"
  by (simp add: nrf52_crc32_def crc32_bytes_def nrf52_crc32_bit_eq crc32Update_def [abs_def])

lemma flash_crc32_eq: "flash_crc32 bs = NOT (crc32_bytes 0xFFFFFFFF bs)"
proof -
  have "(0xFFFFFFFF :: u32) = - 1" by simp
  then have "x XOR 0xFFFFFFFF = NOT x" for x :: u32 by (metis bit.xor_one_right)
  then show ?thesis
    by (simp add: flash_crc32_def crc32_bytes_def flash_crc32_bit_eq crc32Update_def [abs_def])
qed

lemma crc32_bytes_append: "crc32_bytes crc (xs @ ys) = crc32_bytes (crc32_bytes crc xs) ys"
  by (simp add: crc32_bytes_def)

lemma crc32_bytes_simps [simp]:
  "crc32_bytes crc [] = crc" "crc32_bytes crc (v # vs) = crc32_bytes (crc32Update crc v) vs"
  by (simp_all add: crc32_bytes_def)

section \<open>Injectivity and linearity\<close>

lemma crc32Update_bit_top: "bit (crc32Update_bit crc) 31 = odd crc"
proof -
  have "\<not> bit crc 32" using bit_imp_le_length [of crc 32] by auto
  then show ?thesis by (simp add: crc32Update_bit_if bit_simps)
qed

lemma xor_cancel_right: "x XOR c = y XOR c \<longleftrightarrow> x = y" for x y c :: "'a::len word"
  by (metis xor.assoc xor.right_neutral xor_self_eq)

lemma xor_cancel_left: "c XOR x = c XOR y \<longleftrightarrow> x = y" for x y c :: "'a::len word"
  by (simp add: xor.commute [of c] xor_cancel_right)

lemma crc32Update_bit_xor:
  "crc32Update_bit (a XOR b) = crc32Update_bit a XOR crc32Update_bit b"
  by (rule bit_word_eqI) (auto simp: crc32Update_bit_if bit_simps even_xor_iff)

lemma crc32Update_bit_inj: "inj crc32Update_bit"
proof (rule injI)
  fix x y assume eq: "crc32Update_bit x = crc32Update_bit y"
  then have low: "odd x = odd y" by (metis crc32Update_bit_top)
  with eq have d: "drop_bit 1 x = drop_bit 1 y"
    by (cases "odd x") (auto simp: crc32Update_bit_if xor_cancel_right)
  show "x = y"
  proof (rule bit_word_eqI)
    fix n assume "n < LENGTH(32)"
    show "bit x n = bit y n"
    proof (cases n)
      case 0
      with low show ?thesis by (simp add: bit_0)
    next
      case (Suc m)
      from d have "bit (drop_bit 1 x) m = bit (drop_bit 1 y) m" by simp
      with Suc show ?thesis by (simp add: bit_drop_bit_eq)
    qed
  qed
qed

lemma crc_shift_inj: "(crc32Update_bit ^^ n) x = (crc32Update_bit ^^ n) y \<longleftrightarrow> x = y"
  by (induction n) (auto simp: inj_eq [OF crc32Update_bit_inj])

lemma crc_shift_xor:
  "(crc32Update_bit ^^ n) (a XOR b) = (crc32Update_bit ^^ n) a XOR (crc32Update_bit ^^ n) b"
  by (induction n) (simp_all add: crc32Update_bit_xor)

text \<open>Shifting in zeros moves the register down: the feedback acts on set low bits only.\<close>

lemma crc_shift_push:
  assumes "\<And>n. 32 - k \<le> n \<Longrightarrow> \<not> bit y n" and "k \<le> 32"
  shows "(crc32Update_bit ^^ k) (push_bit k y) = y"
  using assms
proof (induction k)
  case 0
  then show ?case by simp
next
  case (Suc k)
  have "crc32Update_bit (push_bit (Suc k) y) = drop_bit 1 (push_bit (Suc k) y)"
    by (simp add: crc32Update_bit_if)
  also have "\<dots> = push_bit k y"
  proof (rule bit_word_eqI)
    fix n assume n: "n < LENGTH(32)"
    have "n < 31" if "bit y (n - k)" "k \<le> n"
      using Suc.prems(1) [of "n - k"] that n by (cases "n = 31") auto
    with n show "bit (drop_bit 1 (push_bit (Suc k) y)) n = bit (push_bit k y) n"
      by (auto simp: bit_simps simp del: push_bit_Suc)
  qed
  finally have "(crc32Update_bit ^^ Suc k) (push_bit (Suc k) y) = (crc32Update_bit ^^ k) (push_bit k y)"
    by (simp add: funpow_swap1)
  also have "\<dots> = y" by (rule Suc.IH) (use Suc.prems in auto)
  finally show ?case .
qed

lemma ucast_ucast_8_32: "ucast (ucast v :: u32) = (v :: u8)"
  by (rule bit_word_eqI) (simp add: bit_simps)

lemma crc32Update_eq: "crc32Update crc v = crc32Update crc w \<longleftrightarrow> v = w"
proof -
  have "ucast v = (ucast w :: u32) \<longleftrightarrow> v = w"
    by (metis ucast_ucast_8_32)
  then show ?thesis by (simp add: crc32Update_def crc_shift_inj xor_cancel_left)
qed

lemma crc32_bytes_inj: "crc32_bytes x bs = crc32_bytes y bs \<longleftrightarrow> x = y"
  by (induction bs arbitrary: x y)
     (auto simp: crc32Update_def crc_shift_inj xor_cancel_right)

text \<open>Four bytes at once: the register absorbs them as one little-endian word.\<close>

lemma crc32_bytes_word:
  "crc32_bytes crc [a, b, c, d] = (crc32Update_bit ^^ 32) (crc XOR of_le32 [a, b, c, d])"
proof -
  let ?T = "\<lambda>n. crc32Update_bit ^^ n"
  have high: "\<not> bit (ucast (v :: u8) :: u32) n" if "8 \<le> n" for v n
    using that by (auto simp: bit_simps dest: bit_imp_le_length)
  have sh: "?T k (push_bit k (ucast v)) = (ucast v :: u32)" if "k \<le> 24" for k and v :: u8
    using that by (intro crc_shift_push high) auto
  have add: "?T k x XOR ucast v = ?T k (x XOR push_bit k (ucast v))" if "k \<le> 24" for k x and v :: u8
    using sh [OF that] by (simp add: crc_shift_xor)
  have step: "?T 8 (?T k x) = ?T (8 + k) x" for k x
    by (simp add: funpow_add)
  have "of_le32 [a, b, c, d] =
    ucast a XOR push_bit 8 (ucast b) XOR push_bit 16 (ucast c) XOR push_bit 24 (ucast d)"
    by (rule bit_word_eqI) (auto simp: of_le32_def bit_simps dest: bit_imp_le_length)
  then show ?thesis
    by (simp add: crc32Update_def add step xor.assoc)
qed

section \<open>What the check detects\<close>

lemma crc32_bytes_word_inj:
  assumes "length w = 4" and "length w' = 4" and "crc32_bytes crc w = crc32_bytes crc w'"
  shows "w = w'"
proof -
  obtain a b c d where w: "w = [a, b, c, d]" using assms(1) by (rule length_4_cases)
  obtain a' b' c' d' where w': "w' = [a', b', c', d']" using assms(2) by (rule length_4_cases)
  from assms(3) have "of_le32 [a, b, c, d] = of_le32 [a', b', c', d']"
    by (simp only: w w' crc32_bytes_word crc_shift_inj xor_cancel_left)
  then have "le32 (of_le32 [a, b, c, d]) = le32 (of_le32 [a', b', c', d'])" by simp
  then show ?thesis by (simp add: w w' enc)
qed

lemma crc32_bytes_burst:
  assumes len: "length w = length w'" "length w \<le> 4"
    and eq: "crc32_bytes crc (pre @ w @ post) = crc32_bytes crc (pre @ w' @ post)"
  shows "w = w'"
proof -
  let ?z = "replicate (4 - length w) (0 :: u8)"
  from eq have "crc32_bytes (crc32_bytes crc pre) w = crc32_bytes (crc32_bytes crc pre) w'"
    by (simp add: crc32_bytes_append crc32_bytes_inj)
  then have "crc32_bytes (crc32_bytes crc pre) (w @ ?z) = crc32_bytes (crc32_bytes crc pre) (w' @ ?z)"
    by (simp add: crc32_bytes_append)
  then have "w @ ?z = w' @ ?z"
    by (rule crc32_bytes_word_inj [rotated 2]) (use len in auto)
  then show ?thesis by simp
qed

text \<open>Steps for the evaluation of the CRC of a given list.\<close>

lemma crc32Update_steps:
  "crc32Update crc v = crc32Update_bit (crc32Update_bit (crc32Update_bit (crc32Update_bit (crc32Update_bit
     (crc32Update_bit (crc32Update_bit (crc32Update_bit (crc XOR ucast v))))))))"
  by (simp add: crc32Update_def numeral_eq_Suc)

end
