(* ===== verification/Protocol.thy ===== *)
theory Protocol
  imports Interfaces Crc
begin

text \<open>
  The data and the helper functions of the VIA protocol core, \<open>class Protocol\<close> of
  \<open>src/VIA_Protocol.h\<close> and \<open>src/VIA_Protocol.cpp\<close>: configuration, state, constructor, size
  computations, overlap check, keymap and encoder-map accessors, dynamic keymap buffer and dirty
  tracking.  Persistence is in \<open>Persist\<close>, the command dispatcher and the main-loop task are in
  \<open>Dispatch\<close>.

  The configuration holds addresses (0 is \<open>nullptr\<close>); the arrays at these addresses are fields
  of the protocol state.  Keeping them apart assumes that the arrays do not overlap.  For the load
  buffer the code checks this itself (\<open>loadBufferValid\<close>, lemma \<open>rangesOverlap_iff\<close>); for
  the keymap, encoder map and macro buffers it relies on the caller.
\<close>

section \<open>Configuration and state\<close>

record config =
  cfg_rows :: u8
  cfg_columns :: u8
  cfg_layers :: u8
  cfg_keymap :: u32
  cfg_defaultKeymap :: u32
  cfg_macros :: u32
  cfg_macroBytes :: u16
  cfg_macroCount :: u8
  cfg_firmwareVersion :: u32
  cfg_autoSaveMs :: u32
  cfg_defaultLayoutOptions :: u32
  cfg_encoderCount :: u8
  cfg_encoderMap :: u32
  cfg_defaultEncoderMap :: u32
  cfg_loadBuffer :: u32
  cfg_loadBufferBytes :: u16
  cfg_matrixStateEnabled :: bool
  cfg_eepromResetEnabled :: bool
  cfg_bootloaderEnabled :: bool

record ('s, 'c, 't) protocol =
  p_config :: config
  p_keymap :: "u16 list"
  p_defaultKeymap :: "u16 list"
  p_encoderMap :: "u16 list"
  p_defaultEncoderMap :: "u16 list"
  p_macros :: "u8 list"
  p_loadBuffer :: "u8 list"
  p_transport :: 't
  p_storage :: "'s option"
  p_customValue :: "'c option"
  p_callbacks :: bool
  p_calls :: "callback list"
  p_dirty :: bool
  p_saveAt :: u32
  p_layoutOptions :: u32
  p_pendingResponse :: "u8 list"
  p_responsePending :: bool
  p_bootloaderPending :: bool

text \<open>The dynamic types of the collaborators, the row callback of the matrix tester, and the bytes
  an uninitialised local array happens to hold.\<close>

record ('s, 'c, 't) deps =
  d_storage :: "'s storage_vt"
  d_custom :: "'c custom_vt"
  d_transport :: "'t transport_vt"
  d_matrixRow :: "u8 \<Rightarrow> u32"
  d_uninit :: "nat \<Rightarrow> u8"

definition uninit :: "('s, 'c, 't) deps \<Rightarrow> nat \<Rightarrow> u8 list" where
  "uninit d n = map (d_uninit d) [0..<n]"

lemma length_uninit [simp]: "length (uninit d n) = n"
  by (simp add: uninit_def)

text \<open>The arrays the configuration points to, and the packet the caller's buffer holds, are
  arguments of the constructor model; \<open>junk\<close> is the uninitialised \<open>p_pendingResponse\<close>.\<close>

definition protocol_new ::
  "config \<Rightarrow> u16 list \<Rightarrow> u16 list \<Rightarrow> u16 list \<Rightarrow> u16 list \<Rightarrow> u8 list \<Rightarrow> u8 list \<Rightarrow> u8 list \<Rightarrow>
   't \<Rightarrow> 's option \<Rightarrow> 'c option \<Rightarrow> bool \<Rightarrow> ('s, 'c, 't) protocol" where
  "protocol_new cfg km dkm em dem ma lb junk t s c cb =
     \<lparr>p_config = cfg, p_keymap = km, p_defaultKeymap = dkm, p_encoderMap = em,
      p_defaultEncoderMap = dem, p_macros = ma, p_loadBuffer = lb, p_transport = t,
      p_storage = s, p_customValue = c, p_callbacks = cb, p_calls = [], p_dirty = False, p_saveAt = 0,
      p_layoutOptions = cfg_defaultLayoutOptions cfg, p_pendingResponse = junk,
      p_responsePending = False, p_bootloaderPending = False\<rparr>"

definition emit :: "callback \<Rightarrow> ('s, 'c, 't) protocol \<Rightarrow> ('s, 'c, 't) protocol" where
  "emit e p = (if p_callbacks p then p\<lparr>p_calls := p_calls p @ [e]\<rparr> else p)"

section \<open>Sizes\<close>

definition kStateMagic :: u32 where "kStateMagic = 0x56494141"
definition kStateVersion :: u16 where "kStateVersion = 2"
definition kHeaderSize :: nat where "kHeaderSize = 12"
definition kMaxCustomStateSize :: nat where "kMaxCustomStateSize = 16"

definition keyCount :: "config \<Rightarrow> nat" where
  "keyCount c = unat (ucast (cfg_rows c) * ucast (cfg_columns c) * ucast (cfg_layers c) :: u32)"

definition keymapBytes :: "config \<Rightarrow> nat" where
  "keymapBytes c = keyCount c * 2"

definition encoderMapBytes :: "config \<Rightarrow> nat" where
  "encoderMapBytes c =
     unat (ucast (cfg_layers c) * ucast (cfg_encoderCount c) * 2 * 2 :: u32)"

text \<open>\<open>stateBytes\<close> computes in \<open>uint32_t\<close>; its two output parameters are the result.\<close>

definition stateBytes :: "('s, 'c, 't) deps \<Rightarrow> ('s, 'c, 't) protocol \<Rightarrow> (nat \<times> nat) option" where
  "stateBytes d p =
     (let c = p_config p;
          customBytes = (case p_customValue p of Some cv \<Rightarrow> cv_stateSize (d_custom d) cv | None \<Rightarrow> 0)
      in if customBytes > kMaxCustomStateSize then None
         else let keymap = ucast (cfg_rows c) * ucast (cfg_columns c) * ucast (cfg_layers c) * 2 :: u32;
                  encoders = ucast (cfg_layers c) * ucast (cfg_encoderCount c) * 2 * 2 :: u32;
                  total = keymap + encoders + ucast (cfg_macroBytes c) + 4 + of_nat customBytes;
                  rec = total + 12
              in if rec > 65535 then None else Some (unat total, customBytes))"

definition requiredLoadBufferSize :: "('s, 'c, 't) deps \<Rightarrow> ('s, 'c, 't) protocol \<Rightarrow> nat" where
  "requiredLoadBufferSize d p = (case stateBytes d p of Some (bytes, _) \<Rightarrow> bytes | None \<Rightarrow> 0)"

definition rangesOverlap :: "u32 \<Rightarrow> u32 \<Rightarrow> u32 \<Rightarrow> u32 \<Rightarrow> bool" where
  "rangesOverlap firstStart firstBytes secondStart secondBytes =
     (if firstBytes = 0 \<or> secondBytes = 0 then False
      else if firstStart \<le> secondStart then secondStart - firstStart < firstBytes
      else firstStart - secondStart < secondBytes)"

definition loadBufferValid :: "config \<Rightarrow> nat \<Rightarrow> bool" where
  "loadBufferValid c bytes =
     (if cfg_loadBuffer c = 0 \<or> unat (cfg_loadBufferBytes c) < bytes then False
      else \<not> rangesOverlap (cfg_loadBuffer c) (of_nat bytes) (cfg_keymap c) (of_nat (keymapBytes c)) \<and>
           \<not> rangesOverlap (cfg_loadBuffer c) (of_nat bytes) (cfg_defaultKeymap c) (of_nat (keymapBytes c)) \<and>
           \<not> rangesOverlap (cfg_loadBuffer c) (of_nat bytes) (cfg_encoderMap c) (of_nat (encoderMapBytes c)) \<and>
           \<not> rangesOverlap (cfg_loadBuffer c) (of_nat bytes) (cfg_defaultEncoderMap c) (of_nat (encoderMapBytes c)) \<and>
           \<not> rangesOverlap (cfg_loadBuffer c) (of_nat bytes) (cfg_macros c) (ucast (cfg_macroBytes c)))"

text \<open>The 32-bit arithmetic above never wraps, so the sizes are the mathematical ones.\<close>

lemma unat_mul3: 
  "unat (ucast (x :: u8) * ucast (y :: u8) * ucast (z :: u8) :: u32) = unat x * unat y * unat z"
  using mult_u8_2 [of x y] mult_u8_3 [of x y z] by (simp add: unat_u32_mult)

lemma keyCount_nat: "keyCount c = unat (cfg_rows c) * unat (cfg_columns c) * unat (cfg_layers c)"
  by (simp add: keyCount_def unat_mul3)

lemma keyCount_le: "keyCount c \<le> 16581375"
  unfolding keyCount_nat by (rule mult_u8_3)

lemma encoderMapBytes_nat:
  "encoderMapBytes c = unat (cfg_layers c) * unat (cfg_encoderCount c) * 4"
proof -
  let ?e = "ucast (cfg_layers c) * ucast (cfg_encoderCount c) :: u32"
  have e: "unat ?e = unat (cfg_layers c) * unat (cfg_encoderCount c)" "unat ?e \<le> 65025"
    using mult_u8_2 [of "cfg_layers c" "cfg_encoderCount c"] by (simp_all add: unat_u32_mult)
  obtain n where n: "unat ?e = n" "n \<le> 65025" using e(2) by blast
  then have n2: "unat (?e * 2) = n * 2" by (simp add: unat_u32_mult)
  with n(2) have "unat (?e * 2 * 2) = unat ?e * 4" by (simp add: unat_u32_mult n(1))
  with e(1) show ?thesis by (simp only: encoderMapBytes_def)
qed

lemma encoderMapBytes_le: "encoderMapBytes c \<le> 260100"
  using mult_u8_2 [of "cfg_layers c" "cfg_encoderCount c"] unfolding encoderMapBytes_nat by linarith

definition custom_bytes :: "('s, 'c, 't) deps \<Rightarrow> ('s, 'c, 't) protocol \<Rightarrow> nat" where
  "custom_bytes d p = (case p_customValue p of Some cv \<Rightarrow> cv_stateSize (d_custom d) cv | None \<Rightarrow> 0)"

definition payloadSize :: "config \<Rightarrow> nat \<Rightarrow> nat" where
  "payloadSize c n = keymapBytes c + encoderMapBytes c + unat (cfg_macroBytes c) + 4 + n"

lemma stateBytes_iff:
  "stateBytes d p = Some (bytes, n) \<longleftrightarrow>
     n = custom_bytes d p \<and> n \<le> kMaxCustomStateSize \<and> bytes = payloadSize (p_config p) n \<and>
     bytes + kHeaderSize \<le> 65535"
proof -
  let ?c = "p_config p"
  let ?n = "custom_bytes d p"
  let ?km = "ucast (cfg_rows ?c) * ucast (cfg_columns ?c) * ucast (cfg_layers ?c) * 2 :: u32"
  let ?em = "ucast (cfg_layers ?c) * ucast (cfg_encoderCount ?c) * 2 * 2 :: u32"
  have km: "unat ?km = keymapBytes ?c" "keymapBytes ?c \<le> 33162750"
    using keyCount_le [of ?c] by (simp_all add: keymapBytes_def keyCount_def unat_u32_mult)
  have em: "unat ?em = encoderMapBytes ?c" "encoderMapBytes ?c \<le> 260100"
    by (simp_all only: encoderMapBytes_def [symmetric] encoderMapBytes_le)
  show ?thesis
  proof (cases "?n \<le> kMaxCustomStateSize")
    case True
    let ?t = "?km + ?em + ucast (cfg_macroBytes ?c) + 4 + of_nat ?n :: u32"
    have t: "unat ?t = payloadSize ?c ?n" "unat (?t + 12) = payloadSize ?c ?n + 12"
      using km em unat_u16_less [of "cfg_macroBytes ?c"] True
      by (simp_all add: unat_word_ariths payloadSize_def kMaxCustomStateSize_def
          unat_of_nat del: unat_u16_less)
    then have "(?t + 12 > 65535) = (payloadSize ?c ?n + 12 > 65535)"
      by (simp add: word_less_nat_alt)
    with True t(1) show ?thesis
      by (auto simp: stateBytes_def Let_def custom_bytes_def [symmetric] kHeaderSize_def)
  next
    case False
    then show ?thesis by (auto simp: stateBytes_def Let_def custom_bytes_def [symmetric])
  qed
qed

lemma rangesOverlap_iff:
  assumes "unat a + unat n \<le> 2 ^ 32" and "unat b + unat m \<le> 2 ^ 32"
  shows "rangesOverlap a n b m \<longleftrightarrow>
    {unat a..<unat a + unat n} \<inter> {unat b..<unat b + unat m} \<noteq> {}"
proof -
  have "{unat a..<unat a + unat n} \<inter> {unat b..<unat b + unat m} \<noteq> {} \<longleftrightarrow>
    0 < unat n \<and> 0 < unat m \<and> unat a < unat b + unat m \<and> unat b < unat a + unat n"
    by (auto simp: Int_atLeastLessThan max_def min_def)
  moreover have "unat (b - a) = unat b - unat a" if "a \<le> b"
    using that by (rule unat_sub)
  moreover have "unat (a - b) = unat a - unat b" if "\<not> a \<le> b"
    using that by (intro unat_sub) simp
  moreover have "0 < unat n \<longleftrightarrow> n \<noteq> 0" "0 < unat m \<longleftrightarrow> m \<noteq> 0"
    by (simp_all add: unat_gt_0)
  ultimately show ?thesis
    by (auto simp: rangesOverlap_def word_less_nat_alt word_le_nat_alt)
qed
section \<open>Keymap, encoder map, dirty tracking\<close>

definition keyIndex :: "config \<Rightarrow> u8 \<Rightarrow> u8 \<Rightarrow> u8 \<Rightarrow> nat" where
  "keyIndex c layer row column =
     (unat layer * unat (cfg_rows c) + unat row) * unat (cfg_columns c) + unat column"

definition keycode :: "('s, 'c, 't) protocol \<Rightarrow> u8 \<Rightarrow> u8 \<Rightarrow> u8 \<Rightarrow> u16 option" where
  "keycode p layer row column =
     (let c = p_config p in
      if cfg_layers c \<le> layer \<or> cfg_rows c \<le> row \<or> cfg_columns c \<le> column then Some 0
      else arr_get (p_keymap p) (keyIndex c layer row column))"

definition setKeycode ::
  "('s, 'c, 't) protocol \<Rightarrow> u8 \<Rightarrow> u8 \<Rightarrow> u8 \<Rightarrow> u16 \<Rightarrow> (bool \<times> ('s, 'c, 't) protocol) option" where
  "setKeycode p layer row column value =
     (let c = p_config p in
      if cfg_layers c \<le> layer \<or> cfg_rows c \<le> row \<or> cfg_columns c \<le> column then Some (False, p)
      else do {
        km \<leftarrow> arr_set (p_keymap p) (keyIndex c layer row column) value;
        Some (True, p\<lparr>p_keymap := km\<rparr>)
      })"

definition encoderIndex :: "config \<Rightarrow> u8 \<Rightarrow> u8 \<Rightarrow> u8 \<Rightarrow> nat" where
  "encoderIndex c layer encoder clockwise =
     (unat layer * unat (cfg_encoderCount c) + unat encoder) * 2 + unat clockwise"

definition encoderKeycode :: "('s, 'c, 't) protocol \<Rightarrow> u8 \<Rightarrow> u8 \<Rightarrow> u8 \<Rightarrow> u16 option" where
  "encoderKeycode p layer encoder clockwise =
     (let c = p_config p in
      if cfg_layers c \<le> layer \<or> cfg_encoderCount c \<le> encoder \<or> clockwise > 1 then Some 0
      else arr_get (p_encoderMap p) (encoderIndex c layer encoder clockwise))"

definition setEncoderKeycode ::
  "('s, 'c, 't) protocol \<Rightarrow> u8 \<Rightarrow> u8 \<Rightarrow> u8 \<Rightarrow> u16 \<Rightarrow> (bool \<times> ('s, 'c, 't) protocol) option" where
  "setEncoderKeycode p layer encoder clockwise value =
     (let c = p_config p in
      if cfg_layers c \<le> layer \<or> cfg_encoderCount c \<le> encoder \<or> clockwise > 1 then Some (False, p)
      else do {
        em \<leftarrow> arr_set (p_encoderMap p) (encoderIndex c layer encoder clockwise) value;
        Some (True, p\<lparr>p_encoderMap := em\<rparr>)
      })"

definition markDirty :: "('s, 'c, 't) protocol \<Rightarrow> u32 \<Rightarrow> ('s, 'c, 't) protocol" where
  "markDirty p nowMs =
     emit Changed (p\<lparr>p_dirty := True, p_saveAt := nowMs + cfg_autoSaveMs (p_config p)\<rparr>)"

text \<open>The dynamic keymap buffer: byte \<open>2 * k\<close> of the view is the high byte of key \<open>k\<close>.\<close>

definition readDynamicKeymap ::
  "('s, 'c, 't) protocol \<Rightarrow> u16 \<Rightarrow> nat \<Rightarrow> nat \<Rightarrow> u8 list \<Rightarrow> u8 list option" where
  "readDynamicKeymap p offset sz at pkt =
     for_up 0 sz (\<lambda>i out.
       let index = unat offset + i in
       if index \<ge> keymapBytes (p_config p) then arr_set out (at + i) 0
       else do {
         kc \<leftarrow> arr_get (p_keymap p) (index div 2);
         arr_set out (at + i) (if odd index then lo8 kc else hi8 kc)
       }) pkt"

definition writeDynamicKeymap ::
  "('s, 'c, 't) protocol \<Rightarrow> u16 \<Rightarrow> nat \<Rightarrow> nat \<Rightarrow> u8 list \<Rightarrow> u32 \<Rightarrow> ('s, 'c, 't) protocol option" where
  "writeDynamicKeymap p offset sz at pkt nowMs = do {
     (km, wrote) \<leftarrow> for_up 0 sz (\<lambda>i (km, wrote).
       let index = unat offset + i in
       if index \<ge> keymapBytes (p_config p) then Some (km, wrote)
       else do {
         kc \<leftarrow> arr_get km (index div 2);
         v \<leftarrow> arr_get pkt (at + i);
         km' \<leftarrow> arr_set km (index div 2)
           (if odd index then (kc AND 0xFF00) OR ucast v
            else (kc AND 0x00FF) OR push_bit 8 (ucast v));
         Some (km', True)
       }) (p_keymap p, False);
     let p' = p\<lparr>p_keymap := km\<rparr>;
     Some (if wrote then markDirty p' nowMs else p')
   }"

section \<open>Well-formed configurations\<close>

text \<open>What the caller owes the constructor: the arrays have the sizes the configuration states.\<close>

definition wf_protocol :: "('s, 'c, 't) protocol \<Rightarrow> bool" where
  "wf_protocol p \<longleftrightarrow>
     length (p_keymap p) = keyCount (p_config p) \<and>
     length (p_defaultKeymap p) = keyCount (p_config p) \<and>
     2 * length (p_encoderMap p) = encoderMapBytes (p_config p) \<and>
     2 * length (p_defaultEncoderMap p) = encoderMapBytes (p_config p) \<and>
     length (p_macros p) = unat (cfg_macroBytes (p_config p)) \<and>
     length (p_loadBuffer p) = unat (cfg_loadBufferBytes (p_config p)) \<and>
     length (p_pendingResponse p) = kPacketSize"

section \<open>Accessors\<close>

lemma keyIndex_less:
  assumes "layer < cfg_layers c" "row < cfg_rows c" "column < cfg_columns c"
  shows "keyIndex c layer row column < keyCount c"
proof -
  have "unat layer * unat (cfg_rows c) + unat row < unat (cfg_layers c) * unat (cfg_rows c)"
    using assms by (intro radix_less) (simp_all add: word_less_nat_alt)
  then have "keyIndex c layer row column <
      (unat (cfg_layers c) * unat (cfg_rows c)) * unat (cfg_columns c)"
    unfolding keyIndex_def using assms by (intro radix_less) (simp_all add: word_less_nat_alt)
  then show ?thesis by (simp add: keyCount_nat ac_simps)
qed

lemma keyIndex_inj:
  assumes "row < cfg_rows c" "column < cfg_columns c" "row' < cfg_rows c" "column' < cfg_columns c"
  shows "keyIndex c layer row column = keyIndex c layer' row' column' \<longleftrightarrow>
    layer = layer' \<and> row = row' \<and> column = column'"
  using assms by (simp add: keyIndex_def radix_inj word_less_nat_alt word_unat_eq_iff)

lemma encoderIndex_less:
  assumes "layer < cfg_layers c" "encoder < cfg_encoderCount c" "clockwise \<le> 1"
  shows "2 * encoderIndex c layer encoder clockwise < encoderMapBytes c"
proof -
  have "unat layer * unat (cfg_encoderCount c) + unat encoder <
      unat (cfg_layers c) * unat (cfg_encoderCount c)"
    using assms by (intro radix_less) (simp_all add: word_less_nat_alt)
  moreover have "unat clockwise < 2" using assms by (simp add: word_le_nat_alt)
  ultimately have "encoderIndex c layer encoder clockwise <
      (unat (cfg_layers c) * unat (cfg_encoderCount c)) * 2"
    unfolding encoderIndex_def by (rule radix_less)
  then show ?thesis by (simp add: encoderMapBytes_nat ac_simps)
qed

lemma encoderIndex_inj:
  assumes "encoder < cfg_encoderCount c" "clockwise \<le> 1" "encoder' < cfg_encoderCount c" "clockwise' \<le> 1"
  shows "encoderIndex c layer encoder clockwise = encoderIndex c layer' encoder' clockwise' \<longleftrightarrow>
    layer = layer' \<and> encoder = encoder' \<and> clockwise = clockwise'"
proof -
  have "unat clockwise < 2" "unat clockwise' < 2" using assms by (simp_all add: word_le_nat_alt)
  then have "encoderIndex c layer encoder clockwise = encoderIndex c layer' encoder' clockwise' \<longleftrightarrow>
      unat layer * unat (cfg_encoderCount c) + unat encoder =
      unat layer' * unat (cfg_encoderCount c) + unat encoder' \<and> unat clockwise = unat clockwise'"
    unfolding encoderIndex_def by (rule radix_inj)
  with assms show ?thesis by (simp add: radix_inj word_less_nat_alt word_unat_eq_iff)
qed

text \<open>The buffer the host sees: the keymap as a sequence of big-endian bytes.\<close>

definition keymap_view :: "u16 list \<Rightarrow> u8 list" where
  "keymap_view km = concat (map (\<lambda>k. [hi8 k, lo8 k]) km)"

lemma length_keymap_view [simp]: "length (keymap_view km) = 2 * length km"
  by (induction km) (auto simp: keymap_view_def)

lemma nth_keymap_view:
  "i < 2 * length km \<Longrightarrow> keymap_view km ! i = (if odd i then lo8 (km ! (i div 2)) else hi8 (km ! (i div 2)))"
proof (induction km arbitrary: i)
  case Nil
  then show ?case by simp
next
  case (Cons k km)
  have v: "keymap_view (k # km) = hi8 k # lo8 k # keymap_view km" by (simp add: keymap_view_def)
  show ?case
  proof (cases "i < 2")
    case True
    then have "i = 0 \<or> i = 1" by auto
    then show ?thesis by (auto simp: v)
  next
    case False
    then obtain j where j: "i = Suc (Suc j)" by (metis add_2_eq_Suc le_Suc_ex not_less)
    with Cons.prems have "j < 2 * length km" by simp
    from Cons.IH [OF this] show ?thesis by (simp add: v j)
  qed
qed

lemma keymap_view_inj: "keymap_view xs = keymap_view ys \<longleftrightarrow> xs = ys"
proof (induction xs arbitrary: ys)
  case Nil
  then show ?case by (cases ys) (auto simp: keymap_view_def)
next
  case (Cons x xs)
  then show ?case
    by (cases ys) (auto simp: keymap_view_def intro: hi8_lo8_eq)
qed

lemma key_byte_update [enc]:
  "hi8 ((k AND 0xFF00) OR ucast v) = hi8 k" "lo8 ((k AND 0xFF00) OR ucast v) = v"
  "hi8 ((k AND 0x00FF) OR push_bit 8 (ucast v)) = v" "lo8 ((k AND 0x00FF) OR push_bit 8 (ucast v)) = lo8 k"
proof -
  have m: "(0xFF00 :: u16) = push_bit 8 (mask 8)" "(0x00FF :: u16) = mask 8"
    by (simp_all add: mask_eq_exp_minus_1)
  show "hi8 ((k AND 0xFF00) OR ucast v) = hi8 k" "lo8 ((k AND 0xFF00) OR ucast v) = v"
    "hi8 ((k AND 0x00FF) OR push_bit 8 (ucast v)) = v" "lo8 ((k AND 0x00FF) OR push_bit 8 (ucast v)) = lo8 k"
    unfolding m by (rule bit_word_eqI, auto simp: hi8_def lo8_def bit_simps bit_u8_ge)+
qed

lemma keymap_view_update:
  assumes "k < 2 * length km"
  shows "keymap_view (km[k div 2 := if odd k then (km ! (k div 2) AND 0xFF00) OR ucast v
      else (km ! (k div 2) AND 0x00FF) OR push_bit 8 (ucast v)]) = (keymap_view km)[k := v]"
proof (rule nth_equalityI)
  fix i assume "i < length (keymap_view (km[k div 2 := if odd k then (km ! (k div 2) AND 0xFF00) OR ucast v
      else (km ! (k div 2) AND 0x00FF) OR push_bit 8 (ucast v)]))"
  then have i: "i < 2 * length km" "i div 2 < length km" by auto
  have "i = k \<longleftrightarrow> i div 2 = k div 2 \<and> odd i = odd k" by presburger
  with i assms show "keymap_view (km[k div 2 := if odd k then (km ! (k div 2) AND 0xFF00) OR ucast v
      else (km ! (k div 2) AND 0x00FF) OR push_bit 8 (ucast v)]) ! i = (keymap_view km)[k := v] ! i"
    by (auto simp: nth_keymap_view nth_list_update enc)
qed simp

lemma readDynamicKeymap_eq:
  assumes "length (p_keymap p) = keyCount (p_config p)" and "at + sz \<le> length pkt"
  shows "readDynamicKeymap p off sz at pkt = Some (overwrite pkt at (map (\<lambda>i.
    if unat off + i < 2 * length (p_keymap p) then keymap_view (p_keymap p) ! (unat off + i) else 0) [0..<sz]))"
  unfolding readDynamicKeymap_def
  by (rule for_up_fill) (use assms in \<open>auto simp: keymapBytes_def nth_keymap_view mem Let_def\<close>)

lemma writeDynamicKeymap_loop:
  assumes "length km = n" and "at + i + sz \<le> length pkt"
  shows "\<exists>km' w'. for_up i sz (\<lambda>i (km, wrote).
       let index = off + i in
       if index \<ge> 2 * n then Some (km, wrote)
       else do {
         kc \<leftarrow> arr_get km (index div 2);
         v \<leftarrow> arr_get pkt (at + i);
         km' \<leftarrow> arr_set km (index div 2)
           (if odd index then (kc AND 0xFF00) OR ucast v
            else (kc AND 0x00FF) OR push_bit 8 (ucast v));
         Some (km', True)
       }) (km, w) = Some (km', w') \<and> length km' = n \<and>
     keymap_view km' = overwrite (keymap_view km) (off + i)
       (take (2 * n - (off + i)) (take sz (drop (at + i) pkt))) \<and>
     w' = (w \<or> (0 < sz \<and> off + i < 2 * n))"
  using assms
proof (induction sz arbitrary: i km w)
  case 0
  then show ?case by simp
next
  case (Suc sz)
  show ?case
  proof (cases "off + i < 2 * n")
    case False
    with Suc.IH [of km "Suc i" w] Suc.prems show ?thesis by (auto simp: overwrite_def)
  next
    case True
    let ?km = "km[(off + i) div 2 := if odd (off + i) then (km ! ((off + i) div 2) AND 0xFF00) OR ucast (pkt ! (at + i))
      else (km ! ((off + i) div 2) AND 0x00FF) OR push_bit 8 (ucast (pkt ! (at + i)))]"
    have v: "keymap_view ?km = (keymap_view km)[off + i := pkt ! (at + i)]"
      using True Suc.prems by (intro keymap_view_update) simp
    have len: "length ?km = n" using Suc.prems by simp
    have d: "drop (at + i) pkt = pkt ! (at + i) # drop (at + Suc i) pkt"
      using Suc.prems Cons_nth_drop_Suc [of "at + i" pkt] by simp
    have bytes: "take (2 * n - (off + i)) (take (Suc sz) (drop (at + i) pkt)) =
      pkt ! (at + i) # take (2 * n - (off + Suc i)) (take sz (drop (at + Suc i) pkt))"
    proof -
      have "2 * n - (off + i) = Suc (2 * n - (off + Suc i))" using True by simp
      then show ?thesis unfolding d by (simp only: take_Suc_Cons)
    qed
    have sp: "overwrite (keymap_view ?km) (off + Suc i) zs = overwrite (keymap_view km) (off + i) (pkt ! (at + i) # zs)" for zs
      unfolding v using True Suc.prems overwrite_Cons [of "off + i" "keymap_view km"] by simp
    have "at + Suc i + sz \<le> length pkt" using Suc.prems by simp
    from Suc.IH [OF len this, of True] show ?thesis
      unfolding bytes sp [symmetric]
      using True Suc.prems by (simp add: mem Let_def)
  qed
qed

lemma writeDynamicKeymap_eq:
  assumes "length (p_keymap p) = keyCount (p_config p)" and "at + sz \<le> length pkt"
  obtains km where
    "writeDynamicKeymap p off sz at pkt nowMs = Some (if 0 < sz \<and> unat off < keymapBytes (p_config p)
       then markDirty (p\<lparr>p_keymap := km\<rparr>) nowMs else p\<lparr>p_keymap := km\<rparr>)"
    "length km = keyCount (p_config p)"
    "keymap_view km = overwrite (keymap_view (p_keymap p)) (unat off)
       (take (keymapBytes (p_config p) - unat off) (take sz (drop at pkt)))"
proof -
  let ?n = "keyCount (p_config p)"
  have k: "keymapBytes (p_config p) = 2 * ?n" by (simp add: keymapBytes_def)
  from writeDynamicKeymap_loop [of "p_keymap p" ?n at 0 sz pkt "unat off" False] assms
  obtain km where "for_up 0 sz (\<lambda>i (km, wrote).
       let index = unat off + i in
       if index \<ge> 2 * ?n then Some (km, wrote)
       else do {
         kc \<leftarrow> arr_get km (index div 2);
         v \<leftarrow> arr_get pkt (at + i);
         km' \<leftarrow> arr_set km (index div 2)
           (if odd index then (kc AND 0xFF00) OR ucast v
            else (kc AND 0x00FF) OR push_bit 8 (ucast v));
         Some (km', True)
       }) (p_keymap p, False) = Some (km, 0 < sz \<and> unat off < 2 * ?n)" "length km = ?n"
     "keymap_view km = overwrite (keymap_view (p_keymap p)) (unat off) (take (2 * ?n - unat off) (take sz (drop at pkt)))"
    by auto
  then show thesis
    by (intro that [of km]) (simp_all add: writeDynamicKeymap_def k)
qed

end
