(* ===== verification/Persist.thy ===== *)
theory Persist
  imports Protocol
begin

text \<open>
  Persistence of the protocol core (\<open>src/VIA_Protocol.cpp\<close>): \<open>stateCrc\<close>, \<open>load\<close>, \<open>save\<close>,
  \<open>writeState\<close>, \<open>factoryReset\<close>, \<open>resetBuffers\<close> and \<open>begin\<close>, over any storage and
  custom value (tables of \<open>Interfaces\<close>).  The lemmas show the byte image a save leaves, that a
  load restores exactly the state a save wrote, that a failed load or reset publishes nothing, and
  what a corrupted record does.
\<close>

section \<open>The record\<close>

text \<open>The packed \<open>StateHeader\<close> as it lies in memory.\<close>

definition header_bytes :: "u32 \<Rightarrow> u16 \<Rightarrow> u16 \<Rightarrow> u32 \<Rightarrow> u8 list" where
  "header_bytes magic version payload crc = le32 magic @ le16 version @ le16 payload @ le32 crc"

definition hdr_magic :: "u8 list \<Rightarrow> u32" where "hdr_magic h = of_le32 (take 4 h)"
definition hdr_version :: "u8 list \<Rightarrow> u16" where "hdr_version h = of_le16 (take 2 (drop 4 h))"
definition hdr_payloadSize :: "u8 list \<Rightarrow> u16" where "hdr_payloadSize h = of_le16 (take 2 (drop 6 h))"
definition hdr_crc :: "u8 list \<Rightarrow> u32" where "hdr_crc h = of_le32 (take 4 (drop 8 h))"

text \<open>\<open>memcpy\<close> of bytes to the start of a \<open>uint16_t\<close> array.\<close>

definition memcpy16 :: "u16 list \<Rightarrow> u8 list \<Rightarrow> u16 list option" where
  "memcpy16 dst bs = map_option of_bytes16 (mem_write (bytes16 dst) 0 bs)"

definition stateCrc :: "('s, 'c, 't) protocol \<Rightarrow> u8 list \<Rightarrow> nat \<Rightarrow> u32 option" where
  "stateCrc p customState customSize = do {
     let c = p_config p;
     km \<leftarrow> mem_read (bytes16 (p_keymap p)) 0 (keymapBytes c);
     em \<leftarrow> mem_read (bytes16 (p_encoderMap p)) 0 (encoderMapBytes c);
     ma \<leftarrow> mem_read (p_macros p) 0 (unat (cfg_macroBytes c));
     cs \<leftarrow> mem_read customState 0 customSize;
     let crc = crc32_bytes 0xFFFFFFFF km;
     let crc = crc32_bytes crc em;
     let crc = crc32_bytes crc ma;
     let crc = crc32_bytes crc (le32 (p_layoutOptions p));
     Some (NOT (crc32_bytes crc cs))
   }"

section \<open>Publishing a staged payload\<close>

text \<open>The copies from the load buffer into the live state, which \<open>load\<close> and \<open>factoryReset\<close>
  both end with.\<close>

definition publish :: "('s, 'c, 't) protocol \<Rightarrow> ('s, 'c, 't) protocol option" where
  "publish p = do {
     let c = p_config p;
     let lb = p_loadBuffer p;
     let staged = 0;
     bs \<leftarrow> mem_read lb staged (keymapBytes c);
     km \<leftarrow> memcpy16 (p_keymap p) bs;
     let staged = staged + keymapBytes c;
     em \<leftarrow> (if encoderMapBytes c \<noteq> 0
            then do { bs \<leftarrow> mem_read lb staged (encoderMapBytes c); memcpy16 (p_encoderMap p) bs }
            else Some (p_encoderMap p));
     let staged = staged + encoderMapBytes c;
     ma \<leftarrow> (if cfg_macroBytes c \<noteq> 0
            then do { bs \<leftarrow> mem_read lb staged (unat (cfg_macroBytes c)); mem_write (p_macros p) 0 bs }
            else Some (p_macros p));
     let staged = staged + unat (cfg_macroBytes c);
     lo \<leftarrow> mem_read lb staged 4;
     Some (p\<lparr>p_keymap := km, p_encoderMap := em, p_macros := ma, p_layoutOptions := of_le32 lo\<rparr>)
   }"

section \<open>Load\<close>

text \<open>The part of \<open>load\<close> after both reads succeeded: CRC, custom validation and loading,
  publication.  Dereferencing a null \<open>customValue_\<close> would be undefined behaviour.\<close>

definition load_staged ::
  "('s, 'c, 't) deps \<Rightarrow> ('s, 'c, 't) protocol \<Rightarrow> u8 list \<Rightarrow> nat \<Rightarrow> nat \<Rightarrow>
   (bool \<times> ('s, 'c, 't) protocol) option" where
  "load_staged d p header bytes customSize = do {
     staged \<leftarrow> mem_read (p_loadBuffer p) 0 bytes;
     if NOT (crc32_bytes 0xFFFFFFFF staged) \<noteq> hdr_crc header then Some (False, p)
     else do {
       cs \<leftarrow> mem_read (p_loadBuffer p) (bytes - customSize) customSize;
       (loaded, p1) \<leftarrow>
         (if customSize = 0 then Some (True, p)
          else case p_customValue p of None \<Rightarrow> None
          | Some cv \<Rightarrow>
              if \<not> cv_validateState (d_custom d) cv cs then Some (False, p)
              else let (ok, cv') = cv_loadState (d_custom d) cv cs
                   in Some (ok, p\<lparr>p_customValue := Some cv'\<rparr>));
       if \<not> loaded then Some (False, p1)
       else do {
         p2 \<leftarrow> publish p1;
         let p3 = emit (LayoutOptionsChanged (p_layoutOptions p2)) p2;
         Some (True, p3\<lparr>p_dirty := False\<rparr>)
       }
     }
   }"

definition load :: "('s, 'c, 't) deps \<Rightarrow> ('s, 'c, 't) protocol \<Rightarrow> (bool \<times> ('s, 'c, 't) protocol) option" where
  "load d p =
     (case (p_storage p, stateBytes d p) of
        (Some s, Some (bytes, customSize)) \<Rightarrow>
          if \<not> loadBufferValid (p_config p) bytes then Some (False, p)
          else if st_capacity (d_storage d) s < kHeaderSize + bytes then Some (False, p)
          else (case st_read (d_storage d) s 0 (uninit d kHeaderSize) of (ok, header, s1) \<Rightarrow>
            let p1 = p\<lparr>p_storage := Some s1\<rparr> in
            if \<not> ok \<or> hdr_magic header \<noteq> kStateMagic \<or> hdr_version header \<noteq> kStateVersion \<or>
               unat (hdr_payloadSize header) \<noteq> bytes then Some (False, p1)
            else do {
              buf \<leftarrow> mem_read (p_loadBuffer p1) 0 bytes;
              case st_read (d_storage d) s1 kHeaderSize buf of (ok2, out, s2) \<Rightarrow> do {
                lb \<leftarrow> mem_write (p_loadBuffer p1) 0 out;
                let p2 = p1\<lparr>p_storage := Some s2, p_loadBuffer := lb\<rparr>;
                if \<not> ok2 then Some (False, p2) else load_staged d p2 header bytes customSize
              }
            })
      | _ \<Rightarrow> Some (False, p))"

section \<open>Save\<close>

text \<open>The writes of \<open>writeState\<close> in order: a header whose CRC field is zero, the parts of the
  payload, and the final header.\<close>

definition state_writes ::
  "('s, 'c, 't) protocol \<Rightarrow> nat \<Rightarrow> u8 list \<Rightarrow> u32 \<Rightarrow> u8 list \<Rightarrow> u8 list \<Rightarrow> u8 list \<Rightarrow> (nat \<times> u8 list) list" where
  "state_writes p bytes cs crc km em ma =
     (let c = p_config p; o1 = kHeaderSize; o2 = o1 + keymapBytes c; o3 = o2 + encoderMapBytes c;
          o4 = o3 + unat (cfg_macroBytes c); o5 = o4 + 4
      in [(0, header_bytes kStateMagic kStateVersion (of_nat bytes) 0), (o1, km)] @
         (if encoderMapBytes c \<noteq> 0 then [(o2, em)] else []) @
         (if cfg_macroBytes c \<noteq> 0 then [(o3, ma)] else []) @
         [(o4, le32 (p_layoutOptions p))] @
         (if length cs \<noteq> 0 then [(o5, cs)] else []) @
         [(0, header_bytes kStateMagic kStateVersion (of_nat bytes) crc)])"

definition writeState ::
  "('s, 'c, 't) deps \<Rightarrow> ('s, 'c, 't) protocol \<Rightarrow> (bool \<times> ('s, 'c, 't) protocol) option" where
  "writeState d p =
     (case stateBytes d p of None \<Rightarrow> Some (False, p)
      | Some (bytes, customSize) \<Rightarrow>
        (case p_storage p of None \<Rightarrow> None
         | Some s \<Rightarrow>
           if st_capacity (d_storage d) s < kHeaderSize + bytes then Some (False, p)
           else do {
             (saved, cs) \<leftarrow>
               (if customSize = 0 then Some (True, [])
                else case p_customValue p of None \<Rightarrow> None
                | Some cv \<Rightarrow> Some (cv_saveState (d_custom d) cv (uninit d customSize)));
             if \<not> saved then Some (False, p)
             else do {
               crc \<leftarrow> stateCrc p cs customSize;
               km \<leftarrow> mem_read (bytes16 (p_keymap p)) 0 (keymapBytes (p_config p));
               em \<leftarrow> mem_read (bytes16 (p_encoderMap p)) 0 (encoderMapBytes (p_config p));
               ma \<leftarrow> mem_read (p_macros p) 0 (unat (cfg_macroBytes (p_config p)));
               let (written, s1) = write_seq (d_storage d) s (state_writes p bytes cs crc km em ma);
               if \<not> written then Some (False, p\<lparr>p_storage := Some s1\<rparr>)
               else let (committed, s2) = st_commit (d_storage d) s1;
                        p1 = p\<lparr>p_storage := Some s2\<rparr>
                    in Some (committed, if committed then p1\<lparr>p_dirty := False\<rparr> else p1)
             }
           }))"

definition save :: "('s, 'c, 't) deps \<Rightarrow> ('s, 'c, 't) protocol \<Rightarrow> (bool \<times> ('s, 'c, 't) protocol) option" where
  "save d p = (case p_storage p of None \<Rightarrow> Some (False, p) | Some _ \<Rightarrow> writeState d p)"

section \<open>Factory reset\<close>

text \<open>Staging the configured defaults in the load buffer.\<close>

definition stage_defaults :: "('s, 'c, 't) protocol \<Rightarrow> ('s, 'c, 't) protocol option" where
  "stage_defaults p = do {
     let c = p_config p;
     let staged = 0;
     km \<leftarrow> mem_read (bytes16 (p_defaultKeymap p)) 0 (keymapBytes c);
     lb \<leftarrow> mem_write (p_loadBuffer p) staged km;
     let staged = staged + keymapBytes c;
     lb \<leftarrow> (if encoderMapBytes c \<noteq> 0
            then do { em \<leftarrow> mem_read (bytes16 (p_defaultEncoderMap p)) 0 (encoderMapBytes c);
                      mem_write lb staged em }
            else Some lb);
     let staged = staged + encoderMapBytes c;
     lb \<leftarrow> (if cfg_macroBytes c \<noteq> 0
            then mem_write lb staged (replicate (unat (cfg_macroBytes c)) 0) else Some lb);
     let staged = staged + unat (cfg_macroBytes c);
     lb \<leftarrow> mem_write lb staged (le32 (cfg_defaultLayoutOptions c));
     Some (p\<lparr>p_loadBuffer := lb\<rparr>)
   }"

text \<open>The custom part: the handler is reset, then its state is saved behind the staged defaults,
  or zeros when it cannot be saved; validation of the staged bytes decides.\<close>

definition stage_custom ::
  "('s, 'c, 't) deps \<Rightarrow> ('s, 'c, 't) protocol \<Rightarrow> nat \<Rightarrow> nat \<Rightarrow> (bool \<times> ('s, 'c, 't) protocol) option" where
  "stage_custom d p bytes customSize =
     (if customSize = 0 then Some (True, p)
      else case p_customValue p of None \<Rightarrow> None
      | Some cv0 \<Rightarrow> do {
          let cv = cv_reset (d_custom d) cv0;
          let customOffset = bytes - customSize;
          buf \<leftarrow> mem_read (p_loadBuffer p) customOffset customSize;
          let (saved, cs) = cv_saveState (d_custom d) cv buf;
          lb \<leftarrow> mem_write (p_loadBuffer p) customOffset cs;
          lb \<leftarrow> (if \<not> saved
                 then mem_write lb (payloadSize (p_config p) 0) (replicate customSize 0)
                 else Some lb);
          bs \<leftarrow> mem_read lb customOffset customSize;
          Some (cv_validateState (d_custom d) cv bs,
                p\<lparr>p_customValue := Some cv, p_loadBuffer := lb\<rparr>)
        })"

text \<open>Erase, header with zero CRC, payload, final header, commit.\<close>

definition reset_store :: "'s storage_vt \<Rightarrow> 's \<Rightarrow> u8 list \<Rightarrow> nat \<Rightarrow> bool \<times> 's" where
  "reset_store vt s payload bytes =
     (let crc = NOT (crc32_bytes 0xFFFFFFFF payload);
          h = header_bytes kStateMagic kStateVersion (of_nat bytes)
      in case st_erase vt s of
           (False, s1) \<Rightarrow> (False, s1)
         | (True, s1) \<Rightarrow>
             (case write_seq vt s1 [(0, h 0), (kHeaderSize, payload), (0, h crc)] of
                (False, s2) \<Rightarrow> (False, s2)
              | (True, s2) \<Rightarrow> st_commit vt s2))"

definition factoryReset ::
  "('s, 'c, 't) deps \<Rightarrow> ('s, 'c, 't) protocol \<Rightarrow> (bool \<times> ('s, 'c, 't) protocol) option" where
  "factoryReset d p =
     (case (p_storage p, stateBytes d p) of
        (Some s, Some (bytes, customSize)) \<Rightarrow>
          if \<not> loadBufferValid (p_config p) bytes \<or>
             st_capacity (d_storage d) s < kHeaderSize + bytes then Some (False, p)
          else do {
            p1 \<leftarrow> stage_defaults p;
            (valid, p2) \<leftarrow> stage_custom d p1 bytes customSize;
            if \<not> valid then Some (False, p2)
            else do {
              payload \<leftarrow> mem_read (p_loadBuffer p2) 0 bytes;
              let (stored, s1) = reset_store (d_storage d) s payload bytes;
              let p3 = p2\<lparr>p_storage := Some s1\<rparr>;
              if \<not> stored then Some (False, p3)
              else do {
                cs \<leftarrow> mem_read (p_loadBuffer p3) (bytes - customSize) customSize;
                p4 \<leftarrow> (if customSize = 0 then Some p3
                       else case p_customValue p3 of None \<Rightarrow> None
                       | Some cv \<Rightarrow>
                           Some (p3\<lparr>p_customValue := Some (snd (cv_loadState (d_custom d) cv cs))\<rparr>));
                p5 \<leftarrow> publish p4;
                let p6 = p5\<lparr>p_dirty := False\<rparr>;
                Some (True, emit Changed (emit (LayoutOptionsChanged (p_layoutOptions p6)) p6))
              }
            }
          }
      | _ \<Rightarrow> Some (False, p))"

section \<open>Startup\<close>

definition resetBuffers ::
  "('s, 'c, 't) deps \<Rightarrow> ('s, 'c, 't) protocol \<Rightarrow> ('s, 'c, 't) protocol option" where
  "resetBuffers d p = do {
     let c = p_config p;
     km \<leftarrow> mem_read (bytes16 (p_defaultKeymap p)) 0 (keymapBytes c);
     km' \<leftarrow> memcpy16 (p_keymap p) km;
     em' \<leftarrow> (if encoderMapBytes c \<noteq> 0
             then do { em \<leftarrow> mem_read (bytes16 (p_defaultEncoderMap p)) 0 (encoderMapBytes c);
                       memcpy16 (p_encoderMap p) em }
             else Some (p_encoderMap p));
     ma' \<leftarrow> (if cfg_macroBytes c \<noteq> 0
             then mem_write (p_macros p) 0 (replicate (unat (cfg_macroBytes c)) 0)
             else Some (p_macros p));
     Some (p\<lparr>p_keymap := km', p_encoderMap := em', p_macros := ma',
             p_layoutOptions := cfg_defaultLayoutOptions c,
             p_customValue := map_option (cv_reset (d_custom d)) (p_customValue p)\<rparr>)
   }"

text \<open>The checks \<open>begin\<close> makes before it touches anything.\<close>

definition begin_ok :: "('s, 'c, 't) deps \<Rightarrow> ('s, 'c, 't) protocol \<Rightarrow> bool" where
  "begin_ok d p =
     (let c = p_config p in
      \<not> (cfg_rows c = 0 \<or> cfg_columns c = 0 \<or> cfg_layers c = 0 \<or>
         cfg_keymap c = 0 \<or> cfg_defaultKeymap c = 0 \<or>
         (cfg_macroBytes c \<noteq> 0 \<and> cfg_macros c = 0) \<or>
         (cfg_encoderCount c \<noteq> 0 \<and> (cfg_encoderMap c = 0 \<or> cfg_defaultEncoderMap c = 0)) \<or>
         (case stateBytes d p of None \<Rightarrow> True
          | Some (bytes, _) \<Rightarrow> p_storage p \<noteq> None \<and> \<not> loadBufferValid c bytes)))"

definition protocol_begin ::
  "('s, 'c, 't) deps \<Rightarrow> ('s, 'c, 't) protocol \<Rightarrow> u32 \<Rightarrow> (bool \<times> ('s, 'c, 't) protocol) option" where
  "protocol_begin d p nowMs =
     (if \<not> begin_ok d p then Some (False, p)
      else do {
        (loaded, p1) \<leftarrow> load d p;
        p2 \<leftarrow> (if loaded then Some p1
               else do { q \<leftarrow> resetBuffers d p1;
                         Some (emit (LayoutOptionsChanged (p_layoutOptions q)) q) });
        Some (True, p2\<lparr>p_dirty := False, p_saveAt := nowMs + cfg_autoSaveMs (p_config p2)\<rparr>)
      })"

section \<open>The byte image of a record\<close>

definition payload_bytes :: "u16 list \<Rightarrow> u16 list \<Rightarrow> u8 list \<Rightarrow> u32 \<Rightarrow> u8 list \<Rightarrow> u8 list" where
  "payload_bytes km em ma lo cs = bytes16 km @ bytes16 em @ ma @ le32 lo @ cs"

definition record_bytes :: "u8 list \<Rightarrow> u8 list" where
  "record_bytes payload =
     header_bytes kStateMagic kStateVersion (of_nat (length payload)) (NOT (crc32_bytes 0xFFFFFFFF payload))
     @ payload"

text \<open>The parts of a payload have the sizes of the configuration.\<close>

definition payload_fits :: "config \<Rightarrow> u16 list \<Rightarrow> u16 list \<Rightarrow> u8 list \<Rightarrow> bool" where
  "payload_fits c km em ma \<longleftrightarrow> length km = keyCount c \<and> 2 * length em = encoderMapBytes c \<and>
     length ma = unat (cfg_macroBytes c)"

lemma wf_payload_fits: "wf_protocol p \<Longrightarrow> payload_fits (p_config p) (p_keymap p) (p_encoderMap p) (p_macros p)"
  by (simp add: wf_protocol_def payload_fits_def)

lemma length_header_bytes [simp]: "length (header_bytes m v n c) = kHeaderSize"
  by (simp add: header_bytes_def kHeaderSize_def)

lemma header_fields [enc]:
  "hdr_magic (header_bytes m v n c) = m" "hdr_version (header_bytes m v n c) = v"
  "hdr_payloadSize (header_bytes m v n c) = n" "hdr_crc (header_bytes m v n c) = c"
  by (simp_all add: hdr_magic_def hdr_version_def hdr_payloadSize_def hdr_crc_def header_bytes_def enc)

lemma length_payload_bytes:
  "payload_fits c km em ma \<Longrightarrow> length (payload_bytes km em ma lo cs) = payloadSize c (length cs)"
  by (auto simp: payload_bytes_def payloadSize_def payload_fits_def keymapBytes_def)

lemma memcpy16_all: "length ws = length dst \<Longrightarrow> memcpy16 dst (bytes16 ws) = Some ws"
  by (simp add: memcpy16_def mem_write_all enc)

lemma stateCrc_eq:
  assumes "wf_protocol p" "length cs = n"
  shows "stateCrc p cs n = Some (NOT (crc32_bytes 0xFFFFFFFF
    (payload_bytes (p_keymap p) (p_encoderMap p) (p_macros p) (p_layoutOptions p) cs)))"
  using assms by (simp add: stateCrc_def wf_protocol_def keymapBytes_def mem payload_bytes_def
      crc32_bytes_append)

lemma publish_eq:
  assumes wf: "wf_protocol p" and fits: "payload_fits (p_config p) km em ma"
    and lb: "p_loadBuffer p = payload_bytes km em ma lo cs @ rest"
  shows "publish p = Some (p\<lparr>p_keymap := km, p_encoderMap := em, p_macros := ma, p_layoutOptions := lo\<rparr>)"
proof -
  have [simp]: "keymapBytes (p_config p) = 2 * length km" "encoderMapBytes (p_config p) = 2 * length em"
    "unat (cfg_macroBytes (p_config p)) = length ma" "length (p_keymap p) = length km"
    "length (p_encoderMap p) = length em" "length (p_macros p) = length ma"
    using wf fits by (auto simp: wf_protocol_def payload_fits_def keymapBytes_def)
  have ma: "cfg_macroBytes (p_config p) = 0 \<longleftrightarrow> ma = []"
    using \<open>unat (cfg_macroBytes (p_config p)) = length ma\<close> by (simp flip: unat_eq_zero)
  have r1: "mem_read (p_loadBuffer p) 0 (2 * length km) = Some (bytes16 km)"
    by (simp add: lb payload_bytes_def mem_read_def)
  have r2: "mem_read (p_loadBuffer p) (2 * length km) (2 * length em) = Some (bytes16 em)"
    by (simp add: lb payload_bytes_def mem_read_def)
  have r3: "mem_read (p_loadBuffer p) (2 * length km + 2 * length em) (length ma) = Some ma"
    by (simp add: lb payload_bytes_def mem_read_def)
  have r4: "mem_read (p_loadBuffer p) (2 * length km + 2 * length em + length ma) 4 = Some (le32 lo)"
    by (simp add: lb payload_bytes_def mem_read_def)
  have "p_encoderMap p = [] \<longleftrightarrow> em = []" "p_macros p = [] \<longleftrightarrow> ma = []"
    using \<open>length (p_encoderMap p) = length em\<close> \<open>length (p_macros p) = length ma\<close>
    by (metis length_0_conv)+
  then show ?thesis using r1 r2 r3 r4
    by (cases "em = []"; cases "ma = []")
       (simp_all add: publish_def Let_def ma memcpy16_all mem_write_all enc)
qed

lemma overwrite_if: "overwrites xs (if b then [(off, ys)] else []) = overwrite xs off (if b then ys else [])"
  by auto

lemma overwrites_state_writes:
  assumes wf: "wf_protocol p"
    and cs: "length cs = n" and bytes: "bytes = payloadSize (p_config p) n"
    and room: "kHeaderSize + bytes \<le> length xs"
  shows "overwrites xs (state_writes p bytes cs crc (bytes16 (p_keymap p)) (bytes16 (p_encoderMap p)) (p_macros p)) =
    header_bytes kStateMagic kStateVersion (of_nat bytes) crc @
    payload_bytes (p_keymap p) (p_encoderMap p) (p_macros p) (p_layoutOptions p) cs @
    drop (kHeaderSize + bytes) xs"
proof -
  let ?c = "p_config p" and ?km = "bytes16 (p_keymap p)" and ?em = "bytes16 (p_encoderMap p)"
    and ?ma = "p_macros p" and ?lo = "le32 (p_layoutOptions p)"
  let ?hz = "header_bytes kStateMagic kStateVersion (of_nat bytes) 0"
  let ?h = "header_bytes kStateMagic kStateVersion (of_nat bytes) crc"
  let ?o1 = "kHeaderSize"
  let ?o2 = "?o1 + length ?km" 
  let ?o3 = "?o2 + length ?em"
  let ?o4 = "?o3 + length ?ma"
  let ?o5 = "?o4 + length ?lo"
  let ?A = "overwrite xs 0 ?hz"
  have len: "keymapBytes ?c = length ?km" "encoderMapBytes ?c = length ?em"
    "unat (cfg_macroBytes ?c) = length ?ma"
    using wf by (auto simp: wf_protocol_def keymapBytes_def)
  have ma: "cfg_macroBytes ?c \<noteq> 0 \<longleftrightarrow> ?ma \<noteq> []"
    using len(3) by (auto simp flip: unat_eq_zero)
  have total: "?o5 + length cs = kHeaderSize + bytes"
    using bytes cs len by (simp add: payloadSize_def)
  have "overwrites xs (state_writes p bytes cs crc ?km ?em ?ma) =
    overwrite (overwrite (overwrite (overwrite (overwrite (overwrite ?A ?o1 ?km) ?o2 ?em) ?o3 ?ma) ?o4 ?lo) ?o5 cs) 0 ?h"
    unfolding state_writes_def Let_def len ma overwrites_append
    by (auto simp: overwrite_if)
  also have "\<dots> = overwrite (overwrite ?A ?o1 (?km @ ?em @ ?ma @ ?lo @ cs)) 0 ?h"
    using room total
    by (simp add: overwrite_append_split add.assoc)
  also have "\<dots> = ?h @ (?km @ ?em @ ?ma @ ?lo @ cs) @ drop (kHeaderSize + bytes) xs"
    using room total
    by (simp add: overwrite_def ac_simps)
  finally show ?thesis by (simp add: payload_bytes_def)
qed

section \<open>Persistence over the contracts\<close>

text \<open>A protocol whose collaborators are in valid states.\<close>

definition env_inv :: "('s \<Rightarrow> bool) \<Rightarrow> ('c \<Rightarrow> bool) \<Rightarrow> ('s, 'c, 't) protocol \<Rightarrow> bool" where
  "env_inv sinv cinv p \<longleftrightarrow> wf_protocol p \<and> pred_option sinv (p_storage p) \<and>
     pred_option cinv (p_customValue p)"

text \<open>The bytes the custom value contributes to a record, when it can be saved.\<close>

definition custom_saved :: "('s, 'c, 't) deps \<Rightarrow> ('s, 'c, 't) protocol \<Rightarrow> nat \<Rightarrow> bool \<times> u8 list" where
  "custom_saved d p n =
     (if n = 0 then (True, [])
      else case p_customValue p of None \<Rightarrow> (True, [])
      | Some cv \<Rightarrow> cv_saveState (d_custom d) cv (uninit d n))"

definition live_payload :: "('s, 'c, 't) protocol \<Rightarrow> u8 list \<Rightarrow> u8 list" where
  "live_payload p cs = payload_bytes (p_keymap p) (p_encoderMap p) (p_macros p) (p_layoutOptions p) cs"

lemma length_record_bytes [simp]: "length (record_bytes bs) = kHeaderSize + length bs"
  by (simp add: record_bytes_def)

locale protocol_env =
  storage_contract "d_storage d" sinv view + custom_contract "d_custom d" cinv csize
  for d :: "('s, 'c, 't) deps" and sinv :: "'s \<Rightarrow> bool" and view :: "'s \<Rightarrow> u8 list"
    and cinv :: "'c \<Rightarrow> bool" and csize :: nat
begin

lemma custom_cases:
  assumes "env_inv sinv cinv p" "stateBytes d p = Some (bytes, n)" "n \<noteq> 0"
  obtains cv where "p_customValue p = Some cv" "cinv cv" "n = csize"
  using assms stateSize_csize
  by (auto simp: stateBytes_iff custom_bytes_def env_inv_def split: option.splits)

lemma length_custom_saved:
  assumes "env_inv sinv cinv p" "stateBytes d p = Some (bytes, n)" "custom_saved d p n = (True, cs)"
  shows "length cs = n"
proof (cases "n = 0")
  case False
  with assms(1,2) obtain cv where "p_customValue p = Some cv" "cinv cv" by (rule custom_cases)
  with assms False saveState_length show ?thesis by (fastforce simp: custom_saved_def)
qed (use assms in \<open>simp add: custom_saved_def\<close>)

lemma writeState_cases:
  assumes inv: "env_inv sinv cinv p" and s: "p_storage p = Some s"
    and sb: "stateBytes d p = Some (bytes, n)" and nz: "0 < keyCount (p_config p)"
    and room: "kHeaderSize + bytes \<le> length (view s)"
    and cs: "custom_saved d p n = (True, cs)"
  obtains s1 ok s2 where
    "write_seq (d_storage d) s (state_writes p bytes cs (NOT (crc32_bytes 0xFFFFFFFF (live_payload p cs)))
       (bytes16 (p_keymap p)) (bytes16 (p_encoderMap p)) (p_macros p)) = (True, s1)"
    "sinv s1" "view s1 = record_bytes (live_payload p cs) @ drop (kHeaderSize + bytes) (view s)"
    "st_commit (d_storage d) s1 = (ok, s2)" "sinv s2" "view s2 = view s1"
    "writeState d p = Some (ok, if ok then p\<lparr>p_storage := Some s2, p_dirty := False\<rparr> else p\<lparr>p_storage := Some s2\<rparr>)"
proof -
  have wf: "wf_protocol p" and sinv: "sinv s" using inv s by (auto simp: env_inv_def)
  have len: "length cs = n" using inv sb cs by (rule length_custom_saved)
  have bytes: "bytes = payloadSize (p_config p) n" using sb by (simp add: stateBytes_iff)
  have plen: "length (live_payload p cs) = bytes"
    using length_payload_bytes [OF wf_payload_fits [OF wf]] len bytes by (simp add: live_payload_def)
  let ?crc = "NOT (crc32_bytes 0xFFFFFFFF (live_payload p cs))"
  let ?ws = "state_writes p bytes cs ?crc (bytes16 (p_keymap p)) (bytes16 (p_encoderMap p)) (p_macros p)"
  have sz: "2 * length (p_keymap p) = keymapBytes (p_config p)" "p_keymap p \<noteq> []"
      "2 * length (p_encoderMap p) = encoderMapBytes (p_config p)"
      "length (p_macros p) = unat (cfg_macroBytes (p_config p))"
    using wf nz by (auto simp: wf_protocol_def keymapBytes_def)
  have ma: "p_macros p = [] \<longleftrightarrow> cfg_macroBytes (p_config p) = 0"
    using sz(4) by (metis length_0_conv unat_eq_zero)
  have "\<forall>(off, bs) \<in> set ?ws. bs \<noteq> [] \<and> off + length bs \<le> length (view s)"
    using room sz len ma unfolding bytes
    by (auto simp: state_writes_def Let_def payloadSize_def kHeaderSize_def header_bytes_def le32_def)
  from write_seq_view [OF sinv this] obtain s1 where s1:
    "write_seq (d_storage d) s ?ws = (True, s1)" "sinv s1" "view s1 = overwrites (view s) ?ws" by blast
  have v: "view s1 = record_bytes (live_payload p cs) @ drop (kHeaderSize + bytes) (view s)"
    using overwrites_state_writes [OF wf len bytes room] s1(3) plen
    by (simp add: record_bytes_def live_payload_def)
  obtain ok s2 where c: "st_commit (d_storage d) s1 = (ok, s2)" by fastforce
  have crc: "stateCrc p cs n = Some ?crc" using wf len by (simp add: stateCrc_eq live_payload_def)
  have cs': "(if n = 0 then Some (True, [])
                else case p_customValue p of None \<Rightarrow> None
                | Some cv \<Rightarrow> Some (cv_saveState (d_custom d) cv (uninit d n))) = Some (True, cs)"
  proof (cases "n = 0")
    case False
    with inv sb obtain cv where "p_customValue p = Some cv" by (rule custom_cases)
    with cs False show ?thesis by (simp add: custom_saved_def)
  qed (use cs in \<open>simp add: custom_saved_def\<close>)
  have "\<not> st_capacity (d_storage d) s < kHeaderSize + bytes"
    using room capacity_view [OF sinv] by simp
  then have "writeState d p = Some (ok, if ok then p\<lparr>p_storage := Some s2, p_dirty := False\<rparr>
      else p\<lparr>p_storage := Some s2\<rparr>)"
    unfolding writeState_def sb s
    by (simp add: cs' crc mem_read_all sz s1(1) c)
  then show thesis using commit_view [OF s1(2) c] by (intro that [OF s1(1,2) v c]) simp_all
qed

end

lemma p_storage_same: "p_storage p = Some s \<Longrightarrow> p\<lparr>p_storage := Some s\<rparr> = p"
  by (cases p) simp

lemma loadBufferValid_room:
  "loadBufferValid (p_config p) bytes \<Longrightarrow> wf_protocol p \<Longrightarrow> bytes \<le> length (p_loadBuffer p)"
  by (auto simp: loadBufferValid_def wf_protocol_def split: if_splits)

text \<open>The header is determined by its fields.\<close>

lemma le16_of_le16_list: "length bs = 2 \<Longrightarrow> le16 (of_le16 bs) = bs"
  by (auto simp: numeral_eq_Suc length_Suc_conv le16_of_le16 [simplified numeral_eq_Suc])

lemma header_bytes_fields:
  assumes "length h = kHeaderSize"
  shows "header_bytes (hdr_magic h) (hdr_version h) (hdr_payloadSize h) (hdr_crc h) = h"
proof -
  have "h = take 4 h @ take 2 (drop 4 h) @ take 2 (drop 6 h) @ take 4 (drop 8 h)"
    using assms append_take_drop_id [of 2 "drop 4 h"] append_take_drop_id [of 2 "drop 6 h"]
    by (simp add: kHeaderSize_def)
  then show ?thesis using assms
    by (simp add: header_bytes_def hdr_magic_def hdr_version_def hdr_payloadSize_def hdr_crc_def
        kHeaderSize_def le32_of_le32_list le16_of_le16_list)
qed

definition header_ok :: "u8 list \<Rightarrow> nat \<Rightarrow> bool" where
  "header_ok h bytes \<longleftrightarrow> hdr_magic h = kStateMagic \<and> hdr_version h = kStateVersion \<and>
     unat (hdr_payloadSize h) = bytes"

context protocol_env
begin

lemma load_eq:
  assumes inv: "env_inv sinv cinv p" and s: "p_storage p = Some s"
    and sb: "stateBytes d p = Some (bytes, n)"
  shows "load d p =
    (if \<not> loadBufferValid (p_config p) bytes \<or> length (view s) < kHeaderSize + bytes \<or>
        \<not> header_ok (take kHeaderSize (view s)) bytes then Some (False, p)
     else load_staged d
       (p\<lparr>p_loadBuffer := overwrite (p_loadBuffer p) 0 (take bytes (drop kHeaderSize (view s)))\<rparr>)
       (take kHeaderSize (view s)) bytes n)"
proof -
  have wf: "wf_protocol p" and sinv: "sinv s" using inv s by (auto simp: env_inv_def)
  have cap: "st_capacity (d_storage d) s = length (view s)" by (rule capacity_view [OF sinv])
  have pos: "0 < bytes" using sb by (simp add: stateBytes_iff payloadSize_def)
  show ?thesis
  proof (cases "loadBufferValid (p_config p) bytes \<and> kHeaderSize + bytes \<le> length (view s)")
    case False
    then show ?thesis unfolding load_def s sb by (auto simp: cap)
  next
    case True
    then have lb: "bytes \<le> length (p_loadBuffer p)" using wf by (blast intro: loadBufferValid_room)
    have r1: "st_read (d_storage d) s 0 (uninit d kHeaderSize) = (True, take kHeaderSize (view s), s)"
      using read_view [OF sinv, of "uninit d kHeaderSize" 0] True
      by (simp add: kHeaderSize_def flip: length_0_conv)
    have r2: "st_read (d_storage d) s kHeaderSize (take bytes (p_loadBuffer p)) =
        (True, take bytes (drop kHeaderSize (view s)), s)"
      using read_view [OF sinv, of "take bytes (p_loadBuffer p)" kHeaderSize] True lb pos
      by (simp add: min_def flip: length_0_conv)
    show ?thesis
      using True lb unfolding load_def s sb
      by (auto simp: cap r1 r2 header_ok_def p_storage_same [OF s] mem)
  qed
qed

lemma load_staged_ok:
  assumes wf: "wf_protocol p" and fits: "payload_fits (p_config p) km em ma"
    and lb: "p_loadBuffer p = payload_bytes km em ma lo cs @ rest"
    and bytes: "bytes = payloadSize (p_config p) n" "length cs = n"
    and crc: "hdr_crc h = NOT (crc32_bytes 0xFFFFFFFF (payload_bytes km em ma lo cs))"
    and cv: "n = 0 \<and> cv' = p_customValue p \<or> n \<noteq> 0 \<and> (\<exists>c c'. p_customValue p = Some c \<and>
      cv_validateState (d_custom d) c cs \<and> cv_loadState (d_custom d) c cs = (True, c') \<and> cv' = Some c')"
  shows "load_staged d p h bytes n = Some (True, (emit (LayoutOptionsChanged lo)
     (p\<lparr>p_keymap := km, p_encoderMap := em, p_macros := ma, p_layoutOptions := lo, p_customValue := cv'\<rparr>))\<lparr>p_dirty := False\<rparr>)"
proof -
  have len: "length (payload_bytes km em ma lo cs) = bytes"
    using length_payload_bytes [OF fits] bytes by simp
  have r1: "mem_read (p_loadBuffer p) 0 bytes = Some (payload_bytes km em ma lo cs)"
    using len by (simp add: lb mem_read_def)
  have "drop (bytes - n) (payload_bytes km em ma lo cs) = cs"
    using len bytes(2) by (simp add: payload_bytes_def)
  then have r2: "mem_read (p_loadBuffer p) (bytes - n) n = Some cs"
    using len bytes by (simp add: lb mem_read_def payloadSize_def)
  define q where "q = (if n = 0 then p else p\<lparr>p_customValue := cv'\<rparr>)"
  have q: "q = p\<lparr>p_customValue := cv'\<rparr>" using cv by (cases p) (auto simp: q_def)
  have pub: "publish q = Some (q\<lparr>p_keymap := km, p_encoderMap := em, p_macros := ma, p_layoutOptions := lo\<rparr>)"
    by (rule publish_eq [where cs = cs and rest = rest])
       (use wf fits lb in \<open>simp_all add: q wf_protocol_def payload_fits_def\<close>)
  have "(if n = 0 then Some (True, p)
          else case p_customValue p of None \<Rightarrow> None
          | Some cv \<Rightarrow>
              if \<not> cv_validateState (d_custom d) cv cs then Some (False, p)
              else let (ok, cv') = cv_loadState (d_custom d) cv cs
                   in Some (ok, p\<lparr>p_customValue := Some cv'\<rparr>)) = Some (True, q)"
    using cv by (cases "n = 0") (auto simp: q_def)
  then show ?thesis
    unfolding load_staged_def r1 r2 by (simp add: crc pub [unfolded q] emit_def q)
qed

lemma payload_decode:
  assumes "length bs = payloadSize c n"
  obtains km em ma lo where "bs = payload_bytes km em ma lo (drop (payloadSize c 0) bs)" "payload_fits c km em ma"
proof -
  let ?k = "keymapBytes c" and ?e = "encoderMapBytes c" and ?m = "unat (cfg_macroBytes c)"
  define r1 where "r1 = drop ?k bs"
  define r2 where "r2 = drop ?e r1"
  define r3 where "r3 = drop ?m r2"
  define b1 b2 b3 b4 where "b1 = take ?k bs" "b2 = take ?e r1" "b3 = take ?m r2" "b4 = take 4 r3"
  note b = this and r = r1_def r2_def r3_def
  have len: "length b1 = ?k" "length b2 = ?e" "length b3 = ?m" "length b4 = 4"
    using assms by (auto simp: b r payloadSize_def)
  have ev: "even ?k" "even ?e" by (simp_all add: keymapBytes_def encoderMapBytes_nat)
  have "bs = b1 @ b2 @ b3 @ b4 @ drop (payloadSize c 0) bs"
  proof -
    have "drop (payloadSize c 0) bs = drop 4 r3" by (simp add: r payloadSize_def ac_simps)
    moreover have "bs = b1 @ r1" "r1 = b2 @ r2" "r2 = b3 @ r3" "r3 = b4 @ drop 4 r3"
      unfolding b r1_def [symmetric] r2_def [symmetric] r3_def [symmetric]
      by (simp_all add: r1_def r2_def r3_def flip: drop_drop)
    ultimately show ?thesis by simp
  qed
  with len ev show thesis
    by (intro that [of "of_bytes16 b1" "of_bytes16 b2" b3 "of_le32 b4"])
       (auto simp: payload_bytes_def payload_fits_def enc le32_of_le32_list length_of_bytes16 keymapBytes_def)
qed

text \<open>\<open>load_staged\<close> never fails; it rejects the payload and leaves the state alone, or publishes
  what the payload denotes.\<close>

lemma load_staged_cases:
  assumes inv: "env_inv sinv cinv p" and sb: "stateBytes d p = Some (bytes, n)"
    and room: "bytes \<le> length (p_loadBuffer p)"
  obtains "load_staged d p h bytes n = Some (False, p)"
  | cv' km em ma lo where
    "hdr_crc h = NOT (crc32_bytes 0xFFFFFFFF (take bytes (p_loadBuffer p)))"
    "take bytes (p_loadBuffer p) = payload_bytes km em ma lo (drop (payloadSize (p_config p) 0) (take bytes (p_loadBuffer p)))"
    "payload_fits (p_config p) km em ma" "pred_option cinv cv'"
    "load_staged d p h bytes n = Some (True, (emit (LayoutOptionsChanged lo)
       (p\<lparr>p_keymap := km, p_encoderMap := em, p_macros := ma, p_layoutOptions := lo, p_customValue := cv'\<rparr>))\<lparr>p_dirty := False\<rparr>)"
proof -
  let ?bs = "take bytes (p_loadBuffer p)"
  let ?cs = "drop (payloadSize (p_config p) 0) ?bs"
  have bytes: "bytes = payloadSize (p_config p) n" using sb by (simp add: stateBytes_iff)
  then have off: "bytes - n = payloadSize (p_config p) 0" by (simp add: payloadSize_def)
  have lenc: "length ?cs = n" using room bytes by (simp add: payloadSize_def)
  have cs: "take n (drop (bytes - n) (p_loadBuffer p)) = ?cs"
    using off bytes by (simp add: drop_take payloadSize_def)
  have r1: "mem_read (p_loadBuffer p) 0 bytes = Some ?bs" using room by (simp add: mem)
  have r2: "mem_read (p_loadBuffer p) (bytes - n) n = Some ?cs"
    using room bytes cs by (simp add: mem_read_def payloadSize_def)
  show thesis
  proof (cases "hdr_crc h = NOT (crc32_bytes 0xFFFFFFFF ?bs)")
    case False
    then have "load_staged d p h bytes n = Some (False, p)" by (simp add: load_staged_def r1)
    then show thesis by (rule that(1))
  next
    case crc: True
    show thesis
    proof (cases "n \<noteq> 0 \<and> (\<forall>cv. p_customValue p = Some cv \<longrightarrow> \<not> cv_validateState (d_custom d) cv ?cs)")
      case True
      with inv sb obtain cv where "p_customValue p = Some cv" by (blast elim: custom_cases)
      with True crc have "load_staged d p h bytes n = Some (False, p)"
        by (simp add: load_staged_def r1 r2)
      then show thesis by (rule that(1))
    next
      case False
      have "\<exists>cv'. pred_option cinv cv' \<and> (n = 0 \<and> cv' = p_customValue p \<or> n \<noteq> 0 \<and> (\<exists>c c'. p_customValue p = Some c \<and>
        cv_validateState (d_custom d) c ?cs \<and> cv_loadState (d_custom d) c ?cs = (True, c') \<and> cv' = Some c'))"
      proof (cases "n = 0")
        case True
        with inv show ?thesis by (auto simp: env_inv_def)
      next
        case n: False
        with inv sb obtain c where c: "p_customValue p = Some c" "cinv c" "n = csize" by (rule custom_cases)
        with False n have v: "cv_validateState (d_custom d) c ?cs" by auto
        with c lenc obtain c' where c': "cv_loadState (d_custom d) c ?cs = (True, c')"
          using validate_load by blast
        with c have "cinv c'" using load_inv by blast
        with c v c' n show ?thesis by (intro exI [of _ "Some c'"]) auto
      qed
      then obtain cv' where cv': "pred_option cinv cv'" "n = 0 \<and> cv' = p_customValue p \<or> n \<noteq> 0 \<and> (\<exists>c c'. p_customValue p = Some c \<and>
        cv_validateState (d_custom d) c ?cs \<and> cv_loadState (d_custom d) c ?cs = (True, c') \<and> cv' = Some c')"
        by blast
      have "length ?bs = payloadSize (p_config p) n" using room bytes by simp
      then obtain km em ma lo where dec: "?bs = payload_bytes km em ma lo ?cs" "payload_fits (p_config p) km em ma"
        by (rule payload_decode)
      have lb: "p_loadBuffer p = payload_bytes km em ma lo ?cs @ drop bytes (p_loadBuffer p)"
        using append_take_drop_id [of bytes "p_loadBuffer p"] dec(1) by simp
      have wf: "wf_protocol p" using inv by (simp add: env_inv_def)
      have h: "hdr_crc h = NOT (crc32_bytes 0xFFFFFFFF (payload_bytes km em ma lo ?cs))"
        using crc dec(1) by simp
      from load_staged_ok [OF wf dec(2) lb bytes lenc h cv'(2)] crc dec cv'(1)
      show thesis by (intro that(2))
    qed
  qed
qed

end

lemma stage_defaults_eq:
  assumes wf: "wf_protocol p" and room: "payloadSize (p_config p) 0 \<le> length (p_loadBuffer p)"
  shows "stage_defaults p = Some (p\<lparr>p_loadBuffer :=
    payload_bytes (p_defaultKeymap p) (p_defaultEncoderMap p) (replicate (unat (cfg_macroBytes (p_config p))) 0)
      (cfg_defaultLayoutOptions (p_config p)) [] @ drop (payloadSize (p_config p) 0) (p_loadBuffer p)\<rparr>)"
proof -
  let ?c = "p_config p" and ?lb = "p_loadBuffer p"
  let ?km = "bytes16 (p_defaultKeymap p)" and ?em = "bytes16 (p_defaultEncoderMap p)"
    and ?ma = "replicate (unat (cfg_macroBytes ?c)) (0::u8)" and ?lo = "le32 (cfg_defaultLayoutOptions ?c)"
  have len: "keymapBytes ?c = length ?km" "encoderMapBytes ?c = length ?em"
    using wf by (auto simp: wf_protocol_def keymapBytes_def)
  have room': "length ?km + length ?em + length ?ma + 4 \<le> length ?lb"
    using room len by (simp add: payloadSize_def)
  define l1 where "l1 = overwrite ?lb 0 ?km"
  define l2 where "l2 = overwrite l1 (length ?km) ?em"
  define l3 where "l3 = overwrite l2 (length ?km + length ?em) ?ma"
  have lens: "length l1 = length ?lb" "length l2 = length ?lb" "length l3 = length ?lb"
    using room' by (simp_all add: l1_def l2_def l3_def)
  have e: "(if length ?em \<noteq> 0 then mem_write l1 (length ?km) ?em else Some l1) = Some l2"
    using room' lens by (auto simp: l2_def mem)
  have m: "(if cfg_macroBytes ?c \<noteq> 0 then mem_write l2 (length ?km + length ?em) ?ma else Some l2) = Some l3"
    using room' lens by (auto simp: l3_def mem)
  have "overwrite l3 (length ?km + length ?em + length ?ma) ?lo = overwrite ?lb 0 (?km @ ?em @ ?ma @ ?lo)"
    using room' by (simp add: l1_def l2_def l3_def overwrite_append_split add.assoc)
  also have "\<dots> = (?km @ ?em @ ?ma @ ?lo) @ drop (payloadSize ?c 0) ?lb"
    using len by (simp add: overwrite_def payloadSize_def ac_simps)
  finally have f: "overwrite l3 (length ?km + length ?em + length ?ma) ?lo =
    payload_bytes (p_defaultKeymap p) (p_defaultEncoderMap p) ?ma (cfg_defaultLayoutOptions ?c) [] @
      drop (payloadSize ?c 0) ?lb"
    by (simp add: payload_bytes_def)
  have w: "mem_write l3 (length ?km + length ?em + length ?ma) ?lo =
      Some (overwrite l3 (length ?km + length ?em + length ?ma) ?lo)"
    using room' lens by (intro mem_write_ok) simp
  have k: "mem_write ?lb 0 ?km = Some l1" using room' by (simp add: l1_def mem)
  show ?thesis
    using e m w k f
    unfolding stage_defaults_def Let_def len
    by (auto simp: mem_read_all split: if_splits)
qed

definition defaults_payload :: "('s, 'c, 't) protocol \<Rightarrow> u8 list \<Rightarrow> u8 list" where
  "defaults_payload p cs = payload_bytes (p_defaultKeymap p) (p_defaultEncoderMap p)
     (replicate (unat (cfg_macroBytes (p_config p))) 0) (cfg_defaultLayoutOptions (p_config p)) cs"

lemma payload_bytes_app: "payload_bytes km em ma lo [] @ cs = payload_bytes km em ma lo cs"
  by (simp add: payload_bytes_def)

lemma defaults_fit:
  "wf_protocol p \<Longrightarrow> payload_fits (p_config p) (p_defaultKeymap p) (p_defaultEncoderMap p)
     (replicate (unat (cfg_macroBytes (p_config p))) 0)"
  by (simp add: wf_protocol_def payload_fits_def)

context protocol_env
begin

lemma stage_cases:
  assumes inv: "env_inv sinv cinv p" and sb: "stateBytes d p = Some (bytes, n)"
    and room: "bytes \<le> length (p_loadBuffer p)"
  obtains p1 valid cs cv lb where "stage_defaults p = Some p1"
    "stage_custom d p1 bytes n = Some (valid, p\<lparr>p_customValue := cv, p_loadBuffer := lb\<rparr>)"
    "lb = defaults_payload p cs @ drop bytes (p_loadBuffer p)" "length cs = n"
    "cv = (if n = 0 then p_customValue p else map_option (cv_reset (d_custom d)) (p_customValue p))"
    "valid \<longleftrightarrow> (\<forall>c. n \<noteq> 0 \<longrightarrow> cv = Some c \<longrightarrow> cv_validateState (d_custom d) c cs)"
proof -
  have wf: "wf_protocol p" using inv by (simp add: env_inv_def)
  have bytes: "bytes = payloadSize (p_config p) n" using sb by (simp add: stateBytes_iff)
  let ?o = "payloadSize (p_config p) 0"
  have off: "bytes = ?o + n" "bytes - n = ?o" using bytes by (simp_all add: payloadSize_def)
  let ?D = "defaults_payload p []" and ?lb = "p_loadBuffer p"
  have D: "length ?D = ?o"
    using length_payload_bytes [OF defaults_fit [OF wf], of _ "[]"] by (simp add: defaults_payload_def)
  define p1 where "p1 = p\<lparr>p_loadBuffer := ?D @ drop ?o ?lb\<rparr>"
  have s1: "stage_defaults p = Some p1"
    using stage_defaults_eq [OF wf] room off by (simp add: p1_def defaults_payload_def)
  show thesis
  proof (cases "n = 0")
    case True
    then have "stage_custom d p1 bytes n = Some (True, p\<lparr>p_customValue := p_customValue p, p_loadBuffer := ?D @ drop ?o ?lb\<rparr>)"
      by (cases p) (simp add: stage_custom_def p1_def)
    with True off s1 show thesis by (intro that [of p1 True _ _ "[]"]) auto
  next
    case False
    with inv sb obtain c where c: "p_customValue p = Some c" "cinv c" "n = csize" by (rule custom_cases)
    let ?c = "cv_reset (d_custom d) c"
    define buf where "buf = take n (drop ?o ?lb)"
    have lbuf: "length buf = n" using room off by (simp add: buf_def)
    obtain saved bs where sv: "cv_saveState (d_custom d) ?c buf = (saved, bs)" by fastforce
    have lbs: "length bs = n" using saveState_length [OF reset_inv [OF c(2)] sv] lbuf by simp
    define cs where "cs = (if saved then bs else replicate n 0)"
    have lcs: "length cs = n" using lbs by (simp add: cs_def)
    have dr: "drop ?o ?lb = buf @ drop bytes ?lb"
      unfolding buf_def off(1) by (simp flip: drop_drop add: add.commute [of ?o])
    have rd: "mem_read (?D @ xs @ zs) ?o n = Some xs" if "length xs = n" for xs zs
      using that D by (simp add: mem_read_def)
    have wr: "mem_write (?D @ ys @ zs) ?o xs = Some (?D @ xs @ zs)" if "length xs = n" "length ys = n" for xs ys zs
      using that D by (simp add: mem_write_def overwrite_def)
    have cfg: "p_loadBuffer p1 = ?D @ buf @ drop bytes ?lb" "p_config p1 = p_config p" "p_customValue p1 = Some c"
      by (simp_all add: p1_def dr c)
    have "stage_custom d p1 bytes n = Some (cv_validateState (d_custom d) ?c cs,
        p1\<lparr>p_customValue := Some ?c, p_loadBuffer := ?D @ cs @ drop bytes ?lb\<rparr>)"
      using False wr [of "replicate n 0" bs] rd [of "replicate n 0"] lbs
      by (cases saved) (simp_all add: stage_custom_def off(2) cfg sv rd lbuf lcs wr cs_def Let_def)
    also have "p1\<lparr>p_customValue := Some ?c, p_loadBuffer := ?D @ cs @ drop bytes ?lb\<rparr> =
        p\<lparr>p_customValue := Some ?c, p_loadBuffer := ?D @ cs @ drop bytes ?lb\<rparr>"
      by (simp add: p1_def)
    finally have "stage_custom d p1 bytes n = Some (cv_validateState (d_custom d) ?c cs,
        p\<lparr>p_customValue := Some ?c, p_loadBuffer := ?D @ cs @ drop bytes ?lb\<rparr>)" .
    with False s1 lcs c show thesis
      by (intro that [of p1 _ _ _ cs]) (auto simp: defaults_payload_def payload_bytes_def)
  qed
qed

end

end
