(* ===== verification/Reset.thy ===== *)
theory Reset
  imports Persist
begin

text \<open>
  What \<open>Protocol::factoryReset\<close>, \<open>load\<close>, \<open>save\<close> and \<open>begin\<close> do over every store and custom
  value that honour their contracts: which outcomes are possible, and what each leaves behind.
\<close>

section \<open>Factory reset\<close>

context storage_contract
begin

lemma reset_writes:
  assumes "sinv s" and "kHeaderSize + length payload \<le> length (view s)" and "payload \<noteq> []"
  obtains s' where
    "write_seq vt s [(0, header_bytes m v l c0), (kHeaderSize, payload), (0, header_bytes m v l c)] = (True, s')"
    "sinv s'" "view s' = header_bytes m v l c @ payload @ drop (kHeaderSize + length payload) (view s)"
proof -
  let ?ws = "[(0, header_bytes m v l c0), (kHeaderSize, payload), (0, header_bytes m v l c)]"
  have "\<forall>(off, bs) \<in> set ?ws. bs \<noteq> [] \<and> off + length bs \<le> length (view s)"
    using assms by (auto simp: header_bytes_def le32_def kHeaderSize_def)
  from write_seq_view [OF assms(1) this] obtain s' where
    "write_seq vt s ?ws = (True, s')" "sinv s'" "view s' = overwrites (view s) ?ws" by blast
  moreover have "overwrites (view s) ?ws =
      header_bytes m v l c @ payload @ drop (kHeaderSize + length payload) (view s)"
    using assms(2) by (simp add: overwrite_def ac_simps)
  ultimately show thesis by (intro that) simp_all
qed

lemma reset_store_cases:
  assumes s: "sinv s" and room: "kHeaderSize + bytes \<le> length (view s)"
    and len: "length payload = bytes" "payload \<noteq> []"
    and r: "reset_store vt s payload bytes = (ok, s')"
  shows "sinv s' \<and> length (view s') = length (view s) \<and>
    (ok \<longrightarrow> take (kHeaderSize + bytes) (view s') = record_bytes payload)"
proof -
  obtain e s1 where e: "st_erase vt s = (e, s1)" by fastforce
  have s1: "sinv s1" "length (view s1) = length (view s)" using erase_view [OF s e] by auto
  have room1: "kHeaderSize + length payload \<le> length (view s1)" using room len s1 by simp
  let ?h = "header_bytes kStateMagic kStateVersion (of_nat bytes)"
  let ?crc = "NOT (crc32_bytes 0xFFFFFFFF payload)"
  obtain s2 where s2: "write_seq vt s1 [(0, ?h 0), (kHeaderSize, payload), (0, ?h ?crc)] = (True, s2)"
    "sinv s2" "view s2 = ?h ?crc @ payload @ drop (kHeaderSize + length payload) (view s1)"
    using reset_writes [OF s1(1) room1 len(2)] by blast
  show ?thesis
  proof (cases e)
    case False
    with r e s1 show ?thesis by (simp add: reset_store_def Let_def)
  next
    case True
    then have c: "st_commit vt s2 = (ok, s')" using r e s2(1) by (simp add: reset_store_def Let_def)
    from commit_view [OF s2(2) c] have "sinv s'" "view s' = view s2" by auto
    with s2(3) room1 s1 len show ?thesis by (simp add: record_bytes_def)
  qed
qed

end

context atomic_storage
begin

lemma reset_store_durable:
  assumes s: "sinv s" and room: "kHeaderSize + bytes \<le> length (view s)"
    and len: "length payload = bytes" "payload \<noteq> []"
    and r: "reset_store vt s payload bytes = (ok, s')"
  shows "durable s' = (if ok then view s' else durable s)"
proof -
  obtain e s1 where e: "st_erase vt s = (e, s1)" by fastforce
  have s1: "sinv s1" "length (view s1) = length (view s)" using erase_view [OF s e] by auto
  have d1: "durable s1 = durable s" using s e by (rule erase_durable)
  have room1: "kHeaderSize + length payload \<le> length (view s1)" using room len s1 by simp
  let ?h = "header_bytes kStateMagic kStateVersion (of_nat bytes)"
  let ?ws = "[(0, ?h 0), (kHeaderSize, payload), (0, ?h (NOT (crc32_bytes 0xFFFFFFFF payload)))]"
  obtain s2 where s2: "write_seq vt s1 ?ws = (True, s2)" "sinv s2"
    using reset_writes [OF s1(1) room1 len(2)] by blast
  have "\<forall>(off, bs) \<in> set ?ws. bs \<noteq> [] \<and> off + length bs \<le> length (view s1)"
    using room1 len by (auto simp: header_bytes_def le32_def kHeaderSize_def)
  then have d2: "durable s2 = durable s" using write_seq_durable [OF s1(1) _ s2(1)] d1 by simp
  show ?thesis
  proof (cases e)
    case False
    with r e d1 show ?thesis by (auto simp: reset_store_def Let_def)
  next
    case True
    then have c: "st_commit vt s2 = (ok, s')" using r e s2(1) by (simp add: reset_store_def Let_def)
    with commit_view [OF s2(2) c] commit_durable [OF s2(2) c] d2 show ?thesis by auto
  qed
qed

end

context protocol_env
begin

lemma factoryReset_cases:
  assumes inv: "env_inv sinv cinv p" and s: "p_storage p = Some s"
    and sb: "stateBytes d p = Some (bytes, n)"
    and lb: "loadBufferValid (p_config p) bytes" and room: "kHeaderSize + bytes \<le> length (view s)"
  obtains (rejected) cv buf where
    "factoryReset d p = Some (False, p\<lparr>p_customValue := cv, p_loadBuffer := buf\<rparr>)"
    "cv = (if n = 0 then p_customValue p else map_option (cv_reset (d_custom d)) (p_customValue p))"
    "length buf = length (p_loadBuffer p)"
  | (not_stored) cv buf cs s' where
    "factoryReset d p = Some (False, p\<lparr>p_customValue := cv, p_loadBuffer := buf, p_storage := Some s'\<rparr>)"
    "cv = (if n = 0 then p_customValue p else map_option (cv_reset (d_custom d)) (p_customValue p))"
    "reset_store (d_storage d) s (defaults_payload p cs) bytes = (False, s')"
    "length (defaults_payload p cs) = bytes" "length buf = length (p_loadBuffer p)"
  | (stored) cv buf cs s' where
    "factoryReset d p = Some (True, emit Changed (emit (LayoutOptionsChanged (cfg_defaultLayoutOptions (p_config p)))
       (p\<lparr>p_customValue := cv, p_loadBuffer := buf, p_storage := Some s',
         p_keymap := p_defaultKeymap p, p_encoderMap := p_defaultEncoderMap p,
         p_macros := replicate (unat (cfg_macroBytes (p_config p))) 0,
         p_layoutOptions := cfg_defaultLayoutOptions (p_config p), p_dirty := False\<rparr>)))"
    "pred_option cinv cv" "reset_store (d_storage d) s (defaults_payload p cs) bytes = (True, s')"
    "length (defaults_payload p cs) = bytes" "length buf = length (p_loadBuffer p)"
proof -
  have wf: "wf_protocol p" and sinv: "sinv s" using inv s by (auto simp: env_inv_def)
  have bytes: "bytes = payloadSize (p_config p) n" using sb by (simp add: stateBytes_iff)
  have buf: "bytes \<le> length (p_loadBuffer p)" using lb wf by (rule loadBufferValid_room)
  obtain p1 valid cs cv lb' where st: "stage_defaults p = Some p1"
    "stage_custom d p1 bytes n = Some (valid, p\<lparr>p_customValue := cv, p_loadBuffer := lb'\<rparr>)"
    "lb' = defaults_payload p cs @ drop bytes (p_loadBuffer p)" "length cs = n"
    "cv = (if n = 0 then p_customValue p else map_option (cv_reset (d_custom d)) (p_customValue p))"
    "valid \<longleftrightarrow> (\<forall>c. n \<noteq> 0 \<longrightarrow> cv = Some c \<longrightarrow> cv_validateState (d_custom d) c cs)"
    using inv sb buf by (rule stage_cases)
  have D: "length (defaults_payload p cs) = bytes"
    using length_payload_bytes [OF defaults_fit [OF wf]] st(4) bytes by (simp add: defaults_payload_def)
  have L: "length lb' = length (p_loadBuffer p)" using D buf st(3) by simp
  have rd: "mem_read lb' 0 bytes = Some (defaults_payload p cs)" using D st(3) by (simp add: mem_read_def)
  have "drop (bytes - n) (defaults_payload p cs) = cs"
    using D st(4) by (simp add: defaults_payload_def payload_bytes_def)
  then have rc: "mem_read lb' (bytes - n) n = Some cs"
    using D st(3,4) bytes by (simp add: mem_read_def payloadSize_def)
  obtain ok s' where rs: "reset_store (d_storage d) s (defaults_payload p cs) bytes = (ok, s')" by fastforce
  have guard: "\<not> (\<not> loadBufferValid (p_config p) bytes \<or> st_capacity (d_storage d) s < kHeaderSize + bytes)"
    using lb room capacity_view [OF sinv] by simp
  have upd: "p\<lparr>p_loadBuffer := a, p_storage := b, p_customValue := c\<rparr> =
      p\<lparr>p_customValue := c, p_loadBuffer := a, p_storage := b\<rparr>" for a b c
    by (cases p) simp
  have eq: "factoryReset d p = (if \<not> valid then Some (False, p\<lparr>p_customValue := cv, p_loadBuffer := lb'\<rparr>)
     else if \<not> ok then Some (False, p\<lparr>p_customValue := cv, p_loadBuffer := lb', p_storage := Some s'\<rparr>)
     else do {
       p4 \<leftarrow> (if n = 0 then Some (p\<lparr>p_customValue := cv, p_loadBuffer := lb', p_storage := Some s'\<rparr>)
              else case cv of None \<Rightarrow> None
              | Some c \<Rightarrow> Some (p\<lparr>p_customValue := Some (snd (cv_loadState (d_custom d) c cs)),
                  p_loadBuffer := lb', p_storage := Some s'\<rparr>));
       p5 \<leftarrow> publish p4;
       let p6 = p5\<lparr>p_dirty := False\<rparr>;
       Some (True, emit Changed (emit (LayoutOptionsChanged (p_layoutOptions p6)) p6))
     })"
    using guard unfolding factoryReset_def s sb
    by (cases cv) (simp_all add: st(1,2) rd rc rs Let_def upd)
  show thesis
  proof (cases "valid \<and> ok")
    case False
    with eq st(5) rs D L show thesis by (cases valid) (auto intro: rejected [where buf = lb'] not_stored [where buf = lb'])
  next
    case True
    define cv' where "cv' = (if n = 0 then cv else map_option (\<lambda>c. snd (cv_loadState (d_custom d) c cs)) cv)"
    have cinv: "pred_option cinv cv" using inv st(5) reset_inv by (cases "p_customValue p") (auto simp: env_inv_def)
    have cv': "pred_option cinv cv'"
      using cinv load_inv by (cases cv) (auto simp: cv'_def, metis prod.collapse)
    have some: "n \<noteq> 0 \<Longrightarrow> cv \<noteq> None" using inv sb st(5) by (metis custom_cases map_option_is_None not_None_eq)
    define p4 where "p4 = p\<lparr>p_customValue := cv', p_loadBuffer := lb', p_storage := Some s'\<rparr>"
    have "publish p4 = Some (p4\<lparr>p_keymap := p_defaultKeymap p, p_encoderMap := p_defaultEncoderMap p,
         p_macros := replicate (unat (cfg_macroBytes (p_config p))) 0,
         p_layoutOptions := cfg_defaultLayoutOptions (p_config p)\<rparr>)"
      by (rule publish_eq [where cs = cs and rest = "drop bytes (p_loadBuffer p)"])
         (use wf L in \<open>simp_all add: p4_def wf_protocol_def payload_fits_def st(3) defaults_payload_def\<close>)
    then have "factoryReset d p = Some (True, emit Changed (emit (LayoutOptionsChanged (cfg_defaultLayoutOptions (p_config p)))
       (p\<lparr>p_customValue := cv', p_loadBuffer := lb', p_storage := Some s',
         p_keymap := p_defaultKeymap p, p_encoderMap := p_defaultEncoderMap p,
         p_macros := replicate (unat (cfg_macroBytes (p_config p))) 0,
         p_layoutOptions := cfg_defaultLayoutOptions (p_config p), p_dirty := False\<rparr>)))"
      using eq True some by (cases cv) (auto simp: p4_def cv'_def)
    with cv' rs True D L show thesis by (intro stored [where buf = lb']) simp_all
  qed
qed

end

end
