(* ===== verification/Dispatch.thy ===== *)
theory Dispatch
  imports Reset
begin

text \<open>
  The command dispatcher \<open>Protocol::process\<close> and the main-loop step \<open>Protocol::task\<close>
  (\<open>src/VIA_Protocol.cpp\<close>).  One definition per command whose body is more than an assignment;
  \<open>process_cmd\<close> is the switch.  A packet is a list of 32 bytes.
\<close>

section \<open>Commands\<close>

definition kProtocolVersion :: u8 where "kProtocolVersion = 0x0D"

definition fail_packet :: "u8 list \<Rightarrow> u8 list" where "fail_packet pkt = pkt[0 := 0xFF]"

definition put_be32 :: "u8 list \<Rightarrow> u32 \<Rightarrow> u8 list" where
  "put_be32 pkt v = pkt[2 := ucast (drop_bit 24 v), 3 := ucast (drop_bit 16 v),
     4 := ucast (drop_bit 8 v), 5 := ucast v]"

text \<open>Switch matrix state: 28 bytes, as many whole rows as fit, most significant byte first.\<close>

definition row_word :: "('s, 'c, 't) deps \<Rightarrow> ('s, 'c, 't) protocol \<Rightarrow> nat \<Rightarrow> u32" where
  "row_word d p row =
     (if cfg_matrixStateEnabled (p_config p) \<and> p_callbacks p \<and> row < unat (cfg_rows (p_config p))
      then d_matrixRow d (of_nat row) else 0)"

definition put_row :: "nat \<Rightarrow> u32 \<Rightarrow> u8 list \<times> nat \<Rightarrow> (u8 list \<times> nat) option" where
  "put_row bytesPerRow rowData = for_up 0 bytesPerRow (\<lambda>b (out, outIndex). do {
     out \<leftarrow> arr_set out outIndex (ucast (drop_bit (8 * (bytesPerRow - b - 1)) rowData));
     Some (out, outIndex + 1)
   })"

definition matrix_state :: "('s, 'c, 't) deps \<Rightarrow> ('s, 'c, 't) protocol \<Rightarrow> u8 list \<Rightarrow> u8 list option" where
  "matrix_state d p pkt =
     (let bytesPerRow = (unat (cfg_columns (p_config p)) + 7) div 8 in
      if bytesPerRow = 0 \<or> bytesPerRow > 4 then Some (fail_packet pkt)
      else do {
        let maxRows = 28 div bytesPerRow;
        let startRow = unat (pkt ! 2);
        (out, outIndex) \<leftarrow>
          for_up 0 maxRows (\<lambda>i. put_row bytesPerRow (row_word d p (startRow + i))) (pkt, 3);
        for_up outIndex (kPacketSize - outIndex) (\<lambda>j out. arr_set out j 0) out
      })"

definition get_keyboard_value ::
  "('s, 'c, 't) deps \<Rightarrow> ('s, 'c, 't) protocol \<Rightarrow> u8 list \<Rightarrow> u32 \<Rightarrow> u8 list option" where
  "get_keyboard_value d p pkt nowMs =
     (if pkt ! 1 = 0x01 then Some (put_be32 pkt nowMs)
      else if pkt ! 1 = 0x02 then Some (put_be32 pkt (p_layoutOptions p))
      else if pkt ! 1 = 0x03 then matrix_state d p pkt
      else if pkt ! 1 = 0x04 then Some (put_be32 pkt (cfg_firmwareVersion (p_config p)))
      else if pkt ! 1 = 0x06 then Some (pkt[2 := 0, 3 := 0, 4 := 0, 5 := 8])
      else Some (fail_packet pkt))"

definition set_keyboard_value ::
  "('s, 'c, 't) protocol \<Rightarrow> u8 list \<Rightarrow> u32 \<Rightarrow> u8 list \<times> ('s, 'c, 't) protocol" where
  "set_keyboard_value p pkt nowMs =
     (if pkt ! 1 = 0x05 then (pkt, emit (DeviceIndication (pkt ! 2)) p)
      else if pkt ! 1 = 0x02 then
        let p1 = markDirty (p\<lparr>p_layoutOptions := of_be32 (pkt ! 2) (pkt ! 3) (pkt ! 4) (pkt ! 5)\<rparr>) nowMs
        in (pkt, emit (LayoutOptionsChanged (p_layoutOptions p1)) p1)
      else (fail_packet pkt, p))"

definition keymap_reset ::
  "('s, 'c, 't) protocol \<Rightarrow> u32 \<Rightarrow> ('s, 'c, 't) protocol option" where
  "keymap_reset p nowMs = do {
     km \<leftarrow> mem_read (bytes16 (p_defaultKeymap p)) 0 (keymapBytes (p_config p));
     km' \<leftarrow> memcpy16 (p_keymap p) km;
     em' \<leftarrow> (if encoderMapBytes (p_config p) \<noteq> 0
             then do { em \<leftarrow> mem_read (bytes16 (p_defaultEncoderMap p)) 0 (encoderMapBytes (p_config p));
                       memcpy16 (p_encoderMap p) em }
             else Some (p_encoderMap p));
     Some (markDirty (p\<lparr>p_keymap := km', p_encoderMap := em'\<rparr>) nowMs)
   }"

text \<open>The size field of the buffer commands, capped at the 28 bytes a packet has room for.\<close>

definition chunk :: "u8 list \<Rightarrow> nat" where
  "chunk pkt = (if pkt ! 3 > 28 then 28 else unat (pkt ! 3))"

definition macro_get :: "('s, 'c, 't) protocol \<Rightarrow> u8 list \<Rightarrow> u8 list option" where
  "macro_get p pkt =
     (let offset = unat (be16 (pkt ! 1) (pkt ! 2)) in
      for_up 0 (chunk pkt) (\<lambda>i out.
        if offset + i < unat (cfg_macroBytes (p_config p))
        then do { v \<leftarrow> arr_get (p_macros p) (offset + i); arr_set out (4 + i) v }
        else arr_set out (4 + i) 0) pkt)"

definition macro_set ::
  "('s, 'c, 't) protocol \<Rightarrow> u8 list \<Rightarrow> u32 \<Rightarrow> ('s, 'c, 't) protocol option" where
  "macro_set p pkt nowMs = do {
     let offset = unat (be16 (pkt ! 1) (pkt ! 2));
     (ma, wrote) \<leftarrow> for_up 0 (chunk pkt) (\<lambda>i (ma, wrote).
       if offset + i < unat (cfg_macroBytes (p_config p))
       then do { v \<leftarrow> arr_get pkt (4 + i); ma \<leftarrow> arr_set ma (offset + i) v; Some (ma, True) }
       else Some (ma, wrote)) (p_macros p, False);
     let p1 = p\<lparr>p_macros := ma\<rparr>;
     Some (if wrote then markDirty p1 nowMs else p1)
   }"

definition macro_reset :: "('s, 'c, 't) protocol \<Rightarrow> u32 \<Rightarrow> ('s, 'c, 't) protocol option" where
  "macro_reset p nowMs = do {
     ma \<leftarrow> (if cfg_macroBytes (p_config p) \<noteq> 0
            then mem_write (p_macros p) 0 (replicate (unat (cfg_macroBytes (p_config p))) 0)
            else Some (p_macros p));
     Some (markDirty (p\<lparr>p_macros := ma\<rparr>) nowMs)
   }"

definition custom_set_cmd ::
  "('s, 'c, 't) deps \<Rightarrow> ('s, 'c, 't) protocol \<Rightarrow> u8 list \<Rightarrow> u32 \<Rightarrow> u8 list \<times> ('s, 'c, 't) protocol" where
  "custom_set_cmd d p pkt nowMs =
     (case p_customValue p of None \<Rightarrow> (fail_packet pkt, p)
      | Some cv \<Rightarrow> (case cv_set (d_custom d) cv pkt of (ok, pkt', cv') \<Rightarrow>
          let p1 = p\<lparr>p_customValue := Some cv'\<rparr>
          in if ok then (pkt', markDirty p1 nowMs) else (fail_packet pkt', p1)))"

definition custom_get_cmd ::
  "('s, 'c, 't) deps \<Rightarrow> ('s, 'c, 't) protocol \<Rightarrow> u8 list \<Rightarrow> u8 list \<times> ('s, 'c, 't) protocol" where
  "custom_get_cmd d p pkt =
     (case p_customValue p of None \<Rightarrow> (fail_packet pkt, p)
      | Some cv \<Rightarrow> (case cv_get (d_custom d) cv pkt of (ok, pkt', cv') \<Rightarrow>
          (if ok then pkt' else fail_packet pkt', p\<lparr>p_customValue := Some cv'\<rparr>)))"

definition eeprom_commit_cmd ::
  "('s, 'c, 't) deps \<Rightarrow> ('s, 'c, 't) protocol \<Rightarrow> u8 list \<Rightarrow> (u8 list \<times> ('s, 'c, 't) protocol) option" where
  "eeprom_commit_cmd d p pkt =
     (case p_customValue p of None \<Rightarrow> Some (fail_packet pkt, p)
      | Some cv \<Rightarrow> (case cv_save (d_custom d) cv pkt of (ok, pkt', cv') \<Rightarrow>
          let p1 = p\<lparr>p_customValue := Some cv'\<rparr> in
          if \<not> ok then Some (fail_packet pkt', p1)
          else do {
            (saved, p2) \<leftarrow> save d p1;
            Some (if saved then pkt' else fail_packet pkt', p2)
          }))"

definition eeprom_reset_cmd ::
  "('s, 'c, 't) deps \<Rightarrow> ('s, 'c, 't) protocol \<Rightarrow> u8 list \<Rightarrow> (u8 list \<times> ('s, 'c, 't) protocol) option" where
  "eeprom_reset_cmd d p pkt =
     (if \<not> cfg_eepromResetEnabled (p_config p) then Some (fail_packet pkt, p)
      else do {
        (ok, p1) \<leftarrow> factoryReset d p;
        Some (if ok then pkt else fail_packet pkt, p1)
      })"

definition bootloader_cmd ::
  "('s, 'c, 't) deps \<Rightarrow> ('s, 'c, 't) protocol \<Rightarrow> u8 list \<Rightarrow> (u8 list \<times> ('s, 'c, 't) protocol) option" where
  "bootloader_cmd d p pkt =
     (if \<not> cfg_bootloaderEnabled (p_config p) \<or> \<not> p_callbacks p then Some (fail_packet pkt, p)
      else if p_dirty p then do {
        (ok, p1) \<leftarrow> save d p;
        Some (if ok then pkt else fail_packet pkt, p1)
      }
      else Some (pkt, p))"

definition set_keycode_cmd ::
  "('s, 'c, 't) protocol \<Rightarrow> u8 list \<Rightarrow> u32 \<Rightarrow> (u8 list \<times> ('s, 'c, 't) protocol) option" where
  "set_keycode_cmd p pkt nowMs = do {
     (ok, p1) \<leftarrow> setKeycode p (pkt ! 1) (pkt ! 2) (pkt ! 3) (be16 (pkt ! 4) (pkt ! 5));
     Some (if ok then (pkt, markDirty p1 nowMs) else (fail_packet pkt, p1))
   }"

definition get_encoder_cmd :: "('s, 'c, 't) protocol \<Rightarrow> u8 list \<Rightarrow> u8 list option" where
  "get_encoder_cmd p pkt =
     (if cfg_layers (p_config p) \<le> pkt ! 1 \<or> cfg_encoderCount (p_config p) \<le> pkt ! 2 \<or> pkt ! 3 > 1
      then Some (fail_packet pkt)
      else do {
        code \<leftarrow> encoderKeycode p (pkt ! 1) (pkt ! 2) (pkt ! 3);
        Some (pkt[4 := hi8 code, 5 := lo8 code])
      })"

definition set_encoder_cmd ::
  "('s, 'c, 't) protocol \<Rightarrow> u8 list \<Rightarrow> u32 \<Rightarrow> (u8 list \<times> ('s, 'c, 't) protocol) option" where
  "set_encoder_cmd p pkt nowMs = do {
     (ok, p1) \<leftarrow> setEncoderKeycode p (pkt ! 1) (pkt ! 2) (pkt ! 3) (be16 (pkt ! 4) (pkt ! 5));
     Some (if ok then (pkt, markDirty p1 nowMs) else (fail_packet pkt, p1))
   }"

section \<open>The switch\<close>

definition process_cmd ::
  "('s, 'c, 't) deps \<Rightarrow> ('s, 'c, 't) protocol \<Rightarrow> u8 list \<Rightarrow> u32 \<Rightarrow>
   (u8 list \<times> ('s, 'c, 't) protocol) option" where
  "process_cmd d p pkt nowMs =
     (let cmd = pkt ! 0; c = p_config p; keep = map_option (\<lambda>pkt'. (pkt', p));
          reply = map_option (\<lambda>p'. (pkt, p')) in
      if cmd = 0x01 then Some (pkt[1 := 0, 2 := kProtocolVersion], p)
      else if cmd = 0x02 then keep (get_keyboard_value d p pkt nowMs)
      else if cmd = 0x03 then Some (set_keyboard_value p pkt nowMs)
      else if cmd = 0x04 then do {
        code \<leftarrow> keycode p (pkt ! 1) (pkt ! 2) (pkt ! 3);
        Some (pkt[4 := hi8 code, 5 := lo8 code], p) }
      else if cmd = 0x05 then set_keycode_cmd p pkt nowMs
      else if cmd = 0x06 then reply (keymap_reset p nowMs)
      else if cmd = 0x07 then Some (custom_set_cmd d p pkt nowMs)
      else if cmd = 0x08 then Some (custom_get_cmd d p pkt)
      else if cmd = 0x09 then eeprom_commit_cmd d p pkt
      else if cmd = 0x0A then eeprom_reset_cmd d p pkt
      else if cmd = 0x0B then bootloader_cmd d p pkt
      else if cmd = 0x0C then Some (pkt[1 := cfg_macroCount c], p)
      else if cmd = 0x0D then
        Some (pkt[1 := hi8 (cfg_macroBytes c), 2 := lo8 (cfg_macroBytes c)], p)
      else if cmd = 0x0E then keep (macro_get p pkt)
      else if cmd = 0x0F then reply (macro_set p pkt nowMs)
      else if cmd = 0x10 then reply (macro_reset p nowMs)
      else if cmd = 0x11 then Some (pkt[1 := cfg_layers c], p)
      else if cmd = 0x12 then keep (readDynamicKeymap p (be16 (pkt ! 1) (pkt ! 2)) (chunk pkt) 4 pkt)
      else if cmd = 0x13 then
        reply (writeDynamicKeymap p (be16 (pkt ! 1) (pkt ! 2)) (chunk pkt) 4 pkt nowMs)
      else if cmd = 0x14 then keep (get_encoder_cmd p pkt)
      else if cmd = 0x15 then set_encoder_cmd p pkt nowMs
      else Some (fail_packet pkt, p))"

text \<open>The result, the packet as the caller finds it, and the new state.\<close>

definition process ::
  "('s, 'c, 't) deps \<Rightarrow> ('s, 'c, 't) protocol \<Rightarrow> u8 list \<Rightarrow> u32 \<Rightarrow>
   (bool \<times> u8 list \<times> ('s, 'c, 't) protocol) option" where
  "process d p pkt nowMs =
     map_option (\<lambda>(pkt', p'). (pkt' ! 0 \<noteq> 0xFF, pkt', p')) (process_cmd d p pkt nowMs)"

section \<open>The main-loop step\<close>

definition task_receive ::
  "('s, 'c, 't) deps \<Rightarrow> ('s, 'c, 't) protocol \<Rightarrow> u32 \<Rightarrow> ('s, 'c, 't) protocol option" where
  "task_receive d p nowMs =
     (if \<not> p_responsePending p \<and> \<not> p_bootloaderPending p then
        (case tp_receive (d_transport d) (p_transport p) (p_pendingResponse p) of (got, pkt, t) \<Rightarrow>
           let p1 = p\<lparr>p_transport := t, p_pendingResponse := pkt\<rparr> in
           if \<not> got then Some p1
           else do {
             let bootloaderRequest = (pkt ! 0 = 0x0B \<and> cfg_bootloaderEnabled (p_config p1));
             (processed, pkt', p2) \<leftarrow> process d p1 pkt nowMs;
             Some (p2\<lparr>p_pendingResponse := pkt',
                      p_bootloaderPending := bootloaderRequest \<and> processed,
                      p_responsePending := True\<rparr>)
           })
      else Some p)"

definition task_send :: "('s, 'c, 't) deps \<Rightarrow> ('s, 'c, 't) protocol \<Rightarrow> ('s, 'c, 't) protocol" where
  "task_send d p =
     (if p_responsePending p then
        (case tp_send (d_transport d) (p_transport p) (p_pendingResponse p) of (sent, t) \<Rightarrow>
           p\<lparr>p_transport := t, p_responsePending := \<not> sent\<rparr>)
      else p)"

text \<open>\<open>callbacks->bootloaderJump()\<close> does not test the pointer.\<close>

definition task_jump :: "('s, 'c, 't) deps \<Rightarrow> ('s, 'c, 't) protocol \<Rightarrow> ('s, 'c, 't) protocol option" where
  "task_jump d p =
     (if \<not> p_responsePending p \<and> p_bootloaderPending p then
        (case tp_sendComplete (d_transport d) (p_transport p) of (complete, t) \<Rightarrow>
           let p1 = p\<lparr>p_transport := t\<rparr> in
           if \<not> complete then Some p1
           else if \<not> p_callbacks p1 then None
           else Some (emit BootloaderJump (p1\<lparr>p_bootloaderPending := False\<rparr>)))
      else Some p)"

definition task_save ::
  "('s, 'c, 't) deps \<Rightarrow> ('s, 'c, 't) protocol \<Rightarrow> u32 \<Rightarrow> ('s, 'c, 't) protocol option" where
  "task_save d p nowMs =
     (if p_dirty p \<and> 0 \<le> sint (nowMs - p_saveAt p) then map_option snd (save d p) else Some p)"

definition protocol_task ::
  "('s, 'c, 't) deps \<Rightarrow> ('s, 'c, 't) protocol \<Rightarrow> u32 \<Rightarrow> ('s, 'c, 't) protocol option" where
  "protocol_task d p nowMs = do {
     p1 \<leftarrow> task_receive d p nowMs;
     p2 \<leftarrow> task_jump d (task_send d p1);
     task_save d p2 nowMs
   }"

end
