(* ===== verification/Core_Invariant.thy ===== *)
theory Core_Invariant
  imports Dispatch
begin

text \<open>
  The invariant of the protocol core and its preservation: \<open>env_inv\<close> (arrays have the sizes the
  configuration states, the collaborators are in valid states) is kept by every operation, no
  operation leaves its arrays, and no operation touches the configuration, the defaults or the
  packet exchange other than as \<open>keeps\<close> says.
\<close>

section \<open>The frame\<close>

definition keeps :: "('s, 'c, 't) protocol \<Rightarrow> ('s, 'c, 't) protocol \<Rightarrow> bool" where
  "keeps p p' \<longleftrightarrow> p_config p' = p_config p \<and> p_defaultKeymap p' = p_defaultKeymap p \<and>
     p_defaultEncoderMap p' = p_defaultEncoderMap p \<and> p_transport p' = p_transport p \<and>
     p_callbacks p' = p_callbacks p \<and> p_pendingResponse p' = p_pendingResponse p \<and>
     p_responsePending p' = p_responsePending p \<and> p_bootloaderPending p' = p_bootloaderPending p \<and>
     (\<exists>es. p_calls p' = p_calls p @ es \<and> BootloaderJump \<notin> set es)"

lemma keeps_refl [simp]: "keeps p p"
  by (simp add: keeps_def)

lemma keeps_trans: "keeps p q \<Longrightarrow> keeps q r \<Longrightarrow> keeps p r"
  by (fastforce simp: keeps_def)

lemma emit_sel [frame]:
  "p_config (emit e p) = p_config p" "p_keymap (emit e p) = p_keymap p"
  "p_defaultKeymap (emit e p) = p_defaultKeymap p" "p_encoderMap (emit e p) = p_encoderMap p"
  "p_defaultEncoderMap (emit e p) = p_defaultEncoderMap p" "p_macros (emit e p) = p_macros p"
  "p_loadBuffer (emit e p) = p_loadBuffer p" "p_transport (emit e p) = p_transport p"
  "p_storage (emit e p) = p_storage p" "p_customValue (emit e p) = p_customValue p"
  "p_callbacks (emit e p) = p_callbacks p" "p_dirty (emit e p) = p_dirty p"
  "p_saveAt (emit e p) = p_saveAt p" "p_layoutOptions (emit e p) = p_layoutOptions p"
  "p_pendingResponse (emit e p) = p_pendingResponse p"
  "p_responsePending (emit e p) = p_responsePending p"
  "p_bootloaderPending (emit e p) = p_bootloaderPending p"
  "p_calls (emit e p) = p_calls p @ (if p_callbacks p then [e] else [])"
  by (simp_all add: emit_def)

lemma markDirty_sel [frame]:
  "p_config (markDirty p now) = p_config p" "p_keymap (markDirty p now) = p_keymap p"
  "p_defaultKeymap (markDirty p now) = p_defaultKeymap p" "p_encoderMap (markDirty p now) = p_encoderMap p"
  "p_defaultEncoderMap (markDirty p now) = p_defaultEncoderMap p" "p_macros (markDirty p now) = p_macros p"
  "p_loadBuffer (markDirty p now) = p_loadBuffer p" "p_transport (markDirty p now) = p_transport p"
  "p_storage (markDirty p now) = p_storage p" "p_customValue (markDirty p now) = p_customValue p"
  "p_callbacks (markDirty p now) = p_callbacks p" "p_dirty (markDirty p now) = True"
  "p_saveAt (markDirty p now) = now + cfg_autoSaveMs (p_config p)"
  "p_layoutOptions (markDirty p now) = p_layoutOptions p"
  "p_pendingResponse (markDirty p now) = p_pendingResponse p"
  "p_responsePending (markDirty p now) = p_responsePending p"
  "p_bootloaderPending (markDirty p now) = p_bootloaderPending p"
  "p_calls (markDirty p now) = p_calls p @ (if p_callbacks p then [Changed] else [])"
  by (simp_all add: markDirty_def frame)

lemma keeps_emit: "e \<noteq> BootloaderJump \<Longrightarrow> keeps p (emit e p)"
  by (auto simp: keeps_def frame)

lemma keeps_markDirty: "keeps p (markDirty p now)"
  by (auto simp: keeps_def frame)

lemma keeps_update:
  "keeps p (p\<lparr>p_keymap := a\<rparr>)" "keeps p (p\<lparr>p_encoderMap := a\<rparr>)" "keeps p (p\<lparr>p_macros := b\<rparr>)"
  "keeps p (p\<lparr>p_loadBuffer := b\<rparr>)" "keeps p (p\<lparr>p_storage := c\<rparr>)" "keeps p (p\<lparr>p_customValue := e\<rparr>)"
  "keeps p (p\<lparr>p_layoutOptions := f\<rparr>)" "keeps p (p\<lparr>p_dirty := g\<rparr>)" "keeps p (p\<lparr>p_saveAt := f\<rparr>)"
  by (simp_all add: keeps_def)

text \<open>An operation that ends well: it returns, keeps the invariant and respects the frame.\<close>

definition sound ::
  "('s \<Rightarrow> bool) \<Rightarrow> ('c \<Rightarrow> bool) \<Rightarrow> ('s, 'c, 't) protocol \<Rightarrow> ('s, 'c, 't) protocol \<Rightarrow> bool" where
  "sound sinv cinv p p' \<longleftrightarrow> env_inv sinv cinv p' \<and> keeps p p'"

lemma sound_trans: "sound sinv cinv p q \<Longrightarrow> sound sinv cinv q r \<Longrightarrow> sound sinv cinv p r"
  by (auto simp: sound_def intro: keeps_trans)

lemma env_inv_emit [simp]: "env_inv sinv cinv (emit e p) = env_inv sinv cinv p"
  by (simp add: env_inv_def wf_protocol_def frame)

lemma env_inv_markDirty [simp]: "env_inv sinv cinv (markDirty p now) = env_inv sinv cinv p"
  by (simp add: env_inv_def wf_protocol_def frame)

lemma sound_markDirty: "env_inv sinv cinv p \<Longrightarrow> sound sinv cinv p (markDirty p now)"
  by (simp add: sound_def keeps_markDirty)

lemma sound_emit: "env_inv sinv cinv p \<Longrightarrow> e \<noteq> BootloaderJump \<Longrightarrow> sound sinv cinv p (emit e p)"
  by (simp add: sound_def keeps_emit)

section \<open>Persistence operations\<close>

text \<open>A store whose header and CRC are accepted starts with a record.\<close>

lemma view_record:
  assumes "kHeaderSize + bytes \<le> length v" "header_ok (take kHeaderSize v) bytes"
    and "hdr_crc (take kHeaderSize v) = NOT (crc32_bytes 0xFFFFFFFF (take bytes (drop kHeaderSize v)))"
  shows "v = record_bytes (take bytes (drop kHeaderSize v)) @ drop (kHeaderSize + bytes) v"
proof -
  let ?h = "take kHeaderSize v"
  have len: "length ?h = kHeaderSize" "length (take bytes (drop kHeaderSize v)) = bytes" using assms(1) by simp_all
  have "of_nat bytes = hdr_payloadSize ?h" using assms(2) by (auto simp: header_ok_def)
  then have "record_bytes (take bytes (drop kHeaderSize v)) = ?h @ take bytes (drop kHeaderSize v)"
    using assms(2,3) len header_bytes_fields [OF len(1)] by (simp add: record_bytes_def header_ok_def)
  then show ?thesis using append_take_drop_id [of kHeaderSize v] append_take_drop_id [of bytes "drop kHeaderSize v"]
    by (simp add: add.commute)
qed

context protocol_env
begin

lemma load_cases:
  assumes inv: "env_inv sinv cinv p"
  obtains (failed) buf where "load d p = Some (False, p\<lparr>p_loadBuffer := buf\<rparr>)"
      "length buf = length (p_loadBuffer p)"
  | (loaded) cv km em ma lo buf where
    "payload_fits (p_config p) km em ma" "pred_option cinv cv" "length buf = length (p_loadBuffer p)"
    "\<exists>s cs rest. p_storage p = Some s \<and> view s = record_bytes (payload_bytes km em ma lo cs) @ rest"
    "load d p = Some (True, (emit (LayoutOptionsChanged lo)
       (p\<lparr>p_loadBuffer := buf, p_keymap := km, p_encoderMap := em, p_macros := ma,
          p_layoutOptions := lo, p_customValue := cv\<rparr>))\<lparr>p_dirty := False\<rparr>)"
proof (cases "p_storage p = None \<or> stateBytes d p = None")
  case True
  then have "load d p = Some (False, p)" by (auto simp: load_def split: option.splits)
  then show thesis by (intro failed [of "p_loadBuffer p"]) simp_all
next
  case False
  then obtain s bytes n where s: "p_storage p = Some s" and sb: "stateBytes d p = Some (bytes, n)" by auto
  have wf: "wf_protocol p" using inv by (simp add: env_inv_def)
  show thesis
  proof (cases "\<not> loadBufferValid (p_config p) bytes \<or> length (view s) < kHeaderSize + bytes \<or>
        \<not> header_ok (take kHeaderSize (view s)) bytes")
    case True
    then have "load d p = Some (False, p)" using load_eq [OF inv s sb] by simp
    then show thesis by (intro failed [of "p_loadBuffer p"]) simp_all
  next
    case False
    define buf where "buf = overwrite (p_loadBuffer p) 0 (take bytes (drop kHeaderSize (view s)))"
    define p1 where "p1 = p\<lparr>p_loadBuffer := buf\<rparr>"
    have room: "bytes \<le> length (p_loadBuffer p)" using False wf by (blast intro: loadBufferValid_room)
    have len: "length buf = length (p_loadBuffer p)" using False room by (simp add: buf_def)
    have inv1: "env_inv sinv cinv p1" using inv len by (simp add: p1_def env_inv_def wf_protocol_def)
    have sb1: "stateBytes d p1 = Some (bytes, n)" using sb by (simp add: p1_def stateBytes_def)
    have ld: "load d p = load_staged d p1 (take kHeaderSize (view s)) bytes n"
      using load_eq [OF inv s sb] False by (simp add: p1_def buf_def)
    have room1: "bytes \<le> length (p_loadBuffer p1)" using room len by (simp add: p1_def)
    from load_staged_cases [OF inv1 sb1 room1, of "take kHeaderSize (view s)"] show thesis
    proof cases
      case 1
      with ld len show thesis by (intro failed [of buf]) (simp_all add: p1_def)
    next
      case (2 cv' km em ma lo)
      let ?cs = "drop (payloadSize (p_config p1) 0) (take bytes (p_loadBuffer p1))"
      have b: "take bytes (p_loadBuffer p1) = take bytes (drop kHeaderSize (view s))"
        using False by (auto simp: p1_def buf_def overwrite_def)
      have "view s = record_bytes (payload_bytes km em ma lo ?cs) @ drop (kHeaderSize + bytes) (view s)"
        using view_record [of bytes "view s"] False 2(1,2) unfolding b by simp
      with s have "\<exists>s cs rest. p_storage p = Some s \<and> view s = record_bytes (payload_bytes km em ma lo cs) @ rest"
        by blast
      with ld len 2(3,4,5) show thesis by (intro loaded [of km em ma cv' buf lo]) (simp_all add: p1_def)
    qed
  qed
qed

lemma load_sound:
  assumes "env_inv sinv cinv p"
  shows "\<exists>ok p'. load d p = Some (ok, p') \<and> sound sinv cinv p p'"
  using assms
proof (cases rule: load_cases)
  case (failed buf)
  with assms show ?thesis by (auto simp: sound_def env_inv_def wf_protocol_def keeps_update)
next
  case (loaded cv km em ma lo buf)
  with assms show ?thesis
    by (auto simp: sound_def env_inv_def wf_protocol_def payload_fits_def keeps_def frame)
qed

lemma save_cases:
  assumes inv: "env_inv sinv cinv p" and nz: "0 < keyCount (p_config p)"
  obtains ok s where "save d p = Some (ok, p\<lparr>p_storage := s, p_dirty := (p_dirty p \<and> \<not> ok)\<rparr>)"
    "pred_option sinv s"
proof -
  note finish = that
  have unchanged: thesis if "save d p = Some (False, p)"
    using that inv by (intro finish [of False "p_storage p"]) (simp_all add: env_inv_def)
  show thesis
  proof (cases "p_storage p")
    case None
    then show thesis by (intro unchanged) (simp add: save_def)
  next
    case (Some s)
    have sinv: "sinv s" using inv Some by (simp add: env_inv_def)
    show thesis
    proof (cases "stateBytes d p")
      case None
      with Some show thesis by (intro unchanged) (simp add: save_def writeState_def)
    next
      case sb: (Some bn)
      obtain bytes n where bn: "bn = (bytes, n)" by fastforce
      note sb = sb [unfolded bn]
      obtain saved cs where cs: "custom_saved d p n = (saved, cs)" by fastforce
      show thesis
      proof (cases "length (view s) < kHeaderSize + bytes \<or> \<not> saved")
        case True
        have "save d p = Some (False, p)"
        proof (cases "length (view s) < kHeaderSize + bytes")
          case True
          then show ?thesis using Some sb capacity_view [OF sinv] by (simp add: save_def writeState_def)
        next
          case False
          with True have ns: "\<not> saved" by simp
          then have n: "n \<noteq> 0" using cs by (cases "n = 0") (simp_all add: custom_saved_def)
          with inv sb obtain cv where "p_customValue p = Some cv" by (rule custom_cases)
          with Some sb cs n ns show ?thesis by (simp add: save_def writeState_def custom_saved_def)
        qed
        then show thesis by (rule unchanged)
      next
        case False
        then have room: "kHeaderSize + bytes \<le> length (view s)" and cs: "custom_saved d p n = (True, cs)"
          using cs by auto
        obtain s1 ok s2 where "sinv s2"
          "writeState d p = Some (ok, if ok then p\<lparr>p_storage := Some s2, p_dirty := False\<rparr> else p\<lparr>p_storage := Some s2\<rparr>)"
          using inv Some sb nz room cs by (rule writeState_cases) blast
        with Some show thesis by (intro that [of ok "Some s2"]) (simp_all add: save_def)
      qed
    qed
  qed
qed

lemma save_sound:
  assumes "env_inv sinv cinv p" and "0 < keyCount (p_config p)"
  shows "\<exists>ok p'. save d p = Some (ok, p') \<and> sound sinv cinv p p'"
  using assms
proof (rule save_cases)
  fix ok s
  assume "save d p = Some (ok, p\<lparr>p_storage := s, p_dirty := (p_dirty p \<and> \<not> ok)\<rparr>)" "pred_option sinv s"
  with assms show ?thesis by (simp add: sound_def env_inv_def wf_protocol_def keeps_def)
qed

text \<open>\<open>factoryReset\<close>: the custom value is reset before anything can be rejected.\<close>

lemma factoryReset_sound:
  assumes inv: "env_inv sinv cinv p"
  shows "\<exists>ok p'. factoryReset d p = Some (ok, p') \<and> sound sinv cinv p p'"
proof (cases "p_storage p = None \<or> stateBytes d p = None")
  case True
  then have "factoryReset d p = Some (False, p)" by (auto simp: factoryReset_def split: option.splits)
  with inv show ?thesis by (auto simp: sound_def)
next
  case False
  then obtain s bytes n where s: "p_storage p = Some s" and sb: "stateBytes d p = Some (bytes, n)" by auto
  have wf: "wf_protocol p" and sinv: "sinv s" using inv s by (auto simp: env_inv_def)
  have cinv_reset: "pred_option cinv (if n = 0 then p_customValue p else map_option (cv_reset (d_custom d)) (p_customValue p))"
    using inv reset_inv by (cases "p_customValue p") (auto simp: env_inv_def)
  show ?thesis
  proof (cases "loadBufferValid (p_config p) bytes \<and> kHeaderSize + bytes \<le> length (view s)")
    case False
    then have "factoryReset d p = Some (False, p)"
      using s sb capacity_view [OF sinv] by (auto simp: factoryReset_def)
    with inv show ?thesis by (auto simp: sound_def)
  next
    case True
    then have lb: "loadBufferValid (p_config p) bytes" and room: "kHeaderSize + bytes \<le> length (view s)" by auto
    have pos: "defaults_payload p cs \<noteq> []" for cs by (simp add: defaults_payload_def payload_bytes_def le32_def)
    note store = reset_store_cases [OF sinv room _ pos]
    from inv s sb lb room show ?thesis
    proof (cases rule: factoryReset_cases)
      case (rejected cv buf)
      with inv cinv_reset show ?thesis
        by (auto simp: sound_def env_inv_def wf_protocol_def keeps_def)
    next
      case (not_stored cv buf cs s')
      with inv cinv_reset store show ?thesis
        by (fastforce simp: sound_def env_inv_def wf_protocol_def keeps_def)
    next
      case (stored cv buf cs s')
      with inv store show ?thesis
        by (fastforce simp: sound_def env_inv_def wf_protocol_def keeps_def frame)
    qed
  qed
qed

end

end
