(* ===== verification/Commands.thy ===== *)
theory Commands
  imports Core_Invariant
begin

text \<open>
  What the single commands of \<open>Protocol::process\<close> compute: closed forms of the packet loops
  (matrix state, macro and keymap buffers), and the soundness of every command.
\<close>

section \<open>Packet loops\<close>

lemma length_fail [simp]: "length (fail_packet pkt) = length pkt"
  by (simp add: fail_packet_def)

lemma fail_byte [simp]: "pkt \<noteq> [] \<Longrightarrow> fail_packet pkt ! 0 = 0xFF"
  by (simp add: fail_packet_def)

lemma length_put_be32 [simp]: "length (put_be32 pkt v) = length pkt"
  by (simp add: put_be32_def)

lemma chunk_le: "chunk pkt \<le> 28"
  by (simp add: chunk_def word_less_nat_alt)

lemma put_row_eq:
  assumes "at + n \<le> length out"
  shows "put_row n w (out, at) = Some (overwrite out at (map (\<lambda>b. ucast (drop_bit (8 * (n - b - 1)) w)) [0..<n]), at + n)"
proof -
  have "for_up b k (\<lambda>b (out, outIndex). do {
     out \<leftarrow> arr_set out outIndex (ucast (drop_bit (8 * (n - b - 1)) w));
     Some (out, outIndex + 1)
   }) (overwrite out at (map g [0..<b]), at + b) = Some (overwrite out at (map g [0..<b + k]), at + (b + k))"
    if "b + k \<le> n" and g: "g = (\<lambda>b. ucast (drop_bit (8 * (n - b - 1)) w))" for b k g
    using that(1)
  proof (induction k arbitrary: b)
    case (Suc k)
    have len: "at + length (map g [0..<b]) < length out" using Suc.prems assms by simp
    have set: "arr_set (overwrite out at (map g [0..<b])) (at + b) (g b) = Some (overwrite out at (map g [0..<Suc b]))"
      using overwrite_snoc [OF len, of "g b"] Suc.prems assms len by (simp add: mem)
    have "ucast (drop_bit (8 * (n - b - 1)) w) = g b" by (simp add: g)
    then show ?case using Suc.IH [of "Suc b"] Suc.prems set by (simp del: upt_Suc)
  qed simp
  from this [of 0 n] show ?thesis by (simp add: put_row_def)
qed

text \<open>The rows of a matrix-state reply, one after the other.\<close>

definition row_bytes :: "nat \<Rightarrow> u32 \<Rightarrow> u8 list" where
  "row_bytes n w = map (\<lambda>b. ucast (drop_bit (8 * (n - b - 1)) w)) [0..<n]"

lemma length_row_bytes [simp]: "length (row_bytes n w) = n"
  by (simp add: row_bytes_def)

definition rows_image :: "('s, 'c, 't) deps \<Rightarrow> ('s, 'c, 't) protocol \<Rightarrow> nat \<Rightarrow> nat \<Rightarrow> nat \<Rightarrow> u8 list" where
  "rows_image d p n start k = concat (map (\<lambda>i. row_bytes n (row_word d p (start + i))) [0..<k])"

lemma length_rows_image [simp]: "length (rows_image d p n start k) = k * n"
  by (induction k) (auto simp: rows_image_def)

lemma rows_image_Suc:
  "rows_image d p n start (Suc k) = rows_image d p n start k @ row_bytes n (row_word d p (start + k))"
  by (simp add: rows_image_def)

lemma rows_image_fits: "length (rows_image d p n start (28 div n)) \<le> 28"
  unfolding length_rows_image by (rule div_times_less_eq_dividend)

lemma rows_loop:
  assumes "at + k * n \<le> length out"
  shows "for_up 0 k (\<lambda>i. put_row n (row_word d p (start + i))) (out, at) =
    Some (overwrite out at (rows_image d p n start k), at + k * n)"
proof -
  have "for_up i j (\<lambda>i. put_row n (row_word d p (start + i))) (overwrite out at (rows_image d p n start i), at + i * n) =
    Some (overwrite out at (rows_image d p n start (i + j)), at + (i + j) * n)" if "i + j \<le> k" for i j
    using that
  proof (induction j arbitrary: i)
    case (Suc j)
    have "(i + 1) * n \<le> k * n" using Suc.prems by (intro mult_le_mono1) simp
    then have room: "at + i * n + n \<le> length out" using assms by simp
    let ?o = "overwrite out at (rows_image d p n start i)"
    have len: "length ?o = length out" using room by simp
    have "put_row n (row_word d p (start + i)) (?o, at + i * n) =
        Some (overwrite ?o (at + i * n) (row_bytes n (row_word d p (start + i))), at + i * n + n)"
      using put_row_eq [of "at + i * n" n ?o] room len by (simp add: row_bytes_def)
    moreover have "overwrite ?o (at + i * n) (row_bytes n (row_word d p (start + i))) =
        overwrite out at (rows_image d p n start (Suc i))"
      using overwrite_append_split [of at "rows_image d p n start i" "row_bytes n (row_word d p (start + i))" out] room
      by (simp add: rows_image_Suc)
    moreover have "at + i * n + n = at + Suc i * n" by simp
    ultimately have "put_row n (row_word d p (start + i)) (?o, at + i * n) =
        Some (overwrite out at (rows_image d p n start (Suc i)), at + Suc i * n)" by metis
    with Suc.IH [of "Suc i"] Suc.prems show ?case by simp
  qed simp
  from this [of 0 k] show ?thesis by (simp add: rows_image_def)
qed

lemma zero_fill:
  assumes "i + k \<le> length xs"
  shows "for_up i k (\<lambda>j out. arr_set out j 0) xs = Some (overwrite xs i (replicate k 0))"
  using assms
proof (induction k arbitrary: i xs)
  case (Suc k)
  have "for_up (Suc i) k (\<lambda>j out. arr_set out j 0) (xs[i := 0]) = Some (overwrite (xs[i := 0]) (Suc i) (replicate k 0))"
    using Suc.prems by (intro Suc.IH) simp
  then show ?case using Suc.prems by (simp add: mem overwrite_Cons)
qed simp

lemma bytes_per_row:
  "(unat (c :: u8) + 7) div 8 \<le> 4 \<longleftrightarrow> unat c \<le> 32" "0 < (unat c + 7) div 8 \<longleftrightarrow> 0 < unat c"
  by presburger+

text \<open>The reply to a matrix-state request: the first three bytes are kept, then follow the rows
  and zeros up to the end of the packet.\<close>

lemma matrix_state_eq:
  assumes len: "length pkt = kPacketSize" and cols: "0 < cfg_columns (p_config p)" "cfg_columns (p_config p) \<le> 32"
    and n: "n = (unat (cfg_columns (p_config p)) + 7) div 8"
  shows "matrix_state d p pkt = Some (take 3 pkt @ rows_image d p n (unat (pkt ! 2)) (28 div n) @
    replicate (29 - 28 div n * n) 0)"
proof -
  have n1: "1 \<le> n" "n \<le> 4" using cols bytes_per_row by (auto simp: n word_le_nat_alt word_less_nat_alt Suc_le_eq)
  have k: "28 div n * n \<le> 28" by simp
  let ?r = "rows_image d p n (unat (pkt ! 2)) (28 div n)"
  have l: "length (overwrite pkt 3 ?r) = 32"
  proof -
    have "3 + length ?r \<le> length pkt"
      using rows_image_fits [of d p n "unat (pkt ! 2)"] len unfolding kPacketSize_def by linarith
    then show ?thesis by (simp only: length_splice len kPacketSize_def)
  qed
  have "matrix_state d p pkt = for_up (3 + 28 div n * n) (kPacketSize - (3 + 28 div n * n)) (\<lambda>j out. arr_set out j 0) (overwrite pkt 3 ?r)"
    using n1 rows_loop [of 3 "28 div n" n pkt d p "unat (pkt ! 2)"] k len
    by (simp add: matrix_state_def n [symmetric] Let_def kPacketSize_def)
  also have "\<dots> = Some (overwrite (overwrite pkt 3 ?r) (3 + 28 div n * n) (replicate (kPacketSize - (3 + 28 div n * n)) 0))"
  proof -
    obtain m where m: "28 div n * n = m" "m \<le> 28" using div_times_less_eq_dividend by blast
    show ?thesis unfolding m(1) using m(2) l by (intro zero_fill) (simp add: kPacketSize_def)
  qed
  also have "overwrite (overwrite pkt 3 ?r) (3 + 28 div n * n) (replicate (kPacketSize - (3 + 28 div n * n)) 0) =
      take 3 pkt @ ?r @ replicate (29 - 28 div n * n) 0"
  proof -
    obtain m where m: "28 div n * n = m" "m \<le> 28" using div_times_less_eq_dividend by blast
    then have r: "length ?r = m" by simp
    show ?thesis unfolding m(1) using m(2) r len by (simp add: overwrite_def kPacketSize_def del: length_rows_image)
  qed
  finally show ?thesis .
qed

lemma row_bytes_bit:
  assumes "c < 8 * n"
  shows "bit (row_bytes n w ! (n - 1 - c div 8)) (c mod 8) = bit w c"
proof -
  have b: "n - 1 - c div 8 < n" "n - (n - 1 - c div 8) - 1 = c div 8" using assms by auto
  then have "row_bytes n w ! (n - 1 - c div 8) = ucast (drop_bit (8 * (c div 8)) w)"
    by (simp add: row_bytes_def)
  then show ?thesis by (simp add: bit_simps)
qed

lemma nth_rows_image:
  assumes "i < k" "j < n"
  shows "rows_image d p n start k ! (i * n + j) = row_bytes n (row_word d p (start + i)) ! j"
  using assms
proof (induction k)
  case (Suc k)
  show ?case
  proof (cases "i < k")
    case True
    then have "i * n + j < k * n" using Suc.prems(2) by (rule radix_less)
    with True Suc show ?thesis by (simp add: rows_image_Suc nth_append)
  next
    case False
    then have "i = k" using Suc.prems by simp
    then show ?thesis by (simp add: rows_image_Suc nth_append)
  qed
qed simp

lemma reply_bit:
  assumes len: "length pkt = kPacketSize" and i: "i < 28 div n" and c: "c < 8 * n"
  shows "bit ((take 3 pkt @ rows_image d p n start (28 div n) @ zs) ! (3 + i * n + (n - 1 - c div 8))) (c mod 8) =
    bit (row_word d p (start + i)) c"
proof -
  have j: "n - 1 - c div 8 < n" using c by auto
  then have "i * n + (n - 1 - c div 8) < 28 div n * n" using i by (intro radix_less)
  then have "(take 3 pkt @ rows_image d p n start (28 div n) @ zs) ! (3 + (i * n + (n - 1 - c div 8))) =
      rows_image d p n start (28 div n) ! (i * n + (n - 1 - c div 8))"
    using len by (simp add: nth_append kPacketSize_def)
  then show ?thesis unfolding add.assoc nth_rows_image [OF i j] by (simp only: row_bytes_bit [OF c])
qed

lemma matrix_state_total:
  assumes "length pkt = kPacketSize"
  shows "\<exists>pkt'. matrix_state d p pkt = Some pkt' \<and> length pkt' = kPacketSize"
proof (cases "0 < cfg_columns (p_config p) \<and> cfg_columns (p_config p) \<le> 32")
  case True
  let ?n = "(unat (cfg_columns (p_config p)) + 7) div 8"
  obtain m where m: "28 div ?n * ?n = m" "m \<le> 28" using div_times_less_eq_dividend by blast
  with True assms matrix_state_eq [OF assms _ _ refl, of p d] show ?thesis by (auto simp: kPacketSize_def)
next
  case False
  then have "(unat (cfg_columns (p_config p)) + 7) div 8 = 0 \<or> (unat (cfg_columns (p_config p)) + 7) div 8 > 4"
    using bytes_per_row [of "cfg_columns (p_config p)"] by (auto simp: word_le_nat_alt word_less_nat_alt)
  then show ?thesis using assms by (auto simp: matrix_state_def Let_def)
qed

lemma get_keyboard_total:
  "length pkt = kPacketSize \<Longrightarrow> \<exists>pkt'. get_keyboard_value d p pkt now = Some pkt' \<and> length pkt' = kPacketSize"
  using matrix_state_total by (auto simp: get_keyboard_value_def)

lemma macro_get_eq:
  assumes "length (p_macros p) = unat (cfg_macroBytes (p_config p))" and "length pkt = kPacketSize"
  shows "macro_get p pkt = Some (overwrite pkt 4 (map (\<lambda>i.
    if unat (be16 (pkt ! 1) (pkt ! 2)) + i < length (p_macros p)
    then p_macros p ! (unat (be16 (pkt ! 1) (pkt ! 2)) + i) else 0) [0..<chunk pkt]))"
  unfolding macro_get_def Let_def
  by (rule for_up_fill) (use assms chunk_le [of pkt] in \<open>auto simp: mem kPacketSize_def\<close>)

lemma macro_set_loop:
  assumes "length ma = n" and "4 + i + k \<le> length pkt"
  shows "\<exists>ma' w'. for_up i k (\<lambda>i (ma, wrote).
       if off + i < n
       then do { v \<leftarrow> arr_get pkt (4 + i); ma \<leftarrow> arr_set ma (off + i) v; Some (ma, True) }
       else Some (ma, wrote)) (ma, w) = Some (ma', w') \<and>
     ma' = overwrite ma (off + i) (take (n - (off + i)) (take k (drop (4 + i) pkt))) \<and>
     w' = (w \<or> (0 < k \<and> off + i < n))"
  using assms
proof (induction k arbitrary: i ma w)
  case 0
  then show ?case by simp
next
  case (Suc k)
  show ?case
  proof (cases "off + i < n")
    case False
    with Suc.IH [of ma "Suc i" w] Suc.prems show ?thesis by (auto simp: overwrite_def)
  next
    case True
    let ?ma = "ma[off + i := pkt ! (4 + i)]"
    have d: "drop (4 + i) pkt = pkt ! (4 + i) # drop (4 + Suc i) pkt"
      using Suc.prems Cons_nth_drop_Suc [of "4 + i" pkt] by simp
    have "n - (off + i) = Suc (n - (off + Suc i))" using True by simp
    then have bytes: "take (n - (off + i)) (take (Suc k) (drop (4 + i) pkt)) =
      pkt ! (4 + i) # take (n - (off + Suc i)) (take k (drop (4 + Suc i) pkt))"
      unfolding d by (simp only: take_Suc_Cons)
    have sp: "overwrite ?ma (off + Suc i) zs = overwrite ma (off + i) (pkt ! (4 + i) # zs)" for zs
      using True Suc.prems overwrite_Cons [of "off + i" ma] by simp
    have "length ?ma = n" "4 + Suc i + k \<le> length pkt" using Suc.prems by simp_all
    from Suc.IH [OF this, of True] show ?thesis
      unfolding bytes sp [symmetric]
      using True Suc.prems by (simp add: mem)
  qed
qed

lemma macro_set_eq:
  assumes "length (p_macros p) = unat (cfg_macroBytes (p_config p))" and "length pkt = kPacketSize"
    and off: "off = unat (be16 (pkt ! 1) (pkt ! 2))"
    and ma: "ma = overwrite (p_macros p) off (take (length (p_macros p) - off) (take (chunk pkt) (drop 4 pkt)))"
  shows "macro_set p pkt now = Some (if 0 < chunk pkt \<and> off < length (p_macros p)
    then markDirty (p\<lparr>p_macros := ma\<rparr>) now else p\<lparr>p_macros := ma\<rparr>)"
proof -
  have "4 + 0 + chunk pkt \<le> length pkt" using assms(2) chunk_le [of pkt] by (simp add: kPacketSize_def)
  from macro_set_loop [OF refl this, of off "p_macros p" False] show ?thesis
    using assms by (auto simp: macro_set_def Let_def)
qed

lemma length_overwrite_take [simp]: "length (overwrite xs k (take (length xs - k) ys)) = length xs"
proof (cases "k \<le> length xs")
  case False
  then show ?thesis by (simp add: overwrite_def)
qed simp

lemma memcpy_defaults:
  assumes "wf_protocol p"
  shows "keymap_reset p now = Some (markDirty (p\<lparr>p_keymap := p_defaultKeymap p, p_encoderMap := p_defaultEncoderMap p\<rparr>) now)"
proof -
  have "encoderMapBytes (p_config p) = 0 \<Longrightarrow> p_encoderMap p = p_defaultEncoderMap p"
    using assms by (simp add: wf_protocol_def)
  with assms show ?thesis
    by (auto simp: keymap_reset_def wf_protocol_def keymapBytes_def mem_read_all memcpy16_all)
qed

section \<open>Every command is sound\<close>

definition cmd_sound ::
  "('s \<Rightarrow> bool) \<Rightarrow> ('c \<Rightarrow> bool) \<Rightarrow> ('s, 'c, 't) protocol \<Rightarrow> (u8 list \<times> ('s, 'c, 't) protocol) option \<Rightarrow> bool" where
  "cmd_sound sinv cinv p r \<longleftrightarrow>
     (\<exists>pkt' p'. r = Some (pkt', p') \<and> length pkt' = kPacketSize \<and> sound sinv cinv p p')"

lemma cmd_sound_SomeI:
  "length pkt' = kPacketSize \<Longrightarrow> sound sinv cinv p p' \<Longrightarrow> cmd_sound sinv cinv p (Some (pkt', p'))"
  by (simp add: cmd_sound_def)

lemma sound_refl [simp]: "sound sinv cinv p p \<longleftrightarrow> env_inv sinv cinv p"
  by (simp add: sound_def)

lemma sound_upd:
  assumes "env_inv sinv cinv p"
  shows "length km = length (p_keymap p) \<Longrightarrow> sound sinv cinv p (p\<lparr>p_keymap := km\<rparr>)"
    and "length em = length (p_encoderMap p) \<Longrightarrow> sound sinv cinv p (p\<lparr>p_encoderMap := em\<rparr>)"
    and "length ma = length (p_macros p) \<Longrightarrow> sound sinv cinv p (p\<lparr>p_macros := ma\<rparr>)"
    and "pred_option cinv cv \<Longrightarrow> sound sinv cinv p (p\<lparr>p_customValue := cv\<rparr>)"
    and "sound sinv cinv p (p\<lparr>p_layoutOptions := lo\<rparr>)"
  using assms by (simp_all add: sound_def env_inv_def wf_protocol_def keeps_update)

lemma sound_dirty: "sound sinv cinv p q \<Longrightarrow> sound sinv cinv p (markDirty q now)"
  by (auto simp: sound_def intro: keeps_trans keeps_markDirty)

lemma sound_callback: "sound sinv cinv p q \<Longrightarrow> e \<noteq> BootloaderJump \<Longrightarrow> sound sinv cinv p (emit e q)"
  by (auto simp: sound_def intro: keeps_trans keeps_emit)

lemmas soundI = cmd_sound_SomeI sound_dirty sound_callback

lemma keycode_total:
  assumes "wf_protocol p"
  shows "keycode p layer row column = Some (if layer < cfg_layers (p_config p) \<and> row < cfg_rows (p_config p) \<and>
    column < cfg_columns (p_config p) then p_keymap p ! keyIndex (p_config p) layer row column else 0)"
  using assms keyIndex_less by (auto simp: keycode_def Let_def wf_protocol_def mem)

lemma setKeycode_total:
  assumes "wf_protocol p"
  shows "setKeycode p layer row column v = Some (if layer < cfg_layers (p_config p) \<and> row < cfg_rows (p_config p) \<and>
    column < cfg_columns (p_config p)
    then (True, p\<lparr>p_keymap := (p_keymap p)[keyIndex (p_config p) layer row column := v]\<rparr>) else (False, p))"
  using assms keyIndex_less by (auto simp: setKeycode_def Let_def wf_protocol_def mem)

lemma encoderKeycode_total:
  assumes "wf_protocol p"
  shows "encoderKeycode p layer e cw = Some (if layer < cfg_layers (p_config p) \<and> e < cfg_encoderCount (p_config p) \<and>
    cw \<le> 1 then p_encoderMap p ! encoderIndex (p_config p) layer e cw else 0)"
  using assms encoderIndex_less [of layer "p_config p" e cw]
  by (auto simp: encoderKeycode_def Let_def wf_protocol_def mem)

lemma setEncoderKeycode_total:
  assumes "wf_protocol p"
  shows "setEncoderKeycode p layer e cw v = Some (if layer < cfg_layers (p_config p) \<and> e < cfg_encoderCount (p_config p) \<and>
    cw \<le> 1 then (True, p\<lparr>p_encoderMap := (p_encoderMap p)[encoderIndex (p_config p) layer e cw := v]\<rparr>) else (False, p))"
  using assms encoderIndex_less [of layer "p_config p" e cw]
  by (auto simp: setEncoderKeycode_def Let_def wf_protocol_def mem)

context protocol_env
begin

lemma custom_set_sound:
  assumes "env_inv sinv cinv p" "length pkt = kPacketSize"
  shows "cmd_sound sinv cinv p (Some (custom_set_cmd d p pkt now))"
proof (cases "p_customValue p")
  case None
  with assms show ?thesis by (simp add: custom_set_cmd_def soundI)
next
  case (Some cv)
  obtain ok pkt' cv' where r: "cv_set (d_custom d) cv pkt = (ok, pkt', cv')" by (metis prod_cases3)
  have "cinv cv" using Some assms by (simp add: env_inv_def)
  from set_packet [OF this assms(2) r] have "cinv cv'" "length pkt' = kPacketSize" by auto
  with assms Some r show ?thesis
    by (cases ok) (simp_all add: custom_set_cmd_def soundI sound_upd)
qed

lemma custom_get_sound:
  assumes "env_inv sinv cinv p" "length pkt = kPacketSize"
  shows "cmd_sound sinv cinv p (Some (custom_get_cmd d p pkt))"
proof (cases "p_customValue p")
  case None
  with assms show ?thesis by (simp add: custom_get_cmd_def soundI)
next
  case (Some cv)
  obtain ok pkt' cv' where r: "cv_get (d_custom d) cv pkt = (ok, pkt', cv')" by (metis prod_cases3)
  have "cinv cv" using Some assms by (simp add: env_inv_def)
  from get_packet [OF this assms(2) r] have "cinv cv'" "length pkt' = kPacketSize" by auto
  with assms Some r show ?thesis
    by (cases ok) (simp_all add: custom_get_cmd_def soundI sound_upd)
qed

lemma eeprom_commit_sound:
  assumes inv: "env_inv sinv cinv p" "0 < keyCount (p_config p)" and len: "length pkt = kPacketSize"
  shows "cmd_sound sinv cinv p (eeprom_commit_cmd d p pkt)"
proof (cases "p_customValue p")
  case None
  with assms show ?thesis by (simp add: eeprom_commit_cmd_def soundI)
next
  case (Some cv)
  obtain ok pkt' cv' where r: "cv_save (d_custom d) cv pkt = (ok, pkt', cv')" by (metis prod_cases3)
  have "cinv cv" using Some inv by (simp add: env_inv_def)
  from save_packet [OF this len r] have c: "cinv cv'" "length pkt' = kPacketSize" by auto
  define p1 where "p1 = p\<lparr>p_customValue := Some cv'\<rparr>"
  have s1: "sound sinv cinv p p1" using inv c by (simp add: p1_def sound_upd)
  then have "env_inv sinv cinv p1" "0 < keyCount (p_config p1)" using inv by (auto simp: sound_def p1_def)
  from save_sound [OF this] obtain saved p2 where p2: "save d p1 = Some (saved, p2)" "sound sinv cinv p1 p2" by blast
  with s1 have "sound sinv cinv p p2" by (blast intro: sound_trans)
  with Some r c s1 p2 show ?thesis
    by (cases ok; cases saved) (simp_all add: eeprom_commit_cmd_def p1_def [symmetric] soundI)
qed

lemma eeprom_reset_sound:
  assumes inv: "env_inv sinv cinv p" and len: "length pkt = kPacketSize"
  shows "cmd_sound sinv cinv p (eeprom_reset_cmd d p pkt)"
  using factoryReset_sound [OF inv] inv len
  by (auto simp: eeprom_reset_cmd_def soundI)

lemma bootloader_sound:
  assumes inv: "env_inv sinv cinv p" "0 < keyCount (p_config p)" and len: "length pkt = kPacketSize"
  shows "cmd_sound sinv cinv p (bootloader_cmd d p pkt)"
  using save_sound [OF inv] inv len
  by (auto simp: bootloader_cmd_def soundI)

lemma process_cmd_sound:
  assumes inv: "env_inv sinv cinv p" "0 < keyCount (p_config p)" and len: "length pkt = kPacketSize"
  shows "cmd_sound sinv cinv p (process_cmd d p pkt now)"
proof -
  have wf: "wf_protocol p" using inv by (simp add: env_inv_def)
  have km: "length (p_keymap p) = keyCount (p_config p)"
    and ma: "length (p_macros p) = unat (cfg_macroBytes (p_config p))" using wf by (simp_all add: wf_protocol_def)
  have room: "4 + chunk pkt \<le> length pkt" using chunk_le [of pkt] len by (simp add: kPacketSize_def)
  obtain g where g: "get_keyboard_value d p pkt now = Some g" "length g = kPacketSize"
    using get_keyboard_total [OF len] by blast
  obtain km' where w: "writeDynamicKeymap p (be16 (pkt ! 1) (pkt ! 2)) (chunk pkt) 4 pkt now =
     Some (if 0 < chunk pkt \<and> unat (be16 (pkt ! 1) (pkt ! 2)) < keymapBytes (p_config p)
       then markDirty (p\<lparr>p_keymap := km'\<rparr>) now else p\<lparr>p_keymap := km'\<rparr>)" "length km' = length (p_keymap p)"
    using writeDynamicKeymap_eq [OF km room] km by metis
  have kmr: "cmd_sound sinv cinv p (map_option (\<lambda>p'. (pkt, p')) (keymap_reset p now))"
  proof -
    have "sound sinv cinv p (p\<lparr>p_keymap := p_defaultKeymap p, p_encoderMap := p_defaultEncoderMap p\<rparr>)"
      using inv by (simp add: sound_def env_inv_def wf_protocol_def keeps_def)
    then show ?thesis using wf len by (simp add: memcpy_defaults soundI)
  qed
  have mr: "cmd_sound sinv cinv p (map_option (\<lambda>p'. (pkt, p')) (macro_reset p now))"
    using inv ma len by (simp add: macro_reset_def soundI sound_upd mem_write_all)
  have sk: "cmd_sound sinv cinv p (set_keycode_cmd p pkt now)"
    using inv wf len by (simp add: set_keycode_cmd_def setKeycode_total soundI sound_upd)
  have se: "cmd_sound sinv cinv p (set_encoder_cmd p pkt now)"
    using inv wf len by (simp add: set_encoder_cmd_def setEncoderKeycode_total soundI sound_upd)
  have ge: "\<exists>g. get_encoder_cmd p pkt = Some g \<and> length g = kPacketSize"
    using wf len by (simp add: get_encoder_cmd_def encoderKeycode_total)
  have sv: "cmd_sound sinv cinv p (Some (set_keyboard_value p pkt now))"
    using inv len by (simp add: set_keyboard_value_def Let_def soundI sound_upd)
  have mg: "\<exists>g. macro_get p pkt = Some g \<and> length g = kPacketSize"
    using macro_get_eq [OF ma len] room len by simp
  have ms: "cmd_sound sinv cinv p (map_option (\<lambda>p'. (pkt, p')) (macro_set p pkt now))"
    using macro_set_eq [OF ma len refl refl] inv len by (simp add: soundI sound_upd del: take_take)
  have rk: "\<exists>g. readDynamicKeymap p (be16 (pkt ! 1) (pkt ! 2)) (chunk pkt) 4 pkt = Some g \<and> length g = kPacketSize"
    using readDynamicKeymap_eq [OF km room] room len by simp
  have wk: "cmd_sound sinv cinv p (map_option (\<lambda>p'. (pkt, p'))
      (writeDynamicKeymap p (be16 (pkt ! 1) (pkt ! 2)) (chunk pkt) 4 pkt now))"
    using w inv len by (simp add: soundI sound_upd)
  show ?thesis
    unfolding process_cmd_def Let_def
    using len inv g kmr mr sk se ge sv mg ms rk wk keycode_total [OF wf]
      custom_set_sound [OF inv(1) len] custom_get_sound [OF inv(1) len] eeprom_commit_sound [OF inv len]
      eeprom_reset_sound [OF inv(1) len] bootloader_sound [OF inv len]
    by (auto simp: soundI)
qed

lemma process_sound:
  assumes "env_inv sinv cinv p" "0 < keyCount (p_config p)" and "length pkt = kPacketSize"
  obtains pkt' p' where "process d p pkt now = Some (pkt' ! 0 \<noteq> 0xFF, pkt', p')"
    "length pkt' = kPacketSize" "sound sinv cinv p p'"
  using process_cmd_sound [OF assms, of now] by (auto simp: process_def cmd_sound_def)

end

end
