(* ===== verification/Main_Loop.thy ===== *)
theory Main_Loop
  imports Commands
begin

text \<open>
  The main-loop step \<open>Protocol::task\<close> as a machine with three phases.  \<open>Quiet\<close>: a request may
  be received.  \<open>Owes r b\<close>: the reply \<open>r\<close> waits for the transport; \<open>b\<close> tells that the
  bootloader follows.  \<open>Drain\<close>: the reply was accepted and the jump waits for the transfer to
  finish.  The relation \<open>wire_step\<close> is the contract comment of \<open>Transport::send\<close>; the theorems
  show that \<open>task\<close> refines it on every transport.
\<close>

section \<open>The abstract exchange\<close>

datatype wire_event = Got | Tried "u8 list" bool | Polled bool

datatype phase = Quiet | Owes "u8 list" bool | Drain

inductive wire_step :: "phase \<Rightarrow> wire_event \<Rightarrow> phase \<Rightarrow> bool" where
  got: "wire_step Quiet Got (Owes r b)"
| retry: "wire_step (Owes r b) (Tried r False) (Owes r b)"
| accepted: "wire_step (Owes r b) (Tried r True) (if b then Drain else Quiet)"
| busy: "wire_step Drain (Polled False) Drain"
| drained: "wire_step Drain (Polled True) Quiet"

inductive wire_run :: "phase \<Rightarrow> wire_event list \<Rightarrow> phase \<Rightarrow> bool" where
  stay: "wire_run a [] a"
| more: "wire_run a es b \<Longrightarrow> wire_step b e c \<Longrightarrow> wire_run a (es @ [e]) c"

inductive_simps wire_step_simps: "wire_step Quiet e c" "wire_step (Owes r b) e c" "wire_step Drain e c"
inductive_cases wire_stepE: "wire_step a e b"

lemma wire_run_trans: "wire_run b fs c \<Longrightarrow> wire_run a es b \<Longrightarrow> wire_run a (es @ fs) c"
proof (induction rule: wire_run.induct)
  case (more b fs c e d)
  then show ?case using wire_run.more [of a "es @ fs" c e d] by simp
qed simp

lemma wire_run_single: "wire_step a e b \<Longrightarrow> wire_run a [e] b"
  using wire_run.more [OF wire_run.stay, of a e b] by simp

definition jumps :: "wire_event list \<Rightarrow> nat" where "jumps es = count_list es (Polled True)"

definition requests :: "wire_event list \<Rightarrow> nat" where "requests es = count_list es Got"

definition deliveries :: "wire_event list \<Rightarrow> nat" where
  "deliveries es = length (filter (\<lambda>e. case e of Tried _ ok \<Rightarrow> ok | _ \<Rightarrow> False) es)"

text \<open>Every request is answered by one accepted reply before the next request is taken, and every
  jump follows an accepted reply.\<close>

lemma wire_run_balance:
  assumes "wire_run a es c" and "a = Quiet"
  shows "requests es = deliveries es + (case c of Owes _ _ \<Rightarrow> 1 | _ \<Rightarrow> 0) \<and>
    jumps es + (if c = Drain then 1 else 0) \<le> deliveries es"
  using assms
proof (induction rule: wire_run.induct)
  case (stay a)
  then show ?case by (simp add: requests_def deliveries_def jumps_def)
next
  case (more a es b e c)
  from more.hyps(2) more.IH [OF more.prems] show ?case
    by (cases rule: wire_step.cases) (auto simp: requests_def deliveries_def jumps_def split: phase.splits)
qed

text \<open>A transport that records its calls.\<close>

definition tap :: "'t transport_vt \<Rightarrow> ('t \<times> wire_event list) transport_vt" where
  "tap tv = \<lparr>tp_receive = (\<lambda>(t, log) pkt. case tp_receive tv t pkt of (got, pkt', t') \<Rightarrow>
       (got, pkt', (t', if got then log @ [Got] else log))),
     tp_send = (\<lambda>(t, log) pkt. case tp_send tv t pkt of (ok, t') \<Rightarrow> (ok, (t', log @ [Tried pkt ok]))),
     tp_sendComplete = (\<lambda>(t, log). case tp_sendComplete tv t of (ok, t') \<Rightarrow> (ok, (t', log @ [Polled ok])))\<rparr>"

definition phase_of :: "('s, 'c, 't) protocol \<Rightarrow> phase" where
  "phase_of p = (if p_responsePending p then Owes (p_pendingResponse p) (p_bootloaderPending p)
     else if p_bootloaderPending p then Drain else Quiet)"

definition jump_calls :: "('s, 'c, 't) protocol \<Rightarrow> nat" where
  "jump_calls p = count_list (p_calls p) BootloaderJump"

text \<open>The invariant of the main loop.  A pending jump has a callback object to call.\<close>

definition task_inv :: "('s \<Rightarrow> bool) \<Rightarrow> ('c \<Rightarrow> bool) \<Rightarrow> ('s, 'c, 't) protocol \<Rightarrow> bool" where
  "task_inv sinv cinv p \<longleftrightarrow> env_inv sinv cinv p \<and> 0 < keyCount (p_config p) \<and>
     (p_bootloaderPending p \<longrightarrow> p_callbacks p)"

text \<open>One stage of the step, seen from the wire.\<close>

definition stage_ok ::
  "('s \<Rightarrow> bool) \<Rightarrow> ('c \<Rightarrow> bool) \<Rightarrow> ('s, 'c, 't \<times> wire_event list) protocol \<Rightarrow>
   ('s, 'c, 't \<times> wire_event list) protocol \<Rightarrow> bool" where
  "stage_ok sinv cinv p p' \<longleftrightarrow> task_inv sinv cinv p' \<and> p_config p' = p_config p \<and>
     (\<exists>es. snd (p_transport p') = snd (p_transport p) @ es \<and> wire_run (phase_of p) es (phase_of p') \<and>
        jump_calls p' = jump_calls p + jumps es)"

lemma stage_ok_trans:
  assumes "stage_ok sinv cinv p q" "stage_ok sinv cinv q r"
  shows "stage_ok sinv cinv p r"
proof -
  obtain es fs where e: "snd (p_transport q) = snd (p_transport p) @ es" "wire_run (phase_of p) es (phase_of q)"
      "jump_calls q = jump_calls p + jumps es"
    and f: "snd (p_transport r) = snd (p_transport q) @ fs" "wire_run (phase_of q) fs (phase_of r)"
      "jump_calls r = jump_calls q + jumps fs"
    using assms by (auto simp: stage_ok_def)
  with wire_run_trans [OF f(2) e(2)] assms show ?thesis
    unfolding stage_ok_def by (intro conjI exI [of _ "es @ fs"]) (auto simp: jumps_def)
qed

lemma stage_ok_event:
  assumes "task_inv sinv cinv p'" "p_config p' = p_config p" "snd (p_transport p') = snd (p_transport p) @ [e]"
    and "wire_step (phase_of p) e (phase_of p')" "jump_calls p' = jump_calls p + jumps [e]"
  shows "stage_ok sinv cinv p p'"
  using assms wire_run_single unfolding stage_ok_def by (intro conjI exI [of _ "[e]"]) auto

lemma stage_ok_silent:
  assumes "task_inv sinv cinv p'" "p_config p' = p_config p" "snd (p_transport p') = snd (p_transport p)"
    and "phase_of p' = phase_of p" "jump_calls p' = jump_calls p"
  shows "stage_ok sinv cinv p p'"
  using assms wire_run.stay unfolding stage_ok_def by (intro conjI exI [of _ "[]"]) (auto simp: jumps_def)

lemma keeps_wire:
  assumes "keeps p p'"
  shows "p_config p' = p_config p" "p_transport p' = p_transport p" "phase_of p' = phase_of p"
    "jump_calls p' = jump_calls p" "p_callbacks p' = p_callbacks p" "p_bootloaderPending p' = p_bootloaderPending p"
  using assms by (auto simp: keeps_def phase_of_def jump_calls_def)

lemma bootloader_needs_callbacks:
  assumes "process d p pkt now = Some (True, pkt', p')" "pkt ! 0 = 0x0B" "pkt \<noteq> []"
  shows "p_callbacks p"
  using assms by (auto simp: process_def process_cmd_def bootloader_cmd_def split: if_splits)

lemma env_inv_wire:
  "length pkt = kPacketSize \<Longrightarrow> env_inv sinv cinv p \<Longrightarrow> env_inv sinv cinv (p\<lparr>p_transport := t, p_pendingResponse := pkt\<rparr>)"
  by (simp add: env_inv_def wf_protocol_def)

section \<open>The step refines the exchange\<close>

locale protocol_loop = protocol_env d sinv view cinv csize + transport_contract "d_transport d"
  for d :: "('s, 'c, 't) deps" and sinv :: "'s \<Rightarrow> bool" and view :: "'s \<Rightarrow> u8 list"
    and cinv :: "'c \<Rightarrow> bool" and csize :: nat
begin

text \<open>Receiving: at most one request, processed completely before the reply is offered.\<close>

lemma task_receive_cases:
  assumes inv: "task_inv sinv cinv p"
  obtains (idle) "task_receive d p now = Some p" "phase_of p \<noteq> Quiet"
  | (silence) pkt t where "phase_of p = Quiet" "length pkt = kPacketSize"
    "tp_receive (d_transport d) (p_transport p) (p_pendingResponse p) = (False, pkt, t)"
    "task_receive d p now = Some (p\<lparr>p_transport := t, p_pendingResponse := pkt\<rparr>)"
  | (request) pkt t pkt' q b where "phase_of p = Quiet" "length pkt' = kPacketSize"
    "tp_receive (d_transport d) (p_transport p) (p_pendingResponse p) = (True, pkt, t)"
    "sound sinv cinv (p\<lparr>p_transport := t, p_pendingResponse := pkt\<rparr>) q"
    "b \<longrightarrow> p_callbacks p"
    "process d (p\<lparr>p_transport := t, p_pendingResponse := pkt\<rparr>) pkt now = Some (pkt' ! 0 \<noteq> 0xFF, pkt', q)"
    "task_receive d p now = Some (q\<lparr>p_pendingResponse := pkt', p_bootloaderPending := b, p_responsePending := True\<rparr>)"
proof (cases "phase_of p = Quiet")
  case False
  then have "task_receive d p now = Some p" by (auto simp: task_receive_def phase_of_def)
  with False show thesis by (intro idle)
next
  case True
  then have q: "\<not> p_responsePending p" "\<not> p_bootloaderPending p" by (auto simp: phase_of_def split: if_splits)
  obtain got pkt t where r: "tp_receive (d_transport d) (p_transport p) (p_pendingResponse p) = (got, pkt, t)"
    by (metis prod_cases3)
  have "length (p_pendingResponse p) = kPacketSize" using inv by (simp add: task_inv_def env_inv_def wf_protocol_def)
  with r have len: "length pkt = kPacketSize" by (rule receive_length)
  show thesis
  proof (cases got)
    case False
    then have "task_receive d p now = Some (p\<lparr>p_transport := t, p_pendingResponse := pkt\<rparr>)"
      using q r by (simp add: task_receive_def)
    with True len r False show thesis by (intro silence [of pkt t]) simp_all
  next
    case got: True
    define p1 where "p1 = p\<lparr>p_transport := t, p_pendingResponse := pkt\<rparr>"
    have "env_inv sinv cinv p1" "0 < keyCount (p_config p1)"
      using inv len by (simp_all add: task_inv_def p1_def env_inv_wire)
    from process_sound [OF this len] obtain pkt' p2 where
      pr: "process d p1 pkt now = Some (pkt' ! 0 \<noteq> 0xFF, pkt', p2)" "length pkt' = kPacketSize" "sound sinv cinv p1 p2"
      by blast
    define b where "b = ((pkt ! 0 = 0x0B \<and> cfg_bootloaderEnabled (p_config p1)) \<and> pkt' ! 0 \<noteq> 0xFF)"
    have "pkt \<noteq> []" using len by (auto simp: kPacketSize_def)
    then have "b \<longrightarrow> p_callbacks p1" using pr(1) bootloader_needs_callbacks [of d p1 pkt now pkt' p2]
      by (auto simp: b_def)
    with True r got pr q show thesis
      by (intro request [of pkt' pkt t p2 b]) (simp_all add: task_receive_def p1_def b_def)
  qed
qed

lemma task_save_sound:
  assumes inv: "task_inv sinv cinv p"
  obtains p' where "task_save d p now = Some p'" "sound sinv cinv p p'"
proof -
  have "\<exists>p'. task_save d p now = Some p' \<and> sound sinv cinv p p'"
    using inv save_sound [of p] by (auto simp: task_save_def task_inv_def)
  with that show thesis by blast
qed

text \<open>\<open>task\<close> always returns: no access leaves an array and the jump never goes through a null
  callback pointer.\<close>

lemma task_send_inv: "task_inv sinv cinv p \<Longrightarrow> task_inv sinv cinv (task_send d p)"
  by (auto simp: task_send_def task_inv_def env_inv_def wf_protocol_def split: prod.splits)

lemma task_jump_total:
  assumes "task_inv sinv cinv p"
  shows "\<exists>p'. task_jump d p = Some p' \<and> task_inv sinv cinv p' \<and> p_config p' = p_config p"
  using assms
  by (auto simp: task_jump_def task_inv_def env_inv_def wf_protocol_def frame Let_def split: prod.splits)

lemma task_receive_total:
  assumes inv: "task_inv sinv cinv p"
  shows "\<exists>p'. task_receive d p now = Some p' \<and> task_inv sinv cinv p' \<and> p_config p' = p_config p"
  using inv
proof (cases rule: task_receive_cases [where now = now])
  case idle
  with inv show ?thesis by auto
next
  case (silence pkt t)
  with inv show ?thesis by (auto simp: task_inv_def env_inv_def wf_protocol_def phase_of_def split: if_splits)
next
  case (request pkt t pkt' q b)
  then have "env_inv sinv cinv q" "p_config q = p_config p" "p_callbacks q = p_callbacks p"
    by (auto simp: sound_def keeps_def)
  with request inv show ?thesis by (auto simp: task_inv_def env_inv_def wf_protocol_def)
qed

lemma task_total:
  assumes "task_inv sinv cinv p"
  shows "\<exists>p'. protocol_task d p now = Some p' \<and> task_inv sinv cinv p' \<and> p_config p' = p_config p"
proof -
  obtain p1 where 1: "task_receive d p now = Some p1" "task_inv sinv cinv p1" "p_config p1 = p_config p"
    using task_receive_total [OF assms] by blast
  have c: "p_config (task_send d p1) = p_config p1" by (simp add: task_send_def split: prod.splits)
  obtain p2 where 2: "task_jump d (task_send d p1) = Some p2" "task_inv sinv cinv p2" "p_config p2 = p_config p1"
    using task_jump_total [OF task_send_inv [OF 1(2)]] c by auto
  obtain p3 where 3: "task_save d p2 now = Some p3" "sound sinv cinv p2 p3" using task_save_sound [OF 2(2)] by blast
  then have "task_inv sinv cinv p3" "p_config p3 = p_config p2"
    using 2(2) by (auto simp: sound_def task_inv_def keeps_def)
  with 1 2 3 show ?thesis by (simp add: protocol_task_def)
qed

end

text \<open>The recording transport honours the contract when the recorded one does.\<close>

lemma tap_contract: "transport_contract tv \<Longrightarrow> transport_contract (tap tv)"
  by (auto simp: transport_contract_def tap_def split: prod.splits)

locale tapped_loop = protocol_loop d sinv view cinv csize
  for d :: "('s, 'c, 'u \<times> wire_event list) deps" and sinv :: "'s \<Rightarrow> bool" and view :: "'s \<Rightarrow> u8 list"
    and cinv :: "'c \<Rightarrow> bool" and csize :: nat +
  fixes tv :: "'u transport_vt"
  assumes tapped: "d_transport d = tap tv"
begin

lemma receive_stage:
  assumes inv: "task_inv sinv cinv p"
  shows "\<exists>p'. task_receive d p now = Some p' \<and> stage_ok sinv cinv p p'"
proof -
  obtain p' where p': "task_receive d p now = Some p'" "task_inv sinv cinv p'" "p_config p' = p_config p"
    using task_receive_total [OF inv] by blast
  obtain t0 log where t0: "p_transport p = (t0, log)" by fastforce
  obtain got0 pkt0 t1 where r0: "tp_receive tv t0 (p_pendingResponse p) = (got0, pkt0, t1)" by (metis prod_cases3)
  have r: "tp_receive (d_transport d) (p_transport p) (p_pendingResponse p) =
      (got0, pkt0, (t1, if got0 then log @ [Got] else log))"
    using t0 r0 tapped by (simp add: tap_def)
  have "stage_ok sinv cinv p p'"
    using inv
  proof (cases rule: task_receive_cases [where now = now])
    case idle
    with p' show ?thesis by (intro stage_ok_silent) simp_all
  next
    case (silence pkt t)
    with p' r t0 show ?thesis
      by (intro stage_ok_silent) (auto simp: phase_of_def jump_calls_def split: if_splits)
  next
    case (request pkt t pkt' q b)
    then have p'_eq: "p' = q\<lparr>p_pendingResponse := pkt', p_bootloaderPending := b, p_responsePending := True\<rparr>"
      using p' by simp
    have k: "p_transport q = t" "jump_calls q = jump_calls p" using request keeps_wire [of _ q]
      by (auto simp: sound_def jump_calls_def)
    from request r have t: "t = (t1, log @ [Got])" by auto
    show ?thesis
      using p' request(1) k t t0
      by (intro stage_ok_event [where e = Got])
         (simp_all add: p'_eq phase_of_def jump_calls_def jumps_def wire_step.got split: if_splits)
  qed
  with p' show ?thesis by blast
qed

lemma send_stage:
  assumes inv: "task_inv sinv cinv p"
  shows "stage_ok sinv cinv p (task_send d p)"
proof (cases "p_responsePending p")
  case False
  with inv show ?thesis by (intro stage_ok_silent) (simp_all add: task_send_def)
next
  case True
  obtain t0 log where t0: "p_transport p = (t0, log)" by fastforce
  obtain ok t1 where s: "tp_send tv t0 (p_pendingResponse p) = (ok, t1)" by fastforce
  have eq: "task_send d p = p\<lparr>p_transport := (t1, log @ [Tried (p_pendingResponse p) ok]), p_responsePending := \<not> ok\<rparr>"
    using True t0 s tapped by (simp add: task_send_def tap_def)
  show ?thesis
    using task_send_inv [OF inv] t0 True
    by (intro stage_ok_event [where e = "Tried (p_pendingResponse p) ok"])
       (auto simp: eq phase_of_def jump_calls_def jumps_def wire_step_simps)
qed

lemma jump_stage:
  assumes inv: "task_inv sinv cinv p"
  shows "\<exists>p'. task_jump d p = Some p' \<and> stage_ok sinv cinv p p'"
proof -
  obtain p' where p': "task_jump d p = Some p'" "task_inv sinv cinv p'" "p_config p' = p_config p"
    using task_jump_total [OF inv] by blast
  have "stage_ok sinv cinv p p'"
  proof (cases "\<not> p_responsePending p \<and> p_bootloaderPending p")
    case False
    with p' show ?thesis by (intro stage_ok_silent) (simp_all add: task_jump_def split: if_splits)
  next
    case True
    obtain t0 log where t0: "p_transport p = (t0, log)" by fastforce
    obtain ok t1 where s: "tp_sendComplete tv t0 = (ok, t1)" by fastforce
    have cb: "p_callbacks p" using True inv by (simp add: task_inv_def)
    have p'_eq: "p' = (if ok then emit BootloaderJump (p\<lparr>p_transport := (t1, log @ [Polled True]), p_bootloaderPending := False\<rparr>)
        else p\<lparr>p_transport := (t1, log @ [Polled False])\<rparr>)"
      using p'(1) True t0 s tapped cb by (auto simp: task_jump_def tap_def Let_def split: if_splits)
    show ?thesis
      using p' t0 True cb
      by (intro stage_ok_event [where e = "Polled ok"])
         (auto simp: p'_eq phase_of_def jump_calls_def jumps_def wire_step_simps frame split: if_splits)
  qed
  with p' show ?thesis by blast
qed

text \<open>Over every transport that is only observed, a step is a run of the abstract exchange.\<close>

lemma task_stage:
  assumes inv: "task_inv sinv cinv p"
  shows "\<exists>p'. protocol_task d p now = Some p' \<and> stage_ok sinv cinv p p'"
proof -
  obtain p1 where 1: "task_receive d p now = Some p1" "stage_ok sinv cinv p p1"
    using receive_stage [OF assms] by blast
  then have i1: "task_inv sinv cinv p1" by (simp add: stage_ok_def)
  note 2 = send_stage [OF i1]
  then have i2: "task_inv sinv cinv (task_send d p1)" by (simp add: stage_ok_def)
  obtain p3 where 3: "task_jump d (task_send d p1) = Some p3" "stage_ok sinv cinv (task_send d p1) p3"
    using jump_stage [OF i2] by blast
  then have i3: "task_inv sinv cinv p3" by (simp add: stage_ok_def)
  obtain p4 where 4: "task_save d p3 now = Some p4" "sound sinv cinv p3 p4" using task_save_sound [OF i3] by blast
  have k: "keeps p3 p4" using 4(2) by (simp add: sound_def)
  have "stage_ok sinv cinv p3 p4"
    using 4(2) i3 keeps_wire [OF k] by (intro stage_ok_silent) (auto simp: sound_def task_inv_def)
  with 1(2) 2 3(2) have "stage_ok sinv cinv p p4" by (blast intro: stage_ok_trans)
  with 1 3 4 show ?thesis by (simp add: protocol_task_def)
qed

end

section \<open>Runs of the main loop\<close>

fun tasks ::
  "('s, 'c, 't) deps \<Rightarrow> ('s, 'c, 't) protocol \<Rightarrow> u32 list \<Rightarrow> ('s, 'c, 't) protocol option" where
  "tasks d p [] = Some p"
| "tasks d p (now # ts) = do { p' \<leftarrow> protocol_task d p now; tasks d p' ts }"

context tapped_loop
begin

lemma tasks_stage:
  assumes "task_inv sinv cinv p"
  shows "\<exists>p'. tasks d p ts = Some p' \<and> stage_ok sinv cinv p p'"
  using assms
proof (induction ts arbitrary: p)
  case Nil
  then show ?case by (simp add: stage_ok_silent)
next
  case (Cons now ts)
  obtain p1 where 1: "protocol_task d p now = Some p1" "stage_ok sinv cinv p p1"
    using task_stage [OF Cons.prems] by blast
  then have "task_inv sinv cinv p1" by (simp add: stage_ok_def)
  from Cons.IH [OF this] obtain p2 where "tasks d p1 ts = Some p2" "stage_ok sinv cinv p1 p2" by blast
  with 1 show ?case by (auto intro: stage_ok_trans)
qed

end

end
