(* ===== verification/Roundtrip.thy ===== *)
theory Roundtrip
  imports Core_Invariant
begin

text \<open>
  \<open>save\<close> followed by \<open>load\<close>, and \<open>load\<close> of a damaged record, over every store that honours
  the storage contract.
\<close>

section \<open>Round trip through a store\<close>

lemma header_ok_record:
  assumes "length payload = bytes" "bytes \<le> 65535"
  shows "header_ok (take kHeaderSize (record_bytes payload @ rest)) bytes"
    "hdr_crc (take kHeaderSize (record_bytes payload @ rest)) = NOT (crc32_bytes 0xFFFFFFFF payload)"
    "take bytes (drop kHeaderSize (record_bytes payload @ rest)) = payload"
  using assms by (simp_all add: header_ok_def record_bytes_def enc unat_of_nat)

text \<open>A record whose payload was altered.\<close>

lemma header_ok_altered:
  assumes "length payload = bytes" "length payload' = bytes" "bytes \<le> 65535"
    and v: "v = take kHeaderSize (record_bytes payload) @ payload' @ rest"
  shows "header_ok (take kHeaderSize v) bytes"
    "hdr_crc (take kHeaderSize v) = NOT (crc32_bytes 0xFFFFFFFF payload)"
    "take bytes (drop kHeaderSize v) = payload'"
  using assms by (simp_all add: header_ok_def record_bytes_def enc unat_of_nat)

context protocol_env
begin

lemma save_True:
  assumes inv: "env_inv sinv cinv p" and nz: "0 < keyCount (p_config p)"
    and save: "save d p = Some (True, p1)"
  obtains s s1 s2 bytes n cs where "p_storage p = Some s" "stateBytes d p = Some (bytes, n)"
    "custom_saved d p n = (True, cs)" "length cs = n" "sinv s2"
    "st_commit (d_storage d) s1 = (True, s2)" "view s2 = view s1"
    "p1 = p\<lparr>p_storage := Some s2, p_dirty := False\<rparr>"
    "view s2 = record_bytes (live_payload p cs) @ drop (kHeaderSize + bytes) (view s)"
    "kHeaderSize + bytes \<le> length (view s)"
proof -
  obtain s where s: "p_storage p = Some s" using save by (auto simp: save_def split: option.splits)
  have w: "writeState d p = Some (True, p1)" using save s by (simp add: save_def)
  obtain bytes n where sb: "stateBytes d p = Some (bytes, n)"
    using w by (auto simp: writeState_def split: option.splits)
  have sinv: "sinv s" using inv s by (simp add: env_inv_def)
  have room: "kHeaderSize + bytes \<le> length (view s)"
    using w s sb capacity_view [OF sinv] by (auto simp: writeState_def split: if_splits)
  obtain saved cs where cs: "custom_saved d p n = (saved, cs)" by fastforce
  have "saved"
  proof (rule ccontr)
    assume ns: "\<not> saved"
    then have n: "n \<noteq> 0" using cs by (cases "n = 0") (simp_all add: custom_saved_def)
    with inv sb obtain cv where "p_customValue p = Some cv" by (rule custom_cases)
    with w s sb cs n ns show False by (auto simp: writeState_def custom_saved_def split: if_splits)
  qed
  with cs have cs: "custom_saved d p n = (True, cs)" by simp
  obtain s1 ok s2 where "sinv s2" "view s1 = record_bytes (live_payload p cs) @ drop (kHeaderSize + bytes) (view s)"
    "view s2 = view s1" "st_commit (d_storage d) s1 = (ok, s2)"
    "writeState d p = Some (ok, if ok then p\<lparr>p_storage := Some s2, p_dirty := False\<rparr> else p\<lparr>p_storage := Some s2\<rparr>)"
    using inv s sb nz room cs by (rule writeState_cases)
  note r = this
  have ok: "st_commit (d_storage d) s1 = (True, s2)" "p1 = p\<lparr>p_storage := Some s2, p_dirty := False\<rparr>"
    using r(4,5) w by auto
  have v: "view s2 = record_bytes (live_payload p cs) @ drop (kHeaderSize + bytes) (view s)"
    using r(2,3) by simp
  note len = length_custom_saved [OF inv sb cs]
  show thesis by (rule that [OF s sb cs len r(1) ok(1) r(3) ok(2) v room])
qed

lemma load_record:
  assumes inv: "env_inv sinv cinv q" and s: "p_storage q = Some s"
    and sb: "stateBytes d q = Some (bytes, n)" and lb: "loadBufferValid (p_config q) bytes"
    and fits: "payload_fits (p_config q) km em ma" and len: "length cs = n"
    and v: "view s = record_bytes (payload_bytes km em ma lo cs) @ rest"
    and cv: "n = 0 \<and> cv' = p_customValue q \<or> n \<noteq> 0 \<and> (\<exists>c c'. p_customValue q = Some c \<and>
      cv_validateState (d_custom d) c cs \<and> cv_loadState (d_custom d) c cs = (True, c') \<and> cv' = Some c')"
  obtains buf where "load d q = Some (True, (emit (LayoutOptionsChanged lo)
    (q\<lparr>p_loadBuffer := buf, p_keymap := km, p_encoderMap := em, p_macros := ma, p_layoutOptions := lo,
       p_customValue := cv'\<rparr>))\<lparr>p_dirty := False\<rparr>)"
proof -
  have wf: "wf_protocol q" using inv by (simp add: env_inv_def)
  have bytes: "bytes = payloadSize (p_config q) n" "bytes \<le> 65535" using sb by (auto simp: stateBytes_iff)
  let ?pl = "payload_bytes km em ma lo cs"
  have plen: "length ?pl = bytes" using length_payload_bytes [OF fits] len bytes by simp
  have room: "bytes \<le> length (p_loadBuffer q)" using lb wf by (rule loadBufferValid_room)
  let ?buf = "overwrite (p_loadBuffer q) 0 ?pl"
  let ?h = "take kHeaderSize (view s)"
  have h: "header_ok ?h bytes" "hdr_crc ?h = NOT (crc32_bytes 0xFFFFFFFF ?pl)" "take bytes (drop kHeaderSize (view s)) = ?pl"
    unfolding v using header_ok_record [OF plen bytes(2)] by simp_all
  have big: "\<not> length (view s) < kHeaderSize + bytes" using v plen by simp
  define q1 where "q1 = q\<lparr>p_loadBuffer := ?buf\<rparr>"
  have eq: "load d q = load_staged d q1 ?h bytes n"
    using load_eq [OF inv s sb] lb big h(1,3) by (simp add: q1_def)
  have "load_staged d q1 ?h bytes n = Some (True, (emit (LayoutOptionsChanged lo)
     (q1\<lparr>p_keymap := km, p_encoderMap := em, p_macros := ma, p_layoutOptions := lo, p_customValue := cv'\<rparr>))\<lparr>p_dirty := False\<rparr>)"
  proof (rule load_staged_ok)
    show "wf_protocol q1" using wf plen room by (simp add: q1_def wf_protocol_def)
    show "p_loadBuffer q1 = ?pl @ drop bytes (p_loadBuffer q)" using plen by (simp add: q1_def overwrite_def)
    show "n = 0 \<and> cv' = p_customValue q1 \<or> n \<noteq> 0 \<and> (\<exists>c c'. p_customValue q1 = Some c \<and>
      cv_validateState (d_custom d) c cs \<and> cv_loadState (d_custom d) c cs = (True, c') \<and> cv' = Some c')"
      using cv by (simp add: q1_def)
  qed (use fits bytes len h in \<open>simp_all add: q1_def\<close>)
  with eq show thesis by (intro that [of ?buf]) (simp add: q1_def)
qed

text \<open>A record with an altered payload that the CRC tells apart is rejected.\<close>

lemma load_altered:
  assumes inv: "env_inv sinv cinv q" and s: "p_storage q = Some s"
    and sb: "stateBytes d q = Some (bytes, n)"
    and len: "length payload = bytes" "length payload' = bytes"
    and v: "view s = take kHeaderSize (record_bytes payload) @ payload' @ rest"
    and crc: "crc32_bytes 0xFFFFFFFF payload \<noteq> crc32_bytes 0xFFFFFFFF payload'"
  obtains buf where "load d q = Some (False, q\<lparr>p_loadBuffer := buf\<rparr>)"
proof (cases "loadBufferValid (p_config q) bytes")
  case False
  then have "load d q = Some (False, q\<lparr>p_loadBuffer := p_loadBuffer q\<rparr>)"
    using load_eq [OF inv s sb] by simp
  then show thesis by (rule that)
next
  case lb: True
  have wf: "wf_protocol q" using inv by (simp add: env_inv_def)
  have room: "bytes \<le> length (p_loadBuffer q)" using lb wf by (rule loadBufferValid_room)
  have b: "bytes \<le> 65535" using sb by (auto simp: stateBytes_iff)
  have big: "\<not> length (view s) < kHeaderSize + bytes" using v len by simp
  note h = header_ok_altered [OF len b v]
  let ?buf = "overwrite (p_loadBuffer q) 0 payload'"
  have "load d q = load_staged d (q\<lparr>p_loadBuffer := ?buf\<rparr>) (take kHeaderSize (view s)) bytes n"
    using load_eq [OF inv s sb] lb big h(1,3) by simp
  also have "\<dots> = Some (False, q\<lparr>p_loadBuffer := ?buf\<rparr>)"
  proof -
    have "mem_read ?buf 0 bytes = Some payload'" using len room by (simp add: mem_read_def overwrite_def)
    moreover have "NOT (crc32_bytes 0xFFFFFFFF payload') \<noteq> hdr_crc (take kHeaderSize (view s))"
      using crc h(2) by (metis bit.double_compl)
    ultimately show ?thesis by (simp add: load_staged_def)
  qed
  finally show thesis by (rule that)
qed

text \<open>A record with an altered header, whatever the change, is rejected.\<close>

lemma load_altered_header:
  assumes inv: "env_inv sinv cinv q" and s: "p_storage q = Some s"
    and sb: "stateBytes d q = Some (length payload, n)"
    and h: "length h = kHeaderSize" "h \<noteq> take kHeaderSize (record_bytes payload)" and v: "view s = h @ payload @ rest"
  obtains buf where "load d q = Some (False, q\<lparr>p_loadBuffer := buf\<rparr>)"
proof (cases "loadBufferValid (p_config q) (length payload) \<and> header_ok h (length payload)")
  case False
  then have "load d q = Some (False, q\<lparr>p_loadBuffer := p_loadBuffer q\<rparr>)"
    using load_eq [OF inv s sb] h(1) v by auto
  then show thesis by (rule that)
next
  case True
  have wf: "wf_protocol q" using inv by (simp add: env_inv_def)
  have room: "length payload \<le> length (p_loadBuffer q)" using True wf by (blast intro: loadBufferValid_room)
  let ?buf = "overwrite (p_loadBuffer q) 0 payload"
  have t: "take kHeaderSize (view s) = h" "take (length payload) (drop kHeaderSize (view s)) = payload"
    "kHeaderSize + length payload \<le> length (view s)" using h(1) v by simp_all
  have "hdr_crc h \<noteq> NOT (crc32_bytes 0xFFFFFFFF payload)"
  proof
    assume "hdr_crc h = NOT (crc32_bytes 0xFFFFFFFF payload)"
    with view_record [of "length payload" "view s"] t True
    have "view s = record_bytes payload @ drop (kHeaderSize + length payload) (view s)" by simp
    then have "take kHeaderSize (view s) = take kHeaderSize (record_bytes payload)"
      by (metis length_record_bytes take_append diff_is_0_eq le_add1 take0 append_Nil2)
    with t(1) h(2) show False by simp
  qed
  moreover have "mem_read ?buf 0 (length payload) = Some payload" using room by (simp add: mem_read_def overwrite_def)
  ultimately have "load_staged d (q\<lparr>p_loadBuffer := ?buf\<rparr>) h (length payload) n = Some (False, q\<lparr>p_loadBuffer := ?buf\<rparr>)"
    by (auto simp: load_staged_def)
  moreover have "load d q = load_staged d (q\<lparr>p_loadBuffer := ?buf\<rparr>) h (length payload) n"
    using load_eq [OF inv s sb] True t by simp
  ultimately show thesis using that by simp
qed

end

text \<open>Two instances with the same configuration and kind of custom value agree on the sizes.\<close>

lemma stateBytes_same:
  assumes "p_config q = p_config p" "custom_bytes d q = custom_bytes d p"
  shows "stateBytes d q = stateBytes d p"
  using assms by (simp add: stateBytes_def Let_def custom_bytes_def [symmetric])

lemma custom_bytes_same:
  assumes "custom_contract (d_custom d) cinv csize"
    and "pred_option cinv (p_customValue p)" "pred_option cinv (p_customValue q)"
    and "p_customValue q = None \<longleftrightarrow> p_customValue p = None"
  shows "custom_bytes d q = custom_bytes d p"
  using assms custom_contract.stateSize_csize [OF assms(1)]
  by (cases "p_customValue p"; cases "p_customValue q") (auto simp: custom_bytes_def)

text \<open>The custom value of one instance accepts the bytes another instance saved.\<close>

lemma custom_reload:
  assumes env: "protocol_env d sinv view cinv csize"
    and pers: "custom_persistent (d_custom d) cinv csize cview"
    and p: "env_inv sinv cinv p" "stateBytes d p = Some (bytes, n)" "custom_saved d p n = (True, cs)" "length cs = n"
    and q: "env_inv sinv cinv q" "stateBytes d q = Some (bytes, n)"
  obtains cv' where "n = 0 \<and> cv' = p_customValue q \<or> n \<noteq> 0 \<and> (\<exists>c c'. p_customValue q = Some c \<and>
      cv_validateState (d_custom d) c cs \<and> cv_loadState (d_custom d) c cs = (True, c') \<and> cv' = Some c')"
    "n \<noteq> 0 \<longrightarrow> map_option cview cv' = map_option cview (p_customValue p)"
proof (cases "n = 0")
  case True
  with that show thesis by auto
next
  case False
  obtain c where c: "p_customValue p = Some c" "cinv c" "n = csize"
    using protocol_env.custom_cases [OF env p(1,2) False] by metis
  obtain e where e: "p_customValue q = Some e" "cinv e"
    using protocol_env.custom_cases [OF env q False] by metis
  have sv: "cv_saveState (d_custom d) c (uninit d n) = (True, cs)"
    using p(3) c False by (simp add: custom_saved_def)
  have v: "cv_validateState (d_custom d) e cs"
    using custom_persistent.save_validates [OF pers c(2) e(2) _ sv] c(3) by simp
  obtain e' where e': "cv_loadState (d_custom d) e cs = (True, e')"
    using custom_contract.validate_load [OF custom_persistent.axioms(1) [OF pers] e(2) _ v] p(4) c(3) by blast
  have "cview e' = cview c" using custom_persistent.save_load [OF pers c(2) e(2) _ sv e'] c(3) by simp
  with c e v e' False show thesis by (intro that [of "Some e'"]) simp_all
qed

section \<open>What load and factory reset guarantee\<close>

context protocol_env
begin

lemma load_accepted:
  assumes inv: "env_inv sinv cinv p"
  shows "\<exists>ok p'. load d p = Some (ok, p') \<and> env_inv sinv cinv p' \<and>
    (if ok then \<not> p_dirty p' \<and>
        (\<exists>s cs rest. p_storage p = Some s \<and> p_storage p' = Some s \<and> view s = record_bytes (live_payload p' cs) @ rest)
     else \<exists>buf. p' = p\<lparr>p_loadBuffer := buf\<rparr>)"
proof -
  obtain ok p' where l: "load d p = Some (ok, p')" "env_inv sinv cinv p'"
    using load_sound [OF inv] by (auto simp: sound_def)
  from inv show ?thesis
  proof (cases rule: load_cases)
    case (failed buf)
    with l have "\<not> ok" "p' = p\<lparr>p_loadBuffer := buf\<rparr>" by simp_all
    with l show ?thesis by (intro exI [of _ ok] exI [of _ p']) auto
  next
    case (loaded cv km em ma lo buf)
    with l(1) have ok: "ok" and p': "p' = (emit (LayoutOptionsChanged lo) (p\<lparr>p_loadBuffer := buf, p_keymap := km,
        p_encoderMap := em, p_macros := ma, p_layoutOptions := lo, p_customValue := cv\<rparr>))\<lparr>p_dirty := False\<rparr>" by simp_all
    have "\<not> p_dirty p'" "p_storage p' = p_storage p" "live_payload p' cs = payload_bytes km em ma lo cs" for cs
      by (simp_all add: p' live_payload_def frame)
    with loaded(4) ok l show ?thesis by (intro exI [of _ ok] exI [of _ p']) auto
  qed
qed

end

text \<open>The core on a store with atomic commits.\<close>

locale atomic_env = protocol_env d sinv view cinv csize + atomic_storage "d_storage d" sinv view durable
  for d :: "('s, 'c, 't) deps" and sinv :: "'s \<Rightarrow> bool" and view :: "'s \<Rightarrow> u8 list"
    and cinv :: "'c \<Rightarrow> bool" and csize :: nat and durable :: "'s \<Rightarrow> u8 list"
begin

lemma factoryReset_all_or_nothing:
  assumes inv: "env_inv sinv cinv p" and s: "p_storage p = Some s"
  shows "\<exists>ok p' s'. factoryReset d p = Some (ok, p') \<and> env_inv sinv cinv p' \<and> p_storage p' = Some s' \<and>
    (if ok then (\<exists>cs rest. durable s' = record_bytes (defaults_payload p cs) @ rest) \<and>
        p_keymap p' = p_defaultKeymap p \<and> p_encoderMap p' = p_defaultEncoderMap p \<and>
        p_macros p' = replicate (unat (cfg_macroBytes (p_config p))) 0 \<and>
        p_layoutOptions p' = cfg_defaultLayoutOptions (p_config p) \<and> \<not> p_dirty p'
     else durable s' = durable s \<and> p_keymap p' = p_keymap p \<and> p_encoderMap p' = p_encoderMap p \<and>
        p_macros p' = p_macros p \<and> p_layoutOptions p' = p_layoutOptions p \<and> p_dirty p' = p_dirty p \<and>
        p_customValue p' = (case stateBytes d p of None \<Rightarrow> p_customValue p
          | Some (bytes, n) \<Rightarrow> if loadBufferValid (p_config p) bytes \<and> kHeaderSize + bytes \<le> st_capacity (d_storage d) s \<and> n \<noteq> 0
              then map_option (cv_reset (d_custom d)) (p_customValue p) else p_customValue p))"
proof -
  obtain ok p' where r: "factoryReset d p = Some (ok, p')" "env_inv sinv cinv p'"
    using factoryReset_sound [OF inv] by (auto simp: sound_def)
  have sinv: "sinv s" using inv s by (simp add: env_inv_def)
  show ?thesis
  proof (cases "\<exists>bytes n. stateBytes d p = Some (bytes, n) \<and> loadBufferValid (p_config p) bytes \<and>
      kHeaderSize + bytes \<le> length (view s)")
    case False
    then have "factoryReset d p = Some (False, p)"
      using s capacity_view [OF sinv] by (auto simp: factoryReset_def split: option.splits)
    with r have e: "\<not> ok" "p' = p" by simp_all
    have "p_customValue p = (case stateBytes d p of None \<Rightarrow> p_customValue p
          | Some (bytes, n) \<Rightarrow> if loadBufferValid (p_config p) bytes \<and> kHeaderSize + bytes \<le> st_capacity (d_storage d) s \<and> n \<noteq> 0
              then map_option (cv_reset (d_custom d)) (p_customValue p) else p_customValue p)"
      using False capacity_view [OF sinv] by (auto split: option.splits)
    with e r s show ?thesis by (intro exI [of _ ok] exI [of _ p'] exI [of _ s]) simp
  next
    case True
    then obtain bytes n where b: "stateBytes d p = Some (bytes, n)" "loadBufferValid (p_config p) bytes"
      "kHeaderSize + bytes \<le> length (view s)" by blast
    have ne: "defaults_payload p cs \<noteq> []" for cs by (simp add: defaults_payload_def payload_bytes_def le32_def)
    from inv s b show ?thesis
    proof (cases rule: factoryReset_cases)
      case (rejected cv buf)
      with r have "\<not> ok" "p' = p\<lparr>p_customValue := cv, p_loadBuffer := buf\<rparr>" by simp_all
      with r s b rejected(2) capacity_view [OF sinv] show ?thesis
        by (intro exI [of _ ok] exI [of _ p'] exI [of _ s]) simp
    next
      case (not_stored cv buf cs s')
      with r have "\<not> ok" "p' = p\<lparr>p_customValue := cv, p_loadBuffer := buf, p_storage := Some s'\<rparr>" by simp_all
      with r b not_stored(2) capacity_view [OF sinv] reset_store_durable [OF sinv b(3) not_stored(4) ne not_stored(3)]
      show ?thesis by (intro exI [of _ ok] exI [of _ p'] exI [of _ s']) simp
    next
      case (stored cv buf cs s')
      have "take (kHeaderSize + bytes) (view s') = record_bytes (defaults_payload p cs)"
        using reset_store_cases [OF sinv b(3) stored(4) ne stored(3)] by blast
      then have "durable s' = record_bytes (defaults_payload p cs) @ drop (kHeaderSize + bytes) (view s')"
        using reset_store_durable [OF sinv b(3) stored(4) ne stored(3)] by (metis append_take_drop_id)
      with stored(1) r show ?thesis by (intro exI [of _ ok] exI [of _ p'] exI [of _ s']) (auto simp: frame)
    qed
  qed
qed

end

section \<open>Startup\<close>

lemma resetBuffers_eq:
  assumes "wf_protocol p"
  shows "resetBuffers d p = Some (p\<lparr>p_keymap := p_defaultKeymap p, p_encoderMap := p_defaultEncoderMap p,
    p_macros := replicate (unat (cfg_macroBytes (p_config p))) 0,
    p_layoutOptions := cfg_defaultLayoutOptions (p_config p),
    p_customValue := map_option (cv_reset (d_custom d)) (p_customValue p)\<rparr>)"
proof -
  have e: "encoderMapBytes (p_config p) = 0 \<Longrightarrow> p_encoderMap p = p_defaultEncoderMap p"
    and m: "cfg_macroBytes (p_config p) = 0 \<Longrightarrow> p_macros p = []"
    using assms by (simp_all add: wf_protocol_def)
  then show ?thesis using assms
    by (cases "encoderMapBytes (p_config p) = 0"; cases "cfg_macroBytes (p_config p) = 0")
       (simp_all add: resetBuffers_def wf_protocol_def keymapBytes_def mem_read_all memcpy16_all mem_write_all Let_def)
qed

context protocol_env
begin

lemma begin_cases:
  assumes inv: "env_inv sinv cinv p"
  obtains (refused) "\<not> begin_ok d p" "protocol_begin d p now = Some (False, p)"
  | (restored) q where "begin_ok d p" "load d p = Some (True, q)" "env_inv sinv cinv q"
    "protocol_begin d p now = Some (True, q\<lparr>p_dirty := False, p_saveAt := now + cfg_autoSaveMs (p_config p)\<rparr>)"
  | (defaults) buf q where "begin_ok d p" "load d p = Some (False, p\<lparr>p_loadBuffer := buf\<rparr>)" "env_inv sinv cinv q"
    "q = p\<lparr>p_loadBuffer := buf, p_keymap := p_defaultKeymap p, p_encoderMap := p_defaultEncoderMap p,
      p_macros := replicate (unat (cfg_macroBytes (p_config p))) 0,
      p_layoutOptions := cfg_defaultLayoutOptions (p_config p),
      p_customValue := map_option (cv_reset (d_custom d)) (p_customValue p)\<rparr>"
    "protocol_begin d p now = Some (True, (emit (LayoutOptionsChanged (cfg_defaultLayoutOptions (p_config p))) q)
      \<lparr>p_dirty := False, p_saveAt := now + cfg_autoSaveMs (p_config p)\<rparr>)"
proof (cases "begin_ok d p")
  case False
  then show thesis by (intro refused) (simp_all add: protocol_begin_def)
next
  case True
  obtain ok p' where l: "load d p = Some (ok, p')" "sound sinv cinv p p'" using load_sound [OF inv] by blast
  show thesis
  proof (cases ok)
    case ok: True
    have "p_config p' = p_config p" using l(2) by (simp add: sound_def keeps_def)
    with True ok l show thesis by (intro restored [of p']) (simp_all add: protocol_begin_def sound_def)
  next
    case False
    then obtain buf where buf: "p' = p\<lparr>p_loadBuffer := buf\<rparr>" "length buf = length (p_loadBuffer p)"
      using inv l(1) by (elim load_cases) auto
    have wf: "wf_protocol (p\<lparr>p_loadBuffer := buf\<rparr>)" using l(2) buf by (simp add: sound_def env_inv_def)
    define q where "q = p\<lparr>p_loadBuffer := buf, p_keymap := p_defaultKeymap p, p_encoderMap := p_defaultEncoderMap p,
      p_macros := replicate (unat (cfg_macroBytes (p_config p))) 0,
      p_layoutOptions := cfg_defaultLayoutOptions (p_config p),
      p_customValue := map_option (cv_reset (d_custom d)) (p_customValue p)\<rparr>"
    have q: "resetBuffers d (p\<lparr>p_loadBuffer := buf\<rparr>) = Some q"
      using resetBuffers_eq [OF wf, of d] by (simp add: q_def)
    have "env_inv sinv cinv q" using inv buf(2) reset_inv
      by (cases "p_customValue p") (auto simp: q_def env_inv_def wf_protocol_def)
    moreover have "protocol_begin d p now = Some (True, (emit (LayoutOptionsChanged (cfg_defaultLayoutOptions (p_config p))) q)
      \<lparr>p_dirty := False, p_saveAt := now + cfg_autoSaveMs (p_config p)\<rparr>)"
      using True False l(1) buf(1) q by (simp add: protocol_begin_def q_def frame)
    ultimately show thesis using True False l(1) buf(1) by (intro defaults [of buf q]) (simp_all add: q_def)
  qed
qed

lemma begin_summary:
  assumes inv: "env_inv sinv cinv p"
  shows "\<exists>p' loaded q. protocol_begin d p now = Some (begin_ok d p, p') \<and> env_inv sinv cinv p' \<and>
    (if begin_ok d p then
       load d p = Some (loaded, q) \<and> \<not> p_dirty p' \<and> p_saveAt p' = now + cfg_autoSaveMs (p_config p) \<and>
       (if loaded then live_payload p' = live_payload q \<and> p_customValue p' = p_customValue q
        else live_payload p' = defaults_payload p \<and>
          p_customValue p' = map_option (cv_reset (d_custom d)) (p_customValue p))
     else p' = p)"
  using inv
proof (cases rule: begin_cases [where now = now])
  case refused
  with inv show ?thesis by simp
next
  case (restored q)
  then show ?thesis
    by (intro exI [of _ "q\<lparr>p_dirty := False, p_saveAt := now + cfg_autoSaveMs (p_config p)\<rparr>"] exI [of _ True] exI [of _ q])
       (simp add: env_inv_def wf_protocol_def live_payload_def [abs_def])
next
  case (defaults buf q)
  define p' where "p' = (emit (LayoutOptionsChanged (cfg_defaultLayoutOptions (p_config p))) q)
      \<lparr>p_dirty := False, p_saveAt := now + cfg_autoSaveMs (p_config p)\<rparr>"
  have "env_inv sinv cinv p'" using defaults(3) by (simp add: p'_def env_inv_def wf_protocol_def frame)
  moreover have "live_payload p' = defaults_payload p" "\<not> p_dirty p'"
    "p_saveAt p' = now + cfg_autoSaveMs (p_config p)"
    "p_customValue p' = map_option (cv_reset (d_custom d)) (p_customValue p)"
    by (simp_all add: p'_def defaults(4) live_payload_def [abs_def] defaults_payload_def [abs_def] frame)
  ultimately show ?thesis using defaults(1,2,5) p'_def
    by (intro exI [of _ p'] exI [of _ False] exI [of _ "p\<lparr>p_loadBuffer := buf\<rparr>"]) simp
qed

end

end
