(* ===== verification/Memory_Store.thy ===== *)
theory Memory_Store
  imports Interfaces
begin

text \<open>
  The RAM adapters of \<open>src/VIA_Memory.h\<close>: \<open>MemoryStorage\<close> and the one-packet
  \<open>MemoryTransport\<close>.  The store honours the storage contract, the transport the packet
  contract; a store without a buffer refuses every access.
\<close>

section \<open>MemoryStorage\<close>

record memory_storage =
  ms_buffer :: "u8 list option"
  ms_length :: nat

definition memory_storage_new :: "u8 list option \<Rightarrow> nat \<Rightarrow> memory_storage" where
  "memory_storage_new buffer len =
     \<lparr>ms_buffer = map_option (\<lambda>_. replicate len 0xFF) buffer, ms_length = len\<rparr>"

definition memory_read :: "memory_storage \<Rightarrow> nat \<Rightarrow> u8 list \<Rightarrow> bool \<times> u8 list \<times> memory_storage" where
  "memory_read s offset output =
     (case ms_buffer s of None \<Rightarrow> (False, output, s)
      | Some b \<Rightarrow>
          if offset > ms_length s \<or> length output > ms_length s - offset then (False, output, s)
          else (True, take (length output) (drop offset b), s))"

definition memory_write :: "memory_storage \<Rightarrow> nat \<Rightarrow> u8 list \<Rightarrow> bool \<times> memory_storage" where
  "memory_write s offset input =
     (case ms_buffer s of None \<Rightarrow> (False, s)
      | Some b \<Rightarrow>
          if offset > ms_length s \<or> length input > ms_length s - offset then (False, s)
          else (True, s\<lparr>ms_buffer := Some (overwrite b offset input)\<rparr>))"

definition memory_commit :: "memory_storage \<Rightarrow> bool \<times> memory_storage" where
  "memory_commit s = (True, s)"

definition memory_erase :: "memory_storage \<Rightarrow> bool \<times> memory_storage" where
  "memory_erase s =
     (case ms_buffer s of None \<Rightarrow> (False, s)
      | Some _ \<Rightarrow> (True, s\<lparr>ms_buffer := Some (replicate (ms_length s) 0xFF)\<rparr>))"

definition memory_vt :: "memory_storage storage_vt" where
  "memory_vt = \<lparr>st_capacity = ms_length, st_read = memory_read, st_write = memory_write,
     st_commit = memory_commit, st_erase = memory_erase\<rparr>"

definition memory_inv :: "memory_storage \<Rightarrow> bool" where
  "memory_inv s \<longleftrightarrow> (case ms_buffer s of None \<Rightarrow> False | Some b \<Rightarrow> length b = ms_length s)"

definition memory_view :: "memory_storage \<Rightarrow> u8 list" where
  "memory_view s = (case ms_buffer s of None \<Rightarrow> [] | Some b \<Rightarrow> b)"

lemma memory_inv_new: "memory_inv (memory_storage_new (Some b) n)"
  by (simp add: memory_inv_def memory_storage_new_def)

lemmas memory_defs = memory_read_def memory_write_def memory_commit_def memory_erase_def
  memory_inv_def memory_view_def

interpretation memory: storage_contract memory_vt memory_inv memory_view
  by unfold_locales (auto simp: memory_vt_def memory_defs split: option.splits if_splits)

text \<open>An access that leaves the buffer, or a store without one, fails and changes nothing.\<close>

lemma memory_refuses:
  assumes "length bs > ms_length s - off \<or> off > ms_length s \<or> ms_buffer s = None"
  shows "memory_read s off bs = (False, bs, s)" "memory_write s off bs = (False, s)"
  using assms by (auto simp: memory_defs split: option.splits)

section \<open>MemoryTransport\<close>

record memory_transport =
  mt_request :: "u8 list"
  mt_response :: "u8 list"
  mt_requestReady :: bool
  mt_responseReady :: bool

definition memory_transport_new :: memory_transport where
  "memory_transport_new = \<lparr>mt_request = replicate kPacketSize 0, mt_response = replicate kPacketSize 0,
     mt_requestReady = False, mt_responseReady = False\<rparr>"

definition memory_receive :: "memory_transport \<Rightarrow> u8 list \<Rightarrow> bool \<times> u8 list \<times> memory_transport" where
  "memory_receive t pkt =
     (if \<not> mt_requestReady t then (False, pkt, t)
      else (True, overwrite pkt 0 (take kPacketSize (mt_request t)), t\<lparr>mt_requestReady := False\<rparr>))"

definition memory_send :: "memory_transport \<Rightarrow> u8 list \<Rightarrow> bool \<times> memory_transport" where
  "memory_send t pkt = (True, t\<lparr>mt_response := take kPacketSize pkt, mt_responseReady := True\<rparr>)"

definition memory_inject :: "memory_transport \<Rightarrow> u8 list \<Rightarrow> memory_transport" where
  "memory_inject t pkt = t\<lparr>mt_request := take kPacketSize pkt, mt_requestReady := True\<rparr>"

definition memory_takeResponse :: "memory_transport \<Rightarrow> u8 list \<Rightarrow> bool \<times> u8 list \<times> memory_transport" where
  "memory_takeResponse t pkt =
     (if \<not> mt_responseReady t then (False, pkt, t)
      else (True, overwrite pkt 0 (mt_response t), t\<lparr>mt_responseReady := False\<rparr>))"

definition memory_transport_vt :: "memory_transport transport_vt" where
  "memory_transport_vt = \<lparr>tp_receive = memory_receive, tp_send = memory_send,
     tp_sendComplete = transport_sendComplete\<rparr>"

interpretation memory_link: transport_contract memory_transport_vt
  by unfold_locales (auto simp: memory_transport_vt_def memory_receive_def overwrite_def split: if_splits)

text \<open>A packet goes through unchanged, once.\<close>

lemma memory_inject_receive:
  assumes "length pkt = kPacketSize" "length buf = kPacketSize"
  shows "memory_receive (memory_inject t pkt) buf = (True, pkt, t\<lparr>mt_request := pkt, mt_requestReady := False\<rparr>)"
  using assms by (simp add: memory_receive_def memory_inject_def overwrite_all)

end
