(* ===== verification/Nvs_Store.thy ===== *)
theory Nvs_Store
  imports Interfaces
begin

text \<open>
  \<open>NVSStorage\<close> (\<open>src/VIA_ESP32_NVS.h\<close>; the ESP32-S3 header is an alias of it).  The
  \<open>Preferences\<close> library of the ESP32 core is not part of the repository: it is a table of
  functions, and what the adapter relies on is the locale \<open>blob_store\<close>.  The locale is
  interpreted on the fake the repository's tests use (\<open>tests/fakes/Preferences.h\<close>).
\<close>

definition kNvsCapacity :: nat where "kNvsCapacity = 4096"

definition nvs_key :: string where "nvs_key = ''via_payload''"

record 'n preferences =
  pf_begin :: "'n \<Rightarrow> string \<Rightarrow> bool \<Rightarrow> bool \<times> 'n"
  pf_getBytes :: "'n \<Rightarrow> string \<Rightarrow> u8 list \<Rightarrow> nat \<times> u8 list"
  pf_putBytes :: "'n \<Rightarrow> string \<Rightarrow> u8 list \<Rightarrow> nat \<times> 'n"

record 'n nvs_storage =
  nv_prefs :: 'n
  nv_ns :: string
  nv_shadow :: "u8 list"

definition nvs_new :: "'n \<Rightarrow> 'n nvs_storage" where
  "nvs_new n = \<lparr>nv_prefs = n, nv_ns = ''via'', nv_shadow = replicate kNvsCapacity 0xFF\<rparr>"

definition nvs_begin :: "'n preferences \<Rightarrow> 'n nvs_storage \<Rightarrow> string \<Rightarrow> bool \<times> 'n nvs_storage" where
  "nvs_begin pf s ns =
     (case pf_begin pf (nv_prefs s) ns False of (opened, n) \<Rightarrow>
        if \<not> opened then (False, s\<lparr>nv_prefs := n\<rparr>)
        else (case pf_getBytes pf n nvs_key (nv_shadow s) of (loaded, shadow) \<Rightarrow>
          (True, s\<lparr>nv_prefs := n, nv_ns := ns,
             nv_shadow := (if loaded \<noteq> kNvsCapacity then replicate kNvsCapacity 0xFF else shadow)\<rparr>)))"

definition nvs_capacity :: "'n nvs_storage \<Rightarrow> nat" where "nvs_capacity s = kNvsCapacity"

definition nvs_read :: "'n nvs_storage \<Rightarrow> nat \<Rightarrow> u8 list \<Rightarrow> bool \<times> u8 list \<times> 'n nvs_storage" where
  "nvs_read s offset output =
     (if length output = 0 then (True, output, s)
      else if offset > kNvsCapacity \<or> length output > kNvsCapacity - offset then (False, output, s)
      else (True, take (length output) (drop offset (nv_shadow s)), s))"

definition nvs_write :: "'n nvs_storage \<Rightarrow> nat \<Rightarrow> u8 list \<Rightarrow> bool \<times> 'n nvs_storage" where
  "nvs_write s offset input =
     (if length input = 0 then (True, s)
      else if offset > kNvsCapacity \<or> length input > kNvsCapacity - offset then (False, s)
      else (True, s\<lparr>nv_shadow := overwrite (nv_shadow s) offset input\<rparr>))"

definition nvs_commit :: "'n preferences \<Rightarrow> 'n nvs_storage \<Rightarrow> bool \<times> 'n nvs_storage" where
  "nvs_commit pf s =
     (case pf_putBytes pf (nv_prefs s) nvs_key (nv_shadow s) of (written, n) \<Rightarrow>
        (written = kNvsCapacity, s\<lparr>nv_prefs := n\<rparr>))"

definition nvs_erase :: "'n nvs_storage \<Rightarrow> bool \<times> 'n nvs_storage" where
  "nvs_erase s = (True, s\<lparr>nv_shadow := replicate kNvsCapacity 0xFF\<rparr>)"

definition nvs_vt :: "'n preferences \<Rightarrow> 'n nvs_storage storage_vt" where
  "nvs_vt pf = \<lparr>st_capacity = nvs_capacity, st_read = nvs_read, st_write = nvs_write,
     st_commit = nvs_commit pf, st_erase = nvs_erase\<rparr>"

lemmas nvs_defs = nvs_capacity_def nvs_read_def nvs_write_def nvs_commit_def nvs_erase_def

section \<open>What the adapter needs of the library\<close>

text \<open>
  \<open>blob n\<close> is the value stored for the adapter's key in the namespace \<open>ns\<close>.  Storing a blob
  either stores all of it and reports its length, or leaves the old one; reading reports the
  buffer's length exactly when a blob of that length is stored.
\<close>

locale blob_store =
  fixes pf :: "'n preferences" and ns :: string and pinv :: "'n \<Rightarrow> bool" and blob :: "'n \<Rightarrow> u8 list option"
  assumes put_blob: "pinv n \<Longrightarrow> length bs = kNvsCapacity \<Longrightarrow> pf_putBytes pf n nvs_key bs = (k, n') \<Longrightarrow>
      pinv n' \<and> blob n' = (if k = kNvsCapacity then Some bs else blob n)"
    and get_blob: "pinv n \<Longrightarrow> length buf = kNvsCapacity \<Longrightarrow> pf_getBytes pf n nvs_key buf = (k, out) \<Longrightarrow>
      (if k = kNvsCapacity then blob n = Some out \<and> length out = kNvsCapacity
       else \<forall>b. blob n = Some b \<longrightarrow> length b \<noteq> kNvsCapacity)"
    and begin_blob: "pinv n \<Longrightarrow> pf_begin pf n ns False = (ok, n') \<Longrightarrow> pinv n' \<and> blob n' = blob n"
begin

text \<open>What a power cycle finds: the stored blob, or an erased image.\<close>

definition nvs_durable :: "'n nvs_storage \<Rightarrow> u8 list" where
  "nvs_durable s = (case blob (nv_prefs s) of
     Some b \<Rightarrow> if length b = kNvsCapacity then b else replicate kNvsCapacity 0xFF
   | None \<Rightarrow> replicate kNvsCapacity 0xFF)"

definition nvs_inv :: "'n nvs_storage \<Rightarrow> bool" where
  "nvs_inv s \<longleftrightarrow> pinv (nv_prefs s) \<and> length (nv_shadow s) = kNvsCapacity"

lemma nvs_commit_blob:
  assumes "nvs_inv s" and "nvs_commit pf s = (ok, s')"
  shows "nvs_inv s' \<and> nv_shadow s' = nv_shadow s \<and> nvs_durable s' = (if ok then nv_shadow s else nvs_durable s)"
proof -
  obtain k n' where p: "pf_putBytes pf (nv_prefs s) nvs_key (nv_shadow s) = (k, n')" by fastforce
  have "pinv n' \<and> blob n' = (if k = kNvsCapacity then Some (nv_shadow s) else blob (nv_prefs s))"
    using assms(1) by (intro put_blob [OF _ _ p]) (simp_all add: nvs_inv_def)
  with assms p show ?thesis by (auto simp: nvs_commit_def nvs_inv_def nvs_durable_def split: option.splits)
qed

text \<open>A restart loads what is durable.\<close>

lemma nvs_restart:
  assumes "nvs_inv s" and "nvs_begin pf (nvs_new (nv_prefs s)) ns = (True, s')"
  shows "nv_shadow s' = nvs_durable s \<and> nvs_inv s'"
proof -
  obtain ok n where b: "pf_begin pf (nv_prefs s) ns False = (ok, n)" by fastforce
  have n: "pinv n" "blob n = blob (nv_prefs s)" using begin_blob [OF _ b] assms(1) by (auto simp: nvs_inv_def)
  obtain k out where g: "pf_getBytes pf n nvs_key (replicate kNvsCapacity 0xFF) = (k, out)" by fastforce
  from get_blob [OF n(1) _ g] assms b g n show ?thesis
    by (auto simp: nvs_begin_def nvs_new_def nvs_durable_def nvs_inv_def split: if_splits option.splits)
qed

end

sublocale blob_store \<subseteq> nvs: atomic_storage "nvs_vt pf" nvs_inv nv_shadow nvs_durable
proof unfold_locales
  fix s s' ok assume "nvs_inv s" "st_commit (nvs_vt pf) s = (ok, s')"
  then show "nvs_inv s' \<and> nv_shadow s' = nv_shadow s"
    using nvs_commit_blob [of s ok s'] by (simp add: nvs_vt_def)
next
  fix s s' ok assume "nvs_inv s" "st_commit (nvs_vt pf) s = (ok, s')"
  then show "nvs_durable s' = (if ok then nv_shadow s else nvs_durable s)"
    using nvs_commit_blob [of s ok s'] by (simp add: nvs_vt_def)
qed (auto simp: nvs_vt_def nvs_defs nvs_inv_def nvs_durable_def split: if_splits)

section \<open>The library of the native tests\<close>

text \<open>Blobs per namespace and key, and the namespace that is open.\<close>

record fake_prefs =
  fp_store :: "string \<times> string \<Rightarrow> u8 list option"
  fp_open :: "string option"

definition fake_begin :: "fake_prefs \<Rightarrow> string \<Rightarrow> bool \<Rightarrow> bool \<times> fake_prefs" where
  "fake_begin f name readonly = (True, f\<lparr>fp_open := Some name\<rparr>)"

definition fake_getBytes :: "fake_prefs \<Rightarrow> string \<Rightarrow> u8 list \<Rightarrow> nat \<times> u8 list" where
  "fake_getBytes f key buf =
     (case fp_open f of None \<Rightarrow> (0, buf)
      | Some name \<Rightarrow> (case fp_store f (name, key) of None \<Rightarrow> (0, buf)
          | Some b \<Rightarrow> let n = min (length b) (length buf) in (n, overwrite buf 0 (take n b))))"

definition fake_putBytes :: "fake_prefs \<Rightarrow> string \<Rightarrow> u8 list \<Rightarrow> nat \<times> fake_prefs" where
  "fake_putBytes f key bs =
     (case fp_open f of None \<Rightarrow> (0, f)
      | Some name \<Rightarrow> (length bs, f\<lparr>fp_store := (fp_store f)((name, key) \<mapsto> bs)\<rparr>))"

definition fake_preferences :: "fake_prefs preferences" where
  "fake_preferences = \<lparr>pf_begin = fake_begin, pf_getBytes = fake_getBytes, pf_putBytes = fake_putBytes\<rparr>"

definition fake_blob :: "fake_prefs \<Rightarrow> u8 list option" where
  "fake_blob f = fp_store f (''via'', nvs_key)"

definition fake_inv :: "fake_prefs \<Rightarrow> bool" where
  "fake_inv f \<longleftrightarrow> fp_open f = Some ''via'' \<and> (case fake_blob f of None \<Rightarrow> True | Some b \<Rightarrow> length b \<le> kNvsCapacity)"

interpretation nvs_fake: blob_store fake_preferences "''via''" fake_inv fake_blob
proof unfold_locales
  fix n buf k out
  assume "fake_inv n" "length buf = kNvsCapacity" "pf_getBytes fake_preferences n nvs_key buf = (k, out)"
  then show "if k = kNvsCapacity then fake_blob n = Some out \<and> length out = kNvsCapacity
       else \<forall>b. fake_blob n = Some b \<longrightarrow> length b \<noteq> kNvsCapacity"
    by (auto simp: fake_inv_def fake_blob_def fake_preferences_def fake_getBytes_def kNvsCapacity_def
        overwrite_def Let_def split: option.splits if_splits)
qed (auto simp: fake_preferences_def fake_putBytes_def fake_begin_def fake_inv_def fake_blob_def
    kNvsCapacity_def split: if_splits option.splits)

end
