(* ===== verification/Rgb_Light.thy ===== *)
theory Rgb_Light
  imports Interfaces
begin

text \<open>
  \<open>RGBLight\<close> (\<open>src/VIA_RGBLight.h\<close>, \<open>src/VIA_RGBLight.cpp\<close>): custom-value channel 2 in the
  old form (channel, value id, data) and the version-3 form (value id, data), and its persisted
  state.  The calls of \<open>RGBLightCallbacks::apply\<close> are recorded in order.
\<close>

record rgb_state =
  rgb_brightness :: u8
  rgb_effect :: u8
  rgb_speed :: u8
  rgb_hue :: u8
  rgb_saturation :: u8

record rgb_light =
  rl_state :: rgb_state
  rl_callbacks :: bool
  rl_applied :: "rgb_state list"

definition rgb_apply :: "rgb_light \<Rightarrow> rgb_light" where
  "rgb_apply l = (if rl_callbacks l then l\<lparr>rl_applied := rl_applied l @ [rl_state l]\<rparr> else l)"

text \<open>The command byte and the index of the first data byte, or nothing for another channel.\<close>

definition rgb_command :: "u8 list \<Rightarrow> (u8 \<times> nat) option" where
  "rgb_command packet =
     (let v3Form = packet ! 1 \<ge> 0x80 in
      if \<not> v3Form \<and> packet ! 1 \<noteq> 0x02 then None
      else Some (if v3Form then packet ! 1 else packet ! 2, if v3Form then 2 else 3))"

definition rgb_set :: "rgb_light \<Rightarrow> u8 list \<Rightarrow> bool \<times> u8 list \<times> rgb_light" where
  "rgb_set l packet =
     (case rgb_command packet of None \<Rightarrow> (False, packet, l)
      | Some (command, i) \<Rightarrow>
          let s = rl_state l; put = (\<lambda>s'. (True, packet, rgb_apply (l\<lparr>rl_state := s'\<rparr>))) in
          if command = 0x80 \<or> command = 0x01 then put (s\<lparr>rgb_brightness := packet ! i\<rparr>)
          else if command = 0x81 \<or> command = 0x02 then put (s\<lparr>rgb_effect := packet ! i\<rparr>)
          else if command = 0x82 \<or> command = 0x03 then put (s\<lparr>rgb_speed := packet ! i\<rparr>)
          else if command = 0x83 \<or> command = 0x04 then
            put (s\<lparr>rgb_hue := packet ! i, rgb_saturation := packet ! (i + 1)\<rparr>)
          else (False, packet, l))"

definition rgb_get :: "rgb_light \<Rightarrow> u8 list \<Rightarrow> bool \<times> u8 list \<times> rgb_light" where
  "rgb_get l packet =
     (case rgb_command packet of None \<Rightarrow> (False, packet, l)
      | Some (command, i) \<Rightarrow>
          let s = rl_state l in
          if command = 0x80 \<or> command = 0x01 then (True, packet[i := rgb_brightness s], l)
          else if command = 0x81 \<or> command = 0x02 then (True, packet[i := rgb_effect s], l)
          else if command = 0x82 \<or> command = 0x03 then (True, packet[i := rgb_speed s], l)
          else if command = 0x83 \<or> command = 0x04 then
            (True, packet[i := rgb_hue s, i + 1 := rgb_saturation s], l)
          else (False, packet, l))"

definition rgb_save :: "rgb_light \<Rightarrow> u8 list \<Rightarrow> bool \<times> u8 list \<times> rgb_light" where
  "rgb_save l packet = (packet ! 1 \<ge> 0x80 \<or> packet ! 1 = 0x02, packet, l)"

definition kRgbStateSize :: nat where "kRgbStateSize = 5"

definition rgb_bytes :: "rgb_state \<Rightarrow> u8 list" where
  "rgb_bytes s = [rgb_brightness s, rgb_effect s, rgb_speed s, rgb_hue s, rgb_saturation s]"

definition rgb_of_bytes :: "u8 list \<Rightarrow> rgb_state" where
  "rgb_of_bytes bs = \<lparr>rgb_brightness = bs ! 0, rgb_effect = bs ! 1, rgb_speed = bs ! 2,
     rgb_hue = bs ! 3, rgb_saturation = bs ! 4\<rparr>"

definition rgb_saveState :: "rgb_light \<Rightarrow> u8 list \<Rightarrow> bool \<times> u8 list" where
  "rgb_saveState l output =
     (if length output \<noteq> kRgbStateSize then (False, output) else (True, rgb_bytes (rl_state l)))"

definition rgb_loadState :: "rgb_light \<Rightarrow> u8 list \<Rightarrow> bool \<times> rgb_light" where
  "rgb_loadState l input =
     (if length input \<noteq> kRgbStateSize then (False, l)
      else (True, rgb_apply (l\<lparr>rl_state := rgb_of_bytes input\<rparr>)))"

definition rgb_stateSize :: "rgb_light \<Rightarrow> nat" where "rgb_stateSize l = kRgbStateSize"

definition rgb_vt :: "rgb_light custom_vt" where
  "rgb_vt = \<lparr>cv_set = rgb_set, cv_get = rgb_get, cv_save = rgb_save, cv_reset = custom_reset,
     cv_stateSize = rgb_stateSize, cv_saveState = rgb_saveState,
     cv_validateState = custom_validateState rgb_stateSize, cv_loadState = rgb_loadState\<rparr>"

lemma rgb_apply_state [simp]: "rl_state (rgb_apply l) = rl_state l"
  by (simp add: rgb_apply_def)

lemma rgb_bytes_of_bytes: "length bs = kRgbStateSize \<Longrightarrow> rgb_bytes (rgb_of_bytes bs) = bs"
  by (auto simp: rgb_bytes_def rgb_of_bytes_def kRgbStateSize_def numeral_eq_Suc length_Suc_conv)

lemma rgb_of_bytes_bytes [simp]: "rgb_of_bytes (rgb_bytes s) = s"
  by (simp add: rgb_bytes_def rgb_of_bytes_def)

lemma length_rgb_bytes [simp]: "length (rgb_bytes s) = kRgbStateSize"
  by (simp add: rgb_bytes_def kRgbStateSize_def)

lemma rgb_set_packet: "rgb_set l pkt = (ok, pkt', l') \<Longrightarrow> pkt' = pkt"
  by (auto simp: rgb_set_def Let_def split: option.splits if_splits)

lemma rgb_get_packet: "rgb_get l pkt = (ok, pkt', l') \<Longrightarrow> length pkt' = length pkt \<and> l' = l"
  by (auto simp: rgb_get_def Let_def split: option.splits if_splits)

interpretation rgb: custom_persistent rgb_vt "\<lambda>_. True" kRgbStateSize rl_state
proof unfold_locales
  fix c pkt ok pkt' and c' :: rgb_light
  assume "length pkt = kPacketSize" "cv_set rgb_vt c pkt = (ok, pkt', c')"
  then show "True \<and> length pkt' = kPacketSize" using rgb_set_packet [of c pkt] by (auto simp: rgb_vt_def)
next
  fix c pkt ok pkt' and c' :: rgb_light
  assume "length pkt = kPacketSize" "cv_get rgb_vt c pkt = (ok, pkt', c')"
  then show "True \<and> length pkt' = kPacketSize" using rgb_get_packet [of c pkt] by (auto simp: rgb_vt_def)
qed (auto simp: rgb_vt_def rgb_stateSize_def rgb_save_def rgb_saveState_def rgb_loadState_def
    custom_validateState_def split: if_splits)

text \<open>The index of the value in a packet of either form.\<close>

lemma rgb_command_index: "rgb_command pkt = Some (c, i) \<Longrightarrow> 2 \<le> i \<and> i \<le> 3"
  by (auto simp: rgb_command_def Let_def split: if_splits)

text \<open>The command byte of a packet survives a change of its data bytes.\<close>

lemma rgb_command_data:
  assumes "rgb_command pkt = Some (c, i)"
  shows "rgb_command (pkt[i := v]) = Some (c, i)" "rgb_command (pkt[i := v, Suc i := w]) = Some (c, i)"
  using assms by (auto simp: rgb_command_def Let_def split: if_splits)

end
