(* ===== verification/Demo.thy ===== *)
theory Demo
  imports Main_Loop Roundtrip Memory_Store Nvs_Store Rgb_Light
begin

text \<open>
  A small keyboard on the bundled adapters: two layers of one row and two columns, one encoder,
  four macro bytes, an RGB light, a RAM store and the one-packet transport.  The contracts of the
  core are interpreted on it; the witnesses of the core properties use it as their input.
\<close>

definition demo_config :: config where
  "demo_config = \<lparr>cfg_rows = 1, cfg_columns = 2, cfg_layers = 2, cfg_keymap = 0x20000000,
     cfg_defaultKeymap = 0x08000000, cfg_macros = 0x20000100, cfg_macroBytes = 4, cfg_macroCount = 1,
     cfg_firmwareVersion = 7, cfg_autoSaveMs = 1000, cfg_defaultLayoutOptions = 3,
     cfg_encoderCount = 1, cfg_encoderMap = 0x20000200, cfg_defaultEncoderMap = 0x08000100,
     cfg_loadBuffer = 0x20000300, cfg_loadBufferBytes = 64, cfg_matrixStateEnabled = True,
     cfg_eepromResetEnabled = True, cfg_bootloaderEnabled = True\<rparr>"

definition demo_light :: rgb_light where
  "demo_light = \<lparr>rl_state = \<lparr>rgb_brightness = 9, rgb_effect = 1, rgb_speed = 2, rgb_hue = 3,
     rgb_saturation = 4\<rparr>, rl_callbacks = True, rl_applied = []\<rparr>"

text \<open>The collaborators: any store and transport, with the RGB light as the custom value.\<close>

definition light_deps ::
  "'s storage_vt \<Rightarrow> 't transport_vt \<Rightarrow> ('s, rgb_light, 't) deps" where
  "light_deps st tv = \<lparr>d_storage = st, d_custom = rgb_vt, d_transport = tv,
     d_matrixRow = (\<lambda>row. ucast row + 1), d_uninit = (\<lambda>_. 0)\<rparr>"

definition demo_with :: "'t \<Rightarrow> 's option \<Rightarrow> ('s, rgb_light, 't) protocol" where
  "demo_with t s = protocol_new demo_config [4, 5, 6, 7] [4, 5, 6, 7] [10, 11, 12, 13]
     [10, 11, 12, 13] [1, 2, 3, 0] (replicate 64 0) (replicate 32 0) t s (Some demo_light) True"

definition demo_store :: memory_storage where
  "demo_store = memory_storage_new (Some []) 64"

definition demo_deps :: "(memory_storage, rgb_light, memory_transport) deps" where
  "demo_deps = light_deps memory_vt memory_transport_vt"

definition demo :: "(memory_storage, rgb_light, memory_transport) protocol" where
  "demo = demo_with memory_transport_new (Some demo_store)"

definition tapped_deps :: "(memory_storage, rgb_light, memory_transport \<times> wire_event list) deps" where
  "tapped_deps = light_deps memory_vt (tap memory_transport_vt)"

lemma light_deps_sel [simp]:
  "d_storage (light_deps st tv) = st" "d_custom (light_deps st tv) = rgb_vt"
  "d_transport (light_deps st tv) = tv"
  by (simp_all add: light_deps_def)

lemma light_env:
  assumes "storage_contract st sinv view"
  shows "protocol_env (light_deps st tv) sinv view (\<lambda>_. True) kRgbStateSize"
  using assms rgb.custom_contract_axioms by (simp add: protocol_env_def)

lemma light_loop:
  assumes "storage_contract st sinv view" "transport_contract tv"
  shows "protocol_loop (light_deps st tv) sinv view (\<lambda>_. True) kRgbStateSize"
  using light_env [OF assms(1)] assms(2) by (simp add: protocol_loop_def)

interpretation demo: protocol_loop demo_deps memory_inv memory_view "\<lambda>_. True" kRgbStateSize
  unfolding demo_deps_def by (rule light_loop [OF memory.storage_contract_axioms memory_link.transport_contract_axioms])

interpretation tapped: tapped_loop tapped_deps memory_inv memory_view "\<lambda>_. True" kRgbStateSize memory_transport_vt
  unfolding tapped_deps_def tapped_loop_def tapped_loop_axioms_def
  by (simp add: light_loop memory.storage_contract_axioms tap_contract memory_link.transport_contract_axioms)

lemma demo_with_sel [simp]:
  "p_config (demo_with t s) = demo_config" "p_storage (demo_with t s) = s"
  "p_customValue (demo_with t s) = Some demo_light" "p_callbacks (demo_with t s)"
  "p_transport (demo_with t s) = t" "\<not> p_dirty (demo_with t s)" "p_calls (demo_with t s) = []"
  "\<not> p_responsePending (demo_with t s)" "\<not> p_bootloaderPending (demo_with t s)"
  "p_keymap (demo_with t s) = [4, 5, 6, 7]" "p_defaultKeymap (demo_with t s) = [4, 5, 6, 7]"
  "p_encoderMap (demo_with t s) = [10, 11, 12, 13]" "p_defaultEncoderMap (demo_with t s) = [10, 11, 12, 13]"
  "p_macros (demo_with t s) = [1, 2, 3, 0]" "p_loadBuffer (demo_with t s) = replicate 64 0"
  "p_pendingResponse (demo_with t s) = replicate 32 0"
  by (simp_all add: demo_with_def protocol_new_def)

lemma demo_config_sel [simp]:
  "cfg_rows demo_config = 1" "cfg_columns demo_config = 2" "cfg_layers demo_config = 2"
  "cfg_keymap demo_config = 0x20000000" "cfg_defaultKeymap demo_config = 0x08000000" "cfg_macros demo_config = 0x20000100"
  "cfg_macroBytes demo_config = 4" "cfg_macroCount demo_config = 1" "cfg_firmwareVersion demo_config = 7"
  "cfg_autoSaveMs demo_config = 1000" "cfg_defaultLayoutOptions demo_config = 3" "cfg_encoderCount demo_config = 1"
  "cfg_encoderMap demo_config = 0x20000200" "cfg_defaultEncoderMap demo_config = 0x08000100" "cfg_loadBuffer demo_config = 0x20000300"
  "cfg_loadBufferBytes demo_config = 64" "cfg_matrixStateEnabled demo_config" "cfg_eepromResetEnabled demo_config"
  "cfg_bootloaderEnabled demo_config"
  by (simp_all add: demo_config_def)

lemma demo_sizes [simp]:
  "keyCount demo_config = 4" "keymapBytes demo_config = 8" "encoderMapBytes demo_config = 8"
  "payloadSize demo_config n = 24 + n"
  by (simp_all add: keymapBytes_def keyCount_nat encoderMapBytes_nat payloadSize_def)

lemma demo_env_inv: "pred_option sinv s \<Longrightarrow> env_inv sinv (\<lambda>_. True) (demo_with t s)"
  by (simp add: env_inv_def wf_protocol_def kPacketSize_def)

lemma demo_stateBytes: "stateBytes (light_deps st tv) (demo_with t s) = Some (29, 5)"
  by (simp add: stateBytes_iff custom_bytes_def rgb_vt_def rgb_stateSize_def kRgbStateSize_def
      kMaxCustomStateSize_def kHeaderSize_def)

lemma demo_loadBuffer: "loadBufferValid demo_config 29"
  by (simp add: loadBufferValid_def rangesOverlap_def)

lemma demo_store_inv [simp]: "memory_inv demo_store" "length (memory_view demo_store) = 64"
  by (simp_all add: demo_store_def memory_inv_def memory_view_def memory_storage_new_def)

lemma demo_custom_saved: "custom_saved (light_deps st tv) (demo_with t s) 5 = (True, [9, 1, 2, 3, 4])"
  by (simp add: custom_saved_def rgb_vt_def rgb_saveState_def kRgbStateSize_def rgb_bytes_def demo_light_def)

text \<open>Saving the small keyboard succeeds.\<close>

lemma demo_save:
  obtains p1 s where "save demo_deps demo = Some (True, p1)" "p_storage p1 = Some s" "memory_inv s"
proof -
  have inv: "env_inv memory_inv (\<lambda>_. True) demo" by (simp add: demo_def demo_env_inv)
  have st: "p_storage demo = Some demo_store" "stateBytes demo_deps demo = Some (29, 5)"
    "0 < keyCount (p_config demo)" "kHeaderSize + 29 \<le> length (memory_view demo_store)"
    "custom_saved demo_deps demo 5 = (True, [9, 1, 2, 3, 4])"
    using demo_custom_saved by (simp_all add: demo_def demo_deps_def demo_stateBytes kHeaderSize_def)
  obtain s1 ok s2 where r: "st_commit (d_storage demo_deps) s1 = (ok, s2)" "memory_inv s2"
    "writeState demo_deps demo = Some (ok, if ok then demo\<lparr>p_storage := Some s2, p_dirty := False\<rparr>
      else demo\<lparr>p_storage := Some s2\<rparr>)"
    using demo.writeState_cases [OF inv st] by metis
  then have "ok" by (simp add: demo_deps_def memory_vt_def memory_commit_def)
  with r st(1) show thesis by (intro that [of "demo\<lparr>p_storage := Some s2, p_dirty := False\<rparr>" s2]) (simp_all add: save_def)
qed

text \<open>The same keyboard on the ESP32 store.\<close>

definition demo_nvs :: "fake_prefs nvs_storage" where
  "demo_nvs = nvs_new \<lparr>fp_store = Map.empty, fp_open = Some ''via''\<rparr>"

definition nvs_deps :: "(fake_prefs nvs_storage, rgb_light, memory_transport) deps" where
  "nvs_deps = light_deps (nvs_vt fake_preferences) memory_transport_vt"

lemma demo_nvs_inv [simp]: "nvs_fake.nvs_inv demo_nvs" "length (nv_shadow demo_nvs) = 4096"
  by (simp_all add: nvs_fake.nvs_inv_def demo_nvs_def nvs_new_def fake_inv_def fake_blob_def kNvsCapacity_def)

interpretation nvs_demo: protocol_loop nvs_deps nvs_fake.nvs_inv nv_shadow "\<lambda>_. True" kRgbStateSize
  unfolding nvs_deps_def
  by (rule light_loop [OF nvs_fake.nvs.storage_contract_axioms memory_link.transport_contract_axioms])

interpretation nvs_demo: atomic_env nvs_deps nvs_fake.nvs_inv nv_shadow "\<lambda>_. True" kRgbStateSize nvs_fake.nvs_durable
  using nvs_demo.protocol_env_axioms nvs_fake.nvs.atomic_storage_axioms
  by (simp add: atomic_env_def nvs_deps_def)

lemma all_less_two: "(\<forall>i < (2 :: nat). P i) \<longleftrightarrow> P 0 \<and> P 1"
  by (auto simp: less_Suc_eq numeral_2_eq_2)

end
