(* ===== verification/Core_Theorems.thy ===== *)
theory Core_Theorems
  imports Demo
begin

text \<open>
  The properties of the protocol core, stated over every store, custom value and transport that
  honour their contracts, each with an application to the small keyboard of \<open>Demo\<close>.
\<close>

section \<open>Persistence\<close>

text \<open>C1. Memory safety and invariance of the dispatcher: for every packet, command byte and
  time, \<open>process\<close> performs no access outside its arrays, returns a 32-byte packet and the
  result ``first byte is not 0xFF'', keeps all arrays at their configured sizes and all
  collaborators valid, and leaves configuration, defaults and the pending exchange alone.\<close>
theorem process_safe:
  assumes "protocol_env d sinv view cinv csize" and "env_inv sinv cinv p"
    and "0 < keyCount (p_config p)" and "length pkt = kPacketSize"
  shows "\<exists>pkt' p'. process d p pkt nowMs = Some (pkt' ! 0 \<noteq> 0xFF, pkt', p') \<and>
    length pkt' = kPacketSize \<and> env_inv sinv cinv p' \<and> keeps p p'"
  using protocol_env.process_sound [OF assms] by (metis sound_def)

theorem process_safe_witness:
  "\<exists>pkt' p'. process demo_deps demo (0x13 # replicate 31 0xFF) 5 = Some (pkt' ! 0 \<noteq> 0xFF, pkt', p') \<and>
    length pkt' = kPacketSize \<and> env_inv memory_inv (\<lambda>_. True) p' \<and> keeps demo p'"
  by (rule process_safe [OF demo.protocol_env_axioms])
     (simp_all add: demo_def demo_env_inv kPacketSize_def)

text \<open>C3. Save and load round trip: whatever store and custom value are used, when \<open>save\<close>
  reports success, a second instance with the same configuration on the resulting store loads
  exactly the saved keymap, encoder map, macros, layout options and custom state.\<close>
theorem save_load_roundtrip:
  assumes env: "protocol_env d sinv view cinv csize"
    and pers: "custom_persistent (d_custom d) cinv csize cview"
    and p: "env_inv sinv cinv p" "0 < keyCount (p_config p)" and save: "save d p = Some (True, p1)"
    and q: "env_inv sinv cinv q" "p_config q = p_config p" "p_storage q = p_storage p1"
      "p_customValue q = None \<longleftrightarrow> p_customValue p = None"
    and lb: "loadBufferValid (p_config q) (requiredLoadBufferSize d q)"
  shows "\<exists>q'. load d q = Some (True, q') \<and> p_keymap q' = p_keymap p \<and> p_encoderMap q' = p_encoderMap p \<and>
    p_macros q' = p_macros p \<and> p_layoutOptions q' = p_layoutOptions p \<and>
    (custom_bytes d p \<noteq> 0 \<longrightarrow> map_option cview (p_customValue q') = map_option cview (p_customValue p)) \<and>
    \<not> p_dirty q'"
proof -
  obtain s s1 s2 bytes n cs where s: "p_storage p = Some s" "stateBytes d p = Some (bytes, n)"
    "custom_saved d p n = (True, cs)" "length cs = n" "p1 = p\<lparr>p_storage := Some s2, p_dirty := False\<rparr>"
    "view s2 = record_bytes (live_payload p cs) @ drop (kHeaderSize + bytes) (view s)"
    using protocol_env.save_True [OF env p save] by metis
  have wf: "wf_protocol p" using p by (simp add: env_inv_def)
  have n: "n = custom_bytes d p" using s(2) by (simp add: stateBytes_iff)
  have "custom_bytes d q = custom_bytes d p"
    using custom_bytes_same [OF custom_persistent.axioms(1) [OF pers]] p(1) q(1,4) by (auto simp: env_inv_def)
  then have sb: "stateBytes d q = Some (bytes, n)" using stateBytes_same [OF q(2)] s(2) by metis
  obtain cv' where cv': "n = 0 \<and> cv' = p_customValue q \<or> n \<noteq> 0 \<and> (\<exists>c c'. p_customValue q = Some c \<and>
      cv_validateState (d_custom d) c cs \<and> cv_loadState (d_custom d) c cs = (True, c') \<and> cv' = Some c')"
    "n \<noteq> 0 \<longrightarrow> map_option cview cv' = map_option cview (p_customValue p)"
    using custom_reload [OF env pers p(1) s(2,3,4) q(1) sb] by metis
  have fits: "payload_fits (p_config q) (p_keymap p) (p_encoderMap p) (p_macros p)"
    using wf_payload_fits [OF wf] q(2) by simp
  have lb': "loadBufferValid (p_config q) bytes" using lb sb by (simp add: requiredLoadBufferSize_def)
  have s2: "p_storage q = Some s2" using q(3) s(5) by simp
  obtain buf where "load d q = Some (True, (emit (LayoutOptionsChanged (p_layoutOptions p))
    (q\<lparr>p_loadBuffer := buf, p_keymap := p_keymap p, p_encoderMap := p_encoderMap p, p_macros := p_macros p,
       p_layoutOptions := p_layoutOptions p, p_customValue := cv'\<rparr>))\<lparr>p_dirty := False\<rparr>)"
    using protocol_env.load_record [OF env q(1) s2 sb lb' fits s(4) s(6) [unfolded live_payload_def] cv'(1)] by metis
  with cv'(2) n show ?thesis by (auto simp: frame)
qed

theorem save_load_roundtrip_witness:
  "\<exists>p1 q'. save demo_deps demo = Some (True, p1) \<and>
    load demo_deps ((demo_with memory_transport_new (p_storage p1))\<lparr>p_keymap := [0, 0, 0, 0]\<rparr>) = Some (True, q') \<and>
    p_keymap q' = [4, 5, 6, 7] \<and> map_option rl_state (p_customValue q') = Some (rl_state demo_light)"
proof -
  obtain p1 s where p1: "save demo_deps demo = Some (True, p1)" "p_storage p1 = Some s" "memory_inv s"
    by (rule demo_save)
  let ?q = "(demo_with memory_transport_new (p_storage p1))\<lparr>p_keymap := [0, 0, 0, 0]\<rparr>"
  have inv: "env_inv memory_inv (\<lambda>_. True) demo" "env_inv memory_inv (\<lambda>_. True) ?q"
    using p1 by (simp_all add: demo_def demo_env_inv env_inv_def wf_protocol_def kPacketSize_def)
  have pers: "custom_persistent (d_custom demo_deps) (\<lambda>_. True) kRgbStateSize rl_state"
    using rgb.custom_persistent_axioms by (simp add: demo_deps_def)
  have "stateBytes demo_deps ?q = Some (29, 5)"
    using demo_stateBytes by (simp add: demo_deps_def stateBytes_def)
  then have lb: "loadBufferValid (p_config ?q) (requiredLoadBufferSize demo_deps ?q)"
    by (simp add: requiredLoadBufferSize_def demo_loadBuffer)
  have "custom_bytes demo_deps demo \<noteq> 0"
    by (simp add: custom_bytes_def demo_deps_def demo_def rgb_vt_def rgb_stateSize_def kRgbStateSize_def)
  with p1(1) save_load_roundtrip [OF demo.protocol_env_axioms pers inv(1) _ p1(1) inv(2) _ _ _ lb] show ?thesis
    by (auto simp: demo_def)
qed

text \<open>C21. A load that reports success found a complete record: magic, version, exact payload size
  and CRC, and the live state it published is the one whose record that is.  A load that reports
  failure changed nothing but the staging buffer.\<close>
theorem load_accepts_records:
  assumes "protocol_env d sinv view cinv csize" and "env_inv sinv cinv p"
  shows "\<exists>ok p'. load d p = Some (ok, p') \<and> env_inv sinv cinv p' \<and>
    (if ok then \<not> p_dirty p' \<and>
        (\<exists>s cs rest. p_storage p = Some s \<and> p_storage p' = Some s \<and> view s = record_bytes (live_payload p' cs) @ rest)
     else \<exists>buf. p' = p\<lparr>p_loadBuffer := buf\<rparr>)"
  by (rule protocol_env.load_accepted [OF assms])

theorem load_accepts_records_witness:
  "\<exists>ok p'. load demo_deps demo = Some (ok, p') \<and> env_inv memory_inv (\<lambda>_. True) p' \<and>
    (if ok then \<not> p_dirty p' \<and> (\<exists>s cs rest. p_storage demo = Some s \<and> p_storage p' = Some s \<and>
        memory_view s = record_bytes (live_payload p' cs) @ rest)
     else \<exists>buf. p' = demo\<lparr>p_loadBuffer := buf\<rparr>)"
  by (rule load_accepts_records [OF demo.protocol_env_axioms]) (simp add: demo_def demo_env_inv)

text \<open>C22. Detection of damage: a record is rejected, and the live state stays as it was, when its
  header was changed in any way and its payload not, or when its header is intact and the changed
  payload bytes lie in a window of at most four, whatever the change.  Damage to both at once is not
  always detected, not even inside one window of four bytes (\<open>straddling_damage_accepted\<close>).\<close>
theorem damaged_record_rejected:
  assumes env: "protocol_env d sinv view cinv csize" and inv: "env_inv sinv cinv q"
    and s: "p_storage q = Some s" and sb: "stateBytes d q = Some (length payload, n)"
    and v: "view s = h @ payload' @ rest" "length h = kHeaderSize"
    and damage: "h \<noteq> take kHeaderSize (record_bytes payload) \<and> payload' = payload \<or>
      h = take kHeaderSize (record_bytes payload) \<and> (\<exists>pre w w' post. payload = pre @ w @ post \<and> payload' = pre @ w' @ post \<and>
        length w' = length w \<and> length w \<le> 4 \<and> w \<noteq> w')"
  shows "\<exists>buf. load d q = Some (False, q\<lparr>p_loadBuffer := buf\<rparr>)"
  using damage
proof (elim disjE conjE exE)
  assume "h \<noteq> take kHeaderSize (record_bytes payload)" "payload' = payload"
  with protocol_env.load_altered_header [OF env inv s sb v(2), of rest] v(1) show ?thesis by blast
next
  fix pre w w' post
  assume h: "h = take kHeaderSize (record_bytes payload)" and p: "payload = pre @ w @ post" "payload' = pre @ w' @ post"
    and w: "length w' = length w" "length w \<le> 4" "w \<noteq> w'"
  have "crc32_bytes 0xFFFFFFFF payload \<noteq> crc32_bytes 0xFFFFFFFF payload'"
    using crc32_bytes_burst [of w w' _ pre post] w p by metis
  moreover have "view s = take kHeaderSize (record_bytes payload) @ payload' @ rest" using v(1) h by simp
  moreover have "length payload' = length payload" using p w(1) by simp
  ultimately show ?thesis using protocol_env.load_altered [OF env inv s sb refl] by metis
qed

theorem damaged_record_rejected_witness:
  "let payload = replicate 8 0 @ [0, 0, 0, 0] @ replicate 17 0; damaged = replicate 8 0 @ [1, 2, 3, 4] @ replicate 17 0;
       s = \<lparr>ms_buffer = Some (take kHeaderSize (record_bytes payload) @ damaged @ replicate 23 0), ms_length = 64\<rparr>
   in \<exists>buf. load demo_deps (demo_with memory_transport_new (Some s)) =
     Some (False, (demo_with memory_transport_new (Some s))\<lparr>p_loadBuffer := buf\<rparr>)"
  unfolding Let_def
proof (rule damaged_record_rejected [OF demo.protocol_env_axioms, where payload = "replicate 8 0 @ [0, 0, 0, 0] @ replicate 17 0"
      and payload' = "replicate 8 0 @ [1, 2, 3, 4] @ replicate 17 0" and rest = "replicate 23 0" and n = 5
      and h = "take kHeaderSize (record_bytes (replicate 8 0 @ [0, 0, 0, 0] @ replicate 17 0))"], goal_cases)
  case 6
  show ?case
    by (intro disjI2 conjI refl exI [of _ "replicate 8 0"] exI [of _ "[0, 0, 0, 0]"] exI [of _ "[1, 2, 3, 4]"] exI [of _ "replicate 17 0"])
      simp_all
qed (auto simp: demo_env_inv memory_inv_def memory_view_def demo_deps_def demo_stateBytes kHeaderSize_def)

text \<open>Sixteen zero bytes: with the last two bytes of the CRC field and the first two payload bytes
  changed the record carries a matching CRC again.\<close>

lemma sixteen_zeros: "replicate 16 x = [x, x, x, x, x, x, x, x, x, x, x, x, x, x, x, x]"
  by (simp add: numeral_eq_Suc)

lemma straddling_damage_accepted:
  fixes zeros damaged :: "u8 list" and h :: "u8 list"
  defines "zeros \<equiv> replicate 16 0" and "damaged \<equiv> [0x08, 0x10] @ replicate 14 0" and "h \<equiv> take 10 (record_bytes (replicate 16 0))"
  shows "record_bytes zeros = h @ [0xBB, 0xEC] @ zeros \<and> record_bytes damaged = h @ [0xCA, 0xDB] @ damaged"
proof -
  have d: "damaged = [0x08, 0x10, 0, 0, 0, 0, 0, 0, 0, 0, 0, 0, 0, 0, 0, 0]"
    by (simp add: damaged_def numeral_eq_Suc)
  have "crc32_bytes 0xFFFFFFFF zeros = NOT 0xECBB4B55" "crc32_bytes 0xFFFFFFFF damaged = NOT 0xDBCA4B55"
    unfolding zeros_def sixteen_zeros d by (simp_all add: crc32Update_steps crc32Update_bit_if)
  then have "record_bytes zeros = header_bytes kStateMagic kStateVersion 16 0xECBB4B55 @ zeros"
    "record_bytes damaged = header_bytes kStateMagic kStateVersion 16 0xDBCA4B55 @ damaged"
    by (simp_all add: record_bytes_def zeros_def d)
  then show ?thesis by (simp add: h_def zeros_def header_bytes_def le32_def le16_def kStateMagic_def kStateVersion_def)
qed

text \<open>C23. Factory reset over a store with atomic commits: if it succeeds, the durable content starts
  with the record of the configured defaults, and the live keymap, encoder map, macros and layout
  options are the defaults; if it fails, the durable record and these, with the dirty flag, are what
  they were.  The custom value is the exception: \<open>customValue_->reset()\<close> runs before the new record
  is validated and written, so that after a failed reset of a device with a custom state the custom
  value has been reset, although the record still holds the old one.\<close>
theorem factoryReset_atomic:
  assumes "atomic_env d sinv view cinv csize durable" and "env_inv sinv cinv p" and "p_storage p = Some s"
  shows "\<exists>ok p' s'. factoryReset d p = Some (ok, p') \<and> env_inv sinv cinv p' \<and> p_storage p' = Some s' \<and>
    (if ok then (\<exists>cs rest. durable s' = record_bytes (defaults_payload p cs) @ rest) \<and>
        p_keymap p' = p_defaultKeymap p \<and> p_encoderMap p' = p_defaultEncoderMap p \<and>
        p_macros p' = replicate (unat (cfg_macroBytes (p_config p))) 0 \<and>
        p_layoutOptions p' = cfg_defaultLayoutOptions (p_config p) \<and> \<not> p_dirty p'
     else durable s' = durable s \<and> p_keymap p' = p_keymap p \<and> p_encoderMap p' = p_encoderMap p \<and>
        p_macros p' = p_macros p \<and> p_layoutOptions p' = p_layoutOptions p \<and> p_dirty p' = p_dirty p \<and>
        p_customValue p' = (case stateBytes d p of None \<Rightarrow> p_customValue p
          | Some (bytes, n) \<Rightarrow> if loadBufferValid (p_config p) bytes \<and> kHeaderSize + bytes \<le> st_capacity (d_storage d) s \<and> n \<noteq> 0
              then map_option (cv_reset (d_custom d)) (p_customValue p) else p_customValue p))"
  using assms(2,3) by (rule atomic_env.factoryReset_all_or_nothing [OF assms(1)])

theorem factoryReset_atomic_witness:
  "\<exists>ok p' s'. factoryReset nvs_deps (demo_with memory_transport_new (Some demo_nvs)) = Some (ok, p') \<and>
    env_inv nvs_fake.nvs_inv (\<lambda>_. True) p' \<and> p_storage p' = Some s' \<and>
    (if ok then (\<exists>cs rest. nvs_fake.nvs_durable s' =
          record_bytes (defaults_payload (demo_with memory_transport_new (Some demo_nvs)) cs) @ rest) \<and>
        p_keymap p' = [4, 5, 6, 7] \<and> \<not> p_dirty p'
     else nvs_fake.nvs_durable s' = nvs_fake.nvs_durable demo_nvs \<and> p_keymap p' = [4, 5, 6, 7])"
proof -
  have "env_inv nvs_fake.nvs_inv (\<lambda>_. True) (demo_with memory_transport_new (Some demo_nvs))"
    by (simp add: demo_env_inv)
  from factoryReset_atomic [OF nvs_demo.atomic_env_axioms this] obtain ok p' s' where
    "factoryReset nvs_deps (demo_with memory_transport_new (Some demo_nvs)) = Some (ok, p')"
    "env_inv nvs_fake.nvs_inv (\<lambda>_. True) p'" "p_storage p' = Some s'"
    "if ok then (\<exists>cs rest. nvs_fake.nvs_durable s' =
          record_bytes (defaults_payload (demo_with memory_transport_new (Some demo_nvs)) cs) @ rest) \<and>
        p_keymap p' = [4, 5, 6, 7] \<and> \<not> p_dirty p'
     else nvs_fake.nvs_durable s' = nvs_fake.nvs_durable demo_nvs \<and> p_keymap p' = [4, 5, 6, 7]"
    by (fastforce split: if_splits)
  then show ?thesis by blast
qed

text \<open>What a configuration must have, in plain arithmetic: dimensions, buffers where they are needed, a
  record that fits into 16 bits, and, when there is a storage, a staging buffer that holds the payload
  and shares no address with the other buffers.\<close>

definition record_size :: "('s, 'c, 't) deps \<Rightarrow> ('s, 'c, 't) protocol \<Rightarrow> nat" where
  "record_size d p = (let c = p_config p in
     2 * (unat (cfg_rows c) * unat (cfg_columns c) * unat (cfg_layers c)) +
     4 * (unat (cfg_layers c) * unat (cfg_encoderCount c)) + unat (cfg_macroBytes c) + 4 + custom_bytes d p)"

definition buffer_ranges :: "config \<Rightarrow> (u32 \<times> nat) list" where
  "buffer_ranges c =
     (let km = 2 * (unat (cfg_rows c) * unat (cfg_columns c) * unat (cfg_layers c));
          em = 4 * (unat (cfg_layers c) * unat (cfg_encoderCount c))
      in [(cfg_keymap c, km), (cfg_defaultKeymap c, km), (cfg_encoderMap c, em), (cfg_defaultEncoderMap c, em),
          (cfg_macros c, unat (cfg_macroBytes c))])"

definition config_usable :: "('s, 'c, 't) deps \<Rightarrow> ('s, 'c, 't) protocol \<Rightarrow> bool" where
  "config_usable d p \<longleftrightarrow> (let c = p_config p in
     0 < cfg_rows c \<and> 0 < cfg_columns c \<and> 0 < cfg_layers c \<and> cfg_keymap c \<noteq> 0 \<and> cfg_defaultKeymap c \<noteq> 0 \<and>
     (0 < cfg_macroBytes c \<longrightarrow> cfg_macros c \<noteq> 0) \<and>
     (0 < cfg_encoderCount c \<longrightarrow> cfg_encoderMap c \<noteq> 0 \<and> cfg_defaultEncoderMap c \<noteq> 0) \<and>
     custom_bytes d p \<le> 16 \<and> record_size d p + 12 \<le> 65535 \<and>
     (p_storage p \<noteq> None \<longrightarrow> cfg_loadBuffer c \<noteq> 0 \<and> record_size d p \<le> unat (cfg_loadBufferBytes c) \<and>
        (\<forall>(a, n) \<in> set (buffer_ranges c).
           {unat a..<unat a + n} \<inter> {unat (cfg_loadBuffer c)..<unat (cfg_loadBuffer c) + record_size d p} = {})))"

text \<open>No buffer reaches beyond the end of the address space.\<close>

definition buffers_placed :: "config \<Rightarrow> bool" where
  "buffers_placed c \<longleftrightarrow> unat (cfg_loadBuffer c) + unat (cfg_loadBufferBytes c) \<le> 2 ^ 32 \<and>
     (\<forall>(a, n) \<in> set (buffer_ranges c). unat a + n \<le> 2 ^ 32)"

lemma loadBufferValid_ranges:
  assumes placed: "buffers_placed c" and n: "n \<le> 65535"
  shows "loadBufferValid c n \<longleftrightarrow> cfg_loadBuffer c \<noteq> 0 \<and> n \<le> unat (cfg_loadBufferBytes c) \<and>
    (\<forall>(a, k) \<in> set (buffer_ranges c). {unat a..<unat a + k} \<inter> {unat (cfg_loadBuffer c)..<unat (cfg_loadBuffer c) + n} = {})"
proof (cases "cfg_loadBuffer c \<noteq> 0 \<and> n \<le> unat (cfg_loadBufferBytes c)")
  case True
  let ?km = "keymapBytes c" and ?em = "encoderMapBytes c" and ?l = "cfg_loadBuffer c"
  have r: "buffer_ranges c = [(cfg_keymap c, ?km), (cfg_defaultKeymap c, ?km), (cfg_encoderMap c, ?em),
      (cfg_defaultEncoderMap c, ?em), (cfg_macros c, unat (cfg_macroBytes c))]"
    by (simp add: buffer_ranges_def Let_def keymapBytes_def keyCount_nat encoderMapBytes_nat mult.commute mult.left_commute)
  have u: "unat (of_nat n :: u32) = n" "unat (of_nat ?km :: u32) = ?km" "unat (of_nat ?em :: u32) = ?em"
    "unat (ucast (cfg_macroBytes c) :: u32) = unat (cfg_macroBytes c)"
  proof -
    have g: "unat (of_nat k :: u32) = k" if "k < 4294967296" for k using that by (simp add: unat_of_nat)
    have "?km < 4294967296" "?em < 4294967296"
      using keyCount_le [of c] encoderMapBytes_le [of c] by (simp_all add: keymapBytes_def)
    with n show "unat (of_nat n :: u32) = n" "unat (of_nat ?km :: u32) = ?km" "unat (of_nat ?em :: u32) = ?em"
      "unat (ucast (cfg_macroBytes c) :: u32) = unat (cfg_macroBytes c)" by (simp_all only: g unat_u16_u32)
  qed
  have l: "unat ?l + n \<le> 2 ^ 32" using placed True by (simp add: buffers_placed_def)
  have b: "unat a + k \<le> 2 ^ 32" if "(a, k) \<in> set (buffer_ranges c)" for a k using placed that by (auto simp: buffers_placed_def)
  have o: "rangesOverlap ?l (of_nat n) a m \<longleftrightarrow> \<not> {unat a..<unat a + k} \<inter> {unat ?l..<unat ?l + n} = {}"
    if "(a, k) \<in> set (buffer_ranges c)" "unat m = k" for a k m
    using rangesOverlap_iff [of ?l "of_nat n" a m] l b [OF that(1)] that(2) u(1) by (auto simp: Int_commute)
  show ?thesis
    using True u by (simp del: Int_atLeastLessThan atLeastLessThan_empty_iff add: loadBufferValid_def o [where k = ?km] o [where k = ?em] o [where k = "unat (cfg_macroBytes c)"] r)
qed (auto simp: loadBufferValid_def)

lemma begin_ok_usable:
  assumes "buffers_placed (p_config p)"
  shows "begin_ok d p \<longleftrightarrow> config_usable d p"
proof (cases "custom_bytes d p \<le> 16 \<and> record_size d p + 12 \<le> 65535")
  case True
  then have "stateBytes d p = Some (record_size d p, custom_bytes d p)"
    by (simp add: stateBytes_iff kMaxCustomStateSize_def kHeaderSize_def payloadSize_def keymapBytes_def keyCount_nat
        encoderMapBytes_nat record_size_def Let_def)
  moreover have "loadBufferValid (p_config p) (record_size d p) \<longleftrightarrow> cfg_loadBuffer (p_config p) \<noteq> 0 \<and>
      record_size d p \<le> unat (cfg_loadBufferBytes (p_config p)) \<and> (\<forall>(a, k) \<in> set (buffer_ranges (p_config p)).
      {unat a..<unat a + k} \<inter> {unat (cfg_loadBuffer (p_config p))..<unat (cfg_loadBuffer (p_config p)) + record_size d p} = {})"
    using loadBufferValid_ranges [OF assms] True by simp
  ultimately show ?thesis using True unfolding begin_ok_def config_usable_def Let_def word_gt_0 by auto
next
  case False
  then have "stateBytes d p = None"
    by (auto simp: stateBytes_iff kMaxCustomStateSize_def kHeaderSize_def payloadSize_def keymapBytes_def keyCount_nat
        encoderMapBytes_nat record_size_def Let_def simp flip: not_Some_eq)
  with False show ?thesis by (auto simp: begin_ok_def config_usable_def Let_def)
qed

text \<open>C24. Startup: \<open>begin\<close> succeeds exactly when the configuration has nonzero dimensions, a keymap and
  default keymap, a macro buffer and encoder maps where it counts macros and encoders, at most 16 bytes
  of custom state, a record of at most 65535 bytes, and, with a storage, a staging buffer that holds the
  payload and overlaps no other buffer (for buffers that lie within the address space); a refused
  configuration changes nothing.  After a successful start the protocol is clean, the first
  autosave is one delay away, and the state is the loaded record if there was one and the
  configured defaults otherwise.\<close>
theorem begin_starts:
  assumes "protocol_env d sinv view cinv csize" and "env_inv sinv cinv p" and placed: "buffers_placed (p_config p)"
  shows "\<exists>p' loaded q. protocol_begin d p nowMs = Some (config_usable d p, p') \<and> env_inv sinv cinv p' \<and>
    (if config_usable d p then
       load d p = Some (loaded, q) \<and> \<not> p_dirty p' \<and> p_saveAt p' = nowMs + cfg_autoSaveMs (p_config p) \<and>
       (if loaded then live_payload p' = live_payload q \<and> p_customValue p' = p_customValue q
        else live_payload p' = defaults_payload p \<and>
          p_customValue p' = map_option (cv_reset (d_custom d)) (p_customValue p))
     else p' = p)"
  using protocol_env.begin_summary [OF assms(1,2)] begin_ok_usable [OF placed, of d] by simp

theorem begin_starts_witness:
  "(\<exists>p' loaded q. protocol_begin demo_deps demo 100 = Some (True, p') \<and>
    load demo_deps demo = Some (loaded, q) \<and> \<not> p_dirty p' \<and> p_saveAt p' = 1100)"
proof -
  have r: "buffer_ranges demo_config = [(0x20000000, 8), (0x08000000, 8), (0x20000200, 8), (0x08000100, 8), (0x20000100, 4)]"
    by (simp add: buffer_ranges_def demo_config_def)
  have n: "custom_bytes demo_deps demo = 5" "record_size demo_deps demo = 29"
    by (simp_all add: record_size_def custom_bytes_def demo_deps_def light_deps_def demo_def demo_config_def rgb_vt_def
        rgb_stateSize_def kRgbStateSize_def)
  have "config_usable demo_deps demo"
    using n by (simp add: config_usable_def Let_def demo_def r, (simp add: demo_config_def)?)
  moreover have "buffers_placed (p_config demo)"
    by (simp add: buffers_placed_def demo_def r, (simp add: demo_config_def)?)
  ultimately show ?thesis using begin_starts [OF demo.protocol_env_axioms, of demo 100]
    by (auto simp: demo_def demo_env_inv)
qed

section \<open>The main loop\<close>

text \<open>C4. The packet exchange: over every transport, any sequence of calls of \<open>task\<close> returns and
  its calls of the transport are a run of the abstract exchange: no request is received while a
  reply is owed, a refused reply is offered again unchanged, and the bootloader is entered only
  after its reply was accepted and the transfer completed, as often as that happened.\<close>
theorem tasks_refine_exchange:
  assumes "tapped_loop d sinv view cinv csize tv" and "task_inv sinv cinv p"
  shows "\<exists>p' es. tasks d p clock = Some p' \<and> task_inv sinv cinv p' \<and>
    snd (p_transport p') = snd (p_transport p) @ es \<and> wire_run (phase_of p) es (phase_of p') \<and>
    jump_calls p' = jump_calls p + jumps es"
  using tapped_loop.tasks_stage [OF assms, of clock] by (auto simp: stage_ok_def)

theorem tasks_refine_exchange_witness:
  "\<exists>p' es. tasks tapped_deps (demo_with (memory_inject memory_transport_new (0x0B # replicate 31 0), []) (Some demo_store)) [1, 2, 3] = Some p' \<and>
    snd (p_transport p') = es \<and> wire_run Quiet es (phase_of p')"
proof -
  let ?p = "demo_with (memory_inject memory_transport_new (0x0B # replicate 31 0), []) (Some demo_store)"
  have "task_inv memory_inv (\<lambda>_. True) ?p" by (simp add: task_inv_def demo_env_inv)
  from tasks_refine_exchange [OF tapped.tapped_loop_axioms this, of "[1, 2, 3]"] show ?thesis
    by (auto simp: phase_of_def)
qed

text \<open>Accounting of the exchange: from a fresh protocol, after any calls of \<open>task\<close> the number
  of received requests is the number of accepted replies, plus one exactly if a reply is pending,
  and the bootloader was entered at most once per accepted reply.\<close>
theorem tasks_answer_once:
  assumes "tapped_loop d sinv view cinv csize tv" and "task_inv sinv cinv p"
    and "phase_of p = Quiet" and "snd (p_transport p) = []" and "jump_calls p = 0"
  shows "\<exists>p' log. tasks d p clock = Some p' \<and> snd (p_transport p') = log \<and>
    requests log = deliveries log + (if p_responsePending p' then 1 else 0) \<and> jump_calls p' \<le> deliveries log"
proof -
  obtain p' es where r: "tasks d p clock = Some p'" "snd (p_transport p') = es" "wire_run Quiet es (phase_of p')"
    "jump_calls p' = jumps es"
    using tapped_loop.tasks_stage [OF assms(1,2), of clock] assms(3-5) by (auto simp: stage_ok_def)
  with wire_run_balance [OF r(3) refl] show ?thesis
    by (intro exI [of _ p'] exI [of _ es]) (auto simp: phase_of_def split: if_splits)
qed

theorem tasks_answer_once_witness:
  "\<exists>p' log. tasks tapped_deps (demo_with (memory_inject memory_transport_new (0x0B # replicate 31 0), []) (Some demo_store)) [1, 2] = Some p' \<and>
    snd (p_transport p') = log \<and> requests log = deliveries log + (if p_responsePending p' then 1 else 0)"
proof -
  let ?p = "demo_with (memory_inject memory_transport_new (0x0B # replicate 31 0), []) (Some demo_store)"
  have "task_inv memory_inv (\<lambda>_. True) ?p" by (simp add: task_inv_def demo_env_inv)
  from tasks_answer_once [OF tapped.tapped_loop_axioms this, of "[1, 2]"] show ?thesis
    by (auto simp: phase_of_def jump_calls_def)
qed

text \<open>C26. Autosave: after a change at time \<open>t\<close>, the task \<open>e\<close> milliseconds later saves exactly if
  the configured delay has passed, also when the 32-bit clock wraps in between, for delays and
  distances below \<open>2^31\<close>.\<close>
theorem autosave_deadline:
  assumes "unat (cfg_autoSaveMs (p_config p)) < 2147483648" and "unat e < 2147483648"
  shows "task_save d (markDirty p t) (t + e) =
    (if cfg_autoSaveMs (p_config p) \<le> e then map_option snd (save d (markDirty p t)) else Some (markDirty p t))"
proof -
  have "t + e - (t + cfg_autoSaveMs (p_config p)) = e - cfg_autoSaveMs (p_config p)" by simp
  then show ?thesis using signed_deadline [OF assms] by (simp add: task_save_def frame)
qed

theorem autosave_deadline_witness:
  "task_save demo_deps (markDirty demo 0xFFFFFF00) (0xFFFFFF00 + 0x100) = Some (markDirty demo 0xFFFFFF00)"
  using autosave_deadline [where p = demo and e = "0x100" and d = demo_deps and t = "0xFFFFFF00"] by (simp add: demo_def)

section \<open>Commands\<close>

text \<open>C30. Refusal: a reset without its feature flag, a bootloader jump without its flag or without
  callbacks, a custom-value command without a custom value, and every unknown command are answered
  with 0xFF in the first byte, and change nothing.\<close>
theorem disabled_commands_refused:
  assumes "length pkt = kPacketSize"
    and "pkt ! 0 = 0x0A \<and> \<not> cfg_eepromResetEnabled (p_config p) \<or>
      pkt ! 0 = 0x0B \<and> (\<not> cfg_bootloaderEnabled (p_config p) \<or> \<not> p_callbacks p) \<or>
      pkt ! 0 \<in> {0x07, 0x08, 0x09} \<and> p_customValue p = None \<or> pkt ! 0 = 0 \<or> 0x15 < pkt ! 0"
  shows "process d p pkt nowMs = Some (False, pkt[0 := 0xFF], p)"
proof -
  have ne: "pkt \<noteq> []" using assms(1) by (auto simp: kPacketSize_def)
  have "process_cmd d p pkt nowMs = Some (fail_packet pkt, p)"
    using assms(2)
  proof (elim disjE)
    assume "0x15 < pkt ! 0"
    then have "pkt ! 0 \<noteq> n" if "n \<le> 0x15" for n using that by auto
    then show ?thesis by (simp add: process_cmd_def Let_def)
  qed (auto simp: process_cmd_def eeprom_reset_cmd_def bootloader_cmd_def custom_set_cmd_def
      custom_get_cmd_def eeprom_commit_cmd_def)
  with ne show ?thesis by (simp add: process_def fail_packet_def)
qed

theorem disabled_commands_refused_witness:
  "process demo_deps demo (0x16 # replicate 31 1) 0 = Some (False, 0xFF # replicate 31 1, demo)"
  using disabled_commands_refused [of "0x16 # replicate 31 1" demo demo_deps 0]
  by (simp add: kPacketSize_def)

text \<open>Matrix tester: with the tester enabled, byte \<open>3 + i * n + (n - 1 - c div 8)\<close> of the reply,
  where \<open>n\<close> is the number of bytes per row, has in bit \<open>c mod 8\<close> the state of column \<open>c\<close> of the
  row \<open>i\<close> places after the requested one; rows beyond the configured ones, and all rows when the
  tester is disabled, read as zero.\<close>
theorem matrix_state_bits:
  assumes len: "length pkt = kPacketSize" and cmd: "pkt ! 0 = 0x02" "pkt ! 1 = 0x03"
    and cols: "0 < cfg_columns (p_config p)" "cfg_columns (p_config p) \<le> 32"
    and n: "n = (unat (cfg_columns (p_config p)) + 7) div 8" and i: "i < 28 div n" and c: "c < 8 * n"
  shows "\<exists>reply. process d p pkt nowMs = Some (True, reply, p) \<and>
    bit (reply ! (3 + i * n + (n - 1 - c div 8))) (c mod 8) =
      (let row = unat (pkt ! 2) + i in
       cfg_matrixStateEnabled (p_config p) \<and> p_callbacks p \<and> row < unat (cfg_rows (p_config p)) \<and>
       bit (d_matrixRow d (of_nat row)) c)"
proof -
  define reply where "reply = take 3 pkt @ rows_image d p n (unat (pkt ! 2)) (28 div n) @ replicate (29 - 28 div n * n) 0"
  have "matrix_state d p pkt = Some reply" unfolding reply_def by (rule matrix_state_eq [OF len cols n])
  moreover have "reply ! 0 = 0x02" using len cmd by (simp add: reply_def nth_append kPacketSize_def)
  ultimately have "process d p pkt nowMs = Some (True, reply, p)"
    using cmd by (simp add: process_def process_cmd_def get_keyboard_value_def)
  moreover have "bit (reply ! (3 + i * n + (n - 1 - c div 8))) (c mod 8) = bit (row_word d p (unat (pkt ! 2) + i)) c"
    unfolding reply_def using len i c by (rule reply_bit)
  ultimately show ?thesis by (auto simp: row_word_def Let_def)
qed

theorem matrix_state_bits_witness:
  "\<exists>reply. process demo_deps demo (0x02 # 0x03 # replicate 30 0) 0 = Some (True, reply, demo) \<and> bit (reply ! 3) 0"
  using matrix_state_bits [of "0x02 # 0x03 # replicate 30 0" demo 1 0 0 demo_deps 0]
  by (simp add: demo_def kPacketSize_def demo_deps_def light_deps_def)

text \<open>C27. Remapping a key: a set-keycode packet for a key in range changes exactly that key of the
  keymap to the big-endian value of bytes 4 and 5 and marks the state dirty; a packet out of range
  is refused and changes nothing.\<close>
theorem set_keycode_packet:
  assumes wf: "wf_protocol p" and len: "length pkt = kPacketSize" and cmd: "pkt ! 0 = 0x05"
  shows "\<exists>ok pkt' p'. process d p pkt nowMs = Some (ok, pkt', p') \<and>
    ok = (pkt ! 1 < cfg_layers (p_config p) \<and> pkt ! 2 < cfg_rows (p_config p) \<and> pkt ! 3 < cfg_columns (p_config p)) \<and>
    (if ok then pkt' = pkt \<and> p_dirty p' \<and> p_encoderMap p' = p_encoderMap p \<and> p_macros p' = p_macros p \<and>
      (\<forall>l r c. l < cfg_layers (p_config p) \<and> r < cfg_rows (p_config p) \<and> c < cfg_columns (p_config p) \<longrightarrow>
        keycode p' l r c = (if l = pkt ! 1 \<and> r = pkt ! 2 \<and> c = pkt ! 3 then Some (be16 (pkt ! 4) (pkt ! 5))
          else keycode p l r c))
     else pkt' = pkt[0 := 0xFF] \<and> p' = p)"
proof -
  have ne: "pkt \<noteq> []" using len by (auto simp: kPacketSize_def)
  let ?c = "p_config p"
  show ?thesis
  proof (cases "pkt ! 1 < cfg_layers ?c \<and> pkt ! 2 < cfg_rows ?c \<and> pkt ! 3 < cfg_columns ?c")
    case False
    have "set_keycode_cmd p pkt nowMs = Some (pkt[0 := 0xFF], p)"
      unfolding set_keycode_cmd_def setKeycode_total [OF wf] if_not_P [OF False] by (simp add: fail_packet_def)
    then have "process d p pkt nowMs = Some (False, pkt[0 := 0xFF], p)"
      using cmd ne by (simp add: process_def process_cmd_def)
    with False show ?thesis by (intro exI) auto
  next
    case True
    define p' where "p' = markDirty (p\<lparr>p_keymap := (p_keymap p)[keyIndex ?c (pkt ! 1) (pkt ! 2) (pkt ! 3) := be16 (pkt ! 4) (pkt ! 5)]\<rparr>) nowMs"
    have "process d p pkt nowMs = Some (True, pkt, p')"
      using True cmd ne by (simp add: process_def process_cmd_def set_keycode_cmd_def setKeycode_total [OF wf] p'_def)
    moreover have "keycode p' l r c = (if l = pkt ! 1 \<and> r = pkt ! 2 \<and> c = pkt ! 3
        then Some (be16 (pkt ! 4) (pkt ! 5)) else keycode p l r c)"
      if "l < cfg_layers ?c" "r < cfg_rows ?c" "c < cfg_columns ?c" for l r c
    proof -
      have "length (p_keymap p) = keyCount ?c" using wf by (simp add: wf_protocol_def)
      then show ?thesis using that True keyIndex_less [of l ?c r c]
        by (auto simp: p'_def keycode_def frame Let_def mem nth_list_update keyIndex_inj)
    qed
    ultimately show ?thesis using True by (intro exI [of _ True] exI [of _ pkt] exI [of _ p']) (simp add: p'_def frame)
  qed
qed

theorem set_keycode_packet_witness:
  "\<exists>p'. process demo_deps demo (0x05 # 1 # 0 # 1 # 0x52 # 0x20 # replicate 26 0) 0 =
      Some (True, 0x05 # 1 # 0 # 1 # 0x52 # 0x20 # replicate 26 0, p') \<and>
    keycode p' 1 0 1 = Some 0x5220 \<and> keycode p' 1 0 0 = keycode demo 1 0 0"
proof -
  let ?pkt = "0x05 # 1 # 0 # 1 # 0x52 # 0x20 # replicate 26 (0 :: u8)"
  have "wf_protocol demo" by (simp add: demo_def wf_protocol_def kPacketSize_def)
  from set_keycode_packet [OF this, of ?pkt demo_deps 0] show ?thesis
    by (auto simp: demo_def kPacketSize_def be16_def push_bit_eq_mult)
qed

text \<open>Remapping an encoder: the same for the encoder map, whose entries are addressed by layer,
  encoder and direction (0 or 1).\<close>
theorem set_encoder_packet:
  assumes wf: "wf_protocol p" and len: "length pkt = kPacketSize" and cmd: "pkt ! 0 = 0x15"
  shows "\<exists>ok pkt' p'. process d p pkt nowMs = Some (ok, pkt', p') \<and>
    ok = (pkt ! 1 < cfg_layers (p_config p) \<and> pkt ! 2 < cfg_encoderCount (p_config p) \<and> pkt ! 3 \<le> 1) \<and>
    (if ok then pkt' = pkt \<and> p_dirty p' \<and> p_keymap p' = p_keymap p \<and> p_macros p' = p_macros p \<and>
      (\<forall>l e w. l < cfg_layers (p_config p) \<and> e < cfg_encoderCount (p_config p) \<and> w \<le> 1 \<longrightarrow>
        encoderKeycode p' l e w = (if l = pkt ! 1 \<and> e = pkt ! 2 \<and> w = pkt ! 3 then Some (be16 (pkt ! 4) (pkt ! 5))
          else encoderKeycode p l e w))
     else pkt' = pkt[0 := 0xFF] \<and> p' = p)"
proof -
  have ne: "pkt \<noteq> []" using len by (auto simp: kPacketSize_def)
  let ?c = "p_config p"
  show ?thesis
  proof (cases "pkt ! 1 < cfg_layers ?c \<and> pkt ! 2 < cfg_encoderCount ?c \<and> pkt ! 3 \<le> 1")
    case False
    have "set_encoder_cmd p pkt nowMs = Some (pkt[0 := 0xFF], p)"
      unfolding set_encoder_cmd_def setEncoderKeycode_total [OF wf] if_not_P [OF False] by (simp add: fail_packet_def)
    then have "process d p pkt nowMs = Some (False, pkt[0 := 0xFF], p)"
      using cmd ne by (simp add: process_def process_cmd_def)
    with False show ?thesis by (intro exI) auto
  next
    case True
    define p' where "p' = markDirty (p\<lparr>p_encoderMap := (p_encoderMap p)[encoderIndex ?c (pkt ! 1) (pkt ! 2) (pkt ! 3) := be16 (pkt ! 4) (pkt ! 5)]\<rparr>) nowMs"
    have "process d p pkt nowMs = Some (True, pkt, p')"
      using True cmd ne by (simp add: process_def process_cmd_def set_encoder_cmd_def setEncoderKeycode_total [OF wf] p'_def)
    moreover have "encoderKeycode p' l e w = (if l = pkt ! 1 \<and> e = pkt ! 2 \<and> w = pkt ! 3
        then Some (be16 (pkt ! 4) (pkt ! 5)) else encoderKeycode p l e w)"
      if "l < cfg_layers ?c" "e < cfg_encoderCount ?c" "w \<le> 1" for l e w
    proof -
      have "2 * length (p_encoderMap p) = encoderMapBytes ?c" using wf by (simp add: wf_protocol_def)
      then show ?thesis using that True encoderIndex_less [of l ?c e w]
        by (auto simp: p'_def encoderKeycode_def frame Let_def mem nth_list_update encoderIndex_inj)
    qed
    ultimately show ?thesis using True by (intro exI [of _ True] exI [of _ pkt] exI [of _ p']) (simp add: p'_def frame)
  qed
qed

theorem set_encoder_packet_witness:
  "\<exists>p'. process demo_deps demo (0x15 # 1 # 0 # 1 # 0 # 0x2A # replicate 26 0) 0 =
      Some (True, 0x15 # 1 # 0 # 1 # 0 # 0x2A # replicate 26 0, p') \<and>
    encoderKeycode p' 1 0 1 = Some 0x2A \<and> encoderKeycode p' 1 0 0 = encoderKeycode demo 1 0 0"
proof -
  let ?pkt = "0x15 # 1 # 0 # 1 # 0 # 0x2A # replicate 26 (0 :: u8)"
  have "wf_protocol demo" by (simp add: demo_def wf_protocol_def kPacketSize_def)
  from set_encoder_packet [OF this, of ?pkt demo_deps 0] show ?thesis
    by (auto simp: demo_def kPacketSize_def be16_def push_bit_eq_mult)
qed

text \<open>C28. Bulk keymap write: the keymap the host sees is the sequence of its big-endian bytes; a
  write of at most 28 bytes at any offset overwrites exactly the addressed bytes that exist, and
  the state becomes dirty when there was one.\<close>
theorem keymap_buffer_write:
  assumes wf: "wf_protocol p" and len: "length pkt = kPacketSize" and cmd: "pkt ! 0 = 0x13"
    and off: "off = unat (be16 (pkt ! 1) (pkt ! 2))"
  shows "\<exists>p'. process d p pkt nowMs = Some (True, pkt, p') \<and>
    keymap_view (p_keymap p') = overwrite (keymap_view (p_keymap p)) off
      (take (keymapBytes (p_config p) - off) (take (chunk pkt) (drop 4 pkt))) \<and>
    p_dirty p' = (p_dirty p \<or> 0 < chunk pkt \<and> off < keymapBytes (p_config p)) \<and>
    p_encoderMap p' = p_encoderMap p \<and> p_macros p' = p_macros p \<and> p_layoutOptions p' = p_layoutOptions p"
proof -
  have km: "length (p_keymap p) = keyCount (p_config p)" using wf by (simp add: wf_protocol_def)
  have room: "4 + chunk pkt \<le> length pkt" using chunk_le [of pkt] len by (simp add: kPacketSize_def)
  obtain km' where w: "writeDynamicKeymap p (be16 (pkt ! 1) (pkt ! 2)) (chunk pkt) 4 pkt nowMs =
     Some (if 0 < chunk pkt \<and> off < keymapBytes (p_config p)
       then markDirty (p\<lparr>p_keymap := km'\<rparr>) nowMs else p\<lparr>p_keymap := km'\<rparr>)"
    "keymap_view km' = overwrite (keymap_view (p_keymap p)) off
      (take (keymapBytes (p_config p) - off) (take (chunk pkt) (drop 4 pkt)))"
    using writeDynamicKeymap_eq [OF km room] off by metis
  define p' where "p' = (if 0 < chunk pkt \<and> off < keymapBytes (p_config p)
       then markDirty (p\<lparr>p_keymap := km'\<rparr>) nowMs else p\<lparr>p_keymap := km'\<rparr>)"
  have "process d p pkt nowMs = Some (True, pkt, p')"
    using cmd w(1) by (simp add: process_def process_cmd_def p'_def)
  then show ?thesis using w(2) by (intro exI [of _ p']) (auto simp: p'_def frame)
qed

theorem keymap_buffer_write_witness:
  "\<exists>p'. process demo_deps demo (0x13 # 0 # 7 # 3 # 0xAB # replicate 27 0) 0 =
      Some (True, 0x13 # 0 # 7 # 3 # 0xAB # replicate 27 0, p') \<and> p_dirty p' \<and>
    keymap_view (p_keymap p') = [0, 4, 0, 5, 0, 6, 0, 0xAB]"
proof -
  let ?pkt = "0x13 # 0 # 7 # 3 # 0xAB # replicate 27 (0 :: u8)"
  have o: "7 = unat (be16 (?pkt ! 1) (?pkt ! 2))" by (simp add: be16_def)
  have v: "overwrite (keymap_view [4, 5, 6, 7]) 7 (take (8 - 7) (take (chunk ?pkt) (drop 4 ?pkt))) = [0, 4, 0, 5, 0, 6, 0, 0xAB]"
    and c: "0 < chunk ?pkt" by code_simp+
  have "wf_protocol demo" by (simp add: demo_def wf_protocol_def kPacketSize_def)
  from keymap_buffer_write [OF this _ _ o, of demo_deps 0] obtain p' where
    "process demo_deps demo ?pkt 0 = Some (True, ?pkt, p')" "p_dirty p'"
    "keymap_view (p_keymap p') = overwrite (keymap_view [4, 5, 6, 7]) 7 (take (8 - 7) (take (chunk ?pkt) (drop 4 ?pkt)))"
    using c by (auto simp: demo_def kPacketSize_def)
  with v show ?thesis by metis
qed

text \<open>Bulk keymap read: the reply carries the addressed bytes of the same big-endian view, zero
  for bytes past the end of the keymap, and leaves the rest of the packet and the state alone.\<close>
theorem keymap_buffer_read:
  assumes wf: "wf_protocol p" and len: "length pkt = kPacketSize" and cmd: "pkt ! 0 = 0x12"
    and off: "off = unat (be16 (pkt ! 1) (pkt ! 2))"
  shows "process d p pkt nowMs = Some (True, overwrite pkt 4 (map (\<lambda>i.
    if off + i < keymapBytes (p_config p) then keymap_view (p_keymap p) ! (off + i) else 0) [0..<chunk pkt]), p)"
proof -
  have km: "length (p_keymap p) = keyCount (p_config p)" using wf by (simp add: wf_protocol_def)
  have room: "4 + chunk pkt \<le> length pkt" using chunk_le [of pkt] len by (simp add: kPacketSize_def)
  let ?r = "overwrite pkt 4 (map (\<lambda>i. if off + i < keymapBytes (p_config p) then keymap_view (p_keymap p) ! (off + i) else 0) [0..<chunk pkt])"
  have "readDynamicKeymap p (be16 (pkt ! 1) (pkt ! 2)) (chunk pkt) 4 pkt = Some ?r"
    using readDynamicKeymap_eq [OF km room, of "be16 (pkt ! 1) (pkt ! 2)"] off km
    by (simp add: keymapBytes_def mult.commute cong: if_cong)
  moreover have "?r ! 0 = pkt ! 0" using room by (subst nth_splice) auto
  ultimately show ?thesis using cmd by (simp add: process_def process_cmd_def)
qed

theorem keymap_buffer_read_witness:
  "process demo_deps demo (0x12 # 0 # 5 # 4 # replicate 28 0xEE) 0 =
    Some (True, 0x12 # 0 # 5 # 4 # 6 # 0 # 7 # 0 # replicate 24 0xEE, demo)"
proof -
  let ?pkt = "0x12 # 0 # 5 # 4 # replicate 28 (0xEE :: u8)"
  have o: "5 = unat (be16 (?pkt ! 1) (?pkt ! 2))" by (simp add: be16_def)
  have "wf_protocol demo" by (simp add: demo_def wf_protocol_def kPacketSize_def)
  from keymap_buffer_read [OF this _ _ o, of demo_deps 0] show ?thesis
    by (simp add: demo_def kPacketSize_def keymap_view_def hi8_def lo8_def overwrite_def chunk_def upt_rec)
qed

text \<open>C29. Macro buffer: what a set-macro packet wrote is what a get-macro packet with the same
  offset and size returns, and bytes past the end of the buffer are dropped and read as zero.\<close>
theorem macro_write_read:
  assumes wf: "wf_protocol p" and len: "length pkt = kPacketSize" "length pkt' = kPacketSize"
    and cmd: "pkt ! 0 = 0x0F" "pkt' ! 0 = 0x0E" "pkt' ! 1 = pkt ! 1" "pkt' ! 2 = pkt ! 2" "pkt' ! 3 = pkt ! 3"
  shows "\<exists>p' reply. process d p pkt nowMs = Some (True, pkt, p') \<and>
    process d p' pkt' nowMs' = Some (True, reply, p') \<and>
    (\<forall>i < chunk pkt. reply ! (4 + i) =
      (if unat (be16 (pkt ! 1) (pkt ! 2)) + i < unat (cfg_macroBytes (p_config p)) then pkt ! (4 + i) else 0))"
proof -
  define off where "off = unat (be16 (pkt ! 1) (pkt ! 2))"
  define ma where "ma = overwrite (p_macros p) off (take (length (p_macros p) - off) (take (chunk pkt) (drop 4 pkt)))"
  define p' where "p' = (if 0 < chunk pkt \<and> off < length (p_macros p)
    then markDirty (p\<lparr>p_macros := ma\<rparr>) nowMs else p\<lparr>p_macros := ma\<rparr>)"
  have mlen: "length (p_macros p) = unat (cfg_macroBytes (p_config p))" using wf by (simp add: wf_protocol_def)
  have malen: "length ma = length (p_macros p)" unfolding ma_def by (rule length_overwrite_take)
  have chunk: "chunk pkt' = chunk pkt" using cmd by (simp add: chunk_def)
  have room: "4 + chunk pkt \<le> length pkt" "4 + chunk pkt \<le> length pkt'"
    using chunk_le [of pkt] len by (simp_all add: kPacketSize_def)
  have set: "process d p pkt nowMs = Some (True, pkt, p')"
    using cmd(1) macro_set_eq [OF mlen len(1) off_def ma_def] by (simp add: process_def process_cmd_def p'_def)
  define reply where "reply = overwrite pkt' 4 (map (\<lambda>i. if off + i < length ma then ma ! (off + i) else 0) [0..<chunk pkt])"
  have p': "p_macros p' = ma" "p_config p' = p_config p" by (simp_all add: p'_def frame)
  have "macro_get p' pkt' = Some reply"
    using macro_get_eq [of p' pkt'] p' mlen malen len cmd chunk by (simp add: reply_def off_def cong: if_cong)
  moreover have "reply ! 0 = pkt' ! 0" unfolding reply_def using room by (subst nth_splice) auto
  ultimately have get: "process d p' pkt' nowMs' = Some (True, reply, p')"
    using cmd(2) by (simp add: process_def process_cmd_def)
  have "reply ! (4 + i) = (if off + i < length (p_macros p) then pkt ! (4 + i) else 0)" if "i < chunk pkt" for i
  proof -
    have "reply ! (4 + i) = (if off + i < length ma then ma ! (off + i) else 0)"
      unfolding reply_def using room that by (subst nth_splice) simp_all
    moreover have "ma ! (off + i) = pkt ! (4 + i)" if "off + i < length (p_macros p)"
      unfolding ma_def using that \<open>i < chunk pkt\<close> room by (subst nth_splice) auto
    ultimately show ?thesis using malen by simp
  qed
  with set get mlen show ?thesis unfolding off_def by (intro exI [of _ p'] exI [of _ reply]) simp
qed

theorem macro_write_read_witness:
  "\<exists>p' reply. process demo_deps demo (0x0F # 0 # 3 # 2 # 0x41 # 0x42 # replicate 26 0) 0 =
      Some (True, 0x0F # 0 # 3 # 2 # 0x41 # 0x42 # replicate 26 0, p') \<and>
    process demo_deps p' (0x0E # 0 # 3 # 2 # replicate 28 9) 1 = Some (True, reply, p') \<and>
    reply ! 4 = 0x41 \<and> reply ! 5 = 0"
proof -
  let ?a = "0x0F # 0 # 3 # 2 # 0x41 # 0x42 # replicate 26 (0 :: u8)" and ?b = "0x0E # 0 # 3 # 2 # replicate 28 (9 :: u8)"
  have c: "chunk ?a = 2" by (simp add: chunk_def)
  have "wf_protocol demo" by (simp add: demo_def wf_protocol_def kPacketSize_def)
  from macro_write_read [OF this, of ?a ?b demo_deps 0 1] obtain p' reply where
    "process demo_deps demo ?a 0 = Some (True, ?a, p')" "process demo_deps p' ?b 1 = Some (True, reply, p')"
    "\<forall>i < 2. reply ! (4 + i) = (if unat (be16 0 3) + i < unat (cfg_macroBytes (p_config demo)) then ?a ! (4 + i) else 0)"
    unfolding c by (auto simp: kPacketSize_def)
  moreover from this(3) have "reply ! (4 + 0) = 0x41" "reply ! (4 + 1) = 0"
    by (simp_all only: all_less_two) (simp_all add: demo_def be16_def)
  ultimately show ?thesis by auto
qed

section \<open>Sizes and checks\<close>

text \<open>Record size: the 32-bit computation of \<open>stateBytes\<close> never wraps: it succeeds exactly when
  the custom state has at most 16 bytes and header plus payload fit in 65535 bytes, and then
  returns the exact sum of the parts.\<close>
theorem stateBytes_exact:
  "stateBytes d p = Some (bytes, n) \<longleftrightarrow>
     n = custom_bytes d p \<and> n \<le> 16 \<and> bytes + 12 \<le> 65535 \<and>
     bytes = 2 * (unat (cfg_rows (p_config p)) * unat (cfg_columns (p_config p)) * unat (cfg_layers (p_config p))) +
       4 * (unat (cfg_layers (p_config p)) * unat (cfg_encoderCount (p_config p))) +
       unat (cfg_macroBytes (p_config p)) + 4 + n"
  unfolding stateBytes_iff
  by (auto simp: kMaxCustomStateSize_def kHeaderSize_def payloadSize_def keymapBytes_def keyCount_nat encoderMapBytes_nat)

text \<open>Overlap check: for two ranges that do not wrap around the address space, the check of the
  staging buffer answers true exactly when they share an address.\<close>
theorem rangesOverlap_exact:
  assumes "unat a + unat n \<le> 2 ^ 32" and "unat b + unat m \<le> 2 ^ 32"
  shows "rangesOverlap a n b m \<longleftrightarrow> (\<exists>x. unat a \<le> x \<and> x < unat a + unat n \<and> unat b \<le> x \<and> x < unat b + unat m)"
  unfolding rangesOverlap_iff [OF assms] set_eq_iff Int_iff atLeastLessThan_iff empty_iff by blast

theorem rangesOverlap_exact_witness:
  "\<not> rangesOverlap 0x20000300 64 0x20000340 8 \<and> rangesOverlap 0x20000300 65 0x20000340 8"
  using rangesOverlap_exact [of "0x20000300" 64 "0x20000340" 8] rangesOverlap_exact [of "0x20000300" 65 "0x20000340" 8]
  by (auto intro: exI [of _ "0x20000340 :: nat"])

text \<open>The three CRC routines of the repository, with their three ways to write the bit step,
  compute the same function: the STM32 store's is the complement of the core's and the nRF52
  store's is the core's without complement.\<close>
theorem crc_routines_agree:
  "flash_crc32 bs = NOT (crc32_bytes 0xFFFFFFFF bs) \<and> nrf52_crc32 bs crc = crc32_bytes crc bs"
  by (simp add: flash_crc32_eq nrf52_crc32_eq)

end
