(* ===== verification/Matrix.thy ===== *)
theory Matrix
  imports Prelude
begin

text \<open>
  The matrix scanner and its global debounce, \<open>src/VIA_Matrix.h\<close> and \<open>src/VIA_Matrix.cpp\<close>.
  The pins are driven through a \<open>MatrixIO\<close>, a table of functions over the state of the
  hardware.  \<open>prevRaw_\<close> is an array of 8 words; the row arrays belong to the caller.  \<open>None\<close>
  is an access outside an array, a shift by 32 or more, or a delay that never returns.
\<close>

type_synonym pin = u32

record 'io matrix_io =
  io_inputPullup :: "'io \<Rightarrow> pin \<Rightarrow> 'io"
  io_driveLow :: "'io \<Rightarrow> pin \<Rightarrow> 'io"
  io_release :: "'io \<Rightarrow> pin \<Rightarrow> 'io"
  io_read :: "'io \<Rightarrow> pin \<Rightarrow> bool \<times> 'io"
  io_delayMicroseconds :: "'io \<Rightarrow> u16 \<Rightarrow> 'io option"

datatype diode_direction = ColToRow | RowToCol

record matrix_config =
  mc_rows :: u8
  mc_columns :: u8
  mc_rowPins :: "pin list"
  mc_columnPins :: "pin list"
  mc_direction :: diode_direction
  mc_settleUs :: u16
  mc_debounceMs :: u16

record 'io matrix =
  mx_config :: matrix_config
  mx_rawRows :: "u32 list"
  mx_candidateRows :: "u32 list"
  mx_stableRows :: "u32 list"
  mx_changedRows :: "u32 list"
  mx_io :: 'io
  mx_prevRaw :: "u32 list"
  mx_lastRawChangeTS :: u32
  mx_debouncePending :: bool

definition row_count :: "'io matrix \<Rightarrow> nat" where "row_count m = unat (mc_rows (mx_config m))"

definition col_count :: "'io matrix \<Rightarrow> nat" where "col_count m = unat (mc_columns (mx_config m))"

text \<open>The constructor clears as many entries of \<open>prevRaw_\<close> as there are rows; the array starts
  out with arbitrary contents \<open>junk\<close>.\<close>

definition matrix_new ::
  "matrix_config \<Rightarrow> u32 list \<Rightarrow> u32 list \<Rightarrow> u32 list \<Rightarrow> u32 list \<Rightarrow> 'io \<Rightarrow> u32 list \<Rightarrow> 'io matrix option" where
  "matrix_new cfg raw cand stab changed io junk = do {
     prev \<leftarrow> for_up 0 (unat (mc_rows cfg)) (\<lambda>r prev. arr_set prev r 0) junk;
     Some \<lparr>mx_config = cfg, mx_rawRows = raw, mx_candidateRows = cand, mx_stableRows = stab,
       mx_changedRows = changed, mx_io = io, mx_prevRaw = prev, mx_lastRawChangeTS = 0,
       mx_debouncePending = False\<rparr>
   }"

definition matrix_begin :: "'io matrix \<Rightarrow> bool" where
  "matrix_begin m \<longleftrightarrow> \<not> (mc_rows (mx_config m) = 0 \<or> mc_columns (mx_config m) = 0)"

text \<open>\<open>1UL << c\<close>.\<close>

definition shl1 :: "nat \<Rightarrow> u32 option" where
  "shl1 c = (if c < 32 then Some (push_bit c 1) else None)"

section \<open>Scanning\<close>

text \<open>One row of a matrix scanned by rows.\<close>

definition read_columns :: "'io matrix_io \<Rightarrow> pin list \<Rightarrow> nat \<Rightarrow> 'io \<Rightarrow> (u32 \<times> 'io) option" where
  "read_columns vt pins n io =
     for_up 0 n (\<lambda>c (rowVal, io). do {
       p \<leftarrow> arr_get pins c;
       let (v, io) = io_read vt io p;
       if \<not> v then do { b \<leftarrow> shl1 c; Some (rowVal OR b, io) } else Some (rowVal, io)
     }) (0, io)"

definition scan_row :: "'io matrix_io \<Rightarrow> nat \<Rightarrow> 'io matrix \<Rightarrow> 'io matrix option" where
  "scan_row vt r m = do {
     let c = mx_config m;
     p \<leftarrow> arr_get (mc_rowPins c) r;
     let io = io_driveLow vt (mx_io m) p;
     io \<leftarrow> io_delayMicroseconds vt io (mc_settleUs c);
     (rowVal, io) \<leftarrow> read_columns vt (mc_columnPins c) (unat (mc_columns c)) io;
     raw \<leftarrow> arr_set (mx_rawRows m) r rowVal;
     Some (m\<lparr>mx_rawRows := raw, mx_io := io_release vt io p\<rparr>)
   }"

definition scan_rows :: "'io matrix_io \<Rightarrow> 'io matrix \<Rightarrow> 'io matrix option" where
  "scan_rows vt m = for_up 0 (unat (mc_rows (mx_config m))) (scan_row vt) m"

text \<open>Scanning by columns: all rows are cleared and pulled up and all columns released first; then
  one column after the other is driven and read at every row.\<close>

definition clear_rows :: "'io matrix_io \<Rightarrow> 'io matrix \<Rightarrow> 'io matrix option" where
  "clear_rows vt m =
     for_up 0 (unat (mc_rows (mx_config m))) (\<lambda>r m. do {
       raw \<leftarrow> arr_set (mx_rawRows m) r 0;
       p \<leftarrow> arr_get (mc_rowPins (mx_config m)) r;
       Some (m\<lparr>mx_rawRows := raw, mx_io := io_inputPullup vt (mx_io m) p\<rparr>) }) m"

definition release_columns :: "'io matrix_io \<Rightarrow> 'io matrix \<Rightarrow> 'io matrix option" where
  "release_columns vt m =
     for_up 0 (unat (mc_columns (mx_config m))) (\<lambda>c m. do {
       p \<leftarrow> arr_get (mc_columnPins (mx_config m)) c;
       Some (m\<lparr>mx_io := io_release vt (mx_io m) p\<rparr>) }) m"

definition read_row :: "'io matrix_io \<Rightarrow> nat \<Rightarrow> nat \<Rightarrow> 'io matrix \<Rightarrow> 'io matrix option" where
  "read_row vt c r m = do {
     q \<leftarrow> arr_get (mc_rowPins (mx_config m)) r;
     let (v, io) = io_read vt (mx_io m) q;
     let m = m\<lparr>mx_io := io\<rparr>;
     if \<not> v then do {
       old \<leftarrow> arr_get (mx_rawRows m) r;
       b \<leftarrow> shl1 c;
       raw \<leftarrow> arr_set (mx_rawRows m) r (old OR b);
       Some (m\<lparr>mx_rawRows := raw\<rparr>) }
     else Some m }"

definition scan_column :: "'io matrix_io \<Rightarrow> nat \<Rightarrow> 'io matrix \<Rightarrow> 'io matrix option" where
  "scan_column vt c m = do {
     p \<leftarrow> arr_get (mc_columnPins (mx_config m)) c;
     let io = io_driveLow vt (mx_io m) p;
     io \<leftarrow> io_delayMicroseconds vt io (mc_settleUs (mx_config m));
     m \<leftarrow> for_up 0 (unat (mc_rows (mx_config m))) (read_row vt c) (m\<lparr>mx_io := io\<rparr>);
     Some (m\<lparr>mx_io := io_release vt (mx_io m) p\<rparr>) }"

definition scan_columns :: "'io matrix_io \<Rightarrow> 'io matrix \<Rightarrow> 'io matrix option" where
  "scan_columns vt m = do {
     m \<leftarrow> clear_rows vt m;
     m \<leftarrow> release_columns vt m;
     for_up 0 (unat (mc_columns (mx_config m))) (scan_column vt) m
   }"

definition matrix_scan :: "'io matrix_io \<Rightarrow> 'io matrix \<Rightarrow> 'io matrix option" where
  "matrix_scan vt m =
     (case mc_direction (mx_config m) of ColToRow \<Rightarrow> scan_rows vt m | RowToCol \<Rightarrow> scan_columns vt m)"

section \<open>Debouncing\<close>

definition raw_changed :: "'io matrix \<Rightarrow> bool option" where
  "raw_changed m =
     for_up 0 (row_count m) (\<lambda>r changed. do {
       a \<leftarrow> arr_get (mx_rawRows m) r;
       b \<leftarrow> arr_get (mx_prevRaw m) r;
       Some (changed \<or> a \<noteq> b) }) False"

text \<open>The candidates become stable; \<open>changedRows\<close> gets the bits that differ.\<close>

definition publish_rows :: "'io matrix \<Rightarrow> 'io matrix option" where
  "publish_rows m =
     for_up 0 (row_count m) (\<lambda>r m. do {
       prev \<leftarrow> arr_get (mx_stableRows m) r;
       cand \<leftarrow> arr_get (mx_candidateRows m) r;
       stable \<leftarrow> arr_set (mx_stableRows m) r cand;
       changed \<leftarrow> arr_set (mx_changedRows m) r (prev XOR cand);
       Some (m\<lparr>mx_stableRows := stable, mx_changedRows := changed\<rparr>) }) m"

definition matrix_debounce :: "'io matrix \<Rightarrow> u32 \<Rightarrow> 'io matrix option" where
  "matrix_debounce m ms = do {
     rawChanged \<leftarrow> raw_changed m;
     if rawChanged then do {
       m \<leftarrow> for_up 0 (row_count m) (\<lambda>r m. do {
         v \<leftarrow> arr_get (mx_rawRows m) r;
         cand \<leftarrow> arr_set (mx_candidateRows m) r v;
         prev \<leftarrow> arr_set (mx_prevRaw m) r v;
         Some (m\<lparr>mx_candidateRows := cand, mx_prevRaw := prev\<rparr>) }) m;
       let m = m\<lparr>mx_lastRawChangeTS := ms, mx_debouncePending := True\<rparr>;
       if mc_debounceMs (mx_config m) = 0
       then do { m \<leftarrow> publish_rows m; Some (m\<lparr>mx_debouncePending := False\<rparr>) }
       else Some m }
     else if mx_debouncePending m \<and> ms - mx_lastRawChangeTS m \<ge> ucast (mc_debounceMs (mx_config m))
     then do { m \<leftarrow> publish_rows m; Some (m\<lparr>mx_debouncePending := False\<rparr>) }
     else Some m
   }"

definition matrix_task :: "'io matrix_io \<Rightarrow> 'io matrix \<Rightarrow> u32 \<Rightarrow> 'io matrix option" where
  "matrix_task vt m ms = do { m \<leftarrow> matrix_scan vt m; matrix_debounce m ms }"

section \<open>Queries\<close>

definition mx_stableRow :: "'io matrix \<Rightarrow> nat \<Rightarrow> u32 option" where
  "mx_stableRow m r = arr_get (mx_stableRows m) r"

definition mx_changedRow :: "'io matrix \<Rightarrow> nat \<Rightarrow> u32 option" where
  "mx_changedRow m r = arr_get (mx_changedRows m) r"

definition rows_mask :: "u32 list \<Rightarrow> nat \<Rightarrow> u32 option" where
  "rows_mask xs n =
     for_up 0 n (\<lambda>r mask. do {
       v \<leftarrow> arr_get xs r;
       if v \<noteq> 0 then do { b \<leftarrow> shl1 r; Some (mask OR b) } else Some mask }) 0"

definition stableRows_mask :: "'io matrix \<Rightarrow> u32 option" where
  "stableRows_mask m = rows_mask (mx_stableRows m) (row_count m)"

definition changedRows_mask :: "'io matrix \<Rightarrow> u32 option" where
  "changedRows_mask m = rows_mask (mx_changedRows m) (row_count m)"

text \<open>\<open>hasChanged\<close> acknowledges: it clears every row when one has changed.\<close>

definition hasChanged :: "'io matrix \<Rightarrow> (bool \<times> 'io matrix) option" where
  "hasChanged m = do {
     any \<leftarrow> for_up 0 (row_count m) (\<lambda>r any. do {
       v \<leftarrow> (if any then Some 0 else arr_get (mx_changedRows m) r);
       Some (any \<or> v \<noteq> 0) }) False;
     if any then do {
       changed \<leftarrow> for_up 0 (row_count m) (\<lambda>j ch. arr_set ch j 0) (mx_changedRows m);
       Some (True, m\<lparr>mx_changedRows := changed\<rparr>) }
     else Some (False, m)
   }"

definition nextScan :: "'io matrix \<Rightarrow> u32 \<Rightarrow> u32" where
  "nextScan m now =
     (if \<not> mx_debouncePending m then 0
      else let elapsed = now - mx_lastRawChangeTS m; remaining = ucast (mc_debounceMs (mx_config m))
           in if elapsed < remaining then remaining - elapsed else 0)"

section \<open>Invariant and closed forms\<close>

text \<open>What the configuration promises: at most 8 rows and 32 columns, and arrays of the stated sizes.\<close>

definition mx_inv :: "'io matrix \<Rightarrow> bool" where
  "mx_inv m \<longleftrightarrow> row_count m \<le> 8 \<and> col_count m \<le> 32 \<and>
     length (mc_rowPins (mx_config m)) = row_count m \<and> length (mc_columnPins (mx_config m)) = col_count m \<and>
     length (mx_rawRows m) = row_count m \<and> length (mx_candidateRows m) = row_count m \<and>
     length (mx_stableRows m) = row_count m \<and> length (mx_changedRows m) = row_count m \<and>
     length (mx_prevRaw m) = 8"

lemma matrix_new_iff:
  assumes "length junk = 8"
  shows "matrix_new cfg raw cand stab changed io junk \<noteq> None \<longleftrightarrow> unat (mc_rows cfg) \<le> 8"
proof -
  have "for_up 0 n (\<lambda>r prev. arr_set prev r 0) xs \<noteq> None \<longleftrightarrow> n \<le> length xs" for n and xs :: "u32 list"
  proof -
    have "for_up i n (\<lambda>r prev. arr_set prev r 0) xs \<noteq> None \<longleftrightarrow> i + n \<le> length xs \<or> n = 0" for i
    proof (induction n arbitrary: i xs)
      case (Suc n)
      then show ?case by (auto simp: arr_set_def)
    qed simp
    then show ?thesis by auto
  qed
  from this [of "unat (mc_rows cfg)" junk] show ?thesis
    using assms by (cases "for_up 0 (unat (mc_rows cfg)) (\<lambda>r prev. arr_set prev r 0) junk") (simp_all add: matrix_new_def)
qed

lemma ex_range_Suc:
  "(\<exists>r. i \<le> r \<and> r < i + Suc k \<and> P r) \<longleftrightarrow> P i \<or> (\<exists>r. Suc i \<le> r \<and> r < Suc i + k \<and> P r)" (is "?l \<longleftrightarrow> ?r")
proof
  assume ?l
  then obtain r where r: "i \<le> r" "r < i + Suc k" "P r" by blast
  show ?r
  proof (cases "r = i")
    case False
    with r have "Suc i \<le> r" "r < Suc i + k" by simp_all
    with r(3) show ?thesis by blast
  qed (use r in simp)
next
  assume ?r
  then show ?l
  proof
    assume "P i"
    then show ?l by (intro exI [of _ i]) simp
  next
    assume "\<exists>r. Suc i \<le> r \<and> r < Suc i + k \<and> P r"
    then obtain r where "Suc i \<le> r" "r < Suc i + k" "P r" by blast
    then show ?l by (intro exI [of _ r]) simp
  qed
qed

lemma raw_changed_eq:
  assumes "mx_inv m"
  shows "raw_changed m = Some (mx_rawRows m \<noteq> take (row_count m) (mx_prevRaw m))"
proof -
  let ?f = "\<lambda>r changed. do {
       a \<leftarrow> arr_get (mx_rawRows m) r;
       b \<leftarrow> arr_get (mx_prevRaw m) r;
       Some (changed \<or> a \<noteq> b) }"
  have len: "length (mx_rawRows m) = row_count m" "row_count m \<le> length (mx_prevRaw m)"
    using assms by (auto simp: mx_inv_def)
  have "for_up i k ?f c = Some (c \<or> (\<exists>r. i \<le> r \<and> r < i + k \<and> mx_rawRows m ! r \<noteq> mx_prevRaw m ! r))"
    if "i + k \<le> row_count m" for i k c
    using that
  proof (induction k arbitrary: i c)
    case (Suc k)
    have "for_up i (Suc k) ?f c = for_up (Suc i) k ?f (c \<or> mx_rawRows m ! i \<noteq> mx_prevRaw m ! i)"
      using Suc.prems len by (simp add: mem)
    also have "\<dots> = Some ((c \<or> mx_rawRows m ! i \<noteq> mx_prevRaw m ! i) \<or>
        (\<exists>r. Suc i \<le> r \<and> r < Suc i + k \<and> mx_rawRows m ! r \<noteq> mx_prevRaw m ! r))"
      by (rule Suc.IH) (use Suc.prems in simp)
    also have "\<dots> = Some (c \<or> (\<exists>r. i \<le> r \<and> r < i + Suc k \<and> mx_rawRows m ! r \<noteq> mx_prevRaw m ! r))"
      using ex_range_Suc [of i k "\<lambda>r. mx_rawRows m ! r \<noteq> mx_prevRaw m ! r"] by blast
    finally show ?case .
  qed auto
  from this [of 0 "row_count m" False] show ?thesis
    using len by (auto simp: raw_changed_def list_eq_iff_nth_eq)
qed

text \<open>A loop that stores one row per iteration in two arrays.\<close>

lemma for_up_fill2:
  assumes "\<And>i a b. i < n \<Longrightarrow> length a = length xs \<Longrightarrow> length b = length ys \<Longrightarrow>
      (\<forall>j \<ge> i. j < length xs \<longrightarrow> a ! j = xs ! j) \<Longrightarrow> f i (g a b) = Some (g (a[i := u i]) (b[i := v i]))"
    and "n \<le> length xs" "n \<le> length ys"
  shows "for_up 0 n f (g xs ys) = Some (g (overwrite xs 0 (map u [0..<n])) (overwrite ys 0 (map v [0..<n])))"
proof -
  have ov: "overwrite zs 0 (map w [0..<Suc i]) = (overwrite zs 0 (map w [0..<i]))[i := w i]" if "i < length zs" for zs w i
    using overwrite_snoc [of 0 "map w [0..<i]" zs "w i"] that by simp
  have "for_up i k f (g (overwrite xs 0 (map u [0..<i])) (overwrite ys 0 (map v [0..<i]))) =
    Some (g (overwrite xs 0 (map u [0..<i + k])) (overwrite ys 0 (map v [0..<i + k])))" if "i + k \<le> n" for i k
    using that
  proof (induction k arbitrary: i)
    case (Suc k)
    have "f i (g (overwrite xs 0 (map u [0..<i])) (overwrite ys 0 (map v [0..<i]))) =
        Some (g ((overwrite xs 0 (map u [0..<i]))[i := u i]) ((overwrite ys 0 (map v [0..<i]))[i := v i]))"
      using Suc.prems assms(2,3) by (intro assms(1)) (auto simp: nth_splice)
    with Suc.IH [of "Suc i"] Suc.prems assms(2,3) show ?case
      by (simp add: ov del: upt_Suc)
  qed simp
  from this [of 0 n] show ?thesis by simp
qed

lemma publish_rows_eq:
  assumes "mx_inv m"
  shows "publish_rows m = Some (m\<lparr>mx_stableRows := mx_candidateRows m,
    mx_changedRows := map2 (XOR) (mx_stableRows m) (mx_candidateRows m)\<rparr>)"
proof -
  let ?g = "\<lambda>s c. m\<lparr>mx_stableRows := s, mx_changedRows := c\<rparr>" and ?n = "row_count m"
  have len: "length (mx_stableRows m) = ?n" "length (mx_changedRows m) = ?n" "length (mx_candidateRows m) = ?n"
    using assms by (auto simp: mx_inv_def)
  have "for_up 0 ?n (\<lambda>r m. do {
       prev \<leftarrow> arr_get (mx_stableRows m) r;
       cand \<leftarrow> arr_get (mx_candidateRows m) r;
       stable \<leftarrow> arr_set (mx_stableRows m) r cand;
       changed \<leftarrow> arr_set (mx_changedRows m) r (prev XOR cand);
       Some (m\<lparr>mx_stableRows := stable, mx_changedRows := changed\<rparr>) }) (?g (mx_stableRows m) (mx_changedRows m)) =
    Some (?g (overwrite (mx_stableRows m) 0 (map (\<lambda>r. mx_candidateRows m ! r) [0..<?n]))
      (overwrite (mx_changedRows m) 0 (map (\<lambda>r. mx_stableRows m ! r XOR mx_candidateRows m ! r) [0..<?n])))"
    by (rule for_up_fill2) (use len in \<open>auto simp: mem\<close>)
  moreover have "map (\<lambda>r. mx_candidateRows m ! r) [0..<?n] = mx_candidateRows m" using len map_nth by metis
  moreover have "map (\<lambda>r. mx_stableRows m ! r XOR mx_candidateRows m ! r) [0..<?n] =
      map2 (XOR) (mx_stableRows m) (mx_candidateRows m)"
    using len by (intro nth_equalityI) simp_all
  ultimately show ?thesis using len by (simp add: publish_rows_def overwrite_all)
qed

definition copy_raw :: "'io matrix \<Rightarrow> 'io matrix" where
  "copy_raw m = m\<lparr>mx_candidateRows := mx_rawRows m,
     mx_prevRaw := mx_rawRows m @ drop (row_count m) (mx_prevRaw m)\<rparr>"

lemma copy_raw_loop:
  assumes "mx_inv m"
  shows "for_up 0 (row_count m) (\<lambda>r m. do {
         v \<leftarrow> arr_get (mx_rawRows m) r;
         cand \<leftarrow> arr_set (mx_candidateRows m) r v;
         prev \<leftarrow> arr_set (mx_prevRaw m) r v;
         Some (m\<lparr>mx_candidateRows := cand, mx_prevRaw := prev\<rparr>) }) m = Some (copy_raw m)"
proof -
  let ?g = "\<lambda>s c. m\<lparr>mx_candidateRows := s, mx_prevRaw := c\<rparr>" and ?n = "row_count m"
  have len: "length (mx_rawRows m) = ?n" "length (mx_candidateRows m) = ?n" "?n \<le> length (mx_prevRaw m)"
    using assms by (auto simp: mx_inv_def)
  have "for_up 0 ?n (\<lambda>r m. do {
         v \<leftarrow> arr_get (mx_rawRows m) r;
         cand \<leftarrow> arr_set (mx_candidateRows m) r v;
         prev \<leftarrow> arr_set (mx_prevRaw m) r v;
         Some (m\<lparr>mx_candidateRows := cand, mx_prevRaw := prev\<rparr>) }) (?g (mx_candidateRows m) (mx_prevRaw m)) =
    Some (?g (overwrite (mx_candidateRows m) 0 (map (\<lambda>r. mx_rawRows m ! r) [0..<?n]))
      (overwrite (mx_prevRaw m) 0 (map (\<lambda>r. mx_rawRows m ! r) [0..<?n])))"
    by (rule for_up_fill2) (use len in \<open>auto simp: mem\<close>)
  moreover have "map (\<lambda>r. mx_rawRows m ! r) [0..<?n] = mx_rawRows m" using len map_nth by metis
  ultimately show ?thesis using len by (simp add: copy_raw_def overwrite_def)
qed

lemma copy_raw_inv: "mx_inv m \<Longrightarrow> mx_inv (copy_raw m)"
  by (auto simp: mx_inv_def copy_raw_def row_count_def col_count_def)

text \<open>The debouncer in closed form.\<close>

definition settle :: "'io matrix \<Rightarrow> 'io matrix" where
  "settle m = m\<lparr>mx_stableRows := mx_candidateRows m,
     mx_changedRows := map2 (XOR) (mx_stableRows m) (mx_candidateRows m), mx_debouncePending := False\<rparr>"

lemma matrix_debounce_eq:
  assumes "mx_inv m"
  shows "matrix_debounce m ms = Some
    (if mx_rawRows m \<noteq> take (row_count m) (mx_prevRaw m) then
       let m' = (copy_raw m)\<lparr>mx_lastRawChangeTS := ms, mx_debouncePending := True\<rparr>
       in if mc_debounceMs (mx_config m) = 0 then settle m' else m'
     else if mx_debouncePending m \<and> ms - mx_lastRawChangeTS m \<ge> ucast (mc_debounceMs (mx_config m)) then settle m
     else m)"
proof -
  have "mx_inv ((copy_raw m)\<lparr>mx_lastRawChangeTS := ms, mx_debouncePending := True\<rparr>)"
    using copy_raw_inv [OF assms] by (simp add: mx_inv_def row_count_def col_count_def)
  from publish_rows_eq [OF this] show ?thesis
    using publish_rows_eq [OF assms] raw_changed_eq [OF assms] copy_raw_loop [OF assms]
    by (auto simp: matrix_debounce_def settle_def copy_raw_def Let_def)
qed

lemma debounce_inv:
  assumes "mx_inv m" "matrix_debounce m ms = Some m'"
  shows "mx_inv m' \<and> mx_config m' = mx_config m \<and> mx_io m' = mx_io m"
  using assms(2) copy_raw_inv [OF assms(1)] assms(1)
  by (auto simp: matrix_debounce_eq [OF assms(1)] Let_def settle_def mx_inv_def row_count_def col_count_def copy_raw_def
      split: if_splits)

section \<open>Scanning is safe on every board\<close>

lemma read_columns_total:
  assumes "n \<le> length pins" "n \<le> 32"
  shows "\<exists>v io'. read_columns vt pins n io = Some (v, io')"
proof -
  have "\<exists>s'. for_up 0 n (\<lambda>c (rowVal, io). do {
       p \<leftarrow> arr_get pins c;
       let (v, io) = io_read vt io p;
       if \<not> v then do { b \<leftarrow> shl1 c; Some (rowVal OR b, io) } else Some (rowVal, io)
     }) (0, io) = Some s' \<and> True"
    by (rule for_up_total) (use assms in \<open>auto simp: mem shl1_def split: prod.splits\<close>)
  then show ?thesis by (auto simp: read_columns_def)
qed

definition same_config :: "'io matrix \<Rightarrow> 'io matrix \<Rightarrow> bool" where
  "same_config m m' \<longleftrightarrow> mx_config m' = mx_config m \<and> mx_candidateRows m' = mx_candidateRows m \<and>
     mx_stableRows m' = mx_stableRows m \<and> mx_changedRows m' = mx_changedRows m \<and>
     mx_prevRaw m' = mx_prevRaw m \<and> mx_lastRawChangeTS m' = mx_lastRawChangeTS m \<and>
     mx_debouncePending m' = mx_debouncePending m \<and> length (mx_rawRows m') = length (mx_rawRows m)"

lemma same_config_refl [simp]: "same_config m m"
  by (simp add: same_config_def)

lemma same_config_inv: "same_config m m' \<Longrightarrow> mx_inv m \<Longrightarrow> mx_inv m'"
  by (simp add: same_config_def mx_inv_def row_count_def col_count_def)

text \<open>A port whose delay comes back.\<close>

locale matrix_port =
  fixes vt :: "'io matrix_io"
  assumes delay_returns: "\<exists>io'. io_delayMicroseconds vt io us = Some io'"
begin

lemma scan_row_total:
  assumes inv: "mx_inv m" and r: "r < row_count m" and s: "same_config m m1"
  shows "\<exists>m'. scan_row vt r m1 = Some m' \<and> same_config m m'"
proof -
  have c: "mx_config m1 = mx_config m" and len: "length (mx_rawRows m1) = row_count m"
    "length (mc_rowPins (mx_config m)) = row_count m"
    "col_count m \<le> length (mc_columnPins (mx_config m))" "col_count m \<le> 32"
    using inv s by (auto simp: mx_inv_def same_config_def)
  let ?p = "mc_rowPins (mx_config m) ! r"
  obtain io1 where io1: "io_delayMicroseconds vt (io_driveLow vt (mx_io m1) ?p) (mc_settleUs (mx_config m)) = Some io1"
    using delay_returns by blast
  obtain v io where "read_columns vt (mc_columnPins (mx_config m)) (unat (mc_columns (mx_config m))) io1 = Some (v, io)"
    using read_columns_total len by (metis col_count_def)
  with io1 show ?thesis using r len s by (simp add: scan_row_def c mem same_config_def)
qed

lemma scan_rows_total:
  assumes inv: "mx_inv m"
  shows "\<exists>m'. scan_rows vt m = Some m' \<and> same_config m m'"
  unfolding scan_rows_def
  by (rule for_up_total) (use scan_row_total [OF inv] in \<open>auto simp: row_count_def\<close>)

lemma clear_rows_total:
  assumes "mx_inv m"
  shows "\<exists>m'. clear_rows vt m = Some m' \<and> same_config m m'"
  unfolding clear_rows_def
  by (rule for_up_total) (use assms in \<open>auto simp: mx_inv_def mem same_config_def row_count_def\<close>)

lemma release_columns_total:
  assumes "mx_inv m"
  shows "\<exists>m'. release_columns vt m = Some m' \<and> same_config m m'"
  unfolding release_columns_def
  by (rule for_up_total) (use assms in \<open>auto simp: mx_inv_def mem same_config_def col_count_def\<close>)

lemma read_row_total:
  assumes "mx_inv m" "r < row_count m" "c < 32" "same_config m m1"
  shows "\<exists>m'. read_row vt c r m1 = Some m' \<and> same_config m m'"
  using assms by (auto simp: read_row_def mem mx_inv_def same_config_def shl1_def Let_def split: prod.splits)

lemma scan_column_total:
  assumes inv: "mx_inv m" and c: "c < col_count m" and s: "same_config m m1"
  shows "\<exists>m'. scan_column vt c m1 = Some m' \<and> same_config m m'"
proof -
  let ?p = "mc_columnPins (mx_config m) ! c"
  obtain io1 where io1: "io_delayMicroseconds vt (io_driveLow vt (mx_io m1) ?p) (mc_settleUs (mx_config m)) = Some io1"
    using delay_returns by blast
  let ?m = "m1\<lparr>mx_io := io1\<rparr>"
  have cfg: "mx_config m1 = mx_config m" and len: "c < length (mc_columnPins (mx_config m))" "c < 32"
    using inv s c by (auto simp: mx_inv_def same_config_def)
  have "\<exists>m2. for_up 0 (unat (mc_rows (mx_config m))) (read_row vt c) ?m = Some m2 \<and> same_config m m2"
    by (rule for_up_total) (use read_row_total [OF inv _ len(2)] s in \<open>auto simp: row_count_def same_config_def\<close>)
  then show ?thesis using len using io1 by (auto simp: scan_column_def cfg mem Let_def same_config_def)
qed

lemma scan_columns_total:
  assumes inv: "mx_inv m"
  shows "\<exists>m'. scan_columns vt m = Some m' \<and> same_config m m'"
proof -
  obtain m1 where m1: "clear_rows vt m = Some m1" "same_config m m1" using clear_rows_total [OF inv] by blast
  obtain m2 where m2: "release_columns vt m1 = Some m2" "same_config m1 m2"
    using release_columns_total [OF same_config_inv [OF m1(2) inv]] by blast
  have s2: "same_config m m2" using m1(2) m2(2) by (simp add: same_config_def)
  have "\<exists>m3. for_up 0 (unat (mc_columns (mx_config m))) (scan_column vt) m2 = Some m3 \<and> same_config m m3"
    by (rule for_up_total) (use scan_column_total [OF inv] s2 in \<open>auto simp: col_count_def\<close>)
  with m1 m2 s2 show ?thesis by (auto simp: scan_columns_def same_config_def)
qed

lemma matrix_task_total:
  assumes inv: "mx_inv m"
  shows "\<exists>m1 m'. matrix_scan vt m = Some m1 \<and> same_config m m1 \<and> matrix_task vt m ms = Some m' \<and> mx_inv m' \<and>
    mx_config m' = mx_config m"
proof -
  obtain m1 where m1: "matrix_scan vt m = Some m1" "same_config m m1"
    using scan_rows_total [OF inv] scan_columns_total [OF inv]
    by (cases "mc_direction (mx_config m)") (auto simp: matrix_scan_def)
  have i1: "mx_inv m1" using m1(2) inv by (rule same_config_inv)
  then obtain m' where m': "matrix_debounce m1 ms = Some m'" by (simp add: matrix_debounce_eq)
  with debounce_inv [OF i1 m'] m1 show ?thesis by (auto simp: matrix_task_def same_config_def)
qed

end

section \<open>What a stable row means\<close>

text \<open>A sequence of scans, as the debouncer sees them: times and raw rows.\<close>

fun debounce_run :: "'io matrix \<Rightarrow> (u32 \<times> u32 list) list \<Rightarrow> 'io matrix option" where
  "debounce_run m [] = Some m"
| "debounce_run m ((ms, raw) # scans) = do {
     m' \<leftarrow> matrix_debounce (m\<lparr>mx_rawRows := raw\<rparr>) ms;
     debounce_run m' scans }"

text \<open>While a change is pending, all scans since it was seen were equal to the candidate.\<close>

definition steady :: "'io matrix \<Rightarrow> (u32 \<times> u32 list) list \<Rightarrow> bool" where
  "steady m scans \<longleftrightarrow> mx_inv m \<and> (mx_debouncePending m \<longrightarrow>
     mx_candidateRows m = take (row_count m) (mx_prevRaw m) \<and>
     (\<exists>h1 h2. scans = h1 @ (mx_lastRawChangeTS m, mx_candidateRows m) # h2 \<and>
        (\<forall>(t, raw) \<in> set h2. raw = mx_candidateRows m)))"

lemma steady_step:
  assumes st: "steady m scans" and len: "length raw = row_count m"
    and step: "matrix_debounce (m\<lparr>mx_rawRows := raw\<rparr>) ms = Some m'"
  shows "steady m' (scans @ [(ms, raw)]) \<and> row_count m' = row_count m \<and> mx_config m' = mx_config m \<and>
    (mc_debounceMs (mx_config m) \<noteq> 0 \<longrightarrow> mx_stableRows m' \<noteq> mx_stableRows m \<longrightarrow> mx_stableRows m' = raw \<and>
      (\<exists>h1 t h2. scans @ [(ms, raw)] = h1 @ (t, raw) # h2 \<and> (\<forall>(t', r) \<in> set h2. r = raw) \<and>
         ucast (mc_debounceMs (mx_config m)) \<le> ms - t))"
proof -
  let ?m = "m\<lparr>mx_rawRows := raw\<rparr>"
  have inv: "mx_inv ?m" using st len by (simp add: steady_def mx_inv_def row_count_def col_count_def)
  have n: "row_count ?m = row_count m" by (simp add: row_count_def)
  have inv': "mx_inv m'" "mx_config m' = mx_config m" using debounce_inv [OF inv step] by simp_all
  then have n': "row_count m' = row_count m" by (simp add: row_count_def)
  note eq = step [unfolded matrix_debounce_eq [OF inv] n]
  show ?thesis
  proof (cases "raw \<noteq> take (row_count m) (mx_prevRaw m)")
    case True
    define c where "c = (copy_raw ?m)\<lparr>mx_lastRawChangeTS := ms, mx_debouncePending := True\<rparr>"
    have m': "m' = (if mc_debounceMs (mx_config m) = 0 then settle c else c)"
      using eq True by (auto simp: c_def Let_def)
    have ex: "\<exists>h1 h2. scans @ [(ms, raw)] = h1 @ (ms, raw) # h2 \<and> (\<forall>(t, r) \<in> set h2. r = raw)"
      by (intro exI [of _ scans] exI [of _ "[]"]) simp
    have "steady m' (scans @ [(ms, raw)])"
      using inv' n' len ex by (auto simp: steady_def m' c_def settle_def copy_raw_def n)
    with inv' n' show ?thesis by (auto simp: m' c_def copy_raw_def)
  next
    case False
    show ?thesis
    proof (cases "mx_debouncePending m \<and> ucast (mc_debounceMs (mx_config m)) \<le> ms - mx_lastRawChangeTS m")
      case True
      then have m': "m' = settle ?m" using eq False by simp
      obtain h1 h2 where h: "scans = h1 @ (mx_lastRawChangeTS m, mx_candidateRows m) # h2"
        "\<forall>(t, r) \<in> set h2. r = mx_candidateRows m" "mx_candidateRows m = raw"
        using st True False by (auto simp: steady_def)
      have "steady m' (scans @ [(ms, raw)])" using inv' by (simp add: steady_def m' settle_def)
      moreover have "\<exists>h1 t h2. scans @ [(ms, raw)] = h1 @ (t, raw) # h2 \<and> (\<forall>(t', r) \<in> set h2. r = raw) \<and>
         ucast (mc_debounceMs (mx_config m)) \<le> ms - t"
        using h True by (intro exI [of _ h1] exI [of _ "mx_lastRawChangeTS m"] exI [of _ "h2 @ [(ms, raw)]"]) auto
      ultimately show ?thesis using inv' n' h(3) by (simp add: m' settle_def)
    next
      case nop: False
      then have m': "m' = ?m" using eq False by (simp split: if_splits)
      have "steady m' (scans @ [(ms, raw)])"
        unfolding steady_def
      proof (intro conjI impI)
        show "mx_inv m'" by (rule inv'(1))
        assume "mx_debouncePending m'"
        then have pend: "mx_debouncePending m" by (simp add: m')
        obtain h1 h2 where h: "scans = h1 @ (mx_lastRawChangeTS m, mx_candidateRows m) # h2"
          "\<forall>(t, r) \<in> set h2. r = mx_candidateRows m" "mx_candidateRows m = raw"
          using st pend False by (auto simp: steady_def)
        then show "\<exists>h1 h2. scans @ [(ms, raw)] = h1 @ (mx_lastRawChangeTS m', mx_candidateRows m') # h2 \<and>
            (\<forall>(t, r) \<in> set h2. r = mx_candidateRows m')"
          by (intro exI [of _ h1] exI [of _ "h2 @ [(ms, raw)]"]) (auto simp: m')
        show "mx_candidateRows m' = take (row_count m') (mx_prevRaw m')"
          using st pend n' by (simp add: m' steady_def)
      qed
      with inv' n' show ?thesis by (simp add: m')
    qed
  qed
qed

lemma steady_run:
  assumes "steady m hist" and "debounce_run m scans = Some m'" and "\<forall>(t, raw) \<in> set scans. length raw = row_count m"
  shows "steady m' (hist @ scans) \<and> row_count m' = row_count m \<and> mx_config m' = mx_config m"
  using assms
proof (induction scans arbitrary: m hist)
  case (Cons s scans)
  obtain ms raw where s: "s = (ms, raw)" by fastforce
  obtain m1 where m1: "matrix_debounce (m\<lparr>mx_rawRows := raw\<rparr>) ms = Some m1" "debounce_run m1 scans = Some m'"
    using Cons.prems(2) s by (auto split: bind_splits)
  have len: "length raw = row_count m" using Cons.prems(3) s by auto
  note st = steady_step [OF Cons.prems(1) len m1(1)]
  have "\<forall>(t, raw) \<in> set scans. length raw = row_count m1" using st Cons.prems(3) by auto
  with Cons.IH [OF _ m1(2), of "hist @ [(ms, raw)]"] st s show ?case by simp
qed simp

end
