(* ===== verification/Matrix_Scan.thy ===== *)
theory Matrix_Scan
  imports Matrix
begin

text \<open>What a scan of \<open>Matrix::task\<close> reads, stated over an electrical contract of the port.\<close>

text \<open>
  The electrical contract of a matrix port.  \<open>driven\<close> are the pins held low, \<open>pulled\<close> those
  configured as inputs with a pull-up, and \<open>conn io q p\<close> says that a closed switch (with its
  diode) lets \<open>q\<close> pull \<open>p\<close> low.  Reading an input that has a pull-up gives high unless a
  driven pin pulls it low; other inputs float and the contract says nothing about them.  \<open>pol\<close> is
  the polarity of the port: with \<open>pol = True\<close> it returns the level of the pin, as \<open>Matrix::task\<close>
  expects, with \<open>pol = False\<close> the opposite.
\<close>

locale switch_matrix = matrix_port +
  fixes pol :: bool and driven pulled :: "'io \<Rightarrow> pin set" and conn :: "'io \<Rightarrow> pin \<Rightarrow> pin \<Rightarrow> bool"
  assumes drive: "driven (io_driveLow vt io p) = insert p (driven io)"
      "pulled (io_driveLow vt io p) = pulled io - {p}" "conn (io_driveLow vt io p) = conn io"
    and release: "driven (io_release vt io p) = driven io - {p}"
      "pulled (io_release vt io p) = insert p (pulled io)" "conn (io_release vt io p) = conn io"
    and pullup: "driven (io_inputPullup vt io p) = driven io - {p}"
      "pulled (io_inputPullup vt io p) = insert p (pulled io)" "conn (io_inputPullup vt io p) = conn io"
    and delay: "io_delayMicroseconds vt io us = Some io' \<Longrightarrow>
      driven io' = driven io \<and> pulled io' = pulled io \<and> conn io' = conn io"
    and read_frame: "io_read vt io p = (v, io') \<Longrightarrow>
      driven io' = driven io \<and> pulled io' = pulled io \<and> conn io' = conn io"
    and read_level: "io_read vt io p = (v, io') \<Longrightarrow> p \<in> pulled io \<Longrightarrow> p \<notin> driven io \<Longrightarrow>
      v \<longleftrightarrow> (pol \<longleftrightarrow> \<not> (\<exists>q \<in> driven io. conn io q p))"
begin

definition same_pins :: "'io \<Rightarrow> 'io \<Rightarrow> bool" where
  "same_pins io io' \<longleftrightarrow> driven io' = driven io \<and> pulled io' = pulled io \<and> conn io' = conn io"

definition low :: "'io \<Rightarrow> pin \<Rightarrow> bool" where
  "low io p \<longleftrightarrow> ((\<exists>q \<in> driven io. conn io q p) \<longleftrightarrow> pol)"

lemma low_cong: "same_pins io io' \<Longrightarrow> low io' = low io"
  by (simp add: low_def same_pins_def fun_eq_iff)

lemma read_low:
  assumes "io_read vt io p = (v, io')" "p \<in> pulled io" "p \<notin> driven io"
  shows "v \<longleftrightarrow> \<not> low io p"
  using read_level [OF assms] unfolding low_def by (cases pol) auto

lemma read_columns_bits:
  assumes "n \<le> 32" "n \<le> length pins" "set pins \<subseteq> pulled io" "set pins \<inter> driven io = {}"
    and "read_columns vt pins n io = Some (v, io')"
  shows "same_pins io io' \<and> (\<forall>c. bit v c \<longleftrightarrow> c < n \<and> low io (pins ! c))"
proof -
  let ?P = "\<lambda>j (v :: u32, io'). same_pins io io' \<and> (\<forall>c. bit v c \<longleftrightarrow> c < j \<and> low io (pins ! c))"
  have "?P (0 + n) (v, io')"
  proof (rule for_up_inv [where P = ?P, OF assms(5) [unfolded read_columns_def]])
    show "?P 0 (0, io)" by (simp add: same_pins_def)
  next
    fix j t t'
    assume j: "0 \<le> j" "j < 0 + n" and P: "?P j t"
      and f: "(case t of (rowVal, io) \<Rightarrow> do {
       p \<leftarrow> arr_get pins j;
       let (v, io) = io_read vt io p;
       if \<not> v then do { b \<leftarrow> shl1 j; Some (rowVal OR b, io) } else Some (rowVal, io) }) = Some t'"
    obtain w io1 where t: "t = (w, io1)" by fastforce
    obtain lv io2 where rd: "io_read vt io1 (pins ! j) = (lv, io2)" by fastforce
    have sp: "same_pins io io1" using P t by simp
    have p: "pins ! j \<in> set pins" using j assms(2) by simp
    then have lv: "lv \<longleftrightarrow> \<not> low io (pins ! j)"
      using read_low [OF rd] assms(3,4) sp low_cong [OF sp] by (auto simp: same_pins_def)
    have sp2: "same_pins io io2" using read_frame [OF rd] sp by (simp add: same_pins_def)
    have t': "t' = (if lv then w else w OR push_bit j 1, io2)"
      using f t rd j assms(1,2) by (auto simp: mem shl1_def split: if_splits)
    have "bit (push_bit j 1 :: u32) c \<longleftrightarrow> c = j" for c
      using j assms(1) by (auto simp: bit_exp_iff)
    then show "?P (Suc j) t'"
      using P sp2 lv by (auto simp: t t' bit_or_iff less_Suc_eq)
  qed
  then show ?thesis by simp
qed

lemma scan_row_bits:
  assumes inv: "mx_inv m" and r: "r < row_count m"
    and cols: "set (mc_columnPins (mx_config m)) \<subseteq> pulled (mx_io m)"
      "set (mc_columnPins (mx_config m)) \<inter> driven (mx_io m) = {}"
      "mc_rowPins (mx_config m) ! r \<notin> set (mc_columnPins (mx_config m))"
    and free: "driven (mx_io m) = {}"
    and s: "scan_row vt r m = Some m'"
  shows "driven (mx_io m') = {} \<and> pulled (mx_io m) \<subseteq> insert (mc_rowPins (mx_config m) ! r) (pulled (mx_io m')) \<and>
    set (mc_columnPins (mx_config m)) \<subseteq> pulled (mx_io m') \<and>
    conn (mx_io m') = conn (mx_io m) \<and>
    (\<exists>v. mx_rawRows m' = (mx_rawRows m)[r := v] \<and>
      (\<forall>c. bit v c \<longleftrightarrow> c < col_count m \<and> (conn (mx_io m) (mc_rowPins (mx_config m) ! r) (mc_columnPins (mx_config m) ! c) \<longleftrightarrow> pol)))"
proof -
  let ?p = "mc_rowPins (mx_config m) ! r" and ?cols = "mc_columnPins (mx_config m)"
  obtain io1 where io1: "io_delayMicroseconds vt (io_driveLow vt (mx_io m) ?p) (mc_settleUs (mx_config m)) = Some io1"
    using delay_returns by blast
  have st: "driven io1 = {?p}" "pulled io1 = pulled (mx_io m) - {?p}" "conn io1 = conn (mx_io m)"
    using delay [OF io1] free by (simp_all add: drive)
  have n: "col_count m \<le> 32" "col_count m \<le> length ?cols" and lenr: "r < length (mx_rawRows m)" "r < length (mc_rowPins (mx_config m))"
    using inv r by (auto simp: mx_inv_def)
  obtain v io2 where rc: "read_columns vt ?cols (col_count m) io1 = Some (v, io2)"
    using read_columns_total [OF n(2,1), of vt io1] by blast
  have "same_pins io1 io2 \<and> (\<forall>c. bit v c \<longleftrightarrow> c < col_count m \<and> low io1 (?cols ! c))"
    by (rule read_columns_bits [OF n _ _ rc]) (use st cols in auto)
  moreover have "m' = m\<lparr>mx_rawRows := (mx_rawRows m)[r := v], mx_io := io_release vt io2 ?p\<rparr>"
    using s io1 rc lenr by (simp add: scan_row_def mem Let_def col_count_def)
  ultimately show ?thesis using st cols
    by (auto simp: release same_pins_def low_def)
qed

lemma scan_rows_bits:
  assumes inv: "mx_inv m"
    and cols: "set (mc_columnPins (mx_config m)) \<subseteq> pulled (mx_io m)"
      "set (mc_rowPins (mx_config m)) \<inter> set (mc_columnPins (mx_config m)) = {}"
    and free: "driven (mx_io m) = {}"
    and s: "scan_rows vt m = Some m'"
  shows "driven (mx_io m') = {} \<and> set (mc_columnPins (mx_config m)) \<subseteq> pulled (mx_io m') \<and>
    (\<forall>r < row_count m. \<forall>c. bit (mx_rawRows m' ! r) c \<longleftrightarrow> c < col_count m \<and>
       (conn (mx_io m) (mc_rowPins (mx_config m) ! r) (mc_columnPins (mx_config m) ! c) \<longleftrightarrow> pol))"
proof -
  let ?cfg = "mx_config m"
  let ?P = "\<lambda>j m'. same_config m m' \<and> driven (mx_io m') = {} \<and> conn (mx_io m') = conn (mx_io m) \<and>
    set (mc_columnPins ?cfg) \<subseteq> pulled (mx_io m') \<and>
    (\<forall>r < j. \<forall>c. bit (mx_rawRows m' ! r) c \<longleftrightarrow> c < col_count m \<and>
       (conn (mx_io m) (mc_rowPins ?cfg ! r) (mc_columnPins ?cfg ! c) \<longleftrightarrow> pol))"
  have "?P (0 + row_count m) m'"
  proof (rule for_up_inv [where P = ?P])
    show "for_up 0 (row_count m) (scan_row vt) m = Some m'" using s by (simp add: scan_rows_def row_count_def)
    show "?P 0 m" using free cols by simp
  next
    fix j t t'
    assume j: "0 \<le> j" "j < 0 + row_count m" and P: "?P j t" and f: "scan_row vt j t = Some t'"
    have it: "mx_inv t" using same_config_inv [of m t] P inv by blast
    have c: "mx_config t = ?cfg" "row_count t = row_count m" "col_count t = col_count m" "length (mx_rawRows t) = row_count m"
      using P inv by (auto simp: same_config_def row_count_def col_count_def mx_inv_def)
    have "mc_rowPins ?cfg ! j \<in> set (mc_rowPins ?cfg)" using inv j by (simp add: mx_inv_def)
    then have nr: "mc_rowPins ?cfg ! j \<notin> set (mc_columnPins ?cfg)" using cols(2) by blast
    have st: "same_config m t'" using scan_row_total [OF inv _, of j t] j P f by auto
    have "driven (mx_io t') = {} \<and> set (mc_columnPins ?cfg) \<subseteq> pulled (mx_io t') \<and> conn (mx_io t') = conn (mx_io m) \<and>
      (\<exists>v. mx_rawRows t' = (mx_rawRows t)[j := v] \<and>
        (\<forall>k. bit v k \<longleftrightarrow> k < col_count m \<and> (conn (mx_io m) (mc_rowPins ?cfg ! j) (mc_columnPins ?cfg ! k) \<longleftrightarrow> pol)))"
      using scan_row_bits [OF it, of j t'] c nr j P f by simp
    then show "?P (Suc j) t'" using P c j st by (auto simp: less_Suc_eq nth_list_update)
  qed
  then show ?thesis by simp
qed

lemma clear_rows_pins:
  assumes inv: "mx_inv m" and s: "clear_rows vt m = Some m'"
  shows "driven (mx_io m') = driven (mx_io m) - set (mc_rowPins (mx_config m)) \<and>
    set (mc_rowPins (mx_config m)) \<subseteq> pulled (mx_io m') \<and> conn (mx_io m') = conn (mx_io m) \<and>
    (\<forall>r < row_count m. mx_rawRows m' ! r = 0)"
proof -
  let ?rows = "mc_rowPins (mx_config m)"
  let ?P = "\<lambda>j m'. mx_config m' = mx_config m \<and> length (mx_rawRows m') = row_count m \<and>
    driven (mx_io m') = driven (mx_io m) - set (take j ?rows) \<and>
    set (take j ?rows) \<subseteq> pulled (mx_io m') \<and> conn (mx_io m') = conn (mx_io m) \<and>
    (\<forall>r < j. mx_rawRows m' ! r = 0)"
  have len: "length ?rows = row_count m" using inv by (simp add: mx_inv_def)
  have "?P (0 + row_count m) m'"
  proof (rule for_up_inv [where P = ?P, OF s [unfolded clear_rows_def, folded row_count_def]])
    show "?P 0 m" using inv by (simp add: mx_inv_def)
  next
    fix j t t'
    assume "0 \<le> j" "j < 0 + row_count m" "?P j t" and f: "do {
       raw \<leftarrow> arr_set (mx_rawRows t) j 0;
       p \<leftarrow> arr_get (mc_rowPins (mx_config t)) j;
       Some (t\<lparr>mx_rawRows := raw, mx_io := io_inputPullup vt (mx_io t) p\<rparr>) } = Some t'"
    with len show "?P (Suc j) t'"
      by (auto simp: mem take_Suc_conv_app_nth pullup less_Suc_eq nth_list_update)
  qed
  then show ?thesis using len by simp
qed

lemma release_columns_pins:
  assumes inv: "mx_inv m" and s: "release_columns vt m = Some m'"
  shows "driven (mx_io m') = driven (mx_io m) - set (mc_columnPins (mx_config m)) \<and>
    pulled (mx_io m) \<subseteq> pulled (mx_io m') \<and> conn (mx_io m') = conn (mx_io m) \<and> mx_rawRows m' = mx_rawRows m"
proof -
  let ?cols = "mc_columnPins (mx_config m)"
  let ?P = "\<lambda>j m'. mx_config m' = mx_config m \<and> driven (mx_io m') = driven (mx_io m) - set (take j ?cols) \<and>
    pulled (mx_io m) \<subseteq> pulled (mx_io m') \<and> conn (mx_io m') = conn (mx_io m) \<and> mx_rawRows m' = mx_rawRows m"
  have len: "length ?cols = col_count m" using inv by (simp add: mx_inv_def)
  have "?P (0 + col_count m) m'"
  proof (rule for_up_inv [where P = ?P, OF s [unfolded release_columns_def, folded col_count_def]])
    show "?P 0 m" by simp
  next
    fix j t t'
    assume "0 \<le> j" "j < 0 + col_count m" "?P j t" and f: "do {
       p \<leftarrow> arr_get (mc_columnPins (mx_config t)) j;
       Some (t\<lparr>mx_io := io_release vt (mx_io t) p\<rparr>) } = Some t'"
    with len show "?P (Suc j) t'"
      by (auto simp: mem take_Suc_conv_app_nth release)
  qed
  then show ?thesis using len by simp
qed

lemma read_rows_bits:
  assumes inv: "mx_inv m" and c: "c < 32"
    and rows: "set (mc_rowPins (mx_config m)) \<subseteq> pulled (mx_io m)" "set (mc_rowPins (mx_config m)) \<inter> driven (mx_io m) = {}"
    and s: "for_up 0 (row_count m) (read_row vt c) m = Some m'"
  shows "same_config m m' \<and> same_pins (mx_io m) (mx_io m') \<and>
    (\<forall>r < row_count m. \<forall>k. bit (mx_rawRows m' ! r) k \<longleftrightarrow>
       bit (mx_rawRows m ! r) k \<or> k = c \<and> low (mx_io m) (mc_rowPins (mx_config m) ! r))"
proof -
  let ?rows = "mc_rowPins (mx_config m)"
  let ?P = "\<lambda>j m'. same_config m m' \<and> same_pins (mx_io m) (mx_io m') \<and>
    (\<forall>r < row_count m. \<forall>k. bit (mx_rawRows m' ! r) k \<longleftrightarrow>
       bit (mx_rawRows m ! r) k \<or> r < j \<and> k = c \<and> low (mx_io m) (?rows ! r))"
  have len: "length ?rows = row_count m" "length (mx_rawRows m) = row_count m" using inv by (auto simp: mx_inv_def)
  have "?P (0 + row_count m) m'"
  proof (rule for_up_inv [where P = ?P, OF s])
    show "?P 0 m" by (simp add: same_pins_def)
  next
    fix j t t'
    assume j: "0 \<le> j" "j < 0 + row_count m" and P: "?P j t" and f: "read_row vt c j t = Some t'"
    obtain lv io where rd: "io_read vt (mx_io t) (?rows ! j) = (lv, io)" by fastforce
    have cfg: "mx_config t = mx_config m" "length (mx_rawRows t) = row_count m" "same_pins (mx_io m) (mx_io t)"
      using P len by (simp_all add: same_config_def)
    have "?rows ! j \<in> set ?rows" using j len by simp
    then have "?rows ! j \<in> pulled (mx_io t)" "?rows ! j \<notin> driven (mx_io t)"
      using rows cfg(3) by (auto simp: same_pins_def)
    from read_low [OF rd this] have lv: "lv \<longleftrightarrow> \<not> low (mx_io m) (?rows ! j)"
      using low_cong [OF cfg(3)] by simp
    have t': "t' = (if lv then t\<lparr>mx_io := io\<rparr> else t\<lparr>mx_rawRows := (mx_rawRows t)[j := mx_rawRows t ! j OR push_bit c 1], mx_io := io\<rparr>)"
      using f rd j len cfg c by (auto simp: read_row_def mem shl1_def)
    have b: "bit (2 ^ c :: u32) k \<longleftrightarrow> k = c" for k using c by (auto simp: bit_exp_iff)
    have sp: "same_pins (mx_io m) io" using read_frame [OF rd] cfg(3) by (simp add: same_pins_def)
    have "same_config m t'" using P by (auto simp: t' same_config_def)
    moreover have "same_pins (mx_io m) (mx_io t')" using sp by (simp add: t')
    moreover have "bit (mx_rawRows t' ! r) k \<longleftrightarrow>
        bit (mx_rawRows m ! r) k \<or> r < Suc j \<and> k = c \<and> low (mx_io m) (?rows ! r)" if "r < row_count m" for r k
      using P lv j cfg(2) that by (cases "r = j") (auto simp: t' b bit_or_iff less_Suc_eq)
    ultimately show "?P (Suc j) t'" by blast
  qed
  then show ?thesis by simp
qed

lemma scan_column_bits:
  assumes inv: "mx_inv m" and c: "c < col_count m"
    and rows: "set (mc_rowPins (mx_config m)) \<subseteq> pulled (mx_io m)"
      "set (mc_rowPins (mx_config m)) \<inter> set (mc_columnPins (mx_config m)) = {}"
    and free: "driven (mx_io m) = {}"
    and s: "scan_column vt c m = Some m'"
  shows "driven (mx_io m') = {} \<and> set (mc_rowPins (mx_config m)) \<subseteq> pulled (mx_io m') \<and>
    conn (mx_io m') = conn (mx_io m) \<and> same_config m m' \<and>
    (\<forall>r < row_count m. \<forall>k. bit (mx_rawRows m' ! r) k \<longleftrightarrow> bit (mx_rawRows m ! r) k \<or>
       k = c \<and> (conn (mx_io m) (mc_columnPins (mx_config m) ! c) (mc_rowPins (mx_config m) ! r) \<longleftrightarrow> pol))"
proof -
  let ?p = "mc_columnPins (mx_config m) ! c" and ?rows = "mc_rowPins (mx_config m)"
  obtain io1 where io1: "io_delayMicroseconds vt (io_driveLow vt (mx_io m) ?p) (mc_settleUs (mx_config m)) = Some io1"
    using delay_returns by blast
  have st: "driven io1 = {?p}" "pulled io1 = pulled (mx_io m) - {?p}" "conn io1 = conn (mx_io m)"
    using delay [OF io1] free by (simp_all add: drive)
  have lenc: "c < length (mc_columnPins (mx_config m))" "c < 32" using inv c by (auto simp: mx_inv_def)
  then have "?p \<in> set (mc_columnPins (mx_config m))" by simp
  then have np: "?p \<notin> set ?rows" using rows(2) by blast
  let ?m = "m\<lparr>mx_io := io1\<rparr>"
  have im: "mx_inv ?m" using inv by (simp add: mx_inv_def row_count_def col_count_def)
  obtain m2 where m2: "for_up 0 (row_count m) (read_row vt c) ?m = Some m2" "m' = m2\<lparr>mx_io := io_release vt (mx_io m2) ?p\<rparr>"
    using s lenc io1 by (auto simp: scan_column_def mem row_count_def Let_def split: bind_splits)
  have n: "row_count ?m = row_count m" by (simp add: row_count_def)
  have b: "same_config ?m m2 \<and> same_pins io1 (mx_io m2) \<and>
    (\<forall>r < row_count m. \<forall>k. bit (mx_rawRows m2 ! r) k \<longleftrightarrow> bit (mx_rawRows m ! r) k \<or> k = c \<and> low io1 (?rows ! r))"
    using read_rows_bits [OF im lenc(2), of m2] m2(1) st rows np n by auto
  have low: "low io1 (?rows ! r) \<longleftrightarrow> (conn (mx_io m) ?p (?rows ! r) \<longleftrightarrow> pol)" for r by (simp add: low_def st)
  show ?thesis using b np rows(1) st by (auto simp: m2(2) release same_pins_def low same_config_def)
qed

lemma scan_columns_bits:
  assumes inv: "mx_inv m"
    and pins: "set (mc_rowPins (mx_config m)) \<inter> set (mc_columnPins (mx_config m)) = {}"
    and free: "driven (mx_io m) \<subseteq> set (mc_rowPins (mx_config m)) \<union> set (mc_columnPins (mx_config m))"
    and s: "scan_columns vt m = Some m'"
  shows "driven (mx_io m') = {} \<and>
    (\<forall>r < row_count m. \<forall>c. bit (mx_rawRows m' ! r) c \<longleftrightarrow> c < col_count m \<and>
       (conn (mx_io m) (mc_columnPins (mx_config m) ! c) (mc_rowPins (mx_config m) ! r) \<longleftrightarrow> pol))"
proof -
  let ?cfg = "mx_config m"
  obtain m1 where m1: "clear_rows vt m = Some m1" "same_config m m1" using clear_rows_total [OF inv] by blast
  have i1: "mx_inv m1" by (rule same_config_inv [OF m1(2) inv])
  obtain m2 where m2: "release_columns vt m1 = Some m2" "same_config m1 m2"
    using release_columns_total [OF i1] by blast
  have i2: "mx_inv m2" by (rule same_config_inv [OF m2(2) i1])
  have s2: "same_config m m2" and c2: "mx_config m1 = ?cfg" "mx_config m2 = ?cfg"
    using m1(2) m2(2) by (simp_all add: same_config_def)
  have counts: "row_count m2 = row_count m" "col_count m2 = col_count m" by (simp_all add: row_count_def col_count_def c2)
  have p1: "driven (mx_io m1) = driven (mx_io m) - set (mc_rowPins ?cfg)" "set (mc_rowPins ?cfg) \<subseteq> pulled (mx_io m1)"
    "conn (mx_io m1) = conn (mx_io m)" "\<forall>r < row_count m. mx_rawRows m1 ! r = 0"
    using clear_rows_pins [OF inv m1(1)] by blast+
  have p2: "driven (mx_io m2) = driven (mx_io m1) - set (mc_columnPins ?cfg)" "pulled (mx_io m1) \<subseteq> pulled (mx_io m2)"
    "conn (mx_io m2) = conn (mx_io m1)" "mx_rawRows m2 = mx_rawRows m1"
    using release_columns_pins [OF i1 m2(1), unfolded c2] by blast+
  have start: "driven (mx_io m2) = {}" "set (mc_rowPins ?cfg) \<subseteq> pulled (mx_io m2)" "conn (mx_io m2) = conn (mx_io m)"
    "\<forall>r < row_count m. mx_rawRows m2 ! r = 0"
  proof -
    show "driven (mx_io m2) = {}" using p1 p2 free by blast
    show "set (mc_rowPins ?cfg) \<subseteq> pulled (mx_io m2)" using p1 p2 by blast
    show "conn (mx_io m2) = conn (mx_io m)" using p1 p2 by simp
    show "\<forall>r < row_count m. mx_rawRows m2 ! r = 0" using p1 p2 by simp
  qed
  let ?P = "\<lambda>j m'. same_config m m' \<and> driven (mx_io m') = {} \<and> conn (mx_io m') = conn (mx_io m) \<and>
    set (mc_rowPins ?cfg) \<subseteq> pulled (mx_io m') \<and>
    (\<forall>r < row_count m. \<forall>c. bit (mx_rawRows m' ! r) c \<longleftrightarrow> c < j \<and>
       (conn (mx_io m) (mc_columnPins ?cfg ! c) (mc_rowPins ?cfg ! r) \<longleftrightarrow> pol))"
  have "?P (0 + col_count m) m'"
  proof (rule for_up_inv [where P = ?P])
    show "for_up 0 (col_count m) (scan_column vt) m2 = Some m'"
      using s m1(1) m2(1) c2 by (simp add: scan_columns_def col_count_def)
    have "bit (mx_rawRows m2 ! r) c \<longleftrightarrow> c < 0 \<and> (conn (mx_io m) (mc_columnPins ?cfg ! c) (mc_rowPins ?cfg ! r) \<longleftrightarrow> pol)"
      if "r < row_count m" for r c using start(4) that by simp
    with s2 start(1-3) show "?P 0 m2" by blast
  next
    fix j t t'
    assume j: "0 \<le> j" "j < 0 + col_count m" and P: "?P j t" and f: "scan_column vt j t = Some t'"
    have P1: "same_config m t" "driven (mx_io t) = {}" "conn (mx_io t) = conn (mx_io m)"
        "set (mc_rowPins ?cfg) \<subseteq> pulled (mx_io t)"
      and P2: "\<forall>r < row_count m. \<forall>c. bit (mx_rawRows t ! r) c \<longleftrightarrow> c < j \<and>
       (conn (mx_io m) (mc_columnPins ?cfg ! c) (mc_rowPins ?cfg ! r) \<longleftrightarrow> pol)"
      using P by - (elim conjE, assumption, elim conjE, assumption, elim conjE, assumption, elim conjE, assumption, elim conjE, assumption)
    have it: "mx_inv t" by (rule same_config_inv [OF P1(1) inv])
    have c: "mx_config t = ?cfg" "row_count t = row_count m" "col_count t = col_count m"
      using P1(1) by (auto simp: same_config_def row_count_def col_count_def)
    have pr: "j < col_count m" "set (mc_rowPins ?cfg) \<subseteq> pulled (mx_io t)" "driven (mx_io t) = {}"
      and ct: "conn (mx_io t) = conn (mx_io m)" using P1 j by simp_all
    note st = scan_column_bits [OF it, unfolded c ct, OF pr(1,2) pins pr(3) f]
    have s: "same_config m t'" using P1(1) st by (simp add: same_config_def)
    have old: "bit (mx_rawRows t ! r) k \<longleftrightarrow> k < j \<and> (conn (mx_io m) (mc_columnPins ?cfg ! k) (mc_rowPins ?cfg ! r) \<longleftrightarrow> pol)"
      if "r < row_count m" for r k using P2 that by blast
    have new: "bit (mx_rawRows t' ! r) k \<longleftrightarrow> k < Suc j \<and> (conn (mx_io m) (mc_columnPins ?cfg ! k) (mc_rowPins ?cfg ! r) \<longleftrightarrow> pol)"
      if r: "r < row_count m" for r k
    proof -
      have "bit (mx_rawRows t' ! r) k \<longleftrightarrow> bit (mx_rawRows t ! r) k \<or>
         k = j \<and> (conn (mx_io m) (mc_columnPins ?cfg ! j) (mc_rowPins ?cfg ! r) \<longleftrightarrow> pol)" using st r by blast
      then show ?thesis unfolding old [OF r] less_Suc_eq by blast
    qed
    have st4: "driven (mx_io t') = {}" "conn (mx_io t') = conn (mx_io m)" "set (mc_rowPins ?cfg) \<subseteq> pulled (mx_io t')"
      using st by - (elim conjE, assumption)+
    show "?P (Suc j) t'" by (intro conjI allI impI s st4 new)
  qed
  then show ?thesis by simp
qed

end

text \<open>One scan, whatever the direction of the diodes.\<close>

definition scan_ready :: "('io \<Rightarrow> pin set) \<Rightarrow> ('io \<Rightarrow> pin set) \<Rightarrow> 'io matrix \<Rightarrow> bool" where
  "scan_ready driven pulled m \<longleftrightarrow> mx_inv m \<and>
     set (mc_rowPins (mx_config m)) \<inter> set (mc_columnPins (mx_config m)) = {} \<and> driven (mx_io m) = {} \<and>
     (mc_direction (mx_config m) = ColToRow \<longrightarrow> set (mc_columnPins (mx_config m)) \<subseteq> pulled (mx_io m))"

definition switch_closed :: "('io \<Rightarrow> pin \<Rightarrow> pin \<Rightarrow> bool) \<Rightarrow> 'io matrix \<Rightarrow> nat \<Rightarrow> nat \<Rightarrow> bool" where
  "switch_closed conn m r c =
     (let rp = mc_rowPins (mx_config m) ! r; cp = mc_columnPins (mx_config m) ! c
      in case mc_direction (mx_config m) of ColToRow \<Rightarrow> conn (mx_io m) rp cp | RowToCol \<Rightarrow> conn (mx_io m) cp rp)"

context switch_matrix
begin

lemma scan_reads_switches:
  assumes "scan_ready driven pulled m"
  shows "\<exists>m'. matrix_scan vt m = Some m' \<and> same_config m m' \<and>
    (\<forall>r < row_count m. \<forall>c. bit (mx_rawRows m' ! r) c \<longleftrightarrow> c < col_count m \<and> (switch_closed conn m r c \<longleftrightarrow> pol))"
proof (cases "mc_direction (mx_config m)")
  case ColToRow
  with assms have p: "mx_inv m" "set (mc_columnPins (mx_config m)) \<subseteq> pulled (mx_io m)"
    "set (mc_rowPins (mx_config m)) \<inter> set (mc_columnPins (mx_config m)) = {}" "driven (mx_io m) = {}"
    by (simp_all add: scan_ready_def)
  obtain m' where m': "scan_rows vt m = Some m'" "same_config m m'" using scan_rows_total [OF p(1)] by blast
  from scan_rows_bits [OF p m'(1)] m' ColToRow show ?thesis
    by (intro exI [of _ m']) (simp add: matrix_scan_def switch_closed_def)
next
  case RowToCol
  with assms have p: "mx_inv m" "set (mc_rowPins (mx_config m)) \<inter> set (mc_columnPins (mx_config m)) = {}"
    "driven (mx_io m) \<subseteq> set (mc_rowPins (mx_config m)) \<union> set (mc_columnPins (mx_config m))"
    by (simp_all add: scan_ready_def)
  obtain m' where m': "scan_columns vt m = Some m'" "same_config m m'" using scan_columns_total [OF p(1)] by blast
  from scan_columns_bits [OF p m'(1)] m' RowToCol show ?thesis
    by (intro exI [of _ m']) (simp add: matrix_scan_def switch_closed_def)
qed

text \<open>With rows driven and columns read, no call of a scan configures a pin that is not a row pin.\<close>

lemma read_columns_same:
  assumes "read_columns vt pins n io = Some (v, io')"
  shows "same_pins io io'"
proof -
  let ?P = "\<lambda>j (v :: u32, io'). same_pins io io'"
  have "?P (0 + n) (v, io')"
    by (rule for_up_inv [where P = ?P, OF assms [unfolded read_columns_def]])
      (auto simp: same_pins_def dest!: read_frame split: prod.splits if_splits bind_splits)
  then show ?thesis by simp
qed

lemma scan_row_other_pins:
  assumes "scan_row vt r m = Some m'" and "q \<notin> set (mc_rowPins (mx_config m))"
  shows "(q \<in> pulled (mx_io m') \<longleftrightarrow> q \<in> pulled (mx_io m)) \<and> mx_config m' = mx_config m"
proof -
  let ?c = "mx_config m"
  obtain p io1 rowVal io2 raw where s: "arr_get (mc_rowPins ?c) r = Some p"
    "io_delayMicroseconds vt (io_driveLow vt (mx_io m) p) (mc_settleUs ?c) = Some io1"
    "read_columns vt (mc_columnPins ?c) (unat (mc_columns ?c)) io1 = Some (rowVal, io2)"
    "m' = m\<lparr>mx_rawRows := raw, mx_io := io_release vt io2 p\<rparr>"
    using assms(1) by (auto simp: scan_row_def Let_def split: bind_splits)
  have "p \<in> set (mc_rowPins ?c)" using s(1) by (auto simp: arr_get_def split: if_splits)
  then have "q \<noteq> p" using assms(2) by blast
  then show ?thesis using delay [OF s(2)] read_columns_same [OF s(3)] s(4)
    by (auto simp: same_pins_def drive release)
qed

lemma scan_other_pins:
  assumes "matrix_scan vt m = Some m'" and "mc_direction (mx_config m) = ColToRow" and "q \<notin> set (mc_rowPins (mx_config m))"
  shows "q \<in> pulled (mx_io m') \<longleftrightarrow> q \<in> pulled (mx_io m)"
proof -
  let ?P = "\<lambda>j m'. (q \<in> pulled (mx_io m') \<longleftrightarrow> q \<in> pulled (mx_io m)) \<and> mx_config m' = mx_config m"
  have "for_up 0 (unat (mc_rows (mx_config m))) (scan_row vt) m = Some m'"
    using assms(1,2) by (simp add: matrix_scan_def scan_rows_def)
  then have "?P (0 + unat (mc_rows (mx_config m))) m'"
  proof (rule for_up_inv [where P = ?P])
    fix j t t'
    assume "?P j t" "scan_row vt j t = Some t'"
    with scan_row_other_pins [of j t t'] assms(3) show "?P (Suc j) t'" by simp
  qed simp
  then show ?thesis by simp
qed

end

end
