(* ===== verification/Gpio.thy ===== *)
theory Gpio
  imports Matrix_Scan
begin

text \<open>
  The four \<open>MatrixIOArduino\<close> classes: \<open>src/VIA_STM32F1_GPIO.h\<close>, \<open>src/VIA_ESP32_GPIO.h\<close>,
  \<open>src/VIA_ESP32S3_GPIO.h\<close> and \<open>src/VIA_nRF52_GPIO.h\<close>.  The pin functions of the Arduino
  core are not part of the repository and are a parameter; the locale \<open>arduino_pins\<close> states
  what their documentation promises.
\<close>

datatype pin_mode = INPUT | INPUT_PULLUP | OUTPUT

datatype pin_level = LOW | HIGH

record 'a arduino =
  ar_pinMode :: "'a \<Rightarrow> pin \<Rightarrow> pin_mode \<Rightarrow> 'a"
  ar_digitalWrite :: "'a \<Rightarrow> pin \<Rightarrow> pin_level \<Rightarrow> 'a"
  ar_digitalRead :: "'a \<Rightarrow> pin \<Rightarrow> pin_level \<times> 'a"
  ar_delayMicroseconds :: "'a \<Rightarrow> u16 \<Rightarrow> 'a"

section \<open>The adapters\<close>

text \<open>The three methods that are the same in all four classes.\<close>

definition gpio_inputPullup :: "'a arduino \<Rightarrow> 'a \<Rightarrow> pin \<Rightarrow> 'a" where
  "gpio_inputPullup ar a p = ar_pinMode ar a p INPUT_PULLUP"

definition gpio_driveLow :: "'a arduino \<Rightarrow> 'a \<Rightarrow> pin \<Rightarrow> 'a" where
  "gpio_driveLow ar a p = ar_digitalWrite ar (ar_pinMode ar a p OUTPUT) p LOW"

definition gpio_release :: "'a arduino \<Rightarrow> 'a \<Rightarrow> pin \<Rightarrow> 'a" where
  "gpio_release ar a p = ar_pinMode ar a p INPUT_PULLUP"

definition read_not_high :: "'a arduino \<Rightarrow> 'a \<Rightarrow> pin \<Rightarrow> bool \<times> 'a" where
  "read_not_high ar a p = (case ar_digitalRead ar a p of (v, a') \<Rightarrow> (v \<noteq> HIGH, a'))"

definition read_not_low :: "'a arduino \<Rightarrow> 'a \<Rightarrow> pin \<Rightarrow> bool \<times> 'a" where
  "read_not_low ar a p = (case ar_digitalRead ar a p of (v, a') \<Rightarrow> (v \<noteq> LOW, a'))"

definition read_is_low :: "'a arduino \<Rightarrow> 'a \<Rightarrow> pin \<Rightarrow> bool \<times> 'a" where
  "read_is_low ar a p = (case ar_digitalRead ar a p of (v, a') \<Rightarrow> (v = LOW, a'))"

text \<open>On the STM32F1 and the ESP32-S3 the body of the method \<open>delayMicroseconds\<close> names
  \<open>delayMicroseconds\<close> without \<open>::\<close>; the name is looked up in the class first, so the method
  calls itself.\<close>

partial_function (option) member_delay :: "'a \<Rightarrow> u16 \<Rightarrow> 'a option" where
  "member_delay a us = member_delay a us"

definition global_delay :: "'a arduino \<Rightarrow> 'a \<Rightarrow> u16 \<Rightarrow> 'a option" where
  "global_delay ar a us = Some (ar_delayMicroseconds ar a us)"

definition stm32f1_io :: "'a arduino \<Rightarrow> 'a matrix_io" where
  "stm32f1_io ar = \<lparr>io_inputPullup = gpio_inputPullup ar, io_driveLow = gpio_driveLow ar,
     io_release = gpio_release ar, io_read = read_not_low ar, io_delayMicroseconds = member_delay\<rparr>"

definition esp32s3_io :: "'a arduino \<Rightarrow> 'a matrix_io" where
  "esp32s3_io ar = \<lparr>io_inputPullup = gpio_inputPullup ar, io_driveLow = gpio_driveLow ar,
     io_release = gpio_release ar, io_read = read_not_high ar, io_delayMicroseconds = member_delay\<rparr>"

definition esp32_io :: "'a arduino \<Rightarrow> 'a matrix_io" where
  "esp32_io ar = \<lparr>io_inputPullup = gpio_inputPullup ar, io_driveLow = gpio_driveLow ar,
     io_release = gpio_release ar, io_read = read_not_high ar, io_delayMicroseconds = global_delay ar\<rparr>"

definition nrf52_io :: "'a arduino \<Rightarrow> 'a matrix_io" where
  "nrf52_io ar = \<lparr>io_inputPullup = gpio_inputPullup ar, io_driveLow = gpio_driveLow ar,
     io_release = gpio_release ar, io_read = read_is_low ar, io_delayMicroseconds = global_delay ar\<rparr>"

lemmas gpio_defs = gpio_inputPullup_def gpio_driveLow_def gpio_release_def global_delay_def

lemma member_delay_never: "member_delay a us = None"
proof -
  have "False" if "member_delay a us = Some y" for y
    using that by (rule member_delay.raw_induct [rotated]) assumption
  then show ?thesis by (cases "member_delay a us") auto
qed

text \<open>The delay of the core returns.\<close>

interpretation esp32_pins: matrix_port "esp32_io ar"
  by unfold_locales (simp add: esp32_io_def global_delay_def)

interpretation nrf52_pins: matrix_port "nrf52_io ar"
  by unfold_locales (simp add: nrf52_io_def global_delay_def)

section \<open>The pin functions\<close>

text \<open>A pin pulled up reads low exactly when a closed switch connects it to an output that is low.
  A floating input is not constrained.\<close>

locale arduino_pins =
  fixes ar :: "'a arduino" and mode :: "'a \<Rightarrow> pin \<Rightarrow> pin_mode" and out :: "'a \<Rightarrow> pin \<Rightarrow> pin_level"
    and closed :: "'a \<Rightarrow> pin \<Rightarrow> pin \<Rightarrow> bool"
  assumes mode_pinMode: "mode (ar_pinMode ar a p md) = (mode a)(p := md)"
    and out_pinMode: "out (ar_pinMode ar a p md) = out a"
    and closed_pinMode: "closed (ar_pinMode ar a p md) = closed a"
    and mode_write: "mode (ar_digitalWrite ar a p l) = mode a"
    and out_write: "out (ar_digitalWrite ar a p l) = (out a)(p := l)"
    and closed_write: "closed (ar_digitalWrite ar a p l) = closed a"
    and delay_frame: "mode (ar_delayMicroseconds ar a us) = mode a" "out (ar_delayMicroseconds ar a us) = out a"
      "closed (ar_delayMicroseconds ar a us) = closed a"
    and read_frame: "ar_digitalRead ar a p = (l, a') \<Longrightarrow> mode a' = mode a \<and> out a' = out a \<and> closed a' = closed a"
    and read_level: "ar_digitalRead ar a p = (l, a') \<Longrightarrow> mode a p = INPUT_PULLUP \<Longrightarrow>
      l = LOW \<longleftrightarrow> (\<exists>q. mode a q = OUTPUT \<and> out a q = LOW \<and> closed a q p)"

definition driven_pins :: "('a \<Rightarrow> pin \<Rightarrow> pin_mode) \<Rightarrow> ('a \<Rightarrow> pin \<Rightarrow> pin_level) \<Rightarrow> 'a \<Rightarrow> pin set" where
  "driven_pins mode out a = {p. mode a p = OUTPUT \<and> out a p = LOW}"

definition pulled_pins :: "('a \<Rightarrow> pin \<Rightarrow> pin_mode) \<Rightarrow> 'a \<Rightarrow> pin set" where
  "pulled_pins mode a = {p. mode a p = INPUT_PULLUP}"

context arduino_pins
begin

lemma port:
  assumes vt: "io_inputPullup vt = gpio_inputPullup ar" "io_driveLow vt = gpio_driveLow ar"
      "io_release vt = gpio_release ar" "io_delayMicroseconds vt = global_delay ar"
    and rd: "\<And>a p. io_read vt a p = (case ar_digitalRead ar a p of (l, a') \<Rightarrow> ((l = HIGH) = pol, a'))"
  shows "switch_matrix vt pol (driven_pins mode out) (pulled_pins mode) closed"
proof (unfold_locales, goal_cases)
  case (13 io p v io')
  then obtain l where l: "ar_digitalRead ar io p = (l, io')" "v \<longleftrightarrow> (l = HIGH) = pol"
    by (auto simp: rd split: prod.splits)
  have "l = LOW \<longleftrightarrow> (\<exists>q \<in> driven_pins mode out io. closed io q p)"
    using read_level [OF l(1)] 13(2) by (auto simp: driven_pins_def pulled_pins_def)
  then show ?case using l(2) by (cases l) auto
next
  case (12 io p v io')
  then obtain l where "ar_digitalRead ar io p = (l, io')" by (auto simp: rd split: prod.splits)
  from read_frame [OF this] show ?case by (simp add: driven_pins_def pulled_pins_def fun_eq_iff)
qed (auto simp: vt gpio_defs driven_pins_def pulled_pins_def mode_pinMode out_pinMode closed_pinMode
      mode_write out_write closed_write delay_frame split: if_splits)

end

text \<open>The ESP32 and nRF52 adapters return from every delay but have the opposite polarity.\<close>

sublocale arduino_pins \<subseteq> esp32: switch_matrix "esp32_io ar" False "driven_pins mode out" "pulled_pins mode" closed
  by (rule port) (simp_all add: esp32_io_def read_not_high_def fun_eq_iff split: prod.splits)

sublocale arduino_pins \<subseteq> nrf52: switch_matrix "nrf52_io ar" False "driven_pins mode out" "pulled_pins mode" closed
  by (rule port) (auto simp: nrf52_io_def read_is_low_def split: prod.splits intro: pin_level.exhaust)

context arduino_pins
begin

lemmas adapter_scans = esp32.scan_reads_switches nrf52.scan_reads_switches

lemmas adapter_other_pins = esp32.scan_other_pins nrf52.scan_other_pins

end

section \<open>A board\<close>

text \<open>An instance of the pin functions: modes and output levels of the pins and the closed
  switches, as pairs of the pin that pulls and the pin that is pulled.\<close>

record board =
  bd_modes :: "(pin \<times> pin_mode) list"
  bd_outs :: "(pin \<times> pin_level) list"
  bd_closed :: "(pin \<times> pin) list"

definition board_mode :: "board \<Rightarrow> pin \<Rightarrow> pin_mode" where
  "board_mode b p = (case map_of (bd_modes b) p of None \<Rightarrow> INPUT | Some md \<Rightarrow> md)"

definition board_out :: "board \<Rightarrow> pin \<Rightarrow> pin_level" where
  "board_out b p = (case map_of (bd_outs b) p of None \<Rightarrow> HIGH | Some l \<Rightarrow> l)"

definition board_closed :: "board \<Rightarrow> pin \<Rightarrow> pin \<Rightarrow> bool" where
  "board_closed b q p \<longleftrightarrow> (q, p) \<in> set (bd_closed b)"

definition board_level :: "board \<Rightarrow> pin \<Rightarrow> pin_level" where
  "board_level b p =
     (if list_ex (\<lambda>(q, p'). p' = p \<and> board_mode b q = OUTPUT \<and> board_out b q = LOW) (bd_closed b) then LOW else HIGH)"

definition board_arduino :: "board arduino" where
  "board_arduino = \<lparr>ar_pinMode = (\<lambda>b p md. b\<lparr>bd_modes := (p, md) # bd_modes b\<rparr>),
     ar_digitalWrite = (\<lambda>b p l. b\<lparr>bd_outs := (p, l) # bd_outs b\<rparr>),
     ar_digitalRead = (\<lambda>b p. (board_level b p, b)), ar_delayMicroseconds = (\<lambda>b us. b)\<rparr>"

interpretation board: arduino_pins board_arduino board_mode board_out board_closed
  by unfold_locales
     (auto simp: board_arduino_def board_mode_def board_out_def board_closed_def board_level_def list_ex_iff fun_eq_iff)

end
