(* ===== verification/Keycodes.thy ===== *)
theory Keycodes
  imports Prelude
begin

text \<open>
  Keycode classification and field extraction, \<open>src/VIA_Keycodes.h\<close>.
\<close>

datatype keycode_type = KNone | KTransparent | KBasic | KModifier | KLayer | KBoot | KUnsupported

definition classifyKeycode :: "u16 \<Rightarrow> keycode_type" where
  "classifyKeycode code =
     (let h = drop_bit 8 code in
      if h = 0x00 then
        if code = 0x0000 then KNone
        else if code = 0x0001 then KTransparent
        else if code \<ge> 0x0004 \<and> code \<le> 0x00A4 then KBasic
        else if code \<ge> 0x00E0 \<and> code \<le> 0x00E7 then KModifier
        else KUnsupported
      else if 0x01 \<le> h \<and> h \<le> 0x1F then KBasic
      else if h = 0x52 then KLayer
      else if h = 0x7C then KBoot
      else KUnsupported)"

definition extractBasicUsage :: "u16 \<Rightarrow> u8" where
  "extractBasicUsage code = ucast (code AND 0xFF)"

text \<open>\<open>1U << (code - 0xE0)\<close>: a negative shift or one of 32 or more is undefined.\<close>

definition extractModifierMask :: "u16 \<Rightarrow> u8 option" where
  "extractModifierMask code =
     (if code < 0xE0 \<or> unat code - 0xE0 \<ge> 32 then None
      else Some (ucast (push_bit (unat code - 0xE0) (1 :: u32))))"

text \<open>Both results of the output parameters, or nothing when the code is out of range.\<close>

definition extractQkMods :: "u16 \<Rightarrow> (u8 \<times> u8) option" where
  "extractQkMods code =
     (if code < 0x0100 \<or> code > 0x1FFF then None
      else let hidUsage = ucast (code AND 0xFF); modMask = ucast (drop_bit 8 code AND 0x0F)
           in Some (hidUsage, if code AND 0x1000 \<noteq> 0 then push_bit 4 modMask else modMask))"

definition extractLayerAction :: "u16 \<Rightarrow> (u8 \<times> u8) option" where
  "extractLayerAction code =
     (if code AND 0xFF00 \<noteq> 0x5200 then None
      else Some (ucast (drop_bit 5 code AND 0x03), ucast (code AND 0x1F)))"

section \<open>Facts\<close>

lemma ucast_le_mask: "unat (ucast (w AND m :: u16) :: u8) \<le> unat m"
proof -
  have "unat (ucast (w AND m) :: u8) \<le> unat (w AND m)"
    by (simp add: unsigned_ucast_eq)
  also have "w AND m \<le> m" by (rule word_and_le1)
  then have "unat (w AND m) \<le> unat m" by (simp add: word_le_nat_alt)
  finally show ?thesis .
qed

lemma extractLayerAction_bounds:
  "extractLayerAction code = Some (action, layer) \<Longrightarrow> unat action < 4 \<and> unat layer < 32"
  using ucast_le_mask [of "drop_bit 5 code" "0x03"] ucast_le_mask [of code "0x1F"]
  by (auto simp: extractLayerAction_def split: if_splits)

text \<open>The modifier usages map to the eight bits of the modifier byte.\<close>

lemma extractModifierMask_bit:
  assumes "classifyKeycode code = KModifier"
  shows "extractModifierMask code = Some (push_bit (unat code - 0xE0) 1) \<and> unat code - 0xE0 < 8"
proof -
  have c: "0xE0 \<le> code" "code \<le> 0xE7" using assms by (auto simp: classifyKeycode_def Let_def split: if_splits)
  then have n: "unat code - 0xE0 < 8" by (simp add: word_le_nat_alt)
  have "ucast (push_bit n (1 :: u32)) = (push_bit n 1 :: u8)" if "n < 8" for n
    using that by (intro bit_word_eqI) (auto simp: bit_simps)
  with n have "ucast (push_bit (unat code - 0xE0) (1 :: u32)) = (push_bit (unat code - 0xE0) 1 :: u8)" by blast
  with c n show ?thesis by (simp add: extractModifierMask_def)
qed

end
