(* ===== verification/Layers.thy ===== *)
theory Layers
  imports Keycodes
begin

text \<open>
  \<open>LayerState\<close> of \<open>src/VIA_Keyboard.h\<close>: the mask of transient layers, the reference counts of
  momentary layers and the default layer.  \<open>refCounts_\<close> has 32 entries; \<open>None\<close> is an access
  outside it or outside the keymap.
\<close>

record layer_state =
  ls_transientMask :: u32
  ls_refCounts :: "u8 list"
  ls_layerCount :: u8
  ls_defaultLayer :: u8

definition layer_state_new :: layer_state where
  "layer_state_new = \<lparr>ls_transientMask = 0, ls_refCounts = replicate 32 0, ls_layerCount = 0,
     ls_defaultLayer = 0\<rparr>"

definition layer_begin :: "layer_state \<Rightarrow> u8 \<Rightarrow> layer_state" where
  "layer_begin s layerCount = s\<lparr>ls_layerCount := layerCount\<rparr>"

definition layer_bit :: "u8 \<Rightarrow> u32" where "layer_bit layer = push_bit (unat layer) 1"

definition applyLayerPress :: "layer_state \<Rightarrow> u16 \<Rightarrow> layer_state option" where
  "applyLayerPress s keycode =
     (case extractLayerAction keycode of None \<Rightarrow> Some s
      | Some (action, layer) \<Rightarrow>
          if layer \<ge> ls_layerCount s then Some s
          else if action = 0 then do {
            n \<leftarrow> arr_get (ls_refCounts s) (unat layer);
            rc \<leftarrow> arr_set (ls_refCounts s) (unat layer) (n + 1);
            Some (s\<lparr>ls_refCounts := rc, ls_transientMask := ls_transientMask s OR layer_bit layer\<rparr>) }
          else if action = 1 then
            Some (s\<lparr>ls_transientMask := ls_transientMask s XOR layer_bit layer\<rparr>)
          else if action = 2 then do {
            rc \<leftarrow> for_up 0 (unat (ls_layerCount s)) (\<lambda>i rc. arr_set rc i 0) (ls_refCounts s);
            Some (s\<lparr>ls_transientMask := layer_bit layer, ls_refCounts := rc\<rparr>) }
          else Some (s\<lparr>ls_defaultLayer := layer\<rparr>))"

definition applyLayerRelease :: "layer_state \<Rightarrow> u16 \<Rightarrow> layer_state option" where
  "applyLayerRelease s keycode =
     (case extractLayerAction keycode of None \<Rightarrow> Some s
      | Some (action, layer) \<Rightarrow>
          if layer \<ge> ls_layerCount s then Some s
          else if action = 0 then do {
            n \<leftarrow> arr_get (ls_refCounts s) (unat layer);
            if n > 0 then do {
              rc \<leftarrow> arr_set (ls_refCounts s) (unat layer) (n - 1);
              Some (s\<lparr>ls_refCounts := rc, ls_transientMask :=
                (if n - 1 = 0 then ls_transientMask s AND NOT (layer_bit layer) else ls_transientMask s)\<rparr>) }
            else Some s }
          else Some s)"

text \<open>The loop of \<open>resolve\<close> from layer \<open>i - 1\<close> down to 0; it falls through to the default layer.\<close>

fun resolve_from ::
  "nat \<Rightarrow> layer_state \<Rightarrow> u8 \<Rightarrow> u16 list \<Rightarrow> u8 \<Rightarrow> u8 \<Rightarrow> u8 \<Rightarrow> u8 \<Rightarrow> u16 option" where
  "resolve_from 0 s defaultLayer keymap row col rows cols =
     (if defaultLayer < ls_layerCount s
      then arr_get keymap (unat defaultLayer * unat rows * unat cols + unat row * unat cols + unat col)
      else Some 0x0000)"
| "resolve_from (Suc i) s defaultLayer keymap row col rows cols =
     (if ls_transientMask s AND push_bit i 1 \<noteq> 0 \<and> i < unat (ls_layerCount s) then do {
        code \<leftarrow> arr_get keymap (i * unat rows * unat cols + unat row * unat cols + unat col);
        if code \<noteq> 0x0001 then Some code
        else resolve_from i s defaultLayer keymap row col rows cols }
      else resolve_from i s defaultLayer keymap row col rows cols)"

definition resolve ::
  "layer_state \<Rightarrow> u8 \<Rightarrow> u16 list \<Rightarrow> u8 \<Rightarrow> u8 \<Rightarrow> u8 \<Rightarrow> u8 \<Rightarrow> u16 option" where
  "resolve s defaultLayer keymap row col rows cols =
     resolve_from 32 s defaultLayer keymap row col rows cols"

section \<open>Invariant\<close>

definition layer_inv :: "layer_state \<Rightarrow> bool" where
  "layer_inv s \<longleftrightarrow> length (ls_refCounts s) = 32 \<and> ls_layerCount s \<le> 32"

lemma layer_inv_new: "n \<le> 32 \<Longrightarrow> layer_inv (layer_begin layer_state_new n)"
  by (simp add: layer_inv_def layer_begin_def layer_state_new_def)

text \<open>The counted loop that clears the reference counts.\<close>

lemma clear_counts:
  assumes "n \<le> length xs"
  shows "for_up 0 n (\<lambda>i rc. arr_set rc i 0) xs = Some (replicate n 0 @ drop n xs)"
proof -
  have "for_up 0 n (\<lambda>i rc. arr_set rc (0 + i) 0) xs = Some (overwrite xs 0 (map (\<lambda>_. 0) [0..<n]))"
    using assms by (intro for_up_fill) simp_all
  then show ?thesis by (simp add: overwrite_def map_replicate_const)
qed

lemma press_total:
  assumes "layer_inv s"
  shows "\<exists>s'. applyLayerPress s kc = Some s' \<and> layer_inv s' \<and> ls_layerCount s' = ls_layerCount s"
proof (cases "extractLayerAction kc")
  case (Some al)
  obtain a l where al: "al = (a, l)" by fastforce
  have "unat l < 32" using extractLayerAction_bounds Some al by blast
  moreover have "unat (ls_layerCount s) \<le> 32" using assms by (simp add: layer_inv_def word_le_nat_alt)
  ultimately show ?thesis using assms Some al
    by (auto simp: applyLayerPress_def layer_inv_def mem clear_counts)
qed (use assms in \<open>simp add: applyLayerPress_def\<close>)

lemma release_total:
  assumes "layer_inv s"
  shows "\<exists>s'. applyLayerRelease s kc = Some s' \<and> layer_inv s' \<and> ls_layerCount s' = ls_layerCount s"
proof (cases "extractLayerAction kc")
  case (Some al)
  obtain a l where al: "al = (a, l)" by fastforce
  have "unat l < 32" using extractLayerAction_bounds Some al by blast
  then show ?thesis using assms Some al
    by (auto simp: applyLayerRelease_def layer_inv_def mem)
qed (use assms in \<open>simp add: applyLayerRelease_def\<close>)

section \<open>Which layer answers\<close>

definition layer_active :: "layer_state \<Rightarrow> nat \<Rightarrow> bool" where
  "layer_active s i \<longleftrightarrow> bit (ls_transientMask s) i \<and> i < unat (ls_layerCount s)"

lemma mask_bit: "(m :: u32) AND push_bit i 1 \<noteq> 0 \<longleftrightarrow> bit m i"
proof
  assume "bit m i"
  then have "bit (m AND push_bit i 1) i" using bit_imp_le_length [of m i] by (simp add: bit_simps)
  then show "m AND push_bit i 1 \<noteq> 0" by (metis bit_0_eq bot_apply bot_bool_def)
next
  assume "m AND push_bit i 1 \<noteq> 0"
  then obtain j where "bit (m AND push_bit i 1) j" by (metis bit_eqI bit_0_eq bot_apply bot_bool_def)
  then show "bit m i" by (auto simp: bit_simps)
qed

lemma mask_power: "(m :: u32) AND 2 ^ i = 0 \<longleftrightarrow> \<not> bit m i"
  using mask_bit [of m i] by (simp only: push_bit_of_1) blast

text \<open>The keycode of a position in a layer of the flat keymap.\<close>

definition layer_code :: "u16 list \<Rightarrow> u8 \<Rightarrow> u8 \<Rightarrow> nat \<Rightarrow> u8 \<Rightarrow> u8 \<Rightarrow> u16" where
  "layer_code keymap rows cols i row col =
     keymap ! (i * unat rows * unat cols + unat row * unat cols + unat col)"

lemma layer_code_index:
  assumes "i < n" "row < rows" "col < cols"
  shows "i * unat rows * unat cols + unat row * unat cols + unat col < n * unat rows * unat cols"
proof -
  have "i * unat rows + unat row < n * unat rows" using assms by (intro radix_less) (simp_all add: word_less_nat_alt)
  then have "(i * unat rows + unat row) * unat cols + unat col < (n * unat rows) * unat cols"
    using assms by (intro radix_less) (simp_all add: word_less_nat_alt)
  then show ?thesis by (simp add: algebra_simps)
qed

text \<open>The candidates of a position from the top: the codes of the active layers.\<close>

definition candidates :: "nat \<Rightarrow> layer_state \<Rightarrow> u16 list \<Rightarrow> u8 \<Rightarrow> u8 \<Rightarrow> u8 \<Rightarrow> u8 \<Rightarrow> u16 list" where
  "candidates n s keymap row col rows cols =
     map (\<lambda>i. layer_code keymap rows cols i row col) (filter (layer_active s) (rev [0..<n]))"

lemma resolve_from_eq:
  assumes len: "length keymap = unat (ls_layerCount s) * unat rows * unat cols"
    and pos: "row < rows" "col < cols"
  shows "resolve_from n s dl keymap row col rows cols =
    (case find (\<lambda>c. c \<noteq> 0x0001) (candidates n s keymap row col rows cols) of
       Some c \<Rightarrow> Some c
     | None \<Rightarrow> Some (if dl < ls_layerCount s then layer_code keymap rows cols (unat dl) row col else 0))"
proof (induction n)
  case 0
  show ?case using len layer_code_index [OF _ pos, of "unat dl" "unat (ls_layerCount s)"]
    by (simp add: candidates_def layer_code_def mem word_less_nat_alt)
next
  case (Suc i)
  show ?case
  proof (cases "layer_active s i")
    case True
    then have "i * unat rows * unat cols + unat row * unat cols + unat col < length keymap"
      unfolding len by (intro layer_code_index pos) (simp add: layer_active_def)
    with True Suc show ?thesis
      by (simp add: candidates_def layer_active_def mask_power mem layer_code_def)
  next
    case False
    with Suc show ?thesis by (auto simp: candidates_def layer_active_def mask_power)
  qed
qed

section \<open>Momentary layers\<close>

definition mo_code :: "u8 \<Rightarrow> u16" where "mo_code layer = 0x5200 OR ucast layer"

lemma mo_code_action:
  assumes "unat layer < 32"
  shows "extractLayerAction (mo_code layer) = Some (0, layer)"
proof -
  have "\<forall>l \<in> set (map of_nat [0..<32]). extractLayerAction (mo_code l) = Some (0, l)" by code_simp
  moreover have "layer \<in> set (map of_nat [0..<32])"
    using assms by (auto intro!: image_eqI [of layer of_nat "unat layer"])
  ultimately show ?thesis by blast
qed

text \<open>Keys of momentary layers going down (\<open>True\<close>) and up, in order.\<close>

fun mo_events :: "layer_state \<Rightarrow> (bool \<times> u8) list \<Rightarrow> layer_state option" where
  "mo_events s [] = Some s"
| "mo_events s ((down, layer) # evs) = do {
     s' \<leftarrow> (if down then applyLayerPress s (mo_code layer) else applyLayerRelease s (mo_code layer));
     mo_events s' evs }"

text \<open>How many keys hold each layer; a release without a press has no effect.\<close>

fun held :: "(bool \<times> u8) list \<Rightarrow> (u8 \<Rightarrow> nat) \<Rightarrow> u8 \<Rightarrow> nat" where
  "held [] h = h"
| "held ((down, layer) # evs) h = held evs (h(layer := (if down then h layer + 1 else h layer - 1)))"

definition mo_inv :: "layer_state \<Rightarrow> (u8 \<Rightarrow> nat) \<Rightarrow> bool" where
  "mo_inv s h \<longleftrightarrow> layer_inv s \<and> (\<forall>l. unat l < unat (ls_layerCount s) \<longrightarrow>
     unat (ls_refCounts s ! unat l) = h l \<and> (bit (ls_transientMask s) (unat l) \<longleftrightarrow> 0 < h l))"

lemma layer_bit_iff: "unat l < 32 \<Longrightarrow> bit (layer_bit l) i \<longleftrightarrow> i = unat l"
  by (auto simp: layer_bit_def bit_simps)

lemma mo_press:
  assumes inv: "mo_inv s h" and l: "unat l < unat (ls_layerCount s)" and h: "h l < 255"
  shows "\<exists>s'. applyLayerPress s (mo_code l) = Some s' \<and> mo_inv s' (h(l := h l + 1)) \<and> ls_layerCount s' = ls_layerCount s"
proof -
  have n: "unat (ls_layerCount s) \<le> 32" "length (ls_refCounts s) = 32"
    using inv by (auto simp: mo_inv_def layer_inv_def word_le_nat_alt)
  have l32: "unat l < 32" using l n by simp
  let ?s = "s\<lparr>ls_refCounts := (ls_refCounts s)[unat l := ls_refCounts s ! unat l + 1],
    ls_transientMask := ls_transientMask s OR layer_bit l\<rparr>"
  have p: "applyLayerPress s (mo_code l) = Some ?s"
    using mo_code_action [OF l32] l n by (simp add: applyLayerPress_def mem word_le_nat_alt)
  have r: "unat (ls_refCounts s ! unat l) = h l" using inv l by (simp add: mo_inv_def)
  then have inc: "unat (ls_refCounts s ! unat l + 1) = h l + 1" using h by (simp add: unat_word_ariths)
  have "mo_inv ?s (h(l := h l + 1))"
    using inv n inc l32 by (auto simp: mo_inv_def layer_inv_def nth_list_update word_unat_eq_iff [symmetric] bit_simps layer_bit_iff)
  with p show ?thesis by simp
qed

lemma mo_release:
  assumes inv: "mo_inv s h" and l: "unat l < unat (ls_layerCount s)"
  shows "\<exists>s'. applyLayerRelease s (mo_code l) = Some s' \<and> mo_inv s' (h(l := h l - 1)) \<and> ls_layerCount s' = ls_layerCount s"
proof -
  have n: "unat (ls_layerCount s) \<le> 32" "length (ls_refCounts s) = 32"
    using inv by (auto simp: mo_inv_def layer_inv_def word_le_nat_alt)
  have l32: "unat l < 32" using l n by simp
  have r: "unat (ls_refCounts s ! unat l) = h l" using inv l by (simp add: mo_inv_def)
  show ?thesis
  proof (cases "h l = 0")
    case True
    then have "ls_refCounts s ! unat l = 0" using r by (simp add: unat_eq_zero)
    then have "applyLayerRelease s (mo_code l) = Some s"
      using mo_code_action [OF l32] l n by (simp add: applyLayerRelease_def mem word_le_nat_alt)
    moreover have "h(l := h l - 1) = h" using True by auto
    ultimately show ?thesis using inv by simp
  next
    case False
    then have nz: "ls_refCounts s ! unat l > 0" using r by (metis unat_eq_zero word_gt_0)
    let ?n = "ls_refCounts s ! unat l - 1"
    have dec: "unat ?n = h l - 1" using r nz by (metis unat_minus_one word_gt_0)
    let ?s = "s\<lparr>ls_refCounts := (ls_refCounts s)[unat l := ?n], ls_transientMask :=
      (if ?n = 0 then ls_transientMask s AND NOT (layer_bit l) else ls_transientMask s)\<rparr>"
    have p: "applyLayerRelease s (mo_code l) = Some ?s"
      using mo_code_action [OF l32] l n nz by (simp add: applyLayerRelease_def mem word_le_nat_alt)
    have z: "?n = 0 \<longleftrightarrow> h l - 1 = 0" using dec by (metis unat_eq_zero)
    have "mo_inv ?s (h(l := h l - 1))"
      using inv n dec l32 z False
      by (auto simp: mo_inv_def layer_inv_def nth_list_update word_unat_eq_iff [symmetric] bit_simps layer_bit_iff)
    with p show ?thesis by simp
  qed
qed

lemma mo_events_inv:
  assumes "mo_inv s h" and "\<forall>(down, l) \<in> set evs. unat l < unat (ls_layerCount s)"
    and "\<forall>l. h l + length evs \<le> 255"
  shows "\<exists>s'. mo_events s evs = Some s' \<and> mo_inv s' (held evs h) \<and> ls_layerCount s' = ls_layerCount s"
  using assms
proof (induction evs arbitrary: s h)
  case (Cons e evs)
  obtain down l where e: "e = (down, l)" by fastforce
  have l: "unat l < unat (ls_layerCount s)" using Cons.prems(2) e by auto
  have hl: "h l < 255" using Cons.prems(3) [rule_format, of l] by simp
  let ?h = "h(l := (if down then h l + 1 else h l - 1))"
  obtain s1 where s1: "(if down then applyLayerPress s (mo_code l) else applyLayerRelease s (mo_code l)) = Some s1"
    "mo_inv s1 ?h" "ls_layerCount s1 = ls_layerCount s"
    using mo_press [OF Cons.prems(1) l hl] mo_release [OF Cons.prems(1) l] by (cases down) auto
  have "\<forall>k. ?h k + length evs \<le> 255"
  proof
    fix k show "?h k + length evs \<le> 255" using Cons.prems(3) [rule_format, of k] Cons.prems(3) [rule_format, of l] by auto
  qed
  moreover have "\<forall>(down, l) \<in> set evs. unat l < unat (ls_layerCount s1)" using Cons.prems(2) s1(3) by auto
  ultimately obtain s' where "mo_events s1 evs = Some s'" "mo_inv s' (held evs ?h)" "ls_layerCount s' = ls_layerCount s1"
    using Cons.IH [OF s1(2)] by blast
  with s1(1,3) show ?case unfolding e by (cases down) simp_all
qed simp

end
