(* ===== verification/Keyboard.thy ===== *)
theory Keyboard
  imports Layers Matrix
begin

text \<open>
  The keyboard loop, \<open>src/VIA_Keyboard.h\<close> and \<open>src/VIA_Keyboard.cpp\<close>: debounced matrix changes
  become active keycodes, layer changes and HID reports.  The HID port is a table of functions
  over the state of the derived class, as the other interfaces are.  The keymap is read through
  the protocol and is an argument.  \<open>None\<close> is an access outside an array, an undefined shift, or
  a loop that does not end.
\<close>

record report =
  rp_modifiers :: u8
  rp_reserved :: u8
  rp_keys :: "u8 list"

definition empty_report :: report where
  "empty_report = \<lparr>rp_modifiers = 0, rp_reserved = 0, rp_keys = replicate 6 0\<rparr>"

datatype keyboard_event = HostLedsChanged u8 | BootloaderRequested

text \<open>\<open>takeHostLeds\<close> gives the LEDs when it returns true.\<close>

record 'h hid_vt =
  hid_configured :: "'h \<Rightarrow> bool"
  hid_send :: "'h \<Rightarrow> report \<Rightarrow> bool \<times> 'h"
  hid_sendComplete :: "'h \<Rightarrow> bool \<times> 'h"
  hid_takeHostLeds :: "'h \<Rightarrow> u8 option \<times> 'h"
  hid_suspended :: "'h \<Rightarrow> bool"
  hid_remoteWakeupAllowed :: "'h \<Rightarrow> bool"
  hid_remoteWakeup :: "'h \<Rightarrow> bool \<times> 'h"

text \<open>\<open>kb_activeCodes\<close> is \<open>None\<close> for a null pointer; \<open>kb_callbacks\<close> says whether callbacks are
  installed and \<open>kb_events\<close> lists the calls made to them.\<close>

record ('io, 'h) keyboard =
  kb_rows :: u8
  kb_columns :: u8
  kb_matrix :: "'io matrix"
  kb_hid :: 'h
  kb_activeCodes :: "u16 list option"
  kb_callbacks :: bool
  kb_events :: "keyboard_event list"
  kb_layerState :: layer_state
  kb_pendingReport :: report
  kb_reportPending :: bool
  kb_lastAcceptedReport :: report
  kb_lastHostLeds :: u8
  kb_wakeRequested :: bool
  kb_wasSuspended :: bool

definition keyboard_new ::
  "u8 \<Rightarrow> u8 \<Rightarrow> 'io matrix \<Rightarrow> u8 \<Rightarrow> 'h \<Rightarrow> u16 list option \<Rightarrow> bool \<Rightarrow> ('io, 'h) keyboard" where
  "keyboard_new rows columns m layers h codes callbacks =
     \<lparr>kb_rows = rows, kb_columns = columns, kb_matrix = m, kb_hid = h, kb_activeCodes = codes,
      kb_callbacks = callbacks, kb_events = [], kb_layerState = layer_begin layer_state_new layers,
      kb_pendingReport = empty_report, kb_reportPending = False, kb_lastAcceptedReport = empty_report,
      kb_lastHostLeds = 0, kb_wakeRequested = False, kb_wasSuspended = False\<rparr>"

definition keyboard_begin :: "('io, 'h) keyboard \<Rightarrow> bool" where
  "keyboard_begin k \<longleftrightarrow> kb_rows k > 0 \<and> kb_columns k > 0 \<and> kb_activeCodes k \<noteq> None"

definition keyboard_stableRow :: "('io, 'h) keyboard \<Rightarrow> nat \<Rightarrow> u32 option" where
  "keyboard_stableRow k r = mx_stableRow (kb_matrix k) r"

section \<open>Reports\<close>

text \<open>\<open>const uint8_t total = rows * cols\<close> and \<open>uint8_t pos = r * cols + c\<close> wrap at 256.\<close>

definition key_total :: "u8 \<Rightarrow> u8 \<Rightarrow> nat" where
  "key_total rows cols = unat (rows * cols)"

definition key_pos :: "u8 \<Rightarrow> nat \<Rightarrow> nat \<Rightarrow> nat" where
  "key_pos cols r c = unat (of_nat (r * unat cols + c) :: u8)"

definition count_basics :: "u16 list \<Rightarrow> nat \<Rightarrow> (u8 \<times> u8) option" where
  "count_basics codes n =
     for_up 0 n (\<lambda>i (basicCount, modifiers). do {
       code \<leftarrow> arr_get codes i;
       if code = 0x0000 then Some (basicCount, modifiers)
       else if classifyKeycode code = KBasic then Some (basicCount + 1, modifiers)
       else if classifyKeycode code = KModifier
       then do { mask \<leftarrow> extractModifierMask code; Some (basicCount, modifiers OR mask) }
       else Some (basicCount, modifiers) }) (0, 0)"

definition fill_keys :: "u16 list \<Rightarrow> nat \<Rightarrow> (nat \<times> u8 list) option" where
  "fill_keys codes n =
     for_up 0 n (\<lambda>i (ki, keys). if \<not> ki < 6 then Some (ki, keys) else do {
       code \<leftarrow> arr_get codes i;
       if code = 0x0000 \<or> classifyKeycode code \<noteq> KBasic then Some (ki, keys)
       else if extractBasicUsage code \<in> set (take ki keys) then Some (ki, keys)
       else do { keys \<leftarrow> arr_set keys ki (extractBasicUsage code); Some (ki + 1, keys) } }) (0, replicate 6 0)"

definition build_report :: "u16 list \<Rightarrow> nat \<Rightarrow> report option" where
  "build_report codes n = do {
     (basicCount, modifiers) \<leftarrow> count_basics codes n;
     if basicCount > 6 then Some \<lparr>rp_modifiers = modifiers, rp_reserved = 0, rp_keys = replicate 6 0x01\<rparr>
     else do { (ki, keys) \<leftarrow> fill_keys codes n; Some \<lparr>rp_modifiers = modifiers, rp_reserved = 0, rp_keys = keys\<rparr> }
   }"

text \<open>A null pointer has no accessible entry.\<close>

definition active_codes :: "('io, 'h) keyboard \<Rightarrow> u16 list" where
  "active_codes k = (case kb_activeCodes k of None \<Rightarrow> [] | Some codes \<Rightarrow> codes)"

definition buildReport :: "('io, 'h) keyboard \<Rightarrow> report option" where
  "buildReport k = build_report (active_codes k) (key_total (kb_rows k) (kb_columns k))"

section \<open>The phases of a task\<close>

partial_function (option) drain_leds :: "'h hid_vt \<Rightarrow> ('io, 'h) keyboard \<Rightarrow> ('io, 'h) keyboard option" where
  "drain_leds hv k =
     (case hid_takeHostLeds hv (kb_hid k) of
        (None, h) \<Rightarrow> Some (k\<lparr>kb_hid := h\<rparr>)
      | (Some leds, h) \<Rightarrow> drain_leds hv
          (if kb_callbacks k \<and> leds \<noteq> kb_lastHostLeds k
           then k\<lparr>kb_hid := h, kb_lastHostLeds := leds, kb_events := kb_events k @ [HostLedsChanged leds]\<rparr>
           else k\<lparr>kb_hid := h\<rparr>))"

declare drain_leds.simps [code]

definition finish_report :: "'h hid_vt \<Rightarrow> ('io, 'h) keyboard \<Rightarrow> ('io, 'h) keyboard" where
  "finish_report hv k =
     (if kb_reportPending k then
        case hid_sendComplete hv (kb_hid k) of
          (True, h) \<Rightarrow> k\<lparr>kb_hid := h, kb_lastAcceptedReport := kb_pendingReport k, kb_reportPending := False\<rparr>
        | (False, h) \<Rightarrow> k\<lparr>kb_hid := snd (hid_send hv h (kb_pendingReport k))\<rparr>
      else k)"

text \<open>The key loops keep the layer state, the active codes and the boot request.  The rows whose bit in
  \<open>cRows\<close> is set are visited, in them the columns whose bit in \<open>sel changed down\<close> is set.\<close>

type_synonym keys_state = "layer_state \<times> u16 list \<times> bool"

definition for_columns :: "nat \<Rightarrow> u32 \<Rightarrow> (nat \<Rightarrow> 's \<Rightarrow> 's option) \<Rightarrow> 's \<Rightarrow> 's option" where
  "for_columns cols w f s =
     for_up 0 cols (\<lambda>c s. do { b \<leftarrow> shl1 c; if w AND b \<noteq> 0 then f c s else Some s }) s"

definition for_keys ::
  "nat \<Rightarrow> nat \<Rightarrow> u32 \<Rightarrow> u32 list \<Rightarrow> u32 list \<Rightarrow> (u32 \<Rightarrow> u32 \<Rightarrow> u32) \<Rightarrow> (nat \<Rightarrow> nat \<Rightarrow> 's \<Rightarrow> 's option) \<Rightarrow> 's \<Rightarrow> 's option" where
  "for_keys rows cols cRows savedChanged stableRows sel f s =
     for_up 0 rows (\<lambda>r s. do {
       b \<leftarrow> shl1 r;
       if cRows AND b = 0 then Some s
       else do {
         changed \<leftarrow> arr_get savedChanged r;
         down \<leftarrow> arr_get stableRows r;
         for_columns cols (sel changed down) (f r) s } }) s"

definition release_key :: "u8 \<Rightarrow> nat \<Rightarrow> nat \<Rightarrow> keys_state \<Rightarrow> keys_state option" where
  "release_key cols r c = (\<lambda>(ls, codes, boot). do {
     code \<leftarrow> arr_get codes (key_pos cols r c);
     if code = 0x0000 then Some (ls, codes, boot)
     else do {
       ls \<leftarrow> (if extractLayerAction code \<noteq> None then applyLayerRelease ls code else Some ls);
       codes \<leftarrow> arr_set codes (key_pos cols r c) 0x0000;
       Some (ls, codes, boot) } })"

definition resolve_key :: "u16 list \<Rightarrow> u8 \<Rightarrow> u8 \<Rightarrow> nat \<Rightarrow> nat \<Rightarrow> layer_state \<Rightarrow> u16 option" where
  "resolve_key keymap rows cols r c ls =
     resolve ls (ls_defaultLayer ls) keymap (of_nat r) (of_nat c) rows cols"

definition press_layer_key :: "u16 list \<Rightarrow> u8 \<Rightarrow> u8 \<Rightarrow> nat \<Rightarrow> nat \<Rightarrow> keys_state \<Rightarrow> keys_state option" where
  "press_layer_key keymap rows cols r c = (\<lambda>(ls, codes, boot). do {
     code \<leftarrow> resolve_key keymap rows cols r c ls;
     if extractLayerAction code \<noteq> None then do {
       ls \<leftarrow> applyLayerPress ls code;
       codes \<leftarrow> arr_set codes (key_pos cols r c) code;
       Some (ls, codes, boot) }
     else if classifyKeycode code = KBoot then do {
       codes \<leftarrow> arr_set codes (key_pos cols r c) code;
       Some (ls, codes, True) }
     else Some (ls, codes, boot) })"

definition press_key :: "u16 list \<Rightarrow> u8 \<Rightarrow> u8 \<Rightarrow> nat \<Rightarrow> nat \<Rightarrow> keys_state \<Rightarrow> keys_state option" where
  "press_key keymap rows cols r c = (\<lambda>(ls, codes, boot). do {
     old \<leftarrow> arr_get codes (key_pos cols r c);
     if old \<noteq> 0x0000 then Some (ls, codes, boot)
     else do {
       code \<leftarrow> resolve_key keymap rows cols r c ls;
       let type = classifyKeycode code;
       if type = KLayer \<or> type = KBoot then do {
         codes \<leftarrow> arr_set codes (key_pos cols r c) code;
         Some (ls, codes, if type = KBoot then True else boot) }
       else if type = KNone \<or> type = KTransparent then do {
         codes \<leftarrow> arr_set codes (key_pos cols r c) 0x0000;
         Some (ls, codes, boot) }
       else do {
         codes \<leftarrow> arr_set codes (key_pos cols r c) code;
         Some (ls, codes, boot) } } })"

definition released_keys :: "u32 \<Rightarrow> u32 \<Rightarrow> u32" where "released_keys changed down = changed AND NOT down"

definition pressed_keys :: "u32 \<Rightarrow> u32 \<Rightarrow> u32" where "pressed_keys changed down = changed AND down"

text \<open>The three passes: releases, presses of layer and boot keys, the other presses.\<close>

definition apply_changes ::
  "u16 list \<Rightarrow> u8 \<Rightarrow> u8 \<Rightarrow> u32 \<Rightarrow> u32 list \<Rightarrow> u32 list \<Rightarrow> keys_state \<Rightarrow> keys_state option" where
  "apply_changes keymap rows cols cRows saved rowsDown s =
     (if cRows = 0 then Some s else do {
        s \<leftarrow> for_keys (unat rows) (unat cols) cRows saved rowsDown released_keys (release_key cols) s;
        s \<leftarrow> for_keys (unat rows) (unat cols) cRows saved rowsDown pressed_keys (press_layer_key keymap rows cols) s;
        for_keys (unat rows) (unat cols) cRows saved rowsDown pressed_keys (press_key keymap rows cols) s })"

text \<open>\<open>savedChanged\<close> has 8 entries; every entry read later is written first.\<close>

definition save_changed :: "('io, 'h) keyboard \<Rightarrow> u32 list option" where
  "save_changed k =
     for_up 0 (unat (kb_rows k)) (\<lambda>r saved. do {
       v \<leftarrow> mx_changedRow (kb_matrix k) r; arr_set saved r v }) (replicate 8 0)"

definition any_active :: "u16 list \<Rightarrow> nat \<Rightarrow> bool option" where
  "any_active codes n =
     for_up 0 n (\<lambda>i found. if found then Some True else do { v \<leftarrow> arr_get codes i; Some (v \<noteq> 0x0000) }) False"

definition wake_host :: "'h hid_vt \<Rightarrow> ('io, 'h) keyboard \<Rightarrow> ('io, 'h) keyboard option" where
  "wake_host hv k =
     (if hid_remoteWakeupAllowed hv (kb_hid k) \<and> \<not> kb_wakeRequested k then do {
        active \<leftarrow> any_active (active_codes k) (key_total (kb_rows k) (kb_columns k));
        Some (if active then k\<lparr>kb_hid := snd (hid_remoteWakeup hv (kb_hid k)), kb_wakeRequested := True\<rparr> else k) }
      else Some k)"

definition send_desired :: "'h hid_vt \<Rightarrow> report \<Rightarrow> ('io, 'h) keyboard \<Rightarrow> ('io, 'h) keyboard" where
  "send_desired hv desired k =
     (if kb_reportPending k then
        if desired \<noteq> kb_pendingReport k
        then k\<lparr>kb_pendingReport := desired, kb_hid := snd (hid_send hv (kb_hid k) desired)\<rparr>
        else k
      else if desired \<noteq> kb_lastAcceptedReport k
        then k\<lparr>kb_pendingReport := desired, kb_reportPending := True, kb_hid := snd (hid_send hv (kb_hid k) desired)\<rparr>
        else k)"

text \<open>The part of the task after the changed keys have been applied.\<close>

definition report_phase :: "'h hid_vt \<Rightarrow> bool \<Rightarrow> ('io, 'h) keyboard \<Rightarrow> ('io, 'h) keyboard option" where
  "report_phase hv bootPending k =
     (if hid_suspended hv (kb_hid k) then wake_host hv (k\<lparr>kb_wasSuspended := True\<rparr>)
      else do {
        let k = k\<lparr>kb_wasSuspended := False, kb_wakeRequested := False\<rparr>;
        desired \<leftarrow> buildReport k;
        let k = send_desired hv desired k;
        Some (if bootPending \<and> kb_callbacks k then k\<lparr>kb_events := kb_events k @ [BootloaderRequested]\<rparr> else k) })"

definition change_phase :: "'h hid_vt \<Rightarrow> u16 list \<Rightarrow> u32 \<Rightarrow> ('io, 'h) keyboard \<Rightarrow> ('io, 'h) keyboard option" where
  "change_phase hv keymap cRows k = do {
     saved \<leftarrow> save_changed k;
     (_, m) \<leftarrow> hasChanged (kb_matrix k);
     (ls, codes, boot) \<leftarrow> apply_changes keymap (kb_rows k) (kb_columns k) cRows saved (mx_stableRows m)
       (kb_layerState k, active_codes k, False);
     report_phase hv boot (k\<lparr>kb_matrix := m, kb_layerState := ls, kb_activeCodes := map_option (\<lambda>_. codes) (kb_activeCodes k)\<rparr>) }"

definition keyboard_task :: "'h hid_vt \<Rightarrow> u16 list \<Rightarrow> ('io, 'h) keyboard \<Rightarrow> ('io, 'h) keyboard option" where
  "keyboard_task hv keymap k = do {
     k \<leftarrow> drain_leds hv k;
     let k = finish_report hv k;
     cRows \<leftarrow> changedRows_mask (kb_matrix k);
     if cRows = 0 \<and> \<not> (kb_wasSuspended k \<and> \<not> hid_suspended hv (kb_hid k))
     then Some (k\<lparr>kb_wasSuspended := hid_suspended hv (kb_hid k)\<rparr>)
     else change_phase hv keymap cRows k }"

end
