(* ===== verification/Keyboard_Report.thy ===== *)
theory Keyboard_Report
  imports Keyboard
begin

text \<open>\<open>Keyboard::buildReport\<close> against a specification of the report.\<close>

section \<open>The report of a set of active keys\<close>

text \<open>The distinct elements in the order of their first occurrence.\<close>

fun nub :: "'a list \<Rightarrow> 'a list" where
  "nub [] = []"
| "nub (x # xs) = x # filter (\<lambda>y. y \<noteq> x) (nub xs)"

lemma set_nub [simp]: "set (nub xs) = set xs"
  by (induction xs) auto

lemma nub_snoc: "nub (xs @ [x]) = (if x \<in> set xs then nub xs else nub xs @ [x])"
  by (induction xs) auto

lemma length_nub: "length (nub xs) \<le> length xs"
proof (induction xs)
  case (Cons x xs)
  have "length (filter (\<lambda>y. y \<noteq> x) (nub xs)) \<le> length (nub xs)" by (rule length_filter_le)
  with Cons show ?case by (simp del: length_filter_le)
qed simp

definition basic_usages :: "u16 list \<Rightarrow> u8 list" where
  "basic_usages codes = map extractBasicUsage (filter (\<lambda>c. classifyKeycode c = KBasic) codes)"

text \<open>What a report should hold: one bit per held modifier and up to six distinct usages, or six
  times ErrorRollOver when more than six basic codes are active.\<close>

definition report_keys :: "u16 list \<Rightarrow> u8 list" where
  "report_keys codes =
     (if length (basic_usages codes) > 6 then replicate 6 0x01
      else nub (basic_usages codes) @ replicate (6 - length (nub (basic_usages codes))) 0)"

definition report_modifiers :: "u16 list \<Rightarrow> u8 \<Rightarrow> bool" where
  "report_modifiers codes m \<longleftrightarrow> (\<forall>i < 8. bit m i \<longleftrightarrow> of_nat (0xE0 + i) \<in> set codes)"

lemma basic_usages_append: "basic_usages (xs @ ys) = basic_usages xs @ basic_usages ys"
  by (simp add: basic_usages_def)

lemma basic_usages_single: "basic_usages [c] = (if classifyKeycode c = KBasic then [extractBasicUsage c] else [])"
  by (simp add: basic_usages_def)

lemma modifier_code:
  assumes "i < 8"
  shows "classifyKeycode c = KModifier \<and> unat c - 0xE0 = i \<longleftrightarrow> c = of_nat (0xE0 + i)"
proof
  assume c: "classifyKeycode c = KModifier \<and> unat c - 0xE0 = i"
  then have "0xE0 \<le> c" by (auto simp: classifyKeycode_def Let_def split: if_splits)
  then have "0xE0 \<le> unat c" by (simp add: word_le_nat_alt)
  with c have "unat c = 0xE0 + i" by linarith
  moreover have "(of_nat (unat c) :: u16) = c" by simp
  ultimately show "c = of_nat (0xE0 + i)" by (simp only:)
next
  assume c: "c = of_nat (0xE0 + i)"
  have "\<forall>j \<in> set [0..<8]. classifyKeycode (of_nat (0xE0 + j)) = KModifier \<and> unat (of_nat (0xE0 + j) :: u16) - 0xE0 = j"
    by code_simp
  with assms c show "classifyKeycode c = KModifier \<and> unat c - 0xE0 = i" by auto
qed

lemma classify_zero: "classifyKeycode 0 = KNone"
  by (simp add: classifyKeycode_def)

lemma count_basics_eq:
  assumes n: "n \<le> length codes" "n < 256"
  shows "\<exists>b m. count_basics codes n = Some (b, m) \<and> unat b = length (basic_usages (take n codes)) \<and>
    report_modifiers (take n codes) m"
proof -
  let ?P = "\<lambda>j (b :: u8, m :: u8). unat b = length (basic_usages (take j codes)) \<and> report_modifiers (take j codes) m"
  have "\<exists>s. count_basics codes n = Some s \<and> ?P (0 + n) s"
    unfolding count_basics_def
  proof (rule for_up_total)
    show "?P 0 (0, 0)" by (simp add: basic_usages_def report_modifiers_def)
  next
    fix j and t :: "u8 \<times> u8"
    assume j: "0 \<le> j" "j < 0 + n" and P: "?P j t"
    obtain b m where t: "t = (b, m)" by fastforce
    let ?c = "codes ! j"
    have tk: "take (Suc j) codes = take j codes @ [?c]" using j n by (simp add: take_Suc_conv_app_nth)
    have "length (basic_usages (take j codes)) \<le> j"
      using length_filter_le [of "\<lambda>c. classifyKeycode c = KBasic" "take j codes"] by (simp add: basic_usages_def)
    then have inc: "unat (b + 1) = unat b + 1" using P j n by (simp add: t unat_word_ariths)
    have none: "report_modifiers (take (Suc j) codes) m" if "classifyKeycode ?c \<noteq> KModifier"
    proof -
      have "of_nat (0xE0 + i) \<noteq> ?c" if "i < 8" for i
        using modifier_code [OF that, of ?c] \<open>classifyKeycode ?c \<noteq> KModifier\<close> by metis
      then show ?thesis using P by (simp add: t tk report_modifiers_def)
    qed
    have "report_modifiers (take (Suc j) codes) (m OR push_bit (unat ?c - 0xE0) 1)" if md: "classifyKeycode ?c = KModifier"
    proof -
      have "bit (push_bit (unat ?c - 0xE0) 1 :: u8) i \<longleftrightarrow> ?c = of_nat (0xE0 + i)" if "i < 8" for i
        using modifier_code [OF that, of ?c] md that by (auto simp: bit_exp_iff)
      then show ?thesis using P by (auto simp: t tk report_modifiers_def bit_or_iff)
    qed
    with none inc show "\<exists>t'. (case t of (basicCount, modifiers) \<Rightarrow> do {
       code \<leftarrow> arr_get codes j;
       if code = 0x0000 then Some (basicCount, modifiers)
       else if classifyKeycode code = KBasic then Some (basicCount + 1, modifiers)
       else if classifyKeycode code = KModifier
       then do { mask \<leftarrow> extractModifierMask code; Some (basicCount, modifiers OR mask) }
       else Some (basicCount, modifiers) }) = Some t' \<and> ?P (Suc j) t'"
      using P j n extractModifierMask_bit [of ?c]
      by (cases "?c = 0"; cases "classifyKeycode ?c")
         (auto simp: t mem tk basic_usages_append basic_usages_single classify_zero)
  qed
  then show ?thesis by auto
qed

lemma fill_keys_eq:
  assumes n: "n \<le> length codes" and six: "length (basic_usages (take n codes)) \<le> 6"
  shows "\<exists>ki. fill_keys codes n = Some (ki, nub (basic_usages (take n codes)) @
    replicate (6 - length (nub (basic_usages (take n codes)))) 0)"
proof -
  let ?us = "\<lambda>j. nub (basic_usages (take j codes))"
  let ?P = "\<lambda>j s. s = (length (?us j), ?us j @ replicate (6 - length (?us j)) 0)"
  have "\<exists>s. fill_keys codes n = Some s \<and> ?P (0 + n) s"
    unfolding fill_keys_def
  proof (rule for_up_total)
    show "?P 0 (0, replicate 6 0)" by (simp add: basic_usages_def)
  next
    fix j and t :: "nat \<times> u8 list"
    assume j: "0 \<le> j" "j < 0 + n" and t: "?P j t"
    let ?c = "codes ! j"
    have tk: "take (Suc j) codes = take j codes @ [?c]" using j n by (simp add: take_Suc_conv_app_nth)
    have u: "?us (Suc j) = (if classifyKeycode ?c = KBasic \<and> extractBasicUsage ?c \<notin> set (?us j)
        then ?us j @ [extractBasicUsage ?c] else ?us j)"
      by (simp add: tk basic_usages_append basic_usages_single nub_snoc)
    have "basic_usages (take n codes) = basic_usages (take (Suc j) codes) @ basic_usages (drop (Suc j) (take n codes))"
      using j by (simp flip: basic_usages_append add: min_def) (metis append_take_drop_id min.absorb1 Suc_leI take_take)
    then have "length (basic_usages (take (Suc j) codes)) \<le> 6" using six by simp
    then have l6: "length (?us (Suc j)) \<le> 6" using length_nub le_trans by blast
    show "\<exists>t'. (case t of (ki, keys) \<Rightarrow> if \<not> ki < 6 then Some (ki, keys) else do {
       code \<leftarrow> arr_get codes j;
       if code = 0x0000 \<or> classifyKeycode code \<noteq> KBasic then Some (ki, keys)
       else if extractBasicUsage code \<in> set (take ki keys) then Some (ki, keys)
       else do { keys \<leftarrow> arr_set keys ki (extractBasicUsage code); Some (ki + 1, keys) } }) = Some t' \<and> ?P (Suc j) t'"
    proof (cases "classifyKeycode ?c = KBasic \<and> extractBasicUsage ?c \<notin> set (?us j)")
      case True
      then have "length (?us j) < 6" "?c \<noteq> 0" using l6 u by (auto simp: classify_zero)
      moreover from this have "replicate (6 - length (?us j)) (0 :: u8) = 0 # replicate (6 - Suc (length (?us j))) 0"
        by (metis Suc_diff_Suc replicate_Suc)
      ultimately show ?thesis using True j n u by (simp add: t mem list_update_append)
    next
      case False
      then have "?us (Suc j) = ?us j" using u by auto
      with False j n show ?thesis by (auto simp: t mem)
    qed
  qed
  then show ?thesis by auto
qed

lemma build_report_eq:
  assumes "length codes < 256"
  shows "\<exists>m. build_report codes (length codes) = Some \<lparr>rp_modifiers = m, rp_reserved = 0, rp_keys = report_keys codes\<rparr> \<and>
    report_modifiers codes m"
proof -
  obtain b m where b: "count_basics codes (length codes) = Some (b, m)" "unat b = length (basic_usages codes)"
    "report_modifiers codes m" using count_basics_eq [of "length codes" codes] assms by auto
  have six: "6 < b \<longleftrightarrow> 6 < length (basic_usages codes)" using b(2) by (simp add: word_less_nat_alt)
  show ?thesis
  proof (cases "6 < length (basic_usages codes)")
    case True
    with b six show ?thesis by (simp add: build_report_def report_keys_def)
  next
    case False
    then obtain ki where "fill_keys codes (length codes) = Some (ki, nub (basic_usages codes) @
        replicate (6 - length (nub (basic_usages codes))) 0)"
      using fill_keys_eq [of "length codes" codes] by auto
    with b six False show ?thesis by (simp add: build_report_def report_keys_def)
  qed
qed

end
