(* ===== verification/Keyboard_Keys.thy ===== *)
theory Keyboard_Keys
  imports Keyboard_Report
begin

text \<open>The three passes of \<open>Keyboard::task\<close> over the changed keys.\<close>

section \<open>Loops over the keys\<close>

lemma and_shl1: "c < 32 \<Longrightarrow> (w :: u32) AND push_bit c 1 = 0 \<longleftrightarrow> \<not> bit w c"
  using mask_bit [of w c] by blast

lemma shl1_ok [mem]: "c < 32 \<Longrightarrow> shl1 c = Some (push_bit c 1)"
  by (simp add: shl1_def)

lemma for_columns_rule:
  assumes cols: "cols \<le> 32" and P: "P D s" and fresh: "\<And>c. (r, c) \<notin> D"
    and step: "\<And>D c t. c < cols \<Longrightarrow> bit w c \<Longrightarrow> (r, c) \<notin> D \<Longrightarrow> P D t \<Longrightarrow>
      \<exists>t'. f c t = Some t' \<and> P (insert (r, c) D) t'"
    and skip: "\<And>D c t. c < cols \<Longrightarrow> \<not> bit w c \<Longrightarrow> P D t \<Longrightarrow> P (insert (r, c) D) t"
  shows "\<exists>s'. for_columns cols w f s = Some s' \<and> P (D \<union> {r} \<times> {..<cols}) s'"
proof -
  let ?Q = "\<lambda>c. P (D \<union> {r} \<times> {..<c})"
  have ins: "D \<union> {r} \<times> {..<Suc c} = insert (r, c) (D \<union> {r} \<times> {..<c})" for c
    by (auto simp: less_Suc_eq)
  have "\<exists>s'. for_columns cols w f s = Some s' \<and> ?Q (0 + cols) s'"
    unfolding for_columns_def
  proof (rule for_up_total)
    show "?Q 0 s" using P by simp
  next
    fix c t assume c: "0 \<le> c" "c < 0 + cols" and Q: "?Q c t"
    have c': "c < 32" "c < cols" using c cols by simp_all
    show "\<exists>t'. (do { b \<leftarrow> shl1 c; if w AND b \<noteq> 0 then f c t else Some t }) = Some t' \<and> ?Q (Suc c) t'"
    proof (cases "bit w c")
      case True
      have "(r, c) \<notin> D \<union> {r} \<times> {..<c}" using fresh by simp
      from step [OF c'(2) True this Q] True and_shl1 [OF c'(1), of w] show ?thesis
        unfolding ins by (simp add: shl1_def c' del: push_bit_of_1)
    next
      case False
      with skip [OF c'(2) False Q] and_shl1 [OF c'(1), of w] show ?thesis
        unfolding ins by (simp add: shl1_def c' del: push_bit_of_1)
    qed
  qed
  then show ?thesis by simp
qed

lemma for_keys_rule:
  assumes len: "rows \<le> length saved" "rows \<le> length down" "rows \<le> 32" "cols \<le> 32" and P: "P {} s"
    and step: "\<And>D r c t. r < rows \<Longrightarrow> c < cols \<Longrightarrow> bit cRows r \<Longrightarrow> bit (sel (saved ! r) (down ! r)) c \<Longrightarrow>
      (r, c) \<notin> D \<Longrightarrow> P D t \<Longrightarrow> \<exists>t'. f r c t = Some t' \<and> P (insert (r, c) D) t'"
    and skip: "\<And>D r c t. r < rows \<Longrightarrow> c < cols \<Longrightarrow> \<not> (bit cRows r \<and> bit (sel (saved ! r) (down ! r)) c) \<Longrightarrow> P D t \<Longrightarrow>
      P (insert (r, c) D) t"
  shows "\<exists>s'. for_keys rows cols cRows saved down sel f s = Some s' \<and> P ({..<rows} \<times> {..<cols}) s'"
proof -
  let ?Q = "\<lambda>r. P ({..<r} \<times> {..<cols})"
  have ins: "{..<Suc r} \<times> {..<cols} = {..<r} \<times> {..<cols} \<union> {r} \<times> {..<cols}" for r
    by (auto simp: less_Suc_eq)
  have "\<exists>s'. for_keys rows cols cRows saved down sel f s = Some s' \<and> ?Q (0 + rows) s'"
    unfolding for_keys_def
  proof (rule for_up_total)
    show "?Q 0 s" using P by simp
  next
    fix r t assume r: "0 \<le> r" "r < 0 + rows" and Q: "?Q r t"
    have r': "r < 32" "r < rows" "r < length saved" "r < length down" using r len by simp_all
    show "\<exists>t'. (do {
       b \<leftarrow> shl1 r;
       if cRows AND b = 0 then Some t
       else do {
         changed \<leftarrow> arr_get saved r;
         d \<leftarrow> arr_get down r;
         for_columns cols (sel changed d) (f r) t } }) = Some t' \<and> ?Q (Suc r) t'"
    proof (cases "bit cRows r")
      case True
      have "\<exists>t'. for_columns cols (sel (saved ! r) (down ! r)) (f r) t = Some t' \<and> P ({..<r} \<times> {..<cols} \<union> {r} \<times> {..<cols}) t'"
        by (rule for_columns_rule [OF len(4), where P = P, OF Q]) (use step skip r' True in auto)
      with True r' and_shl1 [OF r'(1), of cRows] show ?thesis
        unfolding ins by (simp add: shl1_def mem del: push_bit_of_1)
    next
      case False
      have "P ({..<r} \<times> {..<cols} \<union> {r} \<times> {..<c}) t" if "c \<le> cols" for c
        using that
      proof (induction c)
        case (Suc c)
        have "{..<r} \<times> {..<cols} \<union> {r} \<times> {..<Suc c} = insert (r, c) ({..<r} \<times> {..<cols} \<union> {r} \<times> {..<c})"
          by (auto simp: less_Suc_eq)
        with Suc skip [OF r'(2), of c] False show ?case by simp
      qed (use Q in simp)
      from this [of cols] False r' and_shl1 [OF r'(1), of cRows] show ?thesis
        unfolding ins by (simp add: shl1_def del: push_bit_of_1)
    qed
  qed
  then show ?thesis by simp
qed

section \<open>The three passes\<close>

text \<open>The layout the passes rely on: every key has its own entry.\<close>

definition keys_wf :: "u8 \<Rightarrow> u8 \<Rightarrow> u16 list \<Rightarrow> layer_state \<Rightarrow> u16 list \<Rightarrow> bool" where
  "keys_wf rows cols keymap ls codes \<longleftrightarrow> unat rows \<le> 8 \<and> unat cols \<le> 32 \<and> unat rows * unat cols < 256 \<and>
     layer_inv ls \<and> length keymap = unat (ls_layerCount ls) * unat rows * unat cols \<and>
     length codes = unat rows * unat cols"

lemma key_pos_eq:
  assumes "unat rows * unat cols < 256" "r < unat rows" "c < unat cols"
  shows "key_pos cols r c = r * unat cols + c \<and> r * unat cols + c < unat rows * unat cols"
proof -
  have "r * unat cols + c < unat rows * unat cols" by (rule radix_less [OF assms(2,3)])
  with assms(1) show ?thesis by (simp add: key_pos_def unat_of_nat del: of_nat_add of_nat_mult)
qed

lemma key_pos_inj:
  assumes "unat rows * unat cols < 256" "r < unat rows" "c < unat cols" "r' < unat rows" "c' < unat cols"
  shows "key_pos cols r c = key_pos cols r' c' \<longleftrightarrow> r = r' \<and> c = c'"
  using key_pos_eq [OF assms(1-3)] key_pos_eq [OF assms(1,4,5)] radix_inj [OF assms(3,5)] by simp

lemma resolve_key_total:
  assumes wf: "keys_wf rows cols keymap ls codes" and r: "r < unat rows" "c < unat cols"
  shows "\<exists>code. resolve_key keymap rows cols r c ls = Some code"
proof -
  have "(of_nat r :: u8) < rows" "(of_nat c :: u8) < cols"
    using r unat_u8_less [of rows] unat_u8_less [of cols] by (simp_all add: word_less_nat_alt unat_of_nat)
  moreover have "length keymap = unat (ls_layerCount ls) * unat rows * unat cols" using wf by (simp add: keys_wf_def)
  ultimately show ?thesis
    by (simp add: resolve_key_def resolve_def resolve_from_eq split: option.split)
qed

text \<open>What a pass leaves: keys outside the selection keep their codes.\<close>

definition pass_inv ::
  "u8 \<Rightarrow> u8 \<Rightarrow> u16 list \<Rightarrow> (nat \<Rightarrow> nat \<Rightarrow> bool) \<Rightarrow> layer_state \<Rightarrow> u16 list \<Rightarrow> keys_state \<Rightarrow> bool" where
  "pass_inv rows cols keymap S ls0 codes0 = (\<lambda>(ls, codes, boot). keys_wf rows cols keymap ls codes \<and>
     ls_layerCount ls = ls_layerCount ls0 \<and>
     (\<forall>r < unat rows. \<forall>c < unat cols. \<not> S r c \<longrightarrow> codes ! key_pos cols r c = codes0 ! key_pos cols r c))"

lemma pass_inv_upd:
  assumes "pass_inv rows cols keymap S ls0 codes0 (ls, codes, boot)" and "S r c" "r < unat rows" "c < unat cols"
    and "layer_inv ls'" "ls_layerCount ls' = ls_layerCount ls"
  shows "pass_inv rows cols keymap S ls0 codes0 (ls', codes[key_pos cols r c := v], boot')"
proof -
  have "codes[key_pos cols r c := v] ! key_pos cols r' c' = codes ! key_pos cols r' c'"
    if "r' < unat rows" "c' < unat cols" "\<not> S r' c'" for r' c'
  proof -
    have "key_pos cols r c \<noteq> key_pos cols r' c'"
      using key_pos_inj [of rows cols r c r' c'] assms(1-4) that by (auto simp: pass_inv_def keys_wf_def)
    then show ?thesis by simp
  qed
  then show ?thesis using assms by (simp add: pass_inv_def keys_wf_def)
qed

lemma pass_inv_ls:
  assumes "pass_inv rows cols keymap S ls0 codes0 (ls, codes, boot)"
    and "layer_inv ls'" "ls_layerCount ls' = ls_layerCount ls"
  shows "pass_inv rows cols keymap S ls0 codes0 (ls', codes, boot')"
  using assms by (auto simp: pass_inv_def keys_wf_def)

lemma pass_inv_wf:
  "pass_inv rows cols keymap S ls0 codes0 (ls, codes, boot) \<Longrightarrow> keys_wf rows cols keymap ls codes"
  by (simp add: pass_inv_def)

lemma keys_wf_pos:
  "keys_wf rows cols keymap ls codes \<Longrightarrow> r < unat rows \<Longrightarrow> c < unat cols \<Longrightarrow> key_pos cols r c < length codes"
  using key_pos_eq [of rows cols r c] by (simp add: keys_wf_def)

lemma release_key_step:
  assumes P: "pass_inv rows cols keymap S ls0 codes0 t" and r: "S r c" "r < unat rows" "c < unat cols"
  shows "\<exists>t'. release_key cols r c t = Some t' \<and> pass_inv rows cols keymap S ls0 codes0 t' \<and>
    fst (snd t') = (fst (snd t))[key_pos cols r c := 0]"
proof -
  obtain ls codes boot where t: "t = (ls, codes, boot)" by (cases t) auto
  have wf: "keys_wf rows cols keymap ls codes" using P t pass_inv_wf by blast
  let ?p = "key_pos cols r c"
  have pos: "?p < length codes" by (rule keys_wf_pos [OF wf r(2,3)])
  have li: "layer_inv ls" using wf by (simp add: keys_wf_def)
  obtain ls' where ls': "applyLayerRelease ls (codes ! ?p) = Some ls'" "layer_inv ls'" "ls_layerCount ls' = ls_layerCount ls"
    using release_total [OF li] by blast
  note upd = pass_inv_upd [OF P [unfolded t] r]
  show ?thesis
  proof (cases "codes ! ?p = 0")
    case True
    then have "codes[?p := 0] = codes" by (metis list_update_id)
    with True pos P t show ?thesis by (simp add: release_key_def mem)
  next
    case False
    with pos ls' upd [OF li refl] upd [OF ls'(2,3)] show ?thesis
      by (auto simp: release_key_def mem t)
  qed
qed

lemma press_layer_key_step:
  assumes P: "pass_inv rows cols keymap S ls0 codes0 t" and r: "S r c" "r < unat rows" "c < unat cols"
  shows "\<exists>t'. press_layer_key keymap rows cols r c t = Some t' \<and> pass_inv rows cols keymap S ls0 codes0 t'"
proof -
  obtain ls codes boot where t: "t = (ls, codes, boot)" by (cases t) auto
  have wf: "keys_wf rows cols keymap ls codes" using P t pass_inv_wf by blast
  obtain code where code: "resolve_key keymap rows cols r c ls = Some code" using resolve_key_total [OF wf r(2,3)] by blast
  have li: "layer_inv ls" using wf by (simp add: keys_wf_def)
  obtain ls' where ls': "applyLayerPress ls code = Some ls'" "layer_inv ls'" "ls_layerCount ls' = ls_layerCount ls"
    using press_total [OF li] by blast
  note upd = pass_inv_upd [OF P [unfolded t] r]
  show ?thesis
    using keys_wf_pos [OF wf r(2,3)] code ls' upd [OF li refl] upd [OF ls'(2,3)] P
    by (auto simp: press_layer_key_def mem t)
qed

lemma press_key_step:
  assumes P: "pass_inv rows cols keymap S ls0 codes0 t" and r: "S r c" "r < unat rows" "c < unat cols"
  shows "\<exists>t'. press_key keymap rows cols r c t = Some t' \<and> pass_inv rows cols keymap S ls0 codes0 t'"
proof -
  obtain ls codes boot where t: "t = (ls, codes, boot)" by (cases t) auto
  have wf: "keys_wf rows cols keymap ls codes" using P t pass_inv_wf by blast
  obtain code where code: "resolve_key keymap rows cols r c ls = Some code" using resolve_key_total [OF wf r(2,3)] by blast
  have li: "layer_inv ls" using wf by (simp add: keys_wf_def)
  show ?thesis
    using keys_wf_pos [OF wf r(2,3)] code pass_inv_upd [OF P [unfolded t] r li refl] P
    by (simp add: press_key_def mem t Let_def)
qed

lemma pass_rule:
  assumes len: "unat rows \<le> length saved" "unat rows \<le> length down" and wf: "keys_wf rows cols keymap ls codes"
    and S: "\<And>r c. S r c \<longleftrightarrow> bit cRows r \<and> bit (sel (saved ! r) (down ! r)) c"
    and step: "\<And>r c t. S r c \<Longrightarrow> r < unat rows \<Longrightarrow> c < unat cols \<Longrightarrow> pass_inv rows cols keymap S ls codes t \<Longrightarrow>
      \<exists>t'. f r c t = Some t' \<and> pass_inv rows cols keymap S ls codes t'"
  shows "\<exists>t. for_keys (unat rows) (unat cols) cRows saved down sel f (ls, codes, boot) = Some t \<and>
    pass_inv rows cols keymap S ls codes t"
proof -
  have w: "unat rows \<le> 32" "unat cols \<le> 32" "pass_inv rows cols keymap S ls codes (ls, codes, boot)"
    using wf by (simp_all add: keys_wf_def pass_inv_def)
  show ?thesis
    by (rule for_keys_rule [OF len w(1,2), where P = "\<lambda>_. pass_inv rows cols keymap S ls codes"])
       (use w(3) step S in auto)
qed

text \<open>The release pass also clears every selected key.\<close>

lemma release_pass:
  assumes len: "unat rows \<le> length saved" "unat rows \<le> length down" and wf: "keys_wf rows cols keymap ls codes"
    and S: "\<And>r c. S r c \<longleftrightarrow> bit cRows r \<and> bit (released_keys (saved ! r) (down ! r)) c"
  shows "\<exists>ls' codes' boot'. for_keys (unat rows) (unat cols) cRows saved down released_keys (release_key cols) (ls, codes, boot) =
      Some (ls', codes', boot') \<and> pass_inv rows cols keymap S ls codes (ls', codes', boot') \<and>
    (\<forall>r < unat rows. \<forall>c < unat cols. S r c \<longrightarrow> codes' ! key_pos cols r c = 0)"
proof -
  let ?P = "\<lambda>D t. pass_inv rows cols keymap S ls codes t \<and>
    (\<forall>(r, c) \<in> D. r < unat rows \<and> c < unat cols \<and> (S r c \<longrightarrow> fst (snd t) ! key_pos cols r c = 0))"
  have w: "unat rows \<le> 32" "unat cols \<le> 32" "?P {} (ls, codes, boot)"
    using wf by (simp_all add: keys_wf_def pass_inv_def)
  have "\<exists>t. for_keys (unat rows) (unat cols) cRows saved down released_keys (release_key cols) (ls, codes, boot) = Some t \<and>
      ?P ({..<unat rows} \<times> {..<unat cols}) t"
  proof (rule for_keys_rule [OF len w(1,2), where P = ?P])
    show "?P {} (ls, codes, boot)" by (rule w(3))
  next
    fix D r c t
    assume r: "r < unat rows" "c < unat cols" "bit cRows r" "bit (released_keys (saved ! r) (down ! r)) c" and P: "?P D t"
    have s: "S r c" using r S by simp
    obtain t' where t': "release_key cols r c t = Some t'" "pass_inv rows cols keymap S ls codes t'"
      "fst (snd t') = (fst (snd t))[key_pos cols r c := 0]"
      using release_key_step [OF conjunct1 [OF P] s r(1,2)] by blast
    have "keys_wf rows cols keymap (fst t) (fst (snd t))" using P by (cases t) (auto simp: pass_inv_def)
    then have p: "key_pos cols r c < length (fst (snd t))" using r(1,2) keys_wf_pos by blast
    then have "?P (insert (r, c) D) t'" using P t' r(1,2)
      by (auto simp: nth_list_update) 
    with t'(1) show "\<exists>t'. release_key cols r c t = Some t' \<and> ?P (insert (r, c) D) t'" by blast
  next
    fix D r c t
    assume r: "r < unat rows" "c < unat cols" and n: "\<not> (bit cRows r \<and> bit (released_keys (saved ! r) (down ! r)) c)" and P: "?P D t"
    then show "?P (insert (r, c) D) t" using S by auto
  qed
  then obtain t where t: "for_keys (unat rows) (unat cols) cRows saved down released_keys (release_key cols) (ls, codes, boot) = Some t"
    "?P ({..<unat rows} \<times> {..<unat cols}) t" by blast
  obtain ls' codes' boot' where "t = (ls', codes', boot')" by (cases t) auto
  with t show ?thesis by auto
qed

text \<open>All three: after them, a key that is not held has its entry only if the change was not seen.\<close>

lemma apply_changes_total:
  assumes len: "unat rows \<le> length saved" "unat rows \<le> length down" and wf: "keys_wf rows cols keymap ls codes"
  shows "\<exists>ls' codes' boot'. apply_changes keymap rows cols cRows saved down (ls, codes, boot) = Some (ls', codes', boot') \<and>
    keys_wf rows cols keymap ls' codes' \<and> ls_layerCount ls' = ls_layerCount ls \<and>
    (\<forall>r < unat rows. \<forall>c < unat cols. \<not> bit (down ! r) c \<longrightarrow>
       codes' ! key_pos cols r c =
         (if cRows \<noteq> 0 \<and> bit cRows r \<and> bit (saved ! r) c then 0 else codes ! key_pos cols r c))"
proof (cases "cRows = 0")
  case True
  with wf show ?thesis by (simp add: apply_changes_def)
next
  case False
  let ?R = "\<lambda>r c. bit cRows r \<and> bit (released_keys (saved ! r) (down ! r)) c"
  let ?S = "\<lambda>r c. bit cRows r \<and> bit (pressed_keys (saved ! r) (down ! r)) c"
  obtain ls1 codes1 boot1 where p1: "for_keys (unat rows) (unat cols) cRows saved down released_keys (release_key cols) (ls, codes, boot) =
      Some (ls1, codes1, boot1)" "pass_inv rows cols keymap ?R ls codes (ls1, codes1, boot1)"
      "\<forall>r < unat rows. \<forall>c < unat cols. ?R r c \<longrightarrow> codes1 ! key_pos cols r c = 0"
    using release_pass [OF len wf, where S = ?R] by blast
  have wf1: "keys_wf rows cols keymap ls1 codes1" by (rule pass_inv_wf [OF p1(2)])
  obtain t2 where t2: "for_keys (unat rows) (unat cols) cRows saved down pressed_keys (press_layer_key keymap rows cols)
      (ls1, codes1, boot1) = Some t2" "pass_inv rows cols keymap ?S ls1 codes1 t2"
    using pass_rule [OF len wf1, of ?S cRows pressed_keys "press_layer_key keymap rows cols" boot1] press_layer_key_step
    by blast
  obtain ls2 codes2 boot2 where e2: "t2 = (ls2, codes2, boot2)" by (cases t2) auto
  have wf2: "keys_wf rows cols keymap ls2 codes2" using t2(2) e2 pass_inv_wf by blast
  obtain t3 where t3: "for_keys (unat rows) (unat cols) cRows saved down pressed_keys (press_key keymap rows cols)
      (ls2, codes2, boot2) = Some t3" "pass_inv rows cols keymap ?S ls2 codes2 t3"
    using pass_rule [OF len wf2, of ?S cRows pressed_keys "press_key keymap rows cols" boot2] press_key_step
    by blast
  obtain ls3 codes3 boot3 where e3: "t3 = (ls3, codes3, boot3)" by (cases t3) auto
  have "codes3 ! key_pos cols r c = (if bit cRows r \<and> bit (saved ! r) c then 0 else codes ! key_pos cols r c)"
    if rc: "r < unat rows" "c < unat cols" and up: "\<not> bit (down ! r) c" for r c
  proof -
    have ns: "\<not> ?S r c" using up by (simp add: pressed_keys_def bit_and_iff)
    have "codes3 ! key_pos cols r c = codes1 ! key_pos cols r c"
      using t3(2) t2(2) rc ns by (simp add: e3 e2 pass_inv_def)
    also have "\<dots> = (if ?R r c then 0 else codes ! key_pos cols r c)"
      using p1(2,3) rc by (simp add: pass_inv_def)
    also have "?R r c \<longleftrightarrow> bit cRows r \<and> bit (saved ! r) c"
      using up bit_imp_le_length [of "saved ! r" c] by (auto simp: released_keys_def bit_simps)
    finally show ?thesis .
  qed
  moreover have "ls_layerCount ls3 = ls_layerCount ls" "keys_wf rows cols keymap ls3 codes3"
    using t3(2) t2(2) p1(2) by (simp_all add: e3 e2 pass_inv_def)
  ultimately show ?thesis using False p1(1) t2(1) t3(1) by (simp add: apply_changes_def e2 e3)
qed

end
