(* ===== verification/Keyboard_Task.thy ===== *)
theory Keyboard_Task
  imports Keyboard_Keys
begin

text \<open>\<open>Keyboard::task\<close> as a whole, and the loop in which the sketches run it: it never leaves its
  arrays, no key stays active after its release, and the report handed to the host is current.\<close>

section \<open>Reading and acknowledging changes\<close>

lemma changedRows_mask_bits:
  assumes "mx_inv m"
  shows "\<exists>w. changedRows_mask m = Some w \<and> (\<forall>r. bit w r \<longleftrightarrow> r < row_count m \<and> mx_changedRows m ! r \<noteq> 0)"
proof -
  have len: "length (mx_changedRows m) = row_count m" "row_count m \<le> 8" using assms by (auto simp: mx_inv_def)
  let ?P = "\<lambda>j (w :: u32). \<forall>r. bit w r \<longleftrightarrow> r < j \<and> mx_changedRows m ! r \<noteq> 0"
  have "\<exists>w. changedRows_mask m = Some w \<and> ?P (0 + row_count m) w"
    unfolding changedRows_mask_def rows_mask_def
  proof (rule for_up_total)
    fix j and w :: u32 assume j: "0 \<le> j" "j < 0 + row_count m" and P: "?P j w"
    have "bit (push_bit j 1 :: u32) r \<longleftrightarrow> r = j" for r using j len by (auto simp: bit_exp_iff)
    with j P len show "\<exists>w'. do {
       v \<leftarrow> arr_get (mx_changedRows m) j;
       if v \<noteq> 0 then do { b \<leftarrow> shl1 j; Some (w OR b) } else Some w } = Some w' \<and> ?P (Suc j) w'"
      by (auto simp: mem bit_or_iff less_Suc_eq)
  qed simp
  then show ?thesis by simp
qed

lemma hasChanged_eq:
  assumes "mx_inv m"
  shows "\<exists>b. hasChanged m = Some (b, m\<lparr>mx_changedRows := replicate (row_count m) 0\<rparr>)"
proof -
  have len: "length (mx_changedRows m) = row_count m" using assms by (auto simp: mx_inv_def)
  let ?P = "\<lambda>j any. any \<longleftrightarrow> (\<exists>r < j. mx_changedRows m ! r \<noteq> 0)"
  have "\<exists>any. for_up 0 (row_count m) (\<lambda>r any. do {
       v \<leftarrow> (if any then Some 0 else arr_get (mx_changedRows m) r);
       Some (any \<or> v \<noteq> 0) }) False = Some any \<and> ?P (0 + row_count m) any"
    by (rule for_up_total) (use len in \<open>auto simp: mem less_Suc_eq\<close>)
  then obtain any where any: "for_up 0 (row_count m) (\<lambda>r any. do {
       v \<leftarrow> (if any then Some 0 else arr_get (mx_changedRows m) r);
       Some (any \<or> v \<noteq> 0) }) False = Some any" "any \<longleftrightarrow> (\<exists>r < row_count m. mx_changedRows m ! r \<noteq> 0)" by auto
  show ?thesis
  proof (cases any)
    case True
    have "for_up 0 (row_count m) (\<lambda>j ch. arr_set ch j 0) (mx_changedRows m) = Some (replicate (row_count m) 0)"
      using clear_counts [of "row_count m" "mx_changedRows m"] len by simp
    with any(1) True show ?thesis by (auto simp: hasChanged_def)
  next
    case False
    then have "mx_changedRows m = replicate (row_count m) 0" using any(2) len by (simp add: list_eq_iff_nth_eq)
    with any(1) False show ?thesis by (intro exI [of _ False]) (auto simp: hasChanged_def)
  qed
qed

lemma save_changed_eq:
  assumes "mx_inv (kb_matrix k)" "row_count (kb_matrix k) = unat (kb_rows k)"
  shows "\<exists>saved. save_changed k = Some saved \<and> length saved = 8 \<and>
    (\<forall>r < unat (kb_rows k). saved ! r = mx_changedRows (kb_matrix k) ! r)"
proof -
  let ?P = "\<lambda>j saved. length saved = 8 \<and> (\<forall>r < j. saved ! r = mx_changedRows (kb_matrix k) ! r)"
  have len: "length (mx_changedRows (kb_matrix k)) = unat (kb_rows k)" "unat (kb_rows k) \<le> 8"
    using assms by (auto simp: mx_inv_def)
  have "\<exists>saved. save_changed k = Some saved \<and> ?P (0 + unat (kb_rows k)) saved"
    unfolding save_changed_def
    by (rule for_up_total) (use len in \<open>auto simp: mem mx_changedRow_def less_Suc_eq nth_list_update\<close>)
  then show ?thesis by simp
qed

lemma any_active_total: "n \<le> length codes \<Longrightarrow> \<exists>b. any_active codes n = Some b"
proof -
  assume n: "n \<le> length codes"
  have "\<exists>b. any_active codes n = Some b \<and> True"
    unfolding any_active_def by (rule for_up_total) (use n in \<open>auto simp: mem\<close>)
  then show ?thesis by simp
qed

section \<open>Invariants of the keyboard\<close>

definition kb_inv :: "u16 list \<Rightarrow> ('io, 'h) keyboard \<Rightarrow> bool" where
  "kb_inv keymap k \<longleftrightarrow> kb_activeCodes k \<noteq> None \<and>
     keys_wf (kb_rows k) (kb_columns k) keymap (kb_layerState k) (active_codes k) \<and>
     mx_inv (kb_matrix k) \<and> row_count (kb_matrix k) = unat (kb_rows k) \<and> col_count (kb_matrix k) = unat (kb_columns k)"

text \<open>The report most recently handed to the host, accepted or not.\<close>

definition latest_report :: "('io, 'h) keyboard \<Rightarrow> report" where
  "latest_report k = (if kb_reportPending k then kb_pendingReport k else kb_lastAcceptedReport k)"

definition report_current :: "('io, 'h) keyboard \<Rightarrow> bool" where
  "report_current k \<longleftrightarrow> kb_wasSuspended k \<or> buildReport k = Some (latest_report k)"

text \<open>An active key is down, or its release is still marked as a change.\<close>

definition keys_seen :: "('io, 'h) keyboard \<Rightarrow> bool" where
  "keys_seen k \<longleftrightarrow> (\<forall>r < unat (kb_rows k). \<forall>c < unat (kb_columns k).
     active_codes k ! key_pos (kb_columns k) r c \<noteq> 0 \<longrightarrow>
     bit (mx_stableRows (kb_matrix k) ! r) c \<or> bit (mx_changedRows (kb_matrix k) ! r) c)"

text \<open>Every active key is down and no change is outstanding.\<close>

definition no_stuck_key :: "('io, 'h) keyboard \<Rightarrow> bool" where
  "no_stuck_key k \<longleftrightarrow> (\<forall>r < unat (kb_rows k). \<forall>c < unat (kb_columns k).
     active_codes k ! key_pos (kb_columns k) r c \<noteq> 0 \<longrightarrow> bit (mx_stableRows (kb_matrix k) ! r) c) \<and>
     mx_changedRows (kb_matrix k) = replicate (unat (kb_rows k)) 0"

text \<open>The phases that do not touch the keys.\<close>

definition same_keys :: "('io, 'h) keyboard \<Rightarrow> ('io, 'h) keyboard \<Rightarrow> bool" where
  "same_keys k k' \<longleftrightarrow> kb_rows k' = kb_rows k \<and> kb_columns k' = kb_columns k \<and> kb_matrix k' = kb_matrix k \<and>
     kb_activeCodes k' = kb_activeCodes k \<and> kb_layerState k' = kb_layerState k"

lemma same_keys_facts:
  assumes "same_keys k k'"
  shows "kb_inv keymap k' \<longleftrightarrow> kb_inv keymap k" "keys_seen k' \<longleftrightarrow> keys_seen k" "no_stuck_key k' \<longleftrightarrow> no_stuck_key k"
    "buildReport k' = buildReport k" "active_codes k' = active_codes k"
  using assms by (simp_all add: same_keys_def kb_inv_def keys_seen_def no_stuck_key_def active_codes_def buildReport_def)

lemma kb_inv_total: "kb_inv keymap k \<Longrightarrow> key_total (kb_rows k) (kb_columns k) = length (active_codes k)"
  by (simp add: kb_inv_def keys_wf_def key_total_def unat_word_ariths)

lemma buildReport_total: "kb_inv keymap k \<Longrightarrow> \<exists>r. buildReport k = Some r"
proof -
  assume inv: "kb_inv keymap k"
  then have "length (active_codes k) < 256" by (simp add: kb_inv_def keys_wf_def)
  from build_report_eq [OF this] show ?thesis using kb_inv_total [OF inv] by (auto simp: buildReport_def)
qed

lemma report_phase_total:
  assumes inv: "kb_inv keymap k"
  shows "\<exists>k'. report_phase hv boot k = Some k' \<and> same_keys k k' \<and> report_current k'"
proof (cases "hid_suspended hv (kb_hid k)")
  case True
  obtain b where "any_active (active_codes k) (key_total (kb_rows k) (kb_columns k)) = Some b"
    using any_active_total kb_inv_total [OF inv] by (metis order_refl)
  then show ?thesis using True
    by (auto simp: report_phase_def wake_host_def same_keys_def report_current_def active_codes_def)
next
  case False
  obtain r where r: "buildReport k = Some r" using buildReport_total [OF inv] by blast
  let ?k = "k\<lparr>kb_wasSuspended := False, kb_wakeRequested := False\<rparr>"
  have e: "buildReport ?k = Some r" using r by (simp add: buildReport_def active_codes_def)
  have s: "same_keys ?k (send_desired hv r ?k)" "latest_report (send_desired hv r ?k) = r"
    by (auto simp: send_desired_def same_keys_def latest_report_def)
  then have sk: "same_keys k (send_desired hv r ?k)" by (simp add: same_keys_def)
  let ?k' = "if boot \<and> kb_callbacks (send_desired hv r ?k)
    then send_desired hv r ?k\<lparr>kb_events := kb_events (send_desired hv r ?k) @ [BootloaderRequested]\<rparr> else send_desired hv r ?k"
  have "report_phase hv boot k = Some ?k'" using False e by (simp add: report_phase_def Let_def)
  moreover have "same_keys k ?k'" using sk by (simp add: same_keys_def)
  moreover have "report_current ?k'"
    using same_keys_facts(4) [OF \<open>same_keys k ?k'\<close>] r s(2) by (auto simp: report_current_def latest_report_def)
  ultimately show ?thesis by blast
qed

lemma change_phase_total:
  assumes inv: "kb_inv keymap k" and cRows: "changedRows_mask (kb_matrix k) = Some cRows"
  shows "\<exists>k'. change_phase hv keymap cRows k = Some k' \<and> kb_inv keymap k' \<and> report_current k' \<and>
    kb_rows k' = kb_rows k \<and> kb_columns k' = kb_columns k \<and>
    mx_stableRows (kb_matrix k') = mx_stableRows (kb_matrix k) \<and> (keys_seen k \<longrightarrow> no_stuck_key k')"
proof -
  let ?m = "kb_matrix k"
  have mx: "mx_inv ?m" "row_count ?m = unat (kb_rows k)" and codes: "kb_activeCodes k = Some (active_codes k)"
    and wf: "keys_wf (kb_rows k) (kb_columns k) keymap (kb_layerState k) (active_codes k)"
    using inv by (auto simp: kb_inv_def active_codes_def)
  have len: "unat (kb_rows k) \<le> 8" "length (mx_stableRows ?m) = unat (kb_rows k)" using mx by (auto simp: mx_inv_def)
  obtain saved where saved: "save_changed k = Some saved" "length saved = 8"
    "\<forall>r < unat (kb_rows k). saved ! r = mx_changedRows ?m ! r" using save_changed_eq [OF mx] by blast
  obtain b where b: "hasChanged ?m = Some (b, ?m\<lparr>mx_changedRows := replicate (row_count ?m) 0\<rparr>)"
    using hasChanged_eq [OF mx(1)] by blast
  have bits: "bit cRows r \<longleftrightarrow> r < unat (kb_rows k) \<and> mx_changedRows ?m ! r \<noteq> 0" for r
    using changedRows_mask_bits [OF mx(1)] cRows mx(2) by auto
  have l: "unat (kb_rows k) \<le> length saved" "unat (kb_rows k) \<le> length (mx_stableRows ?m)" using saved(2) len by simp_all
  obtain ls' codes' boot where ac: "apply_changes keymap (kb_rows k) (kb_columns k) cRows saved (mx_stableRows ?m)
      (kb_layerState k, active_codes k, False) = Some (ls', codes', boot)"
    "keys_wf (kb_rows k) (kb_columns k) keymap ls' codes'"
    "\<forall>r < unat (kb_rows k). \<forall>c < unat (kb_columns k). \<not> bit (mx_stableRows ?m ! r) c \<longrightarrow>
       codes' ! key_pos (kb_columns k) r c =
         (if cRows \<noteq> 0 \<and> bit cRows r \<and> bit (saved ! r) c then 0 else active_codes k ! key_pos (kb_columns k) r c)"
    using apply_changes_total [OF l wf, of cRows False] by auto
  let ?k = "k\<lparr>kb_matrix := ?m\<lparr>mx_changedRows := replicate (row_count ?m) 0\<rparr>, kb_layerState := ls', kb_activeCodes := Some codes'\<rparr>"
  have inv': "kb_inv keymap ?k" using inv ac(2) by (auto simp: kb_inv_def active_codes_def mx_inv_def row_count_def col_count_def)
  obtain k' where k': "report_phase hv boot ?k = Some k'" "same_keys ?k k'" "report_current k'"
    using report_phase_total [OF inv'] by blast
  have "change_phase hv keymap cRows k = Some k'"
    using saved(1) b ac(1) k'(1) codes by (simp add: change_phase_def)
  moreover have "no_stuck_key ?k" if seen: "keys_seen k"
    unfolding no_stuck_key_def
  proof (intro conjI allI impI)
    fix r c assume rc: "r < unat (kb_rows ?k)" "c < unat (kb_columns ?k)"
      and act: "active_codes ?k ! key_pos (kb_columns ?k) r c \<noteq> 0"
    show "bit (mx_stableRows (kb_matrix ?k) ! r) c"
    proof (rule ccontr)
      assume "\<not> bit (mx_stableRows (kb_matrix ?k) ! r) c"
      then have up: "\<not> bit (mx_stableRows ?m ! r) c" by simp
      then have c0: "codes' ! key_pos (kb_columns k) r c =
         (if cRows \<noteq> 0 \<and> bit cRows r \<and> bit (saved ! r) c then 0 else active_codes k ! key_pos (kb_columns k) r c)"
        using ac(3) rc by simp
      with act have "\<not> (cRows \<noteq> 0 \<and> bit cRows r \<and> bit (saved ! r) c)" "active_codes k ! key_pos (kb_columns k) r c \<noteq> 0"
        by (auto simp: active_codes_def split: if_splits)
      moreover from this(2) have "bit (mx_changedRows ?m ! r) c" using seen rc up by (auto simp: keys_seen_def)
      moreover from this have "mx_changedRows ?m ! r \<noteq> 0" by auto
      moreover from this have "bit cRows r" using bits rc(1) by simp
      moreover from this have "cRows \<noteq> 0" by auto
      ultimately show False using saved(3) rc(1) by simp
    qed
  next
    show "mx_changedRows (kb_matrix ?k) = replicate (unat (kb_rows ?k)) 0" using mx(2) by simp
  qed
  ultimately show ?thesis using k' inv' same_keys_facts(1,3) [OF k'(2)] by (auto simp: same_keys_def)
qed

section \<open>The task\<close>

text \<open>A HID port whose LED reports run dry when nothing new arrives: the loop over
  \<open>takeHostLeds\<close> ends.\<close>

locale keyboard_port =
  fixes hv :: "'h hid_vt" and leds_pending :: "'h \<Rightarrow> nat"
  assumes leds_dry: "hid_takeHostLeds hv h = (Some leds, h') \<Longrightarrow> leds_pending h' < leds_pending h"
begin

lemma drain_leds_total:
  "\<exists>h leds evs. drain_leds hv k =
     Some (k\<lparr>kb_hid := h, kb_lastHostLeds := leds, kb_events := kb_events k @ map HostLedsChanged evs\<rparr>)"
proof (induction "leds_pending (kb_hid k)" arbitrary: k rule: less_induct)
  case less
  obtain o1 h1 where t: "hid_takeHostLeds hv (kb_hid k) = (o1, h1)" by fastforce
  show ?case
  proof (cases o1)
    case None
    have "drain_leds hv k = Some (k\<lparr>kb_hid := h1\<rparr>)" by (subst drain_leds.simps) (simp add: t None)
    also have "k\<lparr>kb_hid := h1\<rparr> = k\<lparr>kb_hid := h1, kb_lastHostLeds := kb_lastHostLeds k, kb_events := kb_events k @ map HostLedsChanged []\<rparr>"
      by simp
    finally show ?thesis by blast
  next
    case (Some l)
    let ?k = "if kb_callbacks k \<and> l \<noteq> kb_lastHostLeds k
           then k\<lparr>kb_hid := h1, kb_lastHostLeds := l, kb_events := kb_events k @ [HostLedsChanged l]\<rparr>
           else k\<lparr>kb_hid := h1\<rparr>"
    have "leds_pending (kb_hid ?k) < leds_pending (kb_hid k)" using leds_dry t Some by simp
    then obtain h leds evs where e: "drain_leds hv ?k =
        Some (?k\<lparr>kb_hid := h, kb_lastHostLeds := leds, kb_events := kb_events ?k @ map HostLedsChanged evs\<rparr>)"
      using less by blast
    have "drain_leds hv k = drain_leds hv ?k" by (subst drain_leds.simps) (simp add: t Some)
    also note e
    finally have d: "drain_leds hv k =
        Some (?k\<lparr>kb_hid := h, kb_lastHostLeds := leds, kb_events := kb_events ?k @ map HostLedsChanged evs\<rparr>)" .
    show ?thesis
    proof (cases "kb_callbacks k \<and> l \<noteq> kb_lastHostLeds k")
      case True
      with d show ?thesis by (intro exI [of _ h] exI [of _ leds] exI [of _ "l # evs"]) simp
    next
      case False
      with d show ?thesis by (intro exI [of _ h] exI [of _ leds] exI [of _ evs]) auto
    qed
  qed
qed

lemma finish_report_same: "same_keys k (finish_report hv k) \<and> latest_report (finish_report hv k) = latest_report k \<and>
    kb_wasSuspended (finish_report hv k) = kb_wasSuspended k"
  by (auto simp: finish_report_def same_keys_def latest_report_def split: prod.splits bool.splits)

lemma keyboard_task_sound:
  assumes inv: "kb_inv keymap k"
  shows "\<exists>k'. keyboard_task hv keymap k = Some k' \<and> kb_inv keymap k' \<and>
    kb_rows k' = kb_rows k \<and> kb_columns k' = kb_columns k \<and>
    mx_stableRows (kb_matrix k') = mx_stableRows (kb_matrix k) \<and>
    (report_current k \<longrightarrow> report_current k') \<and> (keys_seen k \<longrightarrow> no_stuck_key k')"
proof -
  obtain h leds evs where d: "drain_leds hv k =
      Some (k\<lparr>kb_hid := h, kb_lastHostLeds := leds, kb_events := kb_events k @ map HostLedsChanged evs\<rparr>)" (is "_ = Some ?k1")
    using drain_leds_total by blast
  let ?k2 = "finish_report hv ?k1"
  have s1: "same_keys k ?k1" "latest_report ?k1 = latest_report k" by (simp_all add: same_keys_def latest_report_def)
  have s2: "same_keys k ?k2" "latest_report ?k2 = latest_report k" "kb_wasSuspended ?k2 = kb_wasSuspended k"
    using finish_report_same [of ?k1] s1 by (simp_all add: same_keys_def)
  have rows: "kb_rows ?k2 = kb_rows k" "kb_columns ?k2 = kb_columns k" "kb_matrix ?k2 = kb_matrix k"
    using s2(1) by (simp_all add: same_keys_def)
  have inv2: "kb_inv keymap ?k2" using inv same_keys_facts(1) [OF s2(1)] by simp
  have cur2: "report_current ?k2 \<longleftrightarrow> report_current k"
    using s2 same_keys_facts(4) [OF s2(1)] by (simp add: report_current_def)
  have mx: "mx_inv (kb_matrix k)" "row_count (kb_matrix k) = unat (kb_rows k)" using inv by (simp_all add: kb_inv_def)
  obtain cRows where c: "changedRows_mask (kb_matrix k) = Some cRows"
    "\<And>r. bit cRows r \<longleftrightarrow> r < row_count (kb_matrix k) \<and> mx_changedRows (kb_matrix k) ! r \<noteq> 0"
    using changedRows_mask_bits [OF mx(1)] by blast
  show ?thesis
  proof (cases "cRows = 0 \<and> \<not> (kb_wasSuspended ?k2 \<and> \<not> hid_suspended hv (kb_hid ?k2))")
    case True
    let ?k3 = "?k2\<lparr>kb_wasSuspended := hid_suspended hv (kb_hid ?k2)\<rparr>"
    have "keyboard_task hv keymap k = Some ?k3" using d c(1) True rows by (simp add: keyboard_task_def Let_def)
    moreover have s3: "same_keys ?k2 ?k3" by (simp add: same_keys_def)
    moreover have "report_current k \<longrightarrow> report_current ?k3"
      using cur2 same_keys_facts(4) [OF s3] True by (auto simp: report_current_def latest_report_def)
    moreover have "keys_seen k \<longrightarrow> no_stuck_key ?k3"
    proof
      assume seen: "keys_seen k"
      have len: "length (mx_changedRows (kb_matrix k)) = unat (kb_rows k)" using mx by (simp add: mx_inv_def)
      have "mx_changedRows (kb_matrix k) ! r = 0" if "r < unat (kb_rows k)" for r
        using c(2) [of r] True that mx(2) by simp
      then have z: "mx_changedRows (kb_matrix k) = replicate (unat (kb_rows k)) 0"
        using len by (simp add: list_eq_iff_nth_eq)
      with seen have "no_stuck_key k" by (simp add: no_stuck_key_def keys_seen_def)
      then show "no_stuck_key ?k3" using same_keys_facts(3) s2(1) s3 by blast
    qed
    ultimately show ?thesis using inv2 same_keys_facts(1) [OF s3] rows by (auto simp: same_keys_def)
  next
    case False
    have "changedRows_mask (kb_matrix ?k2) = Some cRows" using c(1) rows(3) by simp
    from change_phase_total [OF inv2 this, of hv] obtain k' where k': "change_phase hv keymap cRows ?k2 = Some k'"
      "kb_inv keymap k'" "report_current k'" "kb_rows k' = kb_rows k" "kb_columns k' = kb_columns k"
      "mx_stableRows (kb_matrix k') = mx_stableRows (kb_matrix k)" "keys_seen ?k2 \<longrightarrow> no_stuck_key k'"
      using rows by auto
    moreover have "keyboard_task hv keymap k = Some k'" using d c(1) False k'(1) rows by (auto simp: keyboard_task_def Let_def)
    ultimately show ?thesis using same_keys_facts(2) [OF s2(1)] by blast
  qed
qed

end

text \<open>The matrix task in between: a key that is released is marked as changed.\<close>

lemma debounce_marks:
  assumes inv: "mx_inv m" and z: "mx_changedRows m = replicate (row_count m) 0" and step: "matrix_debounce m ms = Some m'"
    and r: "r < row_count m" and b: "bit (mx_stableRows m ! r) c"
  shows "bit (mx_stableRows m' ! r) c \<or> bit (mx_changedRows m' ! r) c"
proof -
  have len: "length (mx_stableRows m) = row_count m" "length (mx_candidateRows m) = row_count m" "length (mx_rawRows m) = row_count m"
    using inv by (auto simp: mx_inv_def)
  have "c < 32" using bit_imp_le_length [OF b] by simp
  then show ?thesis
    using step r b len by (auto simp: matrix_debounce_eq [OF inv] Let_def settle_def copy_raw_def bit_simps split: if_splits)
qed

section \<open>The loop of the sketches\<close>

text \<open>One turn of the loop: scan, then handle the changes.\<close>

definition keyboard_turn ::
  "'io matrix_io \<Rightarrow> 'h hid_vt \<Rightarrow> u16 list \<Rightarrow> ('io, 'h) keyboard \<Rightarrow> u32 \<Rightarrow> ('io, 'h) keyboard option" where
  "keyboard_turn vt hv keymap k ms = do {
     m \<leftarrow> matrix_task vt (kb_matrix k) ms;
     keyboard_task hv keymap (k\<lparr>kb_matrix := m\<rparr>) }"

fun keyboard_run ::
  "'io matrix_io \<Rightarrow> 'h hid_vt \<Rightarrow> u16 list \<Rightarrow> ('io, 'h) keyboard \<Rightarrow> u32 list \<Rightarrow> ('io, 'h) keyboard option" where
  "keyboard_run vt hv keymap k [] = Some k"
| "keyboard_run vt hv keymap k (ms # mss) = do {
     k' \<leftarrow> keyboard_turn vt hv keymap k ms;
     keyboard_run vt hv keymap k' mss }"

lemma matrix_task_marks:
  assumes port: "matrix_port vt" and inv: "mx_inv m" and z: "mx_changedRows m = replicate (row_count m) 0"
  shows "\<exists>m'. matrix_task vt m ms = Some m' \<and> mx_inv m' \<and> mx_config m' = mx_config m \<and>
    (\<forall>r < row_count m. \<forall>c. bit (mx_stableRows m ! r) c \<longrightarrow> bit (mx_stableRows m' ! r) c \<or> bit (mx_changedRows m' ! r) c)"
proof -
  obtain m1 m' where m: "matrix_scan vt m = Some m1" "same_config m m1" "matrix_task vt m ms = Some m'" "mx_inv m'"
    "mx_config m' = mx_config m" using matrix_port.matrix_task_total [OF port inv] by blast
  have i1: "mx_inv m1" by (rule same_config_inv [OF m(2) inv])
  have n: "row_count m1 = row_count m" using m(2) by (simp add: same_config_def row_count_def)
  have z1: "mx_changedRows m1 = replicate (row_count m1) 0" using z m(2) n by (simp add: same_config_def)
  have "matrix_debounce m1 ms = Some m'" using m(1,3) by (simp add: matrix_task_def)
  from debounce_marks [OF i1 z1 this] m n show ?thesis by (auto simp: same_config_def)
qed

lemma keyboard_turn_sound:
  assumes port: "matrix_port vt" and hid: "keyboard_port hv pend"
    and inv: "kb_inv keymap k" and held: "no_stuck_key k"
  shows "\<exists>k'. keyboard_turn vt hv keymap k ms = Some k' \<and> kb_inv keymap k' \<and> no_stuck_key k' \<and>
    (report_current k \<longrightarrow> report_current k') \<and> kb_rows k' = kb_rows k \<and> kb_columns k' = kb_columns k"
proof -
  have mx: "mx_inv (kb_matrix k)" "row_count (kb_matrix k) = unat (kb_rows k)" using inv by (simp_all add: kb_inv_def)
  have z: "mx_changedRows (kb_matrix k) = replicate (row_count (kb_matrix k)) 0" using held mx by (simp add: no_stuck_key_def)
  obtain m where m: "matrix_task vt (kb_matrix k) ms = Some m" "mx_inv m" "mx_config m = mx_config (kb_matrix k)"
    "\<forall>r < row_count (kb_matrix k). \<forall>c. bit (mx_stableRows (kb_matrix k) ! r) c \<longrightarrow>
       bit (mx_stableRows m ! r) c \<or> bit (mx_changedRows m ! r) c"
    using matrix_task_marks [OF port mx(1) z] by blast
  let ?k = "k\<lparr>kb_matrix := m\<rparr>"
  have i: "kb_inv keymap ?k" using inv m(2,3) by (auto simp: kb_inv_def active_codes_def row_count_def col_count_def)
  have s: "keys_seen ?k" using held m(4) mx(2) by (auto simp: keys_seen_def no_stuck_key_def active_codes_def)
  have c: "report_current ?k \<longleftrightarrow> report_current k"
    by (simp add: report_current_def buildReport_def active_codes_def latest_report_def)
  from keyboard_port.keyboard_task_sound [OF hid i] s c m(1) show ?thesis
    by (auto simp: keyboard_turn_def)
qed

lemma keyboard_run_sound:
  assumes port: "matrix_port vt" and hid: "keyboard_port hv pend"
    and inv: "kb_inv keymap k" and held: "no_stuck_key k" and cur: "report_current k"
  shows "\<exists>k'. keyboard_run vt hv keymap k mss = Some k' \<and> kb_inv keymap k' \<and> no_stuck_key k' \<and> report_current k' \<and>
    kb_rows k' = kb_rows k \<and> kb_columns k' = kb_columns k"
  using inv held cur
proof (induction mss arbitrary: k)
  case (Cons ms mss)
  from keyboard_turn_sound [OF port hid Cons.prems(1,2), of ms] Cons.prems(3) obtain k1 where
    "keyboard_turn vt hv keymap k ms = Some k1" "kb_inv keymap k1" "no_stuck_key k1" "report_current k1"
    "kb_rows k1 = kb_rows k" "kb_columns k1 = kb_columns k" by blast
  with Cons.IH [of k1] show ?case by auto
qed simp

text \<open>The keyboard as the sketches construct it: no key active, no change outstanding.\<close>

lemma keyboard_new_sound:
  assumes mx: "mx_inv m" "row_count m = unat rows" "col_count m = unat cols" "mx_changedRows m = replicate (unat rows) 0"
    and size: "unat rows * unat cols < 256" "unat layers \<le> 32" "length keymap = unat layers * unat rows * unat cols"
    and codes: "codes = replicate (unat rows * unat cols) 0"
  shows "kb_inv keymap (keyboard_new rows cols m layers h (Some codes) cb) \<and>
    no_stuck_key (keyboard_new rows cols m layers h (Some codes) cb) \<and>
    report_current (keyboard_new rows cols m layers h (Some codes) cb)"
proof -
  let ?k = "keyboard_new rows cols m layers h (Some codes) cb"
  have "layers \<le> 32" using size(2) by (simp add: word_le_nat_alt)
  then have inv: "kb_inv keymap ?k"
    using assms layer_inv_new [of layers] by (auto simp: kb_inv_def keyboard_new_def active_codes_def keys_wf_def mx_inv_def layer_begin_def)
  moreover have "no_stuck_key ?k"
  proof -
    have "codes ! key_pos cols r c = 0" if "r < unat rows" "c < unat cols" for r c
      using key_pos_eq [OF size(1) that] codes by simp
    then show ?thesis using mx(4) by (simp add: no_stuck_key_def keyboard_new_def active_codes_def)
  qed
  moreover have "report_current ?k"
  proof -
    have "basic_usages codes = []" by (simp add: basic_usages_def codes classify_zero)
    moreover obtain md where md: "build_report codes (length codes) =
        Some \<lparr>rp_modifiers = md, rp_reserved = 0, rp_keys = report_keys codes\<rparr>" "report_modifiers codes md"
      using build_report_eq [of codes] codes size(1) by auto
    moreover have "md = 0"
    proof (rule bit_word_eqI)
      fix i assume "i < LENGTH(8)"
      then have i: "i < 8" by simp
      have "(of_nat (0xE0 + i) :: u16) \<noteq> 0" using modifier_code [OF i, of 0] classify_zero by auto
      then show "bit md i \<longleftrightarrow> bit (0 :: u8) i" using md(2) i by (auto simp: report_modifiers_def codes)
    qed
    ultimately show ?thesis using kb_inv_total [OF inv]
      by (simp add: report_current_def buildReport_def keyboard_new_def active_codes_def latest_report_def
          report_keys_def empty_report_def)
  qed
  ultimately show ?thesis by blast
qed

end
