(* ===== verification/Ble_Hid.thy ===== *)
theory Ble_Hid
  imports Keyboard_Task
begin

text \<open>
  The Bluetooth keyboards: \<open>BleKeyboardHID\<close> of \<open>src/VIA_ESP32_BLE.h\<close> (its copy
  \<open>src/VIA_ESP32S3_BLE.h\<close> differs in the namespace only) over NimBLE, \<open>BLEKeyboardHID\<close> of
  \<open>src/VIA_nRF52_BLE.h\<close> over Bluefruit.  The Bluetooth libraries are parameters.
\<close>

section \<open>ESP32 and ESP32-S3\<close>

text \<open>What the class uses of NimBLE: the number of connections, and the HID service with its report
  map and the input report characteristic, which may be absent.\<close>

record 'n nimble_hid =
  nh_connectedCount :: "'n \<Rightarrow> nat"
  nh_newHid :: "'n \<Rightarrow> string \<Rightarrow> u8 list \<Rightarrow> 'n"
  nh_getInputReport :: "'n \<Rightarrow> u8 \<Rightarrow> bool \<times> 'n"
  nh_notify :: "'n \<Rightarrow> u8 list \<Rightarrow> bool \<times> 'n"

record 'n ble_keyboard =
  bk_server :: bool
  bk_inputReport :: bool
  bk_stack :: 'n

definition kReportId :: u8 where "kReportId = 1"

definition kReportMap :: "u8 list" where
  "kReportMap = [
    0x05, 0x01, 0x09, 0x06, 0xA1, 0x01, 0x85, 0x01, 0x05, 0x07, 0x19, 0xE2, 0x29, 0xFD,
    0x15, 0x00, 0x25, 0x01, 0x75, 0x01, 0x95, 0x08, 0x81, 0x02, 0x75, 0x08, 0x95, 0x01,
    0x81, 0x01, 0x05, 0x07, 0x19, 0x00, 0x29, 0x65, 0x15, 0x00, 0x25, 0x65, 0x75, 0x08,
    0x95, 0x06, 0x81, 0x00, 0xC0]"

definition ble_keyboard_new :: "'n \<Rightarrow> 'n ble_keyboard" where
  "ble_keyboard_new n = \<lparr>bk_server = False, bk_inputReport = False, bk_stack = n\<rparr>"

text \<open>\<open>server\<close> says whether the pointer is set; the manufacturer is \<open>None\<close> for a null pointer.\<close>

definition ble_hid_begin ::
  "'n nimble_hid \<Rightarrow> bool \<Rightarrow> string option \<Rightarrow> 'n ble_keyboard \<Rightarrow> bool \<times> 'n ble_keyboard" where
  "ble_hid_begin nh server manufacturer k =
     (case manufacturer of None \<Rightarrow> (False, k)
      | Some man \<Rightarrow>
          if \<not> server then (False, k)
          else
            let n = nh_newHid nh (bk_stack k) man kReportMap;
                (there, n) = nh_getInputReport nh n kReportId
            in (there, k\<lparr>bk_server := True, bk_inputReport := there, bk_stack := n\<rparr>))"

definition ble_hid_connected :: "'n nimble_hid \<Rightarrow> 'n ble_keyboard \<Rightarrow> bool" where
  "ble_hid_connected nh k \<longleftrightarrow> bk_server k \<and> nh_connectedCount nh (bk_stack k) > 0"

definition ble_payload :: "report \<Rightarrow> u8 list" where
  "ble_payload r = [kReportId, rp_modifiers r, rp_reserved r] @ take 6 (rp_keys r)"

definition ble_hid_send :: "'n nimble_hid \<Rightarrow> 'n ble_keyboard \<Rightarrow> report \<Rightarrow> bool \<times> 'n ble_keyboard" where
  "ble_hid_send nh k r =
     (if \<not> ble_hid_connected nh k \<or> \<not> bk_inputReport k then (False, k)
      else let (ok, n) = nh_notify nh (bk_stack k) (ble_payload r) in (ok, k\<lparr>bk_stack := n\<rparr>))"

definition ble_hid_vt :: "'n nimble_hid \<Rightarrow> 'n ble_keyboard hid_vt" where
  "ble_hid_vt nh = \<lparr>hid_configured = ble_hid_connected nh, hid_send = ble_hid_send nh,
     hid_sendComplete = (\<lambda>k. (True, k)), hid_takeHostLeds = (\<lambda>k. (None, k)),
     hid_suspended = (\<lambda>k. \<not> ble_hid_connected nh k), hid_remoteWakeupAllowed = (\<lambda>_. False),
     hid_remoteWakeup = (\<lambda>k. (False, k))\<rparr>"

interpretation ble_keyboard: keyboard_port "ble_hid_vt nh" "\<lambda>_. 0"
  by unfold_locales (simp add: ble_hid_vt_def)

text \<open>\<open>src/VIA_ESP32S3_BLE.h\<close> repeats the report map and the class word for word in its own namespace.\<close>

definition s3_reportMap :: "u8 list" where "s3_reportMap = kReportMap"

definition s3_hid_begin ::
  "'n nimble_hid \<Rightarrow> bool \<Rightarrow> string option \<Rightarrow> 'n ble_keyboard \<Rightarrow> bool \<times> 'n ble_keyboard" where
  "s3_hid_begin nh server manufacturer k =
     (case manufacturer of None \<Rightarrow> (False, k)
      | Some man \<Rightarrow>
          if \<not> server then (False, k)
          else
            let n = nh_newHid nh (bk_stack k) man s3_reportMap;
                (there, n) = nh_getInputReport nh n kReportId
            in (there, k\<lparr>bk_server := True, bk_inputReport := there, bk_stack := n\<rparr>))"

lemma s3_hid_begin_eq [simp]: "s3_hid_begin = ble_hid_begin"
  by (intro ext) (unfold s3_hid_begin_def ble_hid_begin_def s3_reportMap_def, rule refl)

definition s3_hid_vt :: "'n nimble_hid \<Rightarrow> 'n ble_keyboard hid_vt" where
  "s3_hid_vt nh = \<lparr>hid_configured = ble_hid_connected nh, hid_send = ble_hid_send nh,
     hid_sendComplete = (\<lambda>k. (True, k)), hid_takeHostLeds = (\<lambda>k. (None, k)),
     hid_suspended = (\<lambda>k. \<not> ble_hid_connected nh k), hid_remoteWakeupAllowed = (\<lambda>_. False),
     hid_remoteWakeup = (\<lambda>k. (False, k))\<rparr>"

interpretation s3_keyboard: keyboard_port "s3_hid_vt nh" "\<lambda>_. 0"
  by unfold_locales (simp add: s3_hid_vt_def)

section \<open>nRF52\<close>

record 'b bluefruit_hid =
  bh_connected :: "'b \<Rightarrow> bool"
  bh_keyboardReport :: "'b \<Rightarrow> u8 \<Rightarrow> u8 list \<Rightarrow> bool \<times> 'b"
  bh_setLedCallback :: "'b \<Rightarrow> 'b"

record 'b nrf_keyboard =
  nk_ledsPending :: bool
  nk_pendingLeds :: u8
  nk_active :: "bool option"
  nk_stack :: 'b

text \<open>\<open>nk_active\<close> is the static \<open>activeAdapter\<close>: null, this adapter, or another one.\<close>

definition nrf_keyboard_new :: "bool option \<Rightarrow> 'b \<Rightarrow> 'b nrf_keyboard" where
  "nrf_keyboard_new active b = \<lparr>nk_ledsPending = False, nk_pendingLeds = 0, nk_active = active, nk_stack = b\<rparr>"

definition nrf_hid_begin :: "'b bluefruit_hid \<Rightarrow> 'b nrf_keyboard \<Rightarrow> bool \<times> 'b nrf_keyboard" where
  "nrf_hid_begin bh k =
     (if nk_active k \<noteq> None then (False, k)
      else (True, k\<lparr>nk_active := Some True, nk_stack := bh_setLedCallback bh (nk_stack k)\<rparr>))"

definition nrf_ledCallback :: "u8 \<Rightarrow> 'b nrf_keyboard \<Rightarrow> 'b nrf_keyboard" where
  "nrf_ledCallback leds k =
     (if nk_active k = Some True then k\<lparr>nk_pendingLeds := leds, nk_ledsPending := True\<rparr> else k)"

definition nrf_hid_send :: "'b bluefruit_hid \<Rightarrow> 'b nrf_keyboard \<Rightarrow> report \<Rightarrow> bool \<times> 'b nrf_keyboard" where
  "nrf_hid_send bh k r =
     (let (ok, b) = bh_keyboardReport bh (nk_stack k) (rp_modifiers r) (rp_keys r) in (ok, k\<lparr>nk_stack := b\<rparr>))"

definition nrf_takeHostLeds :: "'b nrf_keyboard \<Rightarrow> u8 option \<times> 'b nrf_keyboard" where
  "nrf_takeHostLeds k =
     (if nk_ledsPending k then (Some (nk_pendingLeds k), k\<lparr>nk_ledsPending := False\<rparr>) else (None, k))"

definition nrf_hid_vt :: "'b bluefruit_hid \<Rightarrow> 'b nrf_keyboard hid_vt" where
  "nrf_hid_vt bh = \<lparr>hid_configured = (\<lambda>k. bh_connected bh (nk_stack k)), hid_send = nrf_hid_send bh,
     hid_sendComplete = (\<lambda>k. (True, k)), hid_takeHostLeds = nrf_takeHostLeds,
     hid_suspended = (\<lambda>k. \<not> bh_connected bh (nk_stack k)), hid_remoteWakeupAllowed = (\<lambda>_. False),
     hid_remoteWakeup = (\<lambda>k. (False, k))\<rparr>"

interpretation nrf_keyboard: keyboard_port "nrf_hid_vt bh" "\<lambda>k. of_bool (nk_ledsPending k)"
  by unfold_locales (auto simp: nrf_hid_vt_def nrf_takeHostLeds_def split: if_splits)

text \<open>The host's LED state reaches the keyboard's callbacks: what the callback stored is the next
  thing \<open>takeHostLeds\<close> gives, once.\<close>

lemma nrf_leds_once:
  assumes "nk_active k = Some True"
  shows "nrf_takeHostLeds (nrf_ledCallback leds k) =
    (Some leds, k\<lparr>nk_pendingLeds := leds, nk_ledsPending := False\<rparr>) \<and>
    fst (nrf_takeHostLeds (snd (nrf_takeHostLeds (nrf_ledCallback leds k)))) = None"
  using assms by (simp add: nrf_takeHostLeds_def nrf_ledCallback_def)

section \<open>A report the stack refuses\<close>

text \<open>\<open>sendComplete\<close> is always true here and \<open>Keyboard::task\<close> does not look at the result of
  \<open>send\<close>, so a report that NimBLE refused counts as accepted one task later and is not sent again.\<close>

lemma refused_report_accepted:
  assumes pend: "kb_reportPending k" and drain: "drain_leds (ble_hid_vt nh) k = Some k"
    and quiet: "changedRows_mask (kb_matrix k) = Some 0" and conn: "ble_hid_connected nh (kb_hid k)" "\<not> kb_wasSuspended k"
  shows "\<exists>k'. keyboard_task (ble_hid_vt nh) keymap k = Some k' \<and> \<not> kb_reportPending k' \<and>
    kb_lastAcceptedReport k' = kb_pendingReport k \<and> kb_hid k' = kb_hid k"
proof -
  have "finish_report (ble_hid_vt nh) k =
      k\<lparr>kb_hid := kb_hid k, kb_lastAcceptedReport := kb_pendingReport k, kb_reportPending := False\<rparr>"
    using pend by (simp add: finish_report_def ble_hid_vt_def)
  with drain quiet conn show ?thesis
    by (simp add: keyboard_task_def Let_def ble_hid_vt_def)
qed

end
