(* ===== verification/Mailbox.thy ===== *)
theory Mailbox
  imports Interfaces "HOL-Library.Sublist"
begin

text \<open>
  The request slot between a radio or USB task and the main loop, which the Bluetooth transports
  and the TinyUSB transport share as a design: a callback puts a packet into a slot when it is
  free, \<open>receive\<close> takes it out.  The contract, and what it means for a sequence of packets.
\<close>

text \<open>A packet arrives from the host or the main loop polls; the flag says whether the mutex was
  obtained.\<close>

datatype link_event = HostWrite bool "u8 list" | Poll bool

locale mailbox =
  fixes put :: "bool \<Rightarrow> u8 list \<Rightarrow> 's \<Rightarrow> 's" and poll :: "bool \<Rightarrow> u8 list \<Rightarrow> 's \<Rightarrow> bool \<times> u8 list \<times> 's"
    and minv :: "'s \<Rightarrow> bool" and slot :: "'s \<Rightarrow> u8 list option"
  assumes put_inv: "minv s \<Longrightarrow> minv (put locked pkt s)"
    and put_slot: "minv s \<Longrightarrow> slot (put locked pkt s) =
      (if locked \<and> length pkt = kPacketSize \<and> slot s = None then Some pkt else slot s)"
    and poll_inv: "minv s \<Longrightarrow> poll locked buf s = (got, out, s') \<Longrightarrow> minv s'"
    and poll_none: "minv s \<Longrightarrow> \<not> locked \<or> slot s = None \<Longrightarrow> \<exists>s'. poll locked buf s = (False, buf, s') \<and> slot s' = slot s"
    and poll_some: "minv s \<Longrightarrow> slot s = Some pkt \<Longrightarrow> length buf = kPacketSize \<Longrightarrow>
      \<exists>s'. poll True buf s = (True, pkt, s') \<and> slot s' = None"

text \<open>A run gives the packets the main loop received, in order.\<close>

fun mailbox_run ::
  "(bool \<Rightarrow> u8 list \<Rightarrow> 's \<Rightarrow> 's) \<Rightarrow> (bool \<Rightarrow> u8 list \<Rightarrow> 's \<Rightarrow> bool \<times> u8 list \<times> 's) \<Rightarrow>
   's \<Rightarrow> u8 list \<Rightarrow> link_event list \<Rightarrow> u8 list list \<times> 's" where
  "mailbox_run put poll s buf [] = ([], s)"
| "mailbox_run put poll s buf (HostWrite locked pkt # evs) = mailbox_run put poll (put locked pkt s) buf evs"
| "mailbox_run put poll s buf (Poll locked # evs) =
     (case poll locked buf s of
        (True, pkt, s') \<Rightarrow> (case mailbox_run put poll s' buf evs of (pkts, s'') \<Rightarrow> (pkt # pkts, s''))
      | (False, _, s') \<Rightarrow> mailbox_run put poll s' buf evs)"

fun written :: "link_event list \<Rightarrow> u8 list list" where
  "written [] = []"
| "written (HostWrite locked pkt # evs) = (if length pkt = kPacketSize then pkt # written evs else written evs)"
| "written (Poll locked # evs) = written evs"

text \<open>The writes whose handler obtained the mutex, and the number of full packets whose handler did not.\<close>

fun obtained :: "link_event list \<Rightarrow> u8 list list" where
  "obtained [] = []"
| "obtained (HostWrite locked pkt # evs) = (if locked \<and> length pkt = kPacketSize then pkt # obtained evs else obtained evs)"
| "obtained (Poll locked # evs) = obtained evs"

fun missed :: "link_event list \<Rightarrow> nat" where
  "missed [] = 0"
| "missed (HostWrite locked pkt # evs) = (if \<not> locked \<and> length pkt = kPacketSize then Suc (missed evs) else missed evs)"
| "missed (Poll locked # evs) = missed evs"

lemma obtained_written: "subseq (obtained evs) (written evs) \<and> length (written evs) = length (obtained evs) + missed evs"
proof (induction evs)
  case (Cons e evs)
  then show ?case by (cases e) auto
qed simp

definition slot_list :: "'a option \<Rightarrow> 'a list" where
  "slot_list x = (case x of None \<Rightarrow> [] | Some a \<Rightarrow> [a])"

lemma slot_list_simps [simp]: "slot_list None = []" "slot_list (Some a) = [a]"
  by (simp_all add: slot_list_def)

context mailbox
begin

text \<open>What is received is, in order and unchanged, part of what was written: no packet is torn,
  repeated or invented.\<close>

lemma mailbox_run_subseq:
  assumes "minv s" and buf: "length buf = kPacketSize" and "mailbox_run put poll s buf evs = (pkts, s')"
  shows "minv s' \<and> subseq (pkts @ slot_list (slot s')) (slot_list (slot s) @ obtained evs)"
  using assms(1,3)
proof (induction evs arbitrary: s pkts)
  case (Cons e evs)
  show ?case
  proof (cases e)
    case (HostWrite locked pkt)
    let ?s = "put locked pkt s"
    have i: "minv ?s" by (rule put_inv [OF Cons.prems(1)])
    have "mailbox_run put poll ?s buf evs = (pkts, s')" using Cons.prems(2) HostWrite by simp
    from Cons.IH [OF i this] have a: "minv s'" "subseq (pkts @ slot_list (slot s')) (slot_list (slot ?s) @ obtained evs)"
      by simp_all
    have "subseq (slot_list (slot ?s) @ obtained evs) (slot_list (slot s) @ obtained (e # evs))"
      using put_slot [OF Cons.prems(1)] HostWrite by (auto intro: list_emb_append_mono)
    with a show ?thesis using subseq_order.order_trans by blast
  next
    case (Poll locked)
    show ?thesis
    proof (cases "locked \<and> slot s \<noteq> None")
      case True
      then obtain pkt where pkt: "slot s = Some pkt" by blast
      obtain s1 where s1: "poll True buf s = (True, pkt, s1)" "slot s1 = None"
        using poll_some [OF Cons.prems(1) pkt buf] by blast
      obtain pkts1 where r: "mailbox_run put poll s1 buf evs = (pkts1, s')" "pkts = pkt # pkts1"
        using Cons.prems(2) Poll True s1(1) by (auto split: prod.splits)
      from Cons.IH [OF poll_inv [OF Cons.prems(1) s1(1)] r(1)] show ?thesis
        using s1(2) pkt r(2) Poll by simp
    next
      case False
      then obtain s1 where s1: "poll locked buf s = (False, buf, s1)" "slot s1 = slot s"
        using poll_none [OF Cons.prems(1)] by blast
      have "mailbox_run put poll s1 buf evs = (pkts, s')" using Cons.prems(2) Poll s1(1) by simp
      from Cons.IH [OF poll_inv [OF Cons.prems(1) s1(1)] this] show ?thesis using s1(2) Poll by simp
    qed
  qed
qed simp

end

text \<open>A mailbox that counts what it drops: every packet is received, waiting, counted, or missed because
  its handler did not obtain the mutex; the last kind is not counted.\<close>

locale counting_mailbox = mailbox put poll minv slot
  for put :: "bool \<Rightarrow> u8 list \<Rightarrow> 's \<Rightarrow> 's" and poll minv slot +
  fixes drops :: "'s \<Rightarrow> u32"
  assumes put_drops: "minv s \<Longrightarrow> drops (put locked pkt s) =
      (if locked \<and> length pkt = kPacketSize \<and> slot s \<noteq> None then drops s + 1 else drops s)"
    and poll_drops: "minv s \<Longrightarrow> poll locked buf s = (got, out, s') \<Longrightarrow> drops s' = drops s"
begin

lemma mailbox_run_counts:
  assumes "minv s" and buf: "length buf = kPacketSize" and "mailbox_run put poll s buf evs = (pkts, s')"
  shows "of_nat (length (slot_list (slot s)) + length (written evs)) =
    (of_nat (length pkts + length (slot_list (slot s')) + missed evs) + (drops s' - drops s) :: u32)"
  using assms(1,3)
proof (induction evs arbitrary: s pkts)
  case (Cons e evs)
  show ?case
  proof (cases e)
    case (HostWrite locked pkt)
    let ?s = "put locked pkt s"
    have i: "minv ?s" by (rule put_inv [OF Cons.prems(1)])
    have "mailbox_run put poll ?s buf evs = (pkts, s')" using Cons.prems(2) HostWrite by simp
    from Cons.IH [OF i this] put_slot [OF Cons.prems(1)] put_drops [OF Cons.prems(1)] HostWrite
    show ?thesis by (cases "slot s") (auto simp: algebra_simps split: if_splits)
  next
    case (Poll locked)
    show ?thesis
    proof (cases "locked \<and> slot s \<noteq> None")
      case True
      then obtain pkt where pkt: "slot s = Some pkt" by blast
      obtain s1 where s1: "poll True buf s = (True, pkt, s1)" "slot s1 = None"
        using poll_some [OF Cons.prems(1) pkt buf] by blast
      obtain pkts1 where r: "mailbox_run put poll s1 buf evs = (pkts1, s')" "pkts = pkt # pkts1"
        using Cons.prems(2) Poll True s1(1) by (auto split: prod.splits)
      from Cons.IH [OF poll_inv [OF Cons.prems(1) s1(1)] r(1)] poll_drops [OF Cons.prems(1) s1(1)]
      show ?thesis using s1(2) pkt r(2) Poll by simp
    next
      case False
      then obtain s1 where s1: "poll locked buf s = (False, buf, s1)" "slot s1 = slot s"
        using poll_none [OF Cons.prems(1)] by blast
      have "mailbox_run put poll s1 buf evs = (pkts, s')" using Cons.prems(2) Poll s1(1) by simp
      from Cons.IH [OF poll_inv [OF Cons.prems(1) s1(1)] this] poll_drops [OF Cons.prems(1) s1(1)]
      show ?thesis using s1(2) Poll by simp
    qed
  qed
qed simp

end

end
