(* ===== verification/Raw_Hid.thy ===== *)
theory Raw_Hid
  imports Mailbox
begin

text \<open>
  The TinyUSB interfaces: the raw HID transport of \<open>src/VIA_TinyUSB_RawHID.h/.cpp\<close> and the
  companion keyboard of \<open>src/VIA_TinyUSB_Keyboard.h/.cpp\<close>.  The Adafruit library is a parameter.
  The static members of \<open>RawHID\<close> make one interface of all its objects; \<open>rh_active\<close> is the
  static pointer: null, this object (\<open>Some True\<close>) or another one.
\<close>

record 'u tinyusb =
  tu_isInitialized :: "'u \<Rightarrow> bool"
  tu_deviceBegin :: "'u \<Rightarrow> 'u"
  tu_setup :: "'u \<Rightarrow> string \<Rightarrow> 'u"
  tu_begin :: "'u \<Rightarrow> bool \<times> 'u"
  tu_ready :: "'u \<Rightarrow> bool"
  tu_sendReport :: "'u \<Rightarrow> u8 \<Rightarrow> u8 list \<Rightarrow> bool \<times> 'u"
  tu_keyboardReport :: "'u \<Rightarrow> u8 \<Rightarrow> u8 \<Rightarrow> u8 list \<Rightarrow> bool \<times> 'u"

section \<open>Raw HID\<close>

record 'u raw_hid =
  rh_rx :: "u8 list"
  rh_rxReady :: bool
  rh_active :: "bool option"
  rh_beginAttempted :: bool
  rh_stack :: 'u

definition raw_hid_new :: "'u \<Rightarrow> 'u raw_hid" where
  "raw_hid_new u = \<lparr>rh_rx = replicate kPacketSize 0, rh_rxReady = False, rh_active = None,
     rh_beginAttempted = False, rh_stack = u\<rparr>"

definition raw_hid_destroy :: "'u raw_hid \<Rightarrow> 'u raw_hid" where
  "raw_hid_destroy h = (if rh_active h = Some True then h\<lparr>rh_active := None\<rparr> else h)"

definition raw_hid_begin :: "'u tinyusb \<Rightarrow> string \<Rightarrow> 'u raw_hid \<Rightarrow> bool \<times> 'u raw_hid" where
  "raw_hid_begin tu name h =
     (if rh_active h \<noteq> None \<or> rh_beginAttempted h then (False, h)
      else
        let u = (if \<not> tu_isInitialized tu (rh_stack h) then tu_deviceBegin tu (rh_stack h) else rh_stack h);
            (ok, u) = tu_begin tu (tu_setup tu u name);
            h = h\<lparr>rh_active := Some True, rh_beginAttempted := True, rh_stack := u\<rparr>
        in if ok then (True, h)
           else (False, if rh_active h = Some True then h\<lparr>rh_active := None\<rparr> else h))"

definition raw_hid_receive :: "u8 list \<Rightarrow> 'u raw_hid \<Rightarrow> bool \<times> u8 list \<times> 'u raw_hid" where
  "raw_hid_receive packet h =
     (if rh_active h \<noteq> Some True then (False, packet, h)
      else if \<not> rh_rxReady h then (False, packet, h)
      else (True, overwrite packet 0 (take kPacketSize (rh_rx h)), h\<lparr>rh_rxReady := False\<rparr>))"

definition raw_hid_ready :: "'u tinyusb \<Rightarrow> 'u raw_hid \<Rightarrow> bool" where
  "raw_hid_ready tu h \<longleftrightarrow> rh_active h = Some True \<and> tu_ready tu (rh_stack h)"

definition raw_hid_send :: "'u tinyusb \<Rightarrow> 'u raw_hid \<Rightarrow> u8 list \<Rightarrow> bool \<times> 'u raw_hid" where
  "raw_hid_send tu h packet =
     (if \<not> raw_hid_ready tu h then (False, h)
      else let (ok, u) = tu_sendReport tu (rh_stack h) 0 (take kPacketSize packet) in (ok, h\<lparr>rh_stack := u\<rparr>))"

definition raw_hid_sendComplete :: "'u tinyusb \<Rightarrow> 'u raw_hid \<Rightarrow> bool \<times> 'u raw_hid" where
  "raw_hid_sendComplete tu h = (raw_hid_ready tu h, h)"

text \<open>\<open>HID_REPORT_TYPE_OUTPUT\<close> is 2 in the HID specification.\<close>

definition raw_hid_setReport :: "u8 \<Rightarrow> nat \<Rightarrow> u8 list \<Rightarrow> 'u raw_hid \<Rightarrow> 'u raw_hid" where
  "raw_hid_setReport reportId reportType buffer h =
     (if rh_active h = None \<or> reportId \<noteq> 0 \<or> (reportType \<noteq> 0 \<and> reportType \<noteq> 2) \<or>
         length buffer \<noteq> kPacketSize \<or> rh_rxReady h then h
      else h\<lparr>rh_rx := take kPacketSize buffer, rh_rxReady := True\<rparr>)"

definition raw_hid_vt :: "'u tinyusb \<Rightarrow> 'u raw_hid transport_vt" where
  "raw_hid_vt tu = \<lparr>tp_receive = (\<lambda>h pkt. raw_hid_receive pkt h), tp_send = raw_hid_send tu,
     tp_sendComplete = raw_hid_sendComplete tu\<rparr>"

interpretation raw_link: transport_contract "raw_hid_vt tu"
  by unfold_locales (auto simp: raw_hid_vt_def raw_hid_receive_def overwrite_def split: if_splits)

definition raw_mail_inv :: "'u raw_hid \<Rightarrow> bool" where
  "raw_mail_inv h \<longleftrightarrow> rh_active h = Some True \<and> length (rh_rx h) = kPacketSize"

definition raw_slot :: "'u raw_hid \<Rightarrow> u8 list option" where
  "raw_slot h = (if rh_rxReady h then Some (rh_rx h) else None)"

text \<open>An output report of the right size is a write of the mailbox.  Interrupts are off while
  \<open>receive\<close> copies; an event that does not get the slot is one that has not happened yet.\<close>

definition raw_put :: "bool \<Rightarrow> u8 list \<Rightarrow> 'u raw_hid \<Rightarrow> 'u raw_hid" where
  "raw_put locked buffer h = (if locked then raw_hid_setReport 0 2 buffer h else h)"

definition raw_poll :: "bool \<Rightarrow> u8 list \<Rightarrow> 'u raw_hid \<Rightarrow> bool \<times> u8 list \<times> 'u raw_hid" where
  "raw_poll locked packet h = (if locked then raw_hid_receive packet h else (False, packet, h))"

interpretation raw_mail: mailbox raw_put raw_poll raw_mail_inv raw_slot
  by unfold_locales
     (auto simp: raw_put_def raw_poll_def raw_hid_setReport_def raw_hid_receive_def raw_mail_inv_def raw_slot_def overwrite_def
       split: if_splits)

text \<open>Exactly one attempt to begin is made per reset, whatever its result.\<close>

lemma raw_hid_begin_once:
  assumes "raw_hid_begin tu name h = (ok, h')"
  shows "raw_hid_begin tu name' h' = (False, h')"
  using assms by (auto simp: raw_hid_begin_def Let_def split: if_splits prod.splits)

section \<open>The companion keyboard\<close>

definition tusb_keyboard_begin :: "'u tinyusb \<Rightarrow> string \<Rightarrow> 'u \<Rightarrow> bool \<times> 'u" where
  "tusb_keyboard_begin tu name u =
     (let u = (if \<not> tu_isInitialized tu u then tu_deviceBegin tu u else u) in tu_begin tu (tu_setup tu u name))"

definition tusb_report :: "'u tinyusb \<Rightarrow> u8 \<Rightarrow> u8 list \<Rightarrow> 'u \<Rightarrow> bool \<times> 'u" where
  "tusb_report tu modifiers keys u =
     (if tu_ready tu u then tu_keyboardReport tu u 0 modifiers keys else (False, u))"

definition tusb_release :: "'u tinyusb \<Rightarrow> 'u \<Rightarrow> bool \<times> 'u" where
  "tusb_release tu u = tusb_report tu 0 (replicate 6 0) u"

definition tusb_ready :: "'u tinyusb \<Rightarrow> 'u \<Rightarrow> bool" where
  "tusb_ready tu u = tu_ready tu u"

end
