(* ===== verification/Usb_Device.thy ===== *)
theory Usb_Device
  imports Keyboard_Task Interfaces
begin

text \<open>
  The USB device of the STM32F1, \<open>src/VIA_STM32F1_USB.h\<close> and \<open>src/VIA_STM32F1_USB.cpp\<close>: a
  keyboard interface and a raw HID interface in one class, whose handlers the USB stack calls on
  the device stored in the static \<open>active_\<close>.  The world holds that pointer, the devices by
  number and the state of the USB stack, whose calls are a parameter.
\<close>

definition kKeyboardEpIn :: u8 where "kKeyboardEpIn = 0x81"

definition kViaEpIn :: u8 where "kViaEpIn = 0x82"

definition kViaEpOut :: u8 where "kViaEpOut = 0x02"

definition kKeyboardReportSize :: nat where "kKeyboardReportSize = 8"

text \<open>The calls of the stack: whether they return \<open>USBD_OK\<close>, where the code looks at it.\<close>

record 'l usb_ll =
  ll_init :: "'l \<Rightarrow> bool \<times> 'l"
  ll_start :: "'l \<Rightarrow> bool \<times> 'l"
  ll_transmit :: "'l \<Rightarrow> u8 \<Rightarrow> u8 list \<Rightarrow> bool \<times> 'l"
  ll_prepareReceive :: "'l \<Rightarrow> u8 \<Rightarrow> nat \<Rightarrow> 'l"
  ll_ctlReceiveData :: "'l \<Rightarrow> nat \<Rightarrow> 'l"
  ll_ctlSendData :: "'l \<Rightarrow> u8 list \<Rightarrow> 'l"

record usb_device =
  ud_configured :: bool
  ud_suspended :: bool
  ud_kb_buf :: "u8 list"
  ud_kb_tx_busy :: bool
  ud_via_in_buf :: "u8 list"
  ud_via_tx_busy :: bool
  ud_via_out_buf :: "u8 list"
  ud_via_rx_ready :: bool
  ud_led_buf :: "u8 list"
  ud_led_ready :: bool

record 'l usb_world =
  uw_active :: "nat option"
  uw_dev :: "nat \<Rightarrow> usb_device"
  uw_ll :: 'l

record setup_request =
  rq_bmRequest :: u8
  rq_bRequest :: u8
  rq_wValue :: u16
  rq_wLength :: u16

definition usb_device_new :: usb_device where
  "usb_device_new = \<lparr>ud_configured = False, ud_suspended = False,
     ud_kb_buf = replicate 8 0, ud_kb_tx_busy = False,
     ud_via_in_buf = replicate kPacketSize 0, ud_via_tx_busy = False,
     ud_via_out_buf = replicate kPacketSize 0, ud_via_rx_ready = False,
     ud_led_buf = [0], ud_led_ready = False\<rparr>"

definition upd_dev :: "nat \<Rightarrow> (usb_device \<Rightarrow> usb_device) \<Rightarrow> 'l usb_world \<Rightarrow> 'l usb_world" where
  "upd_dev i f w = w\<lparr>uw_dev := (uw_dev w)(i := f (uw_dev w i))\<rparr>"

definition usb_destroy :: "nat \<Rightarrow> 'l usb_world \<Rightarrow> 'l usb_world" where
  "usb_destroy i w = (if uw_active w = Some i then w\<lparr>uw_active := None\<rparr> else w)"

section \<open>The handlers of the class; the result is \<open>USBD_OK\<close>\<close>

definition classInit :: "'l usb_ll \<Rightarrow> 'l usb_world \<Rightarrow> bool \<times> 'l usb_world" where
  "classInit ll w =
     (case uw_active w of None \<Rightarrow> (False, w)
      | Some i \<Rightarrow>
          let w = w\<lparr>uw_ll := ll_prepareReceive ll (uw_ll w) kViaEpOut kPacketSize\<rparr>
          in (True, upd_dev i (\<lambda>d. d\<lparr>ud_configured := True, ud_suspended := False\<rparr>) w))"

definition classDeInit :: "'l usb_world \<Rightarrow> bool \<times> 'l usb_world" where
  "classDeInit w =
     (case uw_active w of None \<Rightarrow> (False, w)
      | Some i \<Rightarrow> (True, upd_dev i (\<lambda>d. d\<lparr>ud_configured := False\<rparr>) w))"

definition classSetup :: "'l usb_ll \<Rightarrow> setup_request \<Rightarrow> 'l usb_world \<Rightarrow> bool \<times> 'l usb_world" where
  "classSetup ll rq w =
     (if uw_active w = None then (False, w)
      else if rq_bmRequest rq AND 0x7F = 0x21 \<and> rq_bRequest rq = 0x09 \<and> rq_wValue rq = 0x0200 \<and> rq_wLength rq = 1
      then (True, w\<lparr>uw_ll := ll_ctlReceiveData ll (uw_ll w) 1\<rparr>)
      else if rq_bmRequest rq AND 0x7F = 0x21 \<and> rq_bRequest rq = 0x0A
      then (True, w\<lparr>uw_ll := ll_ctlSendData ll (uw_ll w) []\<rparr>)
      else if rq_bmRequest rq AND 0x7F = 0x21 \<and> rq_bRequest rq = 0x0B
      then (True, w\<lparr>uw_ll := ll_ctlSendData ll (uw_ll w) [1]\<rparr>)
      else (True, w))"

definition ep0RxReady :: "'l usb_world \<Rightarrow> bool \<times> 'l usb_world" where
  "ep0RxReady w =
     (case uw_active w of None \<Rightarrow> (False, w)
      | Some i \<Rightarrow> (True, upd_dev i (\<lambda>d. d\<lparr>ud_led_ready := True\<rparr>) w))"

definition dataIn :: "u8 \<Rightarrow> 'l usb_world \<Rightarrow> bool \<times> 'l usb_world" where
  "dataIn epnum w =
     (case uw_active w of None \<Rightarrow> (False, w)
      | Some i \<Rightarrow> (True, upd_dev i (\<lambda>d.
          if epnum = kKeyboardEpIn AND 0x7F then d\<lparr>ud_kb_tx_busy := False\<rparr>
          else if epnum = kViaEpIn AND 0x7F then d\<lparr>ud_via_tx_busy := False\<rparr> else d) w))"

definition dataOut :: "'l usb_ll \<Rightarrow> u8 \<Rightarrow> 'l usb_world \<Rightarrow> bool \<times> 'l usb_world" where
  "dataOut ll epnum w =
     (case uw_active w of None \<Rightarrow> (False, w)
      | Some i \<Rightarrow>
          let w = upd_dev i (\<lambda>d. if epnum = kViaEpOut AND 0x7F then d\<lparr>ud_via_rx_ready := True\<rparr> else d) w
          in (True, w\<lparr>uw_ll := ll_prepareReceive ll (uw_ll w) kViaEpOut kPacketSize\<rparr>))"

text \<open>\<open>ep0TxSent\<close>, \<open>sof\<close> and the isochronous handlers.\<close>

definition usb_ignore :: "'l usb_world \<Rightarrow> bool \<times> 'l usb_world" where
  "usb_ignore w = (True, w)"

section \<open>The methods of device \<open>i\<close>\<close>

definition usb_begin :: "'l usb_ll \<Rightarrow> nat \<Rightarrow> 'l usb_world \<Rightarrow> bool \<times> 'l usb_world" where
  "usb_begin ll i w =
     (if uw_active w \<noteq> None then (False, w)
      else
        let w = w\<lparr>uw_active := Some i\<rparr>;
            (ok, l) = ll_init ll (uw_ll w); w = w\<lparr>uw_ll := l\<rparr>
        in if \<not> ok then (False, if uw_active w = Some i then w\<lparr>uw_active := None\<rparr> else w)
           else
             let (ok, l) = ll_start ll (uw_ll w); w = w\<lparr>uw_ll := l\<rparr>
             in if \<not> ok then (False, if uw_active w = Some i then w\<lparr>uw_active := None\<rparr> else w)
                else (True, w))"

definition usb_task :: "nat \<Rightarrow> 'l usb_world \<Rightarrow> 'l usb_world" where
  "usb_task i w = w"

definition report_bytes :: "report \<Rightarrow> u8 list" where
  "report_bytes r = [rp_modifiers r, rp_reserved r] @ take 6 (rp_keys r)"

definition usb_send_report :: "'l usb_ll \<Rightarrow> nat \<Rightarrow> 'l usb_world \<Rightarrow> report \<Rightarrow> bool \<times> 'l usb_world" where
  "usb_send_report ll i w r =
     (if uw_active w \<noteq> Some i \<or> \<not> ud_configured (uw_dev w i) \<or> ud_kb_tx_busy (uw_dev w i) then (False, w)
      else
        let w = upd_dev i (\<lambda>d. d\<lparr>ud_kb_buf := report_bytes r\<rparr>) w;
            (ok, l) = ll_transmit ll (uw_ll w) kKeyboardEpIn (take kKeyboardReportSize (ud_kb_buf (uw_dev w i)));
            w = w\<lparr>uw_ll := l\<rparr>
        in if \<not> ok then (False, w) else (True, upd_dev i (\<lambda>d. d\<lparr>ud_kb_tx_busy := True\<rparr>) w))"

definition usb_sendComplete :: "nat \<Rightarrow> 'l usb_world \<Rightarrow> bool \<times> 'l usb_world" where
  "usb_sendComplete i w =
     (uw_active w = Some i \<and> \<not> ud_kb_tx_busy (uw_dev w i) \<and> \<not> ud_via_tx_busy (uw_dev w i), w)"

definition usb_takeHostLeds :: "nat \<Rightarrow> 'l usb_world \<Rightarrow> u8 option \<times> 'l usb_world" where
  "usb_takeHostLeds i w =
     (if uw_active w \<noteq> Some i \<or> \<not> ud_led_ready (uw_dev w i) then (None, w)
      else (Some (hd (ud_led_buf (uw_dev w i))), upd_dev i (\<lambda>d. d\<lparr>ud_led_ready := False\<rparr>) w))"

definition usb_remoteWakeup :: "'l usb_world \<Rightarrow> bool \<times> 'l usb_world" where
  "usb_remoteWakeup w = (False, w)"

definition usb_receive :: "nat \<Rightarrow> 'l usb_world \<Rightarrow> u8 list \<Rightarrow> bool \<times> u8 list \<times> 'l usb_world" where
  "usb_receive i w pkt =
     (if uw_active w \<noteq> Some i \<or> \<not> ud_via_rx_ready (uw_dev w i) then (False, pkt, w)
      else (True, overwrite pkt 0 (take kPacketSize (ud_via_out_buf (uw_dev w i))),
            upd_dev i (\<lambda>d. d\<lparr>ud_via_rx_ready := False\<rparr>) w))"

definition usb_send_packet :: "'l usb_ll \<Rightarrow> nat \<Rightarrow> 'l usb_world \<Rightarrow> u8 list \<Rightarrow> bool \<times> 'l usb_world" where
  "usb_send_packet ll i w pkt =
     (if uw_active w \<noteq> Some i \<or> \<not> ud_configured (uw_dev w i) \<or> ud_via_tx_busy (uw_dev w i) then (False, w)
      else
        let w = upd_dev i (\<lambda>d. d\<lparr>ud_via_in_buf := take kPacketSize pkt\<rparr>) w;
            (ok, l) = ll_transmit ll (uw_ll w) kViaEpIn (ud_via_in_buf (uw_dev w i));
            w = w\<lparr>uw_ll := l\<rparr>
        in if \<not> ok then (False, w) else (True, upd_dev i (\<lambda>d. d\<lparr>ud_via_tx_busy := True\<rparr>) w))"

definition usb_hid :: "'l usb_ll \<Rightarrow> nat \<Rightarrow> 'l usb_world hid_vt" where
  "usb_hid ll i = \<lparr>hid_configured = (\<lambda>w. ud_configured (uw_dev w i)), hid_send = usb_send_report ll i,
     hid_sendComplete = usb_sendComplete i, hid_takeHostLeds = usb_takeHostLeds i,
     hid_suspended = (\<lambda>w. ud_suspended (uw_dev w i)), hid_remoteWakeupAllowed = (\<lambda>_. True),
     hid_remoteWakeup = usb_remoteWakeup\<rparr>"

definition usb_transport :: "'l usb_ll \<Rightarrow> nat \<Rightarrow> 'l usb_world transport_vt" where
  "usb_transport ll i = \<lparr>tp_receive = usb_receive i, tp_send = usb_send_packet ll i, tp_sendComplete = usb_sendComplete i\<rparr>"

section \<open>Contracts\<close>

interpretation usb_keyboard: keyboard_port "usb_hid ll i" "\<lambda>w. of_bool (ud_led_ready (uw_dev w i))"
  by unfold_locales (auto simp: usb_hid_def usb_takeHostLeds_def upd_dev_def split: if_splits)

interpretation usb_link: transport_contract "usb_transport ll i"
  by unfold_locales (auto simp: usb_transport_def usb_receive_def overwrite_def split: if_splits)

section \<open>Steps of the device\<close>

text \<open>What can happen to device \<open>i\<close>: calls of the firmware, handlers, and the host writing the
  buffers the device has offered to it.\<close>

inductive usb_step :: "'l usb_ll \<Rightarrow> nat \<Rightarrow> 'l usb_world \<Rightarrow> 'l usb_world \<Rightarrow> bool" for ll i where
  class_init: "classInit ll w = (ok, w') \<Longrightarrow> usb_step ll i w w'"
| class_deinit: "classDeInit w = (ok, w') \<Longrightarrow> usb_step ll i w w'"
| class_setup: "classSetup ll rq w = (ok, w') \<Longrightarrow> usb_step ll i w w'"
| led_data: "ep0RxReady (upd_dev i (\<lambda>d. d\<lparr>ud_led_buf := [leds]\<rparr>) w) = (ok, w') \<Longrightarrow> usb_step ll i w w'"
| sent: "dataIn ep w = (ok, w') \<Longrightarrow> usb_step ll i w w'"
| host_packet: "length pkt = kPacketSize \<Longrightarrow>
    dataOut ll kViaEpOut (upd_dev i (\<lambda>d. d\<lparr>ud_via_out_buf := pkt\<rparr>) w) = (ok, w') \<Longrightarrow> usb_step ll i w w'"
| report: "usb_send_report ll i w r = (ok, w') \<Longrightarrow> length (rp_keys r) = 6 \<Longrightarrow> usb_step ll i w w'"
| packet: "usb_send_packet ll i w pkt = (ok, w') \<Longrightarrow> length pkt = kPacketSize \<Longrightarrow> usb_step ll i w w'"
| poll: "usb_receive i w pkt = (ok, pkt', w') \<Longrightarrow> usb_step ll i w w'"
| leds: "usb_takeHostLeds i w = (l, w') \<Longrightarrow> usb_step ll i w w'"

definition usb_buffers :: "usb_device \<Rightarrow> bool" where
  "usb_buffers d \<longleftrightarrow> length (ud_kb_buf d) = kKeyboardReportSize \<and> length (ud_via_in_buf d) = kPacketSize \<and>
     length (ud_via_out_buf d) = kPacketSize \<and> length (ud_led_buf d) = 1"

lemmas usb_defs = classInit_def classDeInit_def classSetup_def ep0RxReady_def dataIn_def dataOut_def
  usb_send_report_def usb_send_packet_def usb_receive_def usb_takeHostLeds_def upd_dev_def Let_def

lemma usb_buffers_new: "usb_buffers usb_device_new"
  by (simp add: usb_buffers_def usb_device_new_def kKeyboardReportSize_def)

text \<open>No step resizes a buffer, and none touches a buffer whose transmission is in flight.\<close>

lemma usb_step_safe:
  assumes "usb_step ll i w w'" and "usb_buffers (uw_dev w i)" and "uw_active w = Some i"
  shows "usb_buffers (uw_dev w' i) \<and> uw_active w' = Some i \<and>
    (ud_kb_tx_busy (uw_dev w i) \<and> ud_kb_tx_busy (uw_dev w' i) \<longrightarrow> ud_kb_buf (uw_dev w' i) = ud_kb_buf (uw_dev w i)) \<and>
    (ud_via_tx_busy (uw_dev w i) \<and> ud_via_tx_busy (uw_dev w' i) \<longrightarrow> ud_via_in_buf (uw_dev w' i) = ud_via_in_buf (uw_dev w i))"
  using assms
  by (induction rule: usb_step.induct)
     (auto simp: usb_defs usb_buffers_def report_bytes_def kKeyboardReportSize_def kPacketSize_def
       split: if_splits prod.splits)

lemma usb_run_safe:
  assumes "(usb_step ll i)\<^sup>*\<^sup>* w w'" and "usb_buffers (uw_dev w i)" and "uw_active w = Some i"
  shows "usb_buffers (uw_dev w' i) \<and> uw_active w' = Some i"
  using assms by (induction rule: rtranclp_induct) (auto dest: usb_step_safe)

text \<open>A host packet is delivered once and unchanged when it is polled before the next one.\<close>

lemma usb_packet_once:
  assumes "uw_active w = Some i" "length pkt = kPacketSize" "length buf = kPacketSize"
    and "dataOut ll kViaEpOut (upd_dev i (\<lambda>d. d\<lparr>ud_via_out_buf := pkt\<rparr>) w) = (ok, w1)"
    and "usb_receive i w1 buf = (got, out, w2)"
  shows "got \<and> out = pkt \<and> (\<forall>buf'. fst (usb_receive i w2 buf') = False)"
  using assms by (auto simp: usb_defs kViaEpOut_def overwrite_all)

text \<open>A second host packet that arrives before the poll replaces the first.\<close>

lemma usb_packet_overrun:
  assumes "uw_active w = Some i" "length pkt1 = kPacketSize" "length pkt2 = kPacketSize" "length buf = kPacketSize"
    and "dataOut ll kViaEpOut (upd_dev i (\<lambda>d. d\<lparr>ud_via_out_buf := pkt1\<rparr>) w) = (ok1, w1)"
    and "dataOut ll kViaEpOut (upd_dev i (\<lambda>d. d\<lparr>ud_via_out_buf := pkt2\<rparr>) w1) = (ok2, w2)"
    and "usb_receive i w2 buf = (got, out, w3)"
  shows "got \<and> out = pkt2 \<and> (\<forall>buf'. fst (usb_receive i w3 buf') = False)"
  using assms by (auto simp: usb_defs kViaEpOut_def overwrite_all)

text \<open>A bus reset during a transmission leaves the busy flag set: the keyboard refuses every
  report after the new configuration, until an IN transfer that nobody started completes.\<close>

lemma usb_reset_keeps_busy:
  assumes "uw_active w = Some i" "ud_kb_tx_busy (uw_dev w i)"
    and "classDeInit w = (ok1, w1)" "classInit ll w1 = (ok2, w2)"
  shows "ud_configured (uw_dev w2 i) \<and> (\<forall>r. usb_send_report ll i w2 r = (False, w2)) \<and> fst (usb_sendComplete i w2) = False"
  using assms by (auto simp: usb_defs usb_sendComplete_def)

end
