(* ===== verification/Descriptors.thy ===== *)
theory Descriptors
  imports Raw_Hid Usb_Device Ble_Hid
begin

text \<open>
  The descriptor tables: \<open>src/VIA_STM32F1_USBDescriptor.h\<close> and the Raw HID descriptor of
  \<open>src/VIA_TinyUSB_RawHID.cpp\<close> (the report map of the Bluetooth keyboards is in theory
  \<open>Ble_Hid\<close>).  A reader of descriptors and of HID report items, as a host has it, gives their
  meaning: lengths, endpoint sizes, and the fields of each report.
\<close>

section \<open>The descriptors of the STM32F1\<close>

definition kDeviceDescriptor :: "u8 list" where
  "kDeviceDescriptor = [
    0x12, 0x01, 0x00, 0x02, 0x00, 0x00, 0x00, 0x08,
    0xFE, 0xCA, 0x03, 0x40, 0x01, 0x00, 0x00, 0x00,
    0x00, 0x01]"

definition kConfigDescriptor :: "u8 list" where
  "kConfigDescriptor = [
    0x09, 0x02, 0x42, 0x00, 0x02, 0x01, 0x00, 0x80, 0x32,
    0x09, 0x04, 0x00, 0x00, 0x01, 0x03, 0x01, 0x01, 0x00,
    0x09, 0x21, 0x10, 0x01, 0x00, 0x01, 0x22, 0x40, 0x00,
    0x07, 0x05, 0x81, 0x03, 0x08, 0x00, 0x01,
    0x09, 0x04, 0x01, 0x00, 0x02, 0x03, 0x00, 0x00, 0x00,
    0x09, 0x21, 0x10, 0x01, 0x00, 0x01, 0x22, 0x1E, 0x00,
    0x07, 0x05, 0x82, 0x03, 0x20, 0x00, 0x01,
    0x07, 0x05, 0x02, 0x03, 0x20, 0x00, 0x01]"

definition kBootKeyboardReportDescriptor :: "u8 list" where
  "kBootKeyboardReportDescriptor = [
    0x05, 0x01,
    0x09, 0x06,
    0xA1, 0x01,
    0x05, 0x07,
    0x19, 0xE0,
    0x29, 0xE7,
    0x15, 0x00,
    0x25, 0x01,
    0x95, 0x08,
    0x75, 0x01,
    0x81, 0x02,
    0x95, 0x01,
    0x75, 0x08,
    0x81, 0x01,
    0x95, 0x06,
    0x75, 0x08,
    0x15, 0x00,
    0x26, 0xA4, 0x00,
    0x05, 0x07,
    0x19, 0x00,
    0x29, 0xA4,
    0x81, 0x00,
    0x05, 0x08,
    0x19, 0x01,
    0x29, 0x05,
    0x95, 0x05,
    0x75, 0x01,
    0x91, 0x02,
    0x95, 0x01,
    0x75, 0x03,
    0x91, 0x01,
    0xC0]"

definition kViaRawHidReportDescriptor :: "u8 list" where
  "kViaRawHidReportDescriptor = [
    0x06, 0x60, 0xFF,
    0x09, 0x61,
    0xA1, 0x01,
    0x15, 0x00,
    0x26, 0xFF, 0x00,
    0x75, 0x08,
    0x95, 0x20,
    0x81, 0x02,
    0x15, 0x00,
    0x26, 0xFF, 0x00,
    0x75, 0x08,
    0x95, 0x20,
    0x91, 0x02,
    0xC0]"

section \<open>The descriptor of the TinyUSB adapter\<close>

definition kViaRawHidDescriptor :: "u8 list" where
  "kViaRawHidDescriptor = [
    0x06, 0x60, 0xFF,
    0x09, 0x61,
    0xA1, 0x01,
    0x15, 0x00,
    0x26, 0xFF, 0x00,
    0x75, 0x08,
    0x95, of_nat kPacketSize,
    0x09, 0x62,
    0x81, 0x02,
    0x95, of_nat kPacketSize,
    0x09, 0x63,
    0x91, 0x02,
    0xC0]"

section \<open>Reading descriptors\<close>

text \<open>The reader of the descriptor list of a configuration, as a host does it.\<close>

function descriptors :: "u8 list \<Rightarrow> u8 list list" where
  "descriptors bs =
     (case bs of [] \<Rightarrow> []
      | b # _ \<Rightarrow> if b = 0 then [] else take (unat b) bs # descriptors (drop (unat b) bs))"
  by auto
termination
  by (relation "measure length") (auto simp: unat_gt_0)

declare descriptors.simps [simp del]

definition le_value :: "u8 list \<Rightarrow> nat" where
  "le_value bs = foldr (\<lambda>b v. unat b + 256 * v) bs 0"

text \<open>The items of a report descriptor: prefix without its size, and the value.\<close>

definition item_size :: "u8 \<Rightarrow> nat" where
  "item_size b = (if b AND 3 = 3 then 4 else unat (b AND 3))"

function hid_items :: "u8 list \<Rightarrow> (u8 \<times> nat) list" where
  "hid_items [] = []"
| "hid_items (b # bs) = (b AND 0xFC, le_value (take (item_size b) bs)) # hid_items (drop (item_size b) bs)"
  by pat_completeness auto
termination
  by (relation "measure length") auto

text \<open>A main item with the state it finds: its usages, its field size and count, and its flags.\<close>

record hid_field =
  hf_output :: bool
  hf_id :: nat
  hf_usages :: "nat \<times> nat \<times> nat"
  hf_size :: nat
  hf_count :: nat
  hf_flags :: nat

record hid_reader =
  hr_page :: nat
  hr_min :: nat
  hr_max :: nat
  hr_id :: nat
  hr_size :: nat
  hr_count :: nat
  hr_fields :: "hid_field list"

definition hid_main :: "bool \<Rightarrow> nat \<Rightarrow> hid_reader \<Rightarrow> hid_reader" where
  "hid_main out flags r = r\<lparr>hr_min := 0, hr_max := 0,
     hr_fields := hr_fields r @ [\<lparr>hf_output = out, hf_id = hr_id r, hf_usages = (hr_page r, hr_min r, hr_max r),
       hf_size = hr_size r, hf_count = hr_count r, hf_flags = flags\<rparr>]\<rparr>"

definition hid_item :: "u8 \<times> nat \<Rightarrow> hid_reader \<Rightarrow> hid_reader" where
  "hid_item item r = (case item of (b, v) \<Rightarrow>
     if b = 0x04 then r\<lparr>hr_page := v\<rparr>
     else if b = 0x74 then r\<lparr>hr_size := v\<rparr>
     else if b = 0x94 then r\<lparr>hr_count := v\<rparr>
     else if b = 0x84 then r\<lparr>hr_id := v\<rparr>
     else if b = 0x08 then r\<lparr>hr_min := v, hr_max := v\<rparr>
     else if b = 0x18 then r\<lparr>hr_min := v\<rparr>
     else if b = 0x28 then r\<lparr>hr_max := v\<rparr>
     else if b = 0x80 then hid_main False v r
     else if b = 0x90 then hid_main True v r
     else if b = 0xA0 then r\<lparr>hr_min := 0, hr_max := 0\<rparr>
     else r)"

definition hid_fields :: "u8 list \<Rightarrow> hid_field list" where
  "hid_fields bs = hr_fields (fold hid_item (hid_items bs)
     \<lparr>hr_page = 0, hr_min = 0, hr_max = 0, hr_id = 0, hr_size = 0, hr_count = 0, hr_fields = []\<rparr>)"

definition report_bits :: "bool \<Rightarrow> u8 list \<Rightarrow> nat" where
  "report_bits out bs = sum_list (map (\<lambda>f. hf_size f * hf_count f) (filter (\<lambda>f. hf_output f = out) (hid_fields bs)))"

text \<open>The usage of bit \<open>i\<close> of the first input field, the modifier byte of a keyboard.\<close>

definition modifier_usage :: "u8 list \<Rightarrow> nat \<Rightarrow> nat" where
  "modifier_usage bs i = (case hf_usages (hd (hid_fields bs)) of (page, lo, hi) \<Rightarrow> lo + i)"

section \<open>Facts\<close>

text \<open>The configuration: its total length, two interfaces of the HID class, each with the length of the
  report descriptor it announces, and the packet sizes of the endpoints.\<close>

definition endpoint_sizes :: "u8 list \<Rightarrow> (u8 \<times> nat) list" where
  "endpoint_sizes cfg = [(d ! 2, le_value (take 2 (drop 4 d))). d \<leftarrow> descriptors cfg, d ! 1 = 0x05]"

definition report_lengths :: "u8 list \<Rightarrow> nat list" where
  "report_lengths cfg = [le_value (take 2 (drop 7 d)). d \<leftarrow> descriptors cfg, d ! 1 = 0x21]"

lemma config_descriptors:
  "map (\<lambda>d. d ! 1) (descriptors kConfigDescriptor) = [0x02, 0x04, 0x21, 0x05, 0x04, 0x21, 0x05, 0x05]"
  "le_value (take 2 (drop 2 kConfigDescriptor)) = length kConfigDescriptor"
  "endpoint_sizes kConfigDescriptor = [(kKeyboardEpIn, 8), (kViaEpIn, 32), (kViaEpOut, 32)]"
  "report_lengths kConfigDescriptor = [length kBootKeyboardReportDescriptor, length kViaRawHidReportDescriptor]"
  by code_simp+

lemmas descriptor_eval = item_size_def le_value_def hid_item_def hid_main_def hid_fields_def

lemma boot_fields: "hid_fields kBootKeyboardReportDescriptor =
   [\<lparr>hf_output = False, hf_id = 0, hf_usages = (7, 0xE0, 0xE7), hf_size = 1, hf_count = 8, hf_flags = 2\<rparr>,
    \<lparr>hf_output = False, hf_id = 0, hf_usages = (7, 0, 0), hf_size = 8, hf_count = 1, hf_flags = 1\<rparr>,
    \<lparr>hf_output = False, hf_id = 0, hf_usages = (7, 0, 0xA4), hf_size = 8, hf_count = 6, hf_flags = 0\<rparr>,
    \<lparr>hf_output = True, hf_id = 0, hf_usages = (8, 1, 5), hf_size = 1, hf_count = 5, hf_flags = 2\<rparr>,
    \<lparr>hf_output = True, hf_id = 0, hf_usages = (8, 0, 0), hf_size = 3, hf_count = 1, hf_flags = 1\<rparr>]"
  by (simp add: kBootKeyboardReportDescriptor_def descriptor_eval)

lemma via_fields: "hid_fields kViaRawHidReportDescriptor =
   [\<lparr>hf_output = False, hf_id = 0, hf_usages = (0xFF60, 0, 0), hf_size = 8, hf_count = 32, hf_flags = 2\<rparr>,
    \<lparr>hf_output = True, hf_id = 0, hf_usages = (0xFF60, 0, 0), hf_size = 8, hf_count = 32, hf_flags = 2\<rparr>]"
  by (simp add: kViaRawHidReportDescriptor_def descriptor_eval)

lemma tusb_fields: "hid_fields kViaRawHidDescriptor =
   [\<lparr>hf_output = False, hf_id = 0, hf_usages = (0xFF60, 0x62, 0x62), hf_size = 8, hf_count = 32, hf_flags = 2\<rparr>,
    \<lparr>hf_output = True, hf_id = 0, hf_usages = (0xFF60, 0x63, 0x63), hf_size = 8, hf_count = 32, hf_flags = 2\<rparr>]"
  by (simp add: kViaRawHidDescriptor_def descriptor_eval kPacketSize_def)

lemma ble_fields: "hid_fields kReportMap =
   [\<lparr>hf_output = False, hf_id = 1, hf_usages = (7, 0xE2, 0xFD), hf_size = 1, hf_count = 8, hf_flags = 2\<rparr>,
    \<lparr>hf_output = False, hf_id = 1, hf_usages = (7, 0, 0), hf_size = 8, hf_count = 1, hf_flags = 1\<rparr>,
    \<lparr>hf_output = False, hf_id = 1, hf_usages = (7, 0, 0x65), hf_size = 8, hf_count = 6, hf_flags = 0\<rparr>]"
  by (simp add: kReportMap_def descriptor_eval)

lemma usb_report_bits:
  "report_bits False kBootKeyboardReportDescriptor = 64" "report_bits True kBootKeyboardReportDescriptor = 8"
  "report_bits False kViaRawHidReportDescriptor = 8 * kPacketSize"
  "report_bits True kViaRawHidReportDescriptor = 8 * kPacketSize"
  "report_bits False kViaRawHidDescriptor = 8 * kPacketSize" "report_bits True kViaRawHidDescriptor = 8 * kPacketSize"
  "report_bits False kReportMap = 64"
  by (simp_all add: report_bits_def boot_fields via_fields tusb_fields ble_fields kPacketSize_def)

lemma modifier_usages:
  "modifier_usage kBootKeyboardReportDescriptor i = 0xE0 + i" "modifier_usage kReportMap i = 0xE2 + i"
  by (simp_all add: modifier_usage_def boot_fields ble_fields)

end
