(* ===== verification/Key_Press.thy ===== *)
theory Key_Press
  imports Keyboard_Task
begin

text \<open>One key going down or up: what \<open>Keyboard::task\<close> makes of a single change of the debounced
  matrix.  A press stores the code the layers give at that moment, a release clears the stored code
  and undoes a momentary layer, whatever the layers are by then.\<close>

section \<open>Passes over a single change\<close>

lemma for_keys_single:
  assumes len: "rows \<le> length saved" "rows \<le> length down" "rows \<le> 32" "cols \<le> 32" and rc: "r < rows" "c < cols"
    and one: "\<And>r' c'. r' < rows \<Longrightarrow> c' < cols \<Longrightarrow>
      bit cRows r' \<and> bit (sel (saved ! r') (down ! r')) c' \<longleftrightarrow> r' = r \<and> c' = c"
    and f: "f r c s = Some s'"
  shows "for_keys rows cols cRows saved down sel f s = Some s'"
proof -
  let ?P = "\<lambda>D t. t = (if (r, c) \<in> D then s' else s)"
  have "\<exists>t. for_keys rows cols cRows saved down sel f s = Some t \<and> ?P ({..<rows} \<times> {..<cols}) t"
    by (rule for_keys_rule [OF len, where P = ?P]) (use one f in auto)
  then show ?thesis using rc by auto
qed

lemma for_keys_none:
  assumes len: "rows \<le> length saved" "rows \<le> length down" "rows \<le> 32" "cols \<le> 32"
    and none: "\<And>r c. r < rows \<Longrightarrow> c < cols \<Longrightarrow> \<not> (bit cRows r \<and> bit (sel (saved ! r) (down ! r)) c)"
  shows "for_keys rows cols cRows saved down sel f s = Some s"
proof -
  have "\<exists>t. for_keys rows cols cRows saved down sel f s = Some t \<and> t = s"
    by (rule for_keys_rule [OF len, where P = "\<lambda>_ t. t = s"]) (use none in auto)
  then show ?thesis by simp
qed

text \<open>The codes: the layer range of \<open>classifyKeycode\<close> is the domain of \<open>extractLayerAction\<close>.\<close>

lemma layer_class: "classifyKeycode code = KLayer \<longleftrightarrow> extractLayerAction code \<noteq> None"
proof -
  have "drop_bit 8 code = 0x52 \<longleftrightarrow> code AND 0xFF00 = 0x5200"
  proof -
    have "code AND 0xFF00 = push_bit 8 (drop_bit 8 code)"
    proof (rule bit_word_eqI)
      fix i assume i: "i < LENGTH(16)"
      have "bit (0xFF00 :: u16) i \<longleftrightarrow> 8 \<le> i" if "i < 16" for i
      proof -
        have "\<forall>i \<in> set [0..<16]. bit (0xFF00 :: u16) i \<longleftrightarrow> 8 \<le> i" by code_simp
        with that show ?thesis by simp
      qed
      with i show "bit (code AND 0xFF00) i \<longleftrightarrow> bit (push_bit 8 (drop_bit 8 code)) i"
        by (auto simp: bit_simps)
    qed
    moreover have "push_bit 8 (drop_bit 8 code) = 0x5200 \<longleftrightarrow> drop_bit 8 code = 0x52"
    proof
      assume "push_bit 8 (drop_bit 8 code) = (0x5200 :: u16)"
      then have "drop_bit 8 (push_bit 8 (drop_bit 8 code)) = drop_bit 8 (0x5200 :: u16)" by simp
      moreover have "drop_bit 8 (push_bit 8 (drop_bit 8 code)) = drop_bit 8 code"
        by (intro bit_word_eqI) (auto simp: bit_simps dest: bit_imp_le_length)
      moreover have "drop_bit 8 (0x5200 :: u16) = 0x52" by code_simp
      ultimately show "drop_bit 8 code = 0x52" by simp
    next
      assume "drop_bit 8 code = 0x52"
      then show "push_bit 8 (drop_bit 8 code) = (0x5200 :: u16)" by (simp add: push_bit_eq_mult)
    qed
    ultimately show ?thesis by simp
  qed
  then show ?thesis by (auto simp: classifyKeycode_def extractLayerAction_def Let_def)
qed

section \<open>The press\<close>

text \<open>What a press of a key with the code \<open>code\<close> stores.\<close>

definition stored_code :: "u16 \<Rightarrow> u16" where
  "stored_code code = (if classifyKeycode code \<in> {KNone, KTransparent} then 0 else code)"

definition layers_after :: "layer_state \<Rightarrow> u16 \<Rightarrow> layer_state" where
  "layers_after ls code = (case applyLayerPress ls code of None \<Rightarrow> ls | Some ls' \<Rightarrow> ls')"

lemma layers_after_same: "extractLayerAction code = None \<Longrightarrow> layers_after ls code = ls"
  by (simp add: layers_after_def applyLayerPress_def)

lemma press_passes:
  assumes wf: "keys_wf rows cols keymap ls codes" and rc: "r < unat rows" "c < unat cols"
    and up: "codes ! key_pos cols r c = 0" and code: "resolve_key keymap rows cols r c ls = Some code"
  shows "do { s \<leftarrow> press_layer_key keymap rows cols r c (ls, codes, boot); press_key keymap rows cols r c s } =
    Some (layers_after ls code, codes[key_pos cols r c := stored_code code], boot \<or> classifyKeycode code = KBoot)"
proof -
  have pos: "key_pos cols r c < length codes" by (rule keys_wf_pos [OF wf rc])
  have li: "layer_inv ls" using wf by (simp add: keys_wf_def)
  obtain ls' where ls': "applyLayerPress ls code = Some ls'" using press_total [OF li] by blast
  consider (layer) "extractLayerAction code \<noteq> None" | (boot) "classifyKeycode code = KBoot" "extractLayerAction code = None"
    | (other) "classifyKeycode code \<noteq> KBoot" "extractLayerAction code = None" by blast
  then show ?thesis
  proof cases
    case layer
    then have k: "classifyKeycode code = KLayer" by (simp add: layer_class)
    then have "code \<noteq> 0" using classify_zero by auto
    with layer k pos code ls' show ?thesis
      by (auto simp: press_layer_key_def press_key_def mem stored_code_def layers_after_def)
  next
    case boot
    then have "code \<noteq> 0" using classify_zero by auto
    with boot pos code show ?thesis
      by (auto simp: press_layer_key_def press_key_def mem stored_code_def layers_after_same)
  next
    case other
    then have k: "classifyKeycode code \<noteq> KLayer" by (simp add: layer_class)
    with other pos code up show ?thesis
      by (auto simp: press_layer_key_def press_key_def mem stored_code_def layers_after_same Let_def)
  qed
qed

text \<open>A single change of the matrix: key \<open>(r, c)\<close>, now down or up.\<close>

definition one_change :: "'io matrix \<Rightarrow> nat \<Rightarrow> nat \<Rightarrow> bool \<Rightarrow> bool" where
  "one_change m r c down \<longleftrightarrow> r < row_count m \<and> c < col_count m \<and>
     (\<forall>r' < row_count m. \<forall>c'. bit (mx_changedRows m ! r') c' \<longleftrightarrow> r' = r \<and> c' = c) \<and>
     (bit (mx_stableRows m ! r) c \<longleftrightarrow> down)"

lemma one_change_facts:
  assumes "kb_inv keymap k" and "one_change (kb_matrix k) r c down"
  shows "keys_wf (kb_rows k) (kb_columns k) keymap (kb_layerState k) (active_codes k)"
    "unat (kb_rows k) \<le> 8" "unat (kb_columns k) \<le> 32" "length (mx_stableRows (kb_matrix k)) = unat (kb_rows k)"
    "row_count (kb_matrix k) = unat (kb_rows k)" "col_count (kb_matrix k) = unat (kb_columns k)"
    "r < unat (kb_rows k)" "c < unat (kb_columns k)"
  using assms by (auto simp: kb_inv_def keys_wf_def mx_inv_def one_change_def)

text \<open>The parts of a task around the passes, for a change that is not yet seen.\<close>

context keyboard_port
begin

lemma task_of_change:
  assumes inv: "kb_inv keymap k" and one: "one_change (kb_matrix k) r c down"
    and ac: "\<And>cRows saved. length saved = 8 \<Longrightarrow> cRows \<noteq> 0 \<Longrightarrow>
      (\<And>r'. r' < unat (kb_rows k) \<Longrightarrow> (bit cRows r' \<longleftrightarrow> r' = r) \<and> saved ! r' = mx_changedRows (kb_matrix k) ! r') \<Longrightarrow>
      apply_changes keymap (kb_rows k) (kb_columns k) cRows saved (mx_stableRows (kb_matrix k))
        (kb_layerState k, active_codes k, False) = Some (ls', codes', boot)"
    and wf': "keys_wf (kb_rows k) (kb_columns k) keymap ls' codes'"
  shows "\<exists>k'. keyboard_task hv keymap k = Some k' \<and> kb_layerState k' = ls' \<and> active_codes k' = codes' \<and>
    report_current k' \<and> kb_inv keymap k' \<and>
    (boot \<and> kb_callbacks k \<and> \<not> kb_wasSuspended k' \<longrightarrow> BootloaderRequested \<in> set (kb_events k'))"
proof -
  let ?m = "kb_matrix k"
  obtain h leds evs where d: "drain_leds hv k =
      Some (k\<lparr>kb_hid := h, kb_lastHostLeds := leds, kb_events := kb_events k @ map HostLedsChanged evs\<rparr>)" (is "_ = Some ?k1")
    using drain_leds_total by blast
  let ?k2 = "finish_report hv ?k1"
  have s1: "same_keys k ?k1" by (simp add: same_keys_def)
  then have s2: "same_keys k ?k2" using finish_report_same [of ?k1] by (simp add: same_keys_def)
  have cb: "kb_callbacks ?k2 = kb_callbacks k" by (simp add: finish_report_def split: prod.splits bool.splits)
  have e: "kb_rows ?k2 = kb_rows k" "kb_columns ?k2 = kb_columns k" "kb_matrix ?k2 = ?m" "kb_layerState ?k2 = kb_layerState k"
    "active_codes ?k2 = active_codes k" using s2 by (simp_all add: same_keys_def active_codes_def)
  have inv2: "kb_inv keymap ?k2" using inv same_keys_facts(1) [OF s2] by simp
  have mx: "mx_inv ?m" "row_count ?m = unat (kb_rows k)" using inv by (simp_all add: kb_inv_def)
  obtain cRows where c: "changedRows_mask ?m = Some cRows"
    "\<And>r. bit cRows r \<longleftrightarrow> r < row_count ?m \<and> mx_changedRows ?m ! r \<noteq> 0"
    using changedRows_mask_bits [OF mx(1)] by blast
  have bits: "bit cRows r' \<longleftrightarrow> r' = r" if "r' < unat (kb_rows k)" for r'
  proof -
    have "mx_changedRows ?m ! r' \<noteq> 0 \<longleftrightarrow> (\<exists>i. bit (mx_changedRows ?m ! r') i)" by (metis bit_0_eq bit_eqI bot_apply bot_bool_def)
    with c(2) one that mx(2) show ?thesis by (auto simp: one_change_def)
  qed
  then have "bit cRows r" using one mx(2) by (simp add: one_change_def)
  then have nz: "cRows \<noteq> 0" by auto
  obtain saved where saved: "save_changed ?k2 = Some saved" "length saved = 8"
    "\<forall>r < unat (kb_rows k). saved ! r = mx_changedRows ?m ! r" using save_changed_eq [of ?k2] e mx by metis
  obtain b where b: "hasChanged ?m = Some (b, ?m\<lparr>mx_changedRows := replicate (row_count ?m) 0\<rparr>)"
    using hasChanged_eq [OF mx(1)] by blast
  have ac': "apply_changes keymap (kb_rows k) (kb_columns k) cRows saved (mx_stableRows ?m)
        (kb_layerState k, active_codes k, False) = Some (ls', codes', boot)"
    by (rule ac [OF saved(2) nz]) (use bits saved(3) in blast)
  obtain codes2 where a2: "kb_activeCodes ?k2 = Some codes2" using inv2 by (auto simp: kb_inv_def)
  let ?k3 = "?k2\<lparr>kb_matrix := ?m\<lparr>mx_changedRows := replicate (row_count ?m) 0\<rparr>, kb_layerState := ls', kb_activeCodes := Some codes'\<rparr>"
  have inv3: "kb_inv keymap ?k3" using inv wf' e by (auto simp: kb_inv_def active_codes_def mx_inv_def row_count_def col_count_def)
  have ch: "change_phase hv keymap cRows ?k2 = report_phase hv boot ?k3"
    using saved(1) b ac' e a2 by (simp add: change_phase_def)
  obtain k' where k': "report_phase hv boot ?k3 = Some k'" "same_keys ?k3 k'" "report_current k'"
    using report_phase_total [OF inv3] by blast
  have "keyboard_task hv keymap k = Some k'"
    using d c(1) nz e(3) ch k'(1) by (simp add: keyboard_task_def Let_def)
  moreover have "BootloaderRequested \<in> set (kb_events k')" if "boot" "kb_callbacks k" "\<not> kb_wasSuspended k'"
  proof (cases "hid_suspended hv (kb_hid ?k3)")
    case True
    then have "kb_wasSuspended k'" using k'(1)
      by (auto simp: report_phase_def wake_host_def split: if_splits bind_splits)
    with that show ?thesis by simp
  next
    case False
    then show ?thesis using k'(1) that cb by (auto simp: report_phase_def Let_def send_desired_def split: bind_splits if_splits)
  qed
  ultimately show ?thesis using k' same_keys_facts(1,5) [OF k'(2)] inv3
    by (intro exI [of _ k']) (auto simp: same_keys_def active_codes_def)
qed

lemma key_press:
  assumes inv: "kb_inv keymap k" and one: "one_change (kb_matrix k) r c True"
    and up: "active_codes k ! key_pos (kb_columns k) r c = 0"
    and code: "resolve_key keymap (kb_rows k) (kb_columns k) r c (kb_layerState k) = Some code"
  shows "\<exists>k'. keyboard_task hv keymap k = Some k' \<and> kb_layerState k' = layers_after (kb_layerState k) code \<and>
    active_codes k' = (active_codes k)[key_pos (kb_columns k) r c := stored_code code] \<and> report_current k' \<and> kb_inv keymap k' \<and>
    (classifyKeycode code = KBoot \<and> kb_callbacks k \<and> \<not> kb_wasSuspended k' \<longrightarrow> BootloaderRequested \<in> set (kb_events k'))"
proof (rule task_of_change [OF inv one])
  let ?rows = "kb_rows k" and ?cols = "kb_columns k" and ?m = "kb_matrix k"
  note facts = one_change_facts [OF inv one]
  note wf = facts(1) and n = facts(2-6) and rc = facts(7,8)
  have li: "layer_inv (kb_layerState k)" using wf by (simp add: keys_wf_def)
  obtain ls' where ls': "applyLayerPress (kb_layerState k) code = Some ls'" "layer_inv ls'"
    "ls_layerCount ls' = ls_layerCount (kb_layerState k)" using press_total [OF li] by blast
  then show "keys_wf ?rows ?cols keymap (layers_after (kb_layerState k) code)
      ((active_codes k)[key_pos ?cols r c := stored_code code])"
    using wf by (simp add: keys_wf_def layers_after_def)
  fix cRows :: u32 and saved :: "u32 list"
  assume l: "length saved = 8" and nz: "cRows \<noteq> 0" and
    agree: "\<And>r'. r' < unat ?rows \<Longrightarrow> (bit cRows r' \<longleftrightarrow> r' = r) \<and> saved ! r' = mx_changedRows ?m ! r'"
  have len: "unat ?rows \<le> length saved" "unat ?rows \<le> length (mx_stableRows ?m)" "unat ?rows \<le> 32" "unat ?cols \<le> 32"
    using n l by simp_all
  have sel: "bit cRows r' \<and> bit (saved ! r') c' \<longleftrightarrow> r' = r \<and> c' = c" if "r' < unat ?rows" for r' c'
    using agree [OF that] one n(4) that by (auto simp: one_change_def)
  have down: "bit (mx_stableRows ?m ! r) c" using one by (simp add: one_change_def)
  have rel: "for_keys (unat ?rows) (unat ?cols) cRows saved (mx_stableRows ?m) released_keys (release_key ?cols) s = Some s" for s
  proof (rule for_keys_none [OF len])
    fix r' c' assume "r' < unat ?rows" "c' < unat ?cols"
    with sel [of r' c'] down show "\<not> (bit cRows r' \<and> bit (released_keys (saved ! r') (mx_stableRows ?m ! r')) c')"
      by (auto simp: released_keys_def bit_simps)
  qed
  have one': "bit cRows r' \<and> bit (pressed_keys (saved ! r') (mx_stableRows ?m ! r')) c' \<longleftrightarrow> r' = r \<and> c' = c"
    if "r' < unat ?rows" "c' < unat ?cols" for r' c'
    using sel [OF that(1), of c'] down by (auto simp: pressed_keys_def bit_simps)
  obtain s1 where s1: "press_layer_key keymap ?rows ?cols r c (kb_layerState k, active_codes k, False) = Some s1"
    "press_key keymap ?rows ?cols r c s1 = Some (layers_after (kb_layerState k) code,
       (active_codes k)[key_pos ?cols r c := stored_code code], classifyKeycode code = KBoot)"
    using press_passes [OF wf rc up code, of False] by (auto split: bind_splits)
  show "apply_changes keymap ?rows ?cols cRows saved (mx_stableRows ?m) (kb_layerState k, active_codes k, False) =
      Some (layers_after (kb_layerState k) code, (active_codes k)[key_pos ?cols r c := stored_code code],
        classifyKeycode code = KBoot)"
    unfolding apply_changes_def
    using nz rel for_keys_single [where f = "press_layer_key keymap ?rows ?cols", OF len rc one' s1(1)]
      for_keys_single [where f = "press_key keymap ?rows ?cols", OF len rc one' s1(2)] by simp
qed

section \<open>The release\<close>

lemma key_release:
  assumes inv: "kb_inv keymap k" and one: "one_change (kb_matrix k) r c False"
    and code: "active_codes k ! key_pos (kb_columns k) r c = code" "code \<noteq> 0"
    and ls': "applyLayerRelease (kb_layerState k) code = Some ls'"
  shows "\<exists>k'. keyboard_task hv keymap k = Some k' \<and> kb_layerState k' = ls' \<and>
    active_codes k' = (active_codes k)[key_pos (kb_columns k) r c := 0] \<and> report_current k' \<and> kb_inv keymap k'"
proof -
  let ?rows = "kb_rows k" and ?cols = "kb_columns k" and ?m = "kb_matrix k"
  note facts = one_change_facts [OF inv one]
  note wf = facts(1) and n = facts(2-6) and rc = facts(7,8)
  have li: "layer_inv (kb_layerState k)" using wf by (simp add: keys_wf_def)
  have ls: "layer_inv ls'" "ls_layerCount ls' = ls_layerCount (kb_layerState k)" using release_total [OF li, of code] ls' by auto
  have wf': "keys_wf ?rows ?cols keymap ls' ((active_codes k)[key_pos ?cols r c := 0])"
    using wf ls by (simp add: keys_wf_def)
  have "\<exists>k'. keyboard_task hv keymap k = Some k' \<and> kb_layerState k' = ls' \<and>
    active_codes k' = (active_codes k)[key_pos ?cols r c := 0] \<and> report_current k' \<and> kb_inv keymap k' \<and>
    (False \<and> kb_callbacks k \<and> \<not> kb_wasSuspended k' \<longrightarrow> BootloaderRequested \<in> set (kb_events k'))"
  proof (rule task_of_change [OF inv one _ wf'])
    fix cRows :: u32 and saved :: "u32 list"
    assume l: "length saved = 8" and nz: "cRows \<noteq> 0" and
      agree: "\<And>r'. r' < unat ?rows \<Longrightarrow> (bit cRows r' \<longleftrightarrow> r' = r) \<and> saved ! r' = mx_changedRows ?m ! r'"
    have len: "unat ?rows \<le> length saved" "unat ?rows \<le> length (mx_stableRows ?m)" "unat ?rows \<le> 32" "unat ?cols \<le> 32"
      using n l by simp_all
    have sel: "bit cRows r' \<and> bit (saved ! r') c' \<longleftrightarrow> r' = r \<and> c' = c" if "r' < unat ?rows" for r' c'
      using agree [OF that] one n(4) that by (auto simp: one_change_def)
    have up: "\<not> bit (mx_stableRows ?m ! r) c" using one by (simp add: one_change_def)
    have press: "for_keys (unat ?rows) (unat ?cols) cRows saved (mx_stableRows ?m) pressed_keys f s = Some s"
      for f and s :: keys_state
    proof (rule for_keys_none [OF len])
      fix r' c' assume "r' < unat ?rows" "c' < unat ?cols"
      with sel [of r' c'] up show "\<not> (bit cRows r' \<and> bit (pressed_keys (saved ! r') (mx_stableRows ?m ! r')) c')"
        by (auto simp: pressed_keys_def bit_simps)
    qed
    have one': "bit cRows r' \<and> bit (released_keys (saved ! r') (mx_stableRows ?m ! r')) c' \<longleftrightarrow> r' = r \<and> c' = c"
      if "r' < unat ?rows" "c' < unat ?cols" for r' c'
      using sel [OF that(1), of c'] up that(2) n(2) by (auto simp: released_keys_def bit_simps)
    have "release_key ?cols r c (kb_layerState k, active_codes k, False) =
        Some (ls', (active_codes k)[key_pos ?cols r c := 0], False)"
      using keys_wf_pos [OF wf rc] code ls'
      by (cases "extractLayerAction code") (auto simp: release_key_def mem applyLayerRelease_def)
    from for_keys_single [where f = "release_key ?cols", OF len rc one' this] nz press
    show "apply_changes keymap ?rows ?cols cRows saved (mx_stableRows ?m) (kb_layerState k, active_codes k, False) =
        Some (ls', (active_codes k)[key_pos ?cols r c := 0], False)"
      by (simp add: apply_changes_def)
  qed
  then show ?thesis by blast
qed

end

end
