(* ===== verification/Keyboard_Log.thy ===== *)
theory Keyboard_Log
  imports Key_Press
begin

text \<open>
  What the host sees of the keyboard.  \<open>hid_tap\<close> puts a recorder in front of any HID port: it forwards
  every call and keeps the history of the reports handed to \<open>send\<close>, with the result, and of the answers
  of \<open>sendComplete\<close>.  The lemmas tie the fields of \<open>Keyboard\<close> that speak of the latest report to
  this history.
\<close>

section \<open>The recorder\<close>

datatype hid_event = Handed report bool | Asked bool

definition hid_tap :: "'h hid_vt \<Rightarrow> ('h \<times> hid_event list) hid_vt" where
  "hid_tap hv = \<lparr>hid_configured = (\<lambda>(h, log). hid_configured hv h),
     hid_send = (\<lambda>(h, log) r. case hid_send hv h r of (ok, h') \<Rightarrow> (ok, (h', log @ [Handed r ok]))),
     hid_sendComplete = (\<lambda>(h, log). case hid_sendComplete hv h of (ok, h') \<Rightarrow> (ok, (h', log @ [Asked ok]))),
     hid_takeHostLeds = (\<lambda>(h, log). case hid_takeHostLeds hv h of (leds, h') \<Rightarrow> (leds, (h', log))),
     hid_suspended = (\<lambda>(h, log). hid_suspended hv h),
     hid_remoteWakeupAllowed = (\<lambda>(h, log). hid_remoteWakeupAllowed hv h),
     hid_remoteWakeup = (\<lambda>(h, log). case hid_remoteWakeup hv h of (ok, h') \<Rightarrow> (ok, (h', log)))\<rparr>"

primrec handed_reports :: "hid_event list \<Rightarrow> report list" where
  "handed_reports [] = []"
| "handed_reports (e # es) = (case e of Handed r _ \<Rightarrow> r # handed_reports es | Asked _ \<Rightarrow> handed_reports es)"

lemma handed_reports_append [simp]: "handed_reports (es @ fs) = handed_reports es @ handed_reports fs"
  by (induction es) (auto split: hid_event.splits)

text \<open>The report the host was given last; before the first one, the report with no key.\<close>

definition host_report :: "hid_event list \<Rightarrow> report" where
  "host_report log = last (empty_report # handed_reports log)"

lemma host_report_simps [simp]:
  "host_report [] = empty_report" "host_report (log @ [Handed r ok]) = r" "host_report (log @ [Asked b]) = host_report log"
  by (simp_all add: host_report_def)

lemma hid_tap_port: "keyboard_port hv pend \<Longrightarrow> keyboard_port (hid_tap hv) (pend \<circ> fst)"
  by (auto simp: keyboard_port_def hid_tap_def split: prod.splits)

lemma hid_tap_sel:
  "hid_suspended (hid_tap hv) hl = hid_suspended hv (fst hl)"
  "snd (snd (hid_takeHostLeds (hid_tap hv) hl)) = snd hl"
  "snd (snd (hid_remoteWakeup (hid_tap hv) hl)) = snd hl"
  by (auto simp: hid_tap_def split: prod.splits)

lemma hid_tap_send: "\<exists>ok h. hid_send (hid_tap hv) hl r = (ok, (h, snd hl @ [Handed r ok]))"
  by (auto simp: hid_tap_def split: prod.splits)

lemma hid_tap_complete: "\<exists>ok h. hid_sendComplete (hid_tap hv) hl = (ok, (h, snd hl @ [Asked ok]))"
  by (auto simp: hid_tap_def split: prod.splits)

section \<open>The fields agree with the history\<close>

abbreviation hid_log :: "('io, 'h \<times> hid_event list) keyboard \<Rightarrow> hid_event list" where
  "hid_log k \<equiv> snd (kb_hid k)"

definition log_agrees :: "('io, 'h \<times> hid_event list) keyboard \<Rightarrow> bool" where
  "log_agrees k \<longleftrightarrow> host_report (hid_log k) = latest_report k"

text \<open>The effect of taking the host's LEDs: only the port's state, the LEDs and the events change.\<close>

definition same_report :: "('io, 'h) keyboard \<Rightarrow> ('io, 'h) keyboard \<Rightarrow> bool" where
  "same_report k k' \<longleftrightarrow> same_keys k k' \<and> kb_pendingReport k' = kb_pendingReport k \<and>
     kb_reportPending k' = kb_reportPending k \<and> kb_lastAcceptedReport k' = kb_lastAcceptedReport k \<and>
     kb_wasSuspended k' = kb_wasSuspended k"

lemma drain_leds_log:
  "drain_leds (hid_tap hv) k = Some k' \<Longrightarrow> hid_log k' = hid_log k \<and> same_report k k'"
proof (induction "hid_tap hv" k k' rule: drain_leds.raw_induct [rotated, consumes 1])
  case (1 drain k k')
  obtain o1 h where t: "hid_takeHostLeds (hid_tap hv) (kb_hid k) = (o1, h)" by (metis surj_pair)
  have log: "snd h = hid_log k" using hid_tap_sel(2) [of hv "kb_hid k"] t by simp
  show ?case
  proof (cases o1)
    case None
    with 1(2) t log show ?thesis by (auto simp: same_report_def same_keys_def)
  next
    case (Some leds)
    let ?k = "if kb_callbacks k \<and> leds \<noteq> kb_lastHostLeds k
           then k\<lparr>kb_hid := h, kb_lastHostLeds := leds, kb_events := kb_events k @ [HostLedsChanged leds]\<rparr>
           else k\<lparr>kb_hid := h\<rparr>"
    have "drain (hid_tap hv) ?k = Some k'" using 1(2) t Some by simp
    then have "hid_log k' = hid_log ?k \<and> same_report ?k k'" by (intro 1(1)) simp_all
    with log show ?thesis by (cases "kb_callbacks k \<and> leds \<noteq> kb_lastHostLeds k") (auto simp: same_report_def same_keys_def)
  qed
qed

lemma same_report_agrees: "same_report k k' \<Longrightarrow> hid_log k' = hid_log k \<Longrightarrow> log_agrees k' \<longleftrightarrow> log_agrees k"
  by (simp add: same_report_def log_agrees_def latest_report_def)

lemma finish_report_agrees: "log_agrees k \<Longrightarrow> log_agrees (finish_report (hid_tap hv) k)"
proof -
  assume a: "log_agrees k"
  obtain b h where c: "hid_sendComplete (hid_tap hv) (kb_hid k) = (b, (h, hid_log k @ [Asked b]))"
    using hid_tap_complete [of hv "kb_hid k"] by blast
  obtain ok h' where s: "hid_send (hid_tap hv) (h, hid_log k @ [Asked b]) (kb_pendingReport k) =
      (ok, (h', hid_log k @ [Asked b] @ [Handed (kb_pendingReport k) ok]))"
    using hid_tap_send [of hv "(h, hid_log k @ [Asked b])"] by fastforce
  have "hid_log k @ [Asked b] @ [Handed (kb_pendingReport k) ok] = (hid_log k @ [Asked b]) @ [Handed (kb_pendingReport k) ok]"
    by simp
  then have "host_report (hid_log k @ [Asked b] @ [Handed (kb_pendingReport k) ok]) = kb_pendingReport k"
    by (simp only: host_report_simps)
  with a c s show ?thesis
    by (cases b) (auto simp: finish_report_def log_agrees_def latest_report_def)
qed

lemma send_desired_agrees:
  "log_agrees k \<Longrightarrow> log_agrees (send_desired (hid_tap hv) r k) \<and> host_report (hid_log (send_desired (hid_tap hv) r k)) = r"
proof -
  assume a: "log_agrees k"
  obtain ok h where s: "hid_send (hid_tap hv) (kb_hid k) r = (ok, (h, hid_log k @ [Handed r ok]))"
    using hid_tap_send [of hv "kb_hid k" r] by blast
  with a show ?thesis by (auto simp: send_desired_def log_agrees_def latest_report_def)
qed

lemma report_phase_agrees:
  assumes "log_agrees k" and "report_phase (hid_tap hv) boot k = Some k'"
  shows "log_agrees k'"
proof (cases "hid_suspended (hid_tap hv) (kb_hid k)")
  case True
  have "snd (snd (hid_remoteWakeup (hid_tap hv) (kb_hid k))) = hid_log k" by (rule hid_tap_sel)
  with assms True show ?thesis
    by (auto simp: report_phase_def wake_host_def log_agrees_def latest_report_def split: if_splits bind_splits)
next
  case False
  let ?k = "k\<lparr>kb_wasSuspended := False, kb_wakeRequested := False\<rparr>"
  have "log_agrees ?k" using assms(1) by (simp add: log_agrees_def latest_report_def)
  from send_desired_agrees [OF this] False assms(2) show ?thesis
    by (auto simp: report_phase_def Let_def log_agrees_def latest_report_def split: if_splits bind_splits)
qed

lemma change_phase_agrees:
  assumes "log_agrees k" and "change_phase (hid_tap hv) keymap cRows k = Some k'"
  shows "log_agrees k'"
proof -
  obtain m ls codes boot where r: "report_phase (hid_tap hv) boot
      (k\<lparr>kb_matrix := m, kb_layerState := ls, kb_activeCodes := map_option (\<lambda>_. codes) (kb_activeCodes k)\<rparr>) = Some k'"
    using assms(2) by (auto simp: change_phase_def split: bind_splits)
  show ?thesis by (rule report_phase_agrees [OF _ r]) (use assms(1) in \<open>simp add: log_agrees_def latest_report_def\<close>)
qed

lemma keyboard_task_agrees:
  assumes a: "log_agrees k" and t: "keyboard_task (hid_tap hv) keymap k = Some k'"
  shows "log_agrees k'"
proof -
  obtain k1 where k1: "drain_leds (hid_tap hv) k = Some k1" using t by (auto simp: keyboard_task_def split: bind_splits)
  let ?k2 = "finish_report (hid_tap hv) k1"
  have "log_agrees k1" using drain_leds_log [OF k1] same_report_agrees a by blast
  then have a2: "log_agrees ?k2" by (rule finish_report_agrees)
  then have "log_agrees (?k2\<lparr>kb_wasSuspended := b\<rparr>)" for b by (simp add: log_agrees_def latest_report_def)
  with t k1 change_phase_agrees [OF a2] show ?thesis
    by (auto simp: keyboard_task_def Let_def split: bind_splits if_splits)
qed

lemma keyboard_run_agrees:
  "log_agrees k \<Longrightarrow> keyboard_run vt (hid_tap hv) keymap k mss = Some k' \<Longrightarrow> log_agrees k'"
proof (induction mss arbitrary: k)
  case (Cons ms mss)
  have "log_agrees (k\<lparr>kb_matrix := m\<rparr>)" for m using Cons.prems(1) by (simp add: log_agrees_def latest_report_def)
  then have "log_agrees k1" if "keyboard_turn vt (hid_tap hv) keymap k ms = Some k1" for k1
    using that keyboard_task_agrees by (fastforce simp: keyboard_turn_def split: bind_splits)
  with Cons show ?case by (auto split: bind_splits)
qed simp

lemma keyboard_new_agrees: "log_agrees (keyboard_new rows cols m layers (h, []) codes cb)"
  by (simp add: log_agrees_def latest_report_def keyboard_new_def)

text \<open>While the host is awake it holds the report of the active keys.\<close>

lemma report_at_host:
  "report_current k \<Longrightarrow> log_agrees k \<Longrightarrow> \<not> kb_wasSuspended k \<Longrightarrow> buildReport k = Some (host_report (hid_log k))"
  by (simp add: report_current_def log_agrees_def)

lemma handed_to_host:
  "log_agrees k \<Longrightarrow> host_report (hid_log k) = (if kb_reportPending k then kb_pendingReport k else kb_lastAcceptedReport k)"
  by (simp add: log_agrees_def latest_report_def)

section \<open>Until the transfer is complete\<close>

text \<open>A task that finds no change asks the port about the pending report and hands it over again when
  the answer is no.\<close>

primrec keyboard_tasks ::
  "'h hid_vt \<Rightarrow> u16 list \<Rightarrow> nat \<Rightarrow> ('io, 'h) keyboard \<Rightarrow> ('io, 'h) keyboard option" where
  "keyboard_tasks hv keymap 0 k = Some k"
| "keyboard_tasks hv keymap (Suc n) k = do { k' \<leftarrow> keyboard_task hv keymap k; keyboard_tasks hv keymap n k' }"

definition offers :: "report \<Rightarrow> bool list \<Rightarrow> hid_event list" where
  "offers r oks = concat (map (\<lambda>ok. [Asked False, Handed r ok]) oks)"

definition waiting :: "report \<Rightarrow> ('io, 'h \<times> hid_event list) keyboard \<Rightarrow> bool" where
  "waiting r k \<longleftrightarrow> kb_reportPending k \<and> kb_pendingReport k = r"

definition settled :: "report \<Rightarrow> ('io, 'h \<times> hid_event list) keyboard \<Rightarrow> bool" where
  "settled r k \<longleftrightarrow> \<not> kb_reportPending k \<and> kb_lastAcceptedReport k = r"

lemma quiet_step:
  assumes port: "keyboard_port hv pend" and inv: "kb_inv keymap k" and held: "no_stuck_key k"
    and up: "\<not> kb_wasSuspended k" and awake: "\<And>h. \<not> hid_suspended hv h"
  obtains k' where "keyboard_task (hid_tap hv) keymap k = Some k'" "kb_inv keymap k'" "no_stuck_key k'" "\<not> kb_wasSuspended k'"
    "\<not> kb_reportPending k \<Longrightarrow> settled (kb_lastAcceptedReport k) k' \<and> hid_log k' = hid_log k"
    "kb_reportPending k \<Longrightarrow> settled (kb_pendingReport k) k' \<and> hid_log k' = hid_log k @ [Asked True] \<or>
       waiting (kb_pendingReport k) k' \<and> (\<exists>ok. hid_log k' = hid_log k @ [Asked False, Handed (kb_pendingReport k) ok])"
proof -
  obtain k1 where k1: "drain_leds (hid_tap hv) k = Some k1"
    using keyboard_port.drain_leds_total [OF hid_tap_port [OF port], of k] by blast
  have l1: "hid_log k1 = hid_log k" "same_report k k1" using drain_leds_log [OF k1] by auto
  let ?k2 = "finish_report (hid_tap hv) k1" and ?k3 = "finish_report (hid_tap hv) k1\<lparr>kb_wasSuspended := False\<rparr>"
  have s2: "same_keys k1 ?k2" "kb_wasSuspended ?k2 = kb_wasSuspended k1"
    using keyboard_port.finish_report_same [OF hid_tap_port [OF port], of k1] by auto
  have s: "same_keys k ?k3" using l1(2) s2(1) by (auto simp: same_report_def same_keys_def)
  have mx: "mx_inv (kb_matrix k)" "row_count (kb_matrix k) = unat (kb_rows k)" using inv by (simp_all add: kb_inv_def)
  obtain cRows where c: "changedRows_mask (kb_matrix k) = Some cRows"
    "\<And>r. bit cRows r \<longleftrightarrow> r < row_count (kb_matrix k) \<and> mx_changedRows (kb_matrix k) ! r \<noteq> 0"
    using changedRows_mask_bits [OF mx(1)] by blast
  have "\<not> bit cRows r" for r using c(2) held mx(2) by (auto simp: no_stuck_key_def)
  then have z: "cRows = 0" by (intro bit_word_eqI) simp
  have m: "kb_matrix ?k2 = kb_matrix k" "\<not> kb_wasSuspended ?k2" using s s2(2) l1(2) up by (simp_all add: same_keys_def same_report_def)
  have aw: "\<not> hid_suspended (hid_tap hv) hl" for hl by (simp add: hid_tap_sel awake)
  have "keyboard_task (hid_tap hv) keymap k = Some ?k3"
    using k1 c(1) z m aw by (simp add: keyboard_task_def Let_def)
  moreover have "kb_inv keymap ?k3" "no_stuck_key ?k3" using same_keys_facts [OF s] inv held by auto
  moreover obtain b h where q: "hid_sendComplete (hid_tap hv) (kb_hid k1) = (b, (h, hid_log k1 @ [Asked b]))"
    using hid_tap_complete [of hv "kb_hid k1"] by blast
  moreover obtain ok h' where o: "hid_send (hid_tap hv) (h, hid_log k1 @ [Asked b]) (kb_pendingReport k1) =
      (ok, (h', hid_log k1 @ [Asked b] @ [Handed (kb_pendingReport k1) ok]))"
    using hid_tap_send [of hv "(h, hid_log k1 @ [Asked b])"] by fastforce
  ultimately show thesis
    using l1 that [of ?k3] by (cases b) (auto simp: finish_report_def settled_def waiting_def same_report_def)
qed

lemma quiet_settled:
  assumes "keyboard_port hv pend" and "\<And>h. \<not> hid_suspended hv h"
    and "kb_inv keymap k" "no_stuck_key k" "\<not> kb_wasSuspended k" "settled r k"
  shows "\<exists>k'. keyboard_tasks (hid_tap hv) keymap n k = Some k' \<and> settled r k' \<and> hid_log k' = hid_log k"
  using assms(3-)
proof (induction n arbitrary: k)
  case (Suc n)
  from quiet_step [OF assms(1) Suc.prems(1,2,3) assms(2)] obtain k1 where k1: "keyboard_task (hid_tap hv) keymap k = Some k1"
    "kb_inv keymap k1" "no_stuck_key k1" "\<not> kb_wasSuspended k1" "settled r k1" "hid_log k1 = hid_log k"
    using Suc.prems(4) by (metis settled_def)
  with Suc.IH [OF k1(2-5)] show ?case by auto
qed simp

lemma quiet_waiting:
  assumes "keyboard_port hv pend" and "\<And>h. \<not> hid_suspended hv h"
    and "kb_inv keymap k" "no_stuck_key k" "\<not> kb_wasSuspended k" "waiting r k"
  shows "\<exists>k' oks. keyboard_tasks (hid_tap hv) keymap n k = Some k' \<and>
    (waiting r k' \<and> length oks = n \<and> hid_log k' = hid_log k @ offers r oks \<or>
     settled r k' \<and> length oks < n \<and> hid_log k' = hid_log k @ offers r oks @ [Asked True])"
  using assms(3-)
proof (induction n arbitrary: k)
  case 0
  then show ?case by (intro exI [of _ k] exI [of _ "[]"]) (simp add: offers_def)
next
  case (Suc n)
  have p: "kb_reportPending k" "kb_pendingReport k = r" using Suc.prems(4) by (simp_all add: waiting_def)
  from quiet_step [OF assms(1) Suc.prems(1,2,3) assms(2)] p obtain k1 where k1: "keyboard_task (hid_tap hv) keymap k = Some k1"
    "kb_inv keymap k1" "no_stuck_key k1" "\<not> kb_wasSuspended k1"
    "settled r k1 \<and> hid_log k1 = hid_log k @ [Asked True] \<or>
     waiting r k1 \<and> (\<exists>ok. hid_log k1 = hid_log k @ [Asked False, Handed r ok])"
    by (metis (no_types))
  from k1(5) show ?case
  proof (elim disjE conjE exE)
    assume s: "settled r k1" "hid_log k1 = hid_log k @ [Asked True]"
    from quiet_settled [OF assms(1,2) k1(2-4) s(1), of n] obtain k' where
      "keyboard_tasks (hid_tap hv) keymap n k1 = Some k'" "settled r k'" "hid_log k' = hid_log k1" by blast
    with k1(1) s(2) show ?thesis by (intro exI [of _ k'] exI [of _ "[]"]) (simp add: offers_def)
  next
    fix ok assume w: "waiting r k1" "hid_log k1 = hid_log k @ [Asked False, Handed r ok]"
    from Suc.IH [OF k1(2-4) w(1)] obtain k' oks where "keyboard_tasks (hid_tap hv) keymap n k1 = Some k'"
      "waiting r k' \<and> length oks = n \<and> hid_log k' = hid_log k1 @ offers r oks \<or>
       settled r k' \<and> length oks < n \<and> hid_log k' = hid_log k1 @ offers r oks @ [Asked True]" by blast
    with k1(1) w(2) show ?thesis
      by (intro exI [of _ k'] exI [of _ "ok # oks"]) (auto simp: offers_def)
  qed
qed

text \<open>The task that finds a change and a new report hands it over exactly once.\<close>

lemma new_report_handed:
  assumes port: "keyboard_port hv pend" and idle: "\<not> kb_reportPending k"
    and step: "keyboard_task (hid_tap hv) keymap k = Some k'" and awake: "\<And>h. \<not> hid_suspended hv h"
    and new: "buildReport k' = Some r" "r \<noteq> kb_lastAcceptedReport k" and some: "changedRows_mask (kb_matrix k) = Some w" "w \<noteq> 0"
  shows "waiting r k' \<and> \<not> kb_wasSuspended k' \<and> (\<exists>ok. hid_log k' = hid_log k @ [Handed r ok])"
proof -
  obtain k1 where k1: "drain_leds (hid_tap hv) k = Some k1" using step by (auto simp: keyboard_task_def split: bind_splits)
  have l1: "hid_log k1 = hid_log k" "same_report k k1" using drain_leds_log [OF k1] by auto
  have f: "finish_report (hid_tap hv) k1 = k1" "kb_matrix k1 = kb_matrix k"
    using l1(2) idle by (simp_all add: finish_report_def same_report_def same_keys_def)
  have aw: "\<not> hid_suspended (hid_tap hv) hl" for hl by (simp add: hid_tap_sel awake)
  have "change_phase (hid_tap hv) keymap w k1 = Some k'" using step k1 f some by (simp add: keyboard_task_def Let_def)
  then obtain m ls codes boot where p: "report_phase (hid_tap hv) boot
      (k1\<lparr>kb_matrix := m, kb_layerState := ls, kb_activeCodes := map_option (\<lambda>_. codes) (kb_activeCodes k1)\<rparr>) = Some k'"
    by (auto simp: change_phase_def split: bind_splits)
  define k2 where "k2 = k1\<lparr>kb_matrix := m, kb_layerState := ls, kb_activeCodes := map_option (\<lambda>_. codes) (kb_activeCodes k1),
    kb_wasSuspended := False, kb_wakeRequested := False\<rparr>"
  obtain d where d: "buildReport k2 = Some d"
    "k' = (let k = send_desired (hid_tap hv) d k2 in if boot \<and> kb_callbacks k then k\<lparr>kb_events := kb_events k @ [BootloaderRequested]\<rparr> else k)"
    using p aw by (auto simp: report_phase_def k2_def Let_def split: bind_splits)
  have "buildReport k' = buildReport k2"
    unfolding d(2) by (simp add: Let_def buildReport_def active_codes_def send_desired_def)
  then have e: "d = r" using d(1) new(1) by simp
  obtain ok h where s: "hid_send (hid_tap hv) (kb_hid k2) r = (ok, (h, hid_log k2 @ [Handed r ok]))"
    using hid_tap_send [of hv "kb_hid k2" r] by blast
  have "\<not> kb_reportPending k2" "kb_lastAcceptedReport k2 = kb_lastAcceptedReport k" "hid_log k2 = hid_log k"
    using l1 idle by (simp_all add: k2_def same_report_def)
  with d(2) e s new(2) show ?thesis by (auto simp: Let_def send_desired_def waiting_def k2_def)
qed

end
