(* ===== verification/Demo_Keyboard.thy ===== *)
theory Demo_Keyboard
  imports Gpio Ble_Hid Descriptors Keyboard_Log
begin

text \<open>
  A board of one row and two columns, a Bluetooth stack that is always connected, and a keyboard on
  both: the input of the witnesses of theory \<open>Input_Theorems\<close>.
\<close>

definition tiny_config :: "diode_direction \<Rightarrow> u16 \<Rightarrow> matrix_config" where
  "tiny_config dir ms = \<lparr>mc_rows = 1, mc_columns = 2, mc_rowPins = [1], mc_columnPins = [2, 3], mc_direction = dir,
     mc_settleUs = 5, mc_debounceMs = ms\<rparr>"

definition tiny_matrix :: "diode_direction \<Rightarrow> u16 \<Rightarrow> (pin \<times> pin) list \<Rightarrow> board matrix" where
  "tiny_matrix dir ms closed = \<lparr>mx_config = tiny_config dir ms, mx_rawRows = [0], mx_candidateRows = [0],
     mx_stableRows = [0], mx_changedRows = [0], mx_io = \<lparr>bd_modes = [], bd_outs = [], bd_closed = closed\<rparr>,
     mx_prevRaw = replicate 8 0, mx_lastRawChangeTS = 0, mx_debouncePending = False\<rparr>"

lemma tiny_matrix_inv: "mx_inv (tiny_matrix dir ms closed)"
  by (simp add: mx_inv_def tiny_matrix_def tiny_config_def row_count_def col_count_def)

lemma tiny_matrix_counts [simp]:
  "row_count (tiny_matrix dir ms closed) = 1" "col_count (tiny_matrix dir ms closed) = 2"
  by (simp_all add: tiny_matrix_def tiny_config_def row_count_def col_count_def)

lemma tiny_matrix_ready: "scan_ready (driven_pins board_mode board_out) (pulled_pins board_mode) (tiny_matrix RowToCol ms closed)"
  using tiny_matrix_inv [of RowToCol ms closed]
  by (simp add: scan_ready_def tiny_matrix_def tiny_config_def driven_pins_def board_mode_def)

text \<open>A Bluetooth stack that is connected and keeps what it is given.\<close>

definition tiny_ble :: "u8 list list nimble_hid" where
  "tiny_ble = \<lparr>nh_connectedCount = (\<lambda>_. 1), nh_newHid = (\<lambda>n _ _. n), nh_getInputReport = (\<lambda>n _. (True, n)),
     nh_notify = (\<lambda>n bs. (True, n @ [bs]))\<rparr>"

definition tiny_keyboard :: "(board, u8 list list ble_keyboard) keyboard" where
  "tiny_keyboard = keyboard_new 1 2 (tiny_matrix RowToCol 5 []) 1 (ble_keyboard_new [])
     (Some (replicate (unat (1 :: u8) * unat (2 :: u8)) 0)) True"

text \<open>A port that says no to so many questions for the transfer as its state counts, then yes.\<close>

definition slow_hid :: "nat hid_vt" where
  "slow_hid = \<lparr>hid_configured = (\<lambda>_. True), hid_send = (\<lambda>n _. (True, n)),
     hid_sendComplete = (\<lambda>n. (n = 0, n - 1)), hid_takeHostLeds = (\<lambda>n. (None, n)), hid_suspended = (\<lambda>_. False),
     hid_remoteWakeupAllowed = (\<lambda>_. False), hid_remoteWakeup = (\<lambda>n. (False, n))\<rparr>"

lemma slow_hid_port: "keyboard_port slow_hid (\<lambda>_. 0)"
  by (simp add: keyboard_port_def slow_hid_def)

lemma tiny_matrix_changed: "mx_changedRows (tiny_matrix dir ms closed) = replicate (unat (1 :: u8)) 0"
  by (simp add: tiny_matrix_def)

text \<open>A board whose second switch went down, with one or two layers.\<close>

definition pressed_matrix :: "board matrix" where
  "pressed_matrix = (tiny_matrix RowToCol 5 [])\<lparr>mx_stableRows := [2], mx_changedRows := [2]\<rparr>"

definition pressed_keyboard :: "'h \<Rightarrow> u8 \<Rightarrow> (board, 'h) keyboard" where
  "pressed_keyboard h layers = keyboard_new 1 2 pressed_matrix layers h (Some [0, 0]) True"

lemma pressed_keyboard_sel [simp]:
  "kb_rows (pressed_keyboard h n) = 1" "kb_columns (pressed_keyboard h n) = 2" "kb_matrix (pressed_keyboard h n) = pressed_matrix"
  "active_codes (pressed_keyboard h n) = [0, 0]" "kb_activeCodes (pressed_keyboard h n) = Some [0, 0]"
  "kb_layerState (pressed_keyboard h n) = layer_begin layer_state_new n" "kb_hid (pressed_keyboard h n) = h"
  "\<not> kb_reportPending (pressed_keyboard h n)" "kb_lastAcceptedReport (pressed_keyboard h n) = empty_report"
  "kb_wasSuspended (pressed_keyboard h n) = False"
  by (simp_all add: pressed_keyboard_def keyboard_new_def active_codes_def)

lemma two_bits: "bit (2 :: int) c \<longleftrightarrow> c = 1"
  using bit_exp_iff [where 'a = int, of 1 c] by auto

lemma pressed_change: "one_change pressed_matrix 0 1 True"
  by (auto simp: one_change_def pressed_matrix_def two_bits row_count_def col_count_def tiny_matrix_def tiny_config_def)

lemma pressed_inv: "n \<le> 32 \<Longrightarrow> length keymap = unat n * 2 \<Longrightarrow> kb_inv keymap (pressed_keyboard h n)"
  using layer_inv_new [of n] tiny_matrix_inv [of RowToCol 5 "[]"]
  by (simp add: kb_inv_def keys_wf_def pressed_matrix_def mx_inv_def row_count_def col_count_def tiny_matrix_def tiny_config_def)
    (simp add: layer_begin_def)

lemma pressed_agrees: "log_agrees (pressed_keyboard (h, []) n)"
  by (simp add: pressed_keyboard_def keyboard_new_agrees)

text \<open>The report with the second key only.\<close>

definition second_report :: report where
  "second_report = \<lparr>rp_modifiers = 0, rp_reserved = 0, rp_keys = [5, 0, 0, 0, 0, 0]\<rparr>"

lemma pressed_task:
  "map_option (\<lambda>k. (active_codes k, kb_wasSuspended k, buildReport k)) (keyboard_task (hid_tap slow_hid) [4, 5] (pressed_keyboard (1, []) 1)) =
     Some ([0, 5], False, Some second_report)"
  by code_simp

text \<open>The polarity of the STM32F1 with a delay that returns.\<close>

definition level_io :: "board matrix_io" where
  "level_io = (stm32f1_io board_arduino)\<lparr>io_delayMicroseconds := global_delay board_arduino\<rparr>"

text \<open>The adapter of the ESP32-S3, likewise.\<close>

definition level_s3_io :: "board matrix_io" where
  "level_s3_io = (esp32s3_io board_arduino)\<lparr>io_delayMicroseconds := global_delay board_arduino\<rparr>"

lemma level_switches:
  "switch_matrix level_io True (driven_pins board_mode board_out) (pulled_pins board_mode) board_closed"
  by (rule board.port) (auto simp: level_io_def stm32f1_io_def read_not_low_def split: prod.splits intro: pin_level.exhaust)

text \<open>A keymap in which a key of the base layer is a layer key one layer up.\<close>

definition layer_trap :: "u16 list" where "layer_trap = [0x0004, 0x5201, 0x5201, 0x0001]"

end
