(* ===== verification/Input_Theorems.thy ===== *)
theory Input_Theorems
  imports Demo_Keyboard
begin

text \<open>
  The properties of the input side: layers, reports, the keyboard loop, the matrix scan with the
  GPIO adapters, and the debouncer.
\<close>

section \<open>A delay that calls itself\<close>

lemma clear_rows_config: "clear_rows vt m = Some m' \<Longrightarrow> mx_config m' = mx_config m"
  unfolding clear_rows_def
  by (erule for_up_inv [where P = "\<lambda>_ t. mx_config t = mx_config m"]) (auto split: bind_splits)

lemma release_columns_config: "release_columns vt m = Some m' \<Longrightarrow> mx_config m' = mx_config m"
  unfolding release_columns_def
  by (erule for_up_inv [where P = "\<lambda>_ t. mx_config t = mx_config m"]) (auto split: bind_splits)

lemma for_up_stuck: "0 < n \<Longrightarrow> (\<And>s. f 0 s = None) \<Longrightarrow> for_up 0 n f s = None"
  by (cases n) simp_all

lemma scan_stuck:
  assumes "io_delayMicroseconds vt = member_delay" and "0 < row_count m" "0 < col_count m"
  shows "matrix_scan vt m = None"
proof -
  have "scan_row vt 0 t = None" for t
    using assms(1) by (auto simp: scan_row_def member_delay_never Let_def split: bind_splits)
  moreover have "scan_column vt 0 t = None" for t
    using assms(1) by (auto simp: scan_column_def member_delay_never Let_def split: bind_splits)
  ultimately show ?thesis using assms(2,3)
    by (auto simp: matrix_scan_def scan_rows_def scan_columns_def row_count_def col_count_def for_up_stuck
        dest!: clear_rows_config release_columns_config split: diode_direction.split bind_splits)
qed

section \<open>Layers\<close>

text \<open>C15. Layer resolution: a key gives the code of the topmost active layer that is not transparent
  at its position; when every active layer is transparent there, the code of the default layer, and
  nothing when the default layer does not exist.\<close>
theorem topmost_layer_answers:
  assumes len: "length keymap = unat (ls_layerCount s) * unat rows * unat cols"
    and pos: "row < rows" "col < cols"
  shows "resolve s dl keymap row col rows cols = Some
    (let answers = {i. layer_active s i \<and> layer_code keymap rows cols i row col \<noteq> 0x0001}
     in if answers \<noteq> {} then layer_code keymap rows cols (Max answers) row col
        else if dl < ls_layerCount s then layer_code keymap rows cols (unat dl) row col else 0x0000)"
proof -
  let ?code = "\<lambda>i. layer_code keymap rows cols i row col"
  define A where "A n = {i. i < n \<and> layer_active s i \<and> ?code i \<noteq> 0x0001}" for n
  have "find (\<lambda>c. c \<noteq> 0x0001) (candidates n s keymap row col rows cols) =
      (if A n = {} then None else Some (?code (Max (A n))))" for n
  proof (induction n)
    case (Suc n)
    show ?case
    proof (cases "layer_active s n \<and> ?code n \<noteq> 0x0001")
      case True
      then have "A (Suc n) = insert n (A n)" by (auto simp: A_def less_Suc_eq)
      moreover have "Max (insert n (A n)) = n" by (rule Max_eqI) (auto simp: A_def)
      ultimately show ?thesis using True by (simp add: candidates_def)
    next
      case False
      then have "A (Suc n) = A n" by (auto simp: A_def less_Suc_eq)
      with Suc False show ?thesis by (auto simp: candidates_def)
    qed
  qed (simp add: A_def candidates_def)
  moreover have "A 32 = {i. layer_active s i \<and> ?code i \<noteq> 0x0001}"
    using bit_imp_le_length [of "ls_transientMask s"] by (auto simp: A_def layer_active_def)
  ultimately have f: "find (\<lambda>c. c \<noteq> 0x0001) (candidates 32 s keymap row col rows cols) =
      (if A 32 = {} then None else Some (?code (Max (A 32))))"
    and A: "{i. layer_active s i \<and> ?code i \<noteq> 0x0001} = A 32" by simp_all
  show ?thesis
    unfolding resolve_def resolve_from_eq [OF len pos] f A Let_def by simp
qed

lemma topmost_layer_answers_witness:
  "resolve (\<lparr>ls_transientMask = 2, ls_refCounts = replicate 32 0, ls_layerCount = 2, ls_defaultLayer = 0\<rparr>) 0
     [4, 5, 6, 1] 0 1 1 2 = Some 5"
proof -
  let ?s = "\<lparr>ls_transientMask = 2, ls_refCounts = replicate 32 0, ls_layerCount = 2, ls_defaultLayer = 0\<rparr>"
  have a: "layer_active ?s i \<longleftrightarrow> i = 1" for i
    using bit_exp_iff [where 'a = "32 word", of 1 i] by (auto simp: layer_active_def)
  have "{i. layer_active ?s i \<and> layer_code [4, 5, 6, 1] 1 2 i 0 1 \<noteq> 0x0001} = {}"
    by (auto simp: a layer_code_def)
  then show ?thesis
    by (subst topmost_layer_answers) (simp_all add: Let_def layer_code_def)
qed

text \<open>C16. Momentary layers: after any sequence of at most 255 presses and releases of MO keys a layer
  is active exactly while more of its keys have gone down than up, a release without a press having
  no effect.\<close>
theorem momentary_layers:
  assumes "n \<le> 32" and "\<forall>(down, l) \<in> set evs. l < n" and "length evs \<le> 255"
  shows "\<exists>s. mo_events (layer_begin layer_state_new n) evs = Some s \<and>
    (\<forall>l < n. layer_active s (unat l) \<longleftrightarrow> 0 < held evs (\<lambda>_. 0) l)"
proof -
  let ?s = "layer_begin layer_state_new n"
  have c: "ls_layerCount ?s = n" by (simp add: layer_begin_def)
  have "mo_inv ?s (\<lambda>_. 0)"
    using layer_inv_new [OF assms(1)] assms(1)
    by (auto simp: mo_inv_def layer_begin_def layer_state_new_def word_le_nat_alt)
  moreover have "\<forall>(down, l) \<in> set evs. unat l < unat (ls_layerCount ?s)"
    using assms(2) c by (auto simp: word_less_nat_alt)
  ultimately obtain s where "mo_events ?s evs = Some s" "mo_inv s (held evs (\<lambda>_. 0))" "ls_layerCount s = n"
    using mo_events_inv [of ?s "\<lambda>_. 0" evs] assms(3) c by auto
  then show ?thesis by (auto simp: mo_inv_def layer_active_def word_less_nat_alt)
qed

lemma momentary_layers_witness:
  "\<exists>s. mo_events (layer_begin layer_state_new 4) [(True, 1), (True, 1), (True, 2), (False, 1), (False, 2)] = Some s \<and>
    layer_active s 1 \<and> \<not> layer_active s 2"
proof -
  let ?evs = "[(True, 1), (True, 1), (True, 2), (False, 1), (False, 2 :: u8)]"
  obtain s where s: "mo_events (layer_begin layer_state_new 4) ?evs = Some s"
    "\<forall>l < 4. layer_active s (unat l) \<longleftrightarrow> 0 < held ?evs (\<lambda>_. 0) l"
    using momentary_layers [of 4 ?evs] by auto
  with s(2) [rule_format, of 1] s(2) [rule_format, of 2] show ?thesis by auto
qed

section \<open>Reports\<close>

text \<open>C14. The HID report of a set of active keys: bit \<open>i\<close> of the modifier byte is set exactly when the
  modifier key 0xE0 + i is active; with more than six basic keys all six fields are ErrorRollOver,
  otherwise they hold each distinct usage once, padded with zeros.  A key with a modified code
  (\<open>QK_MODS\<close>, 0x0100 to 0x1FFF) counts as the basic key of its low byte and sets no modifier bit,
  although README.md, docs/API.md and the STM32F103 design promise its modifiers
  (\<open>qk_mods_dropped\<close>).\<close>
theorem report_of_active_keys:
  assumes "length codes < 256"
  shows "\<exists>r. build_report codes (length codes) = Some r \<and> rp_reserved r = 0 \<and> length (rp_keys r) = 6 \<and>
    (\<forall>i < 8. bit (rp_modifiers r) i \<longleftrightarrow> of_nat (0xE0 + i) \<in> set codes) \<and>
    (if length (basic_usages codes) > 6 then rp_keys r = replicate 6 0x01
     else \<exists>us. distinct us \<and> set us = set (basic_usages codes) \<and> rp_keys r = us @ replicate (6 - length us) 0)"
proof -
  let ?us = "basic_usages codes"
  obtain m where m: "build_report codes (length codes) = Some \<lparr>rp_modifiers = m, rp_reserved = 0, rp_keys = report_keys codes\<rparr>"
    "report_modifiers codes m" using build_report_eq [OF assms] by blast
  have "distinct (nub xs)" for xs :: "u8 list" by (induction xs) auto
  moreover have "length (report_keys codes) = 6" using length_nub [of ?us] by (auto simp: report_keys_def)
  ultimately show ?thesis using m
    by (auto simp: report_modifiers_def report_keys_def intro!: exI [of _ "nub ?us"])
qed

lemma report_of_active_keys_witness:
  "\<exists>r. build_report [0x04, 0xE1, 0, 0x05, 0x04] 5 = Some r \<and> bit (rp_modifiers r) 1 \<and> \<not> bit (rp_modifiers r) 0 \<and>
    set (rp_keys r) = {0, 4, 5}"
proof -
  let ?codes = "[0x04, 0xE1, 0, 0x05, 0x04 :: u16]"
  have u: "basic_usages ?codes = [4, 5, 4]" by code_simp
  have len: "length ?codes = 5" by simp
  obtain r where r: "build_report ?codes 5 = Some r" "\<forall>i < 8. bit (rp_modifiers r) i \<longleftrightarrow> of_nat (0xE0 + i) \<in> set ?codes"
    "length (rp_keys r) = 6"
    "\<exists>us. distinct us \<and> set us = {4, 5} \<and> rp_keys r = us @ replicate (6 - length us) 0"
    using report_of_active_keys [of ?codes, unfolded u len] by (auto simp: insert_commute)
  then obtain us where us: "distinct us" "set us = {4, 5}" "rp_keys r = us @ replicate (6 - length us) 0" by blast
  then have "length us = 2" using distinct_card [of us] by simp
  with us have "set (rp_keys r) = {0, 4, 5}" by auto
  with r(1) r(2) [rule_format, of 0] r(2) [rule_format, of 1] show ?thesis by auto
qed

text \<open>Left shift with A: \<open>extractQkMods\<close>, which nothing calls, finds the modifier; the report has none.\<close>

lemma qk_mods_dropped:
  "extractQkMods 0x0204 = Some (0x04, 0x02)"
  "build_report [0x0204] 1 = Some \<lparr>rp_modifiers = 0, rp_reserved = 0, rp_keys = [0x04, 0, 0, 0, 0, 0]\<rparr>"
  by code_simp+

section \<open>The keyboard loop\<close>

text \<open>C2. The keyboard loop: from construction, over any pins and any HID port whose LED reports run
  dry, every sequence of scans and tasks returns without an access outside an array; a key that is
  active is held according to the debounced matrix, so no key sticks; and while the host is awake
  the report last handed to \<open>send\<close>, as the recorder in front of the port has it (the empty report when
  none was), is the report of the active keys.\<close>
theorem keyboard_loop_sound:
  assumes "matrix_port vt" and "keyboard_port hv pend"
    and "mx_inv m" "row_count m = unat rows" "col_count m = unat cols" "mx_changedRows m = replicate (unat rows) 0"
    and "unat rows * unat cols < 256" "unat layers \<le> 32" "length keymap = unat layers * unat rows * unat cols"
    and k: "k = keyboard_new rows cols m layers (h, []) (Some (replicate (unat rows * unat cols) 0)) cb"
  shows "\<exists>k'. keyboard_run vt (hid_tap hv) keymap k mss = Some k' \<and>
    (\<forall>r < unat rows. \<forall>c < unat cols. active_codes k' ! key_pos cols r c \<noteq> 0 \<longrightarrow> bit (mx_stableRows (kb_matrix k') ! r) c) \<and>
    (\<not> kb_wasSuspended k' \<longrightarrow> buildReport k' = Some (host_report (snd (kb_hid k')))) \<and>
    host_report (snd (kb_hid k')) = (if kb_reportPending k' then kb_pendingReport k' else kb_lastAcceptedReport k')"
proof -
  have new: "kb_inv keymap k \<and> no_stuck_key k \<and> report_current k"
    unfolding k by (rule keyboard_new_sound) (use assms in auto)
  have dims: "kb_rows k = rows" "kb_columns k = cols" by (simp_all add: k keyboard_new_def)
  obtain k' where k':
    "keyboard_run vt (hid_tap hv) keymap k mss = Some k'" "no_stuck_key k'" "report_current k'"
    "kb_rows k' = kb_rows k" "kb_columns k' = kb_columns k"
    using keyboard_run_sound [OF assms(1) hid_tap_port [OF assms(2)], of keymap k mss] new by blast
  have "log_agrees k'" by (rule keyboard_run_agrees [OF _ k'(1)]) (simp add: k keyboard_new_agrees)
  with k' report_at_host [of k'] handed_to_host [of k'] show ?thesis by (auto simp: no_stuck_key_def dims)
qed

lemma keyboard_loop_sound_witness:
  "\<exists>k'. keyboard_run (nrf52_io board_arduino) (hid_tap slow_hid) [4, 5]
      (keyboard_new 1 2 (tiny_matrix RowToCol 5 []) 1 (0, []) (Some (replicate (unat (1 :: u8) * unat (2 :: u8)) 0)) True) [1, 2, 20] = Some k' \<and>
    (active_codes k' ! key_pos 2 0 1 \<noteq> 0 \<longrightarrow> bit (mx_stableRows (kb_matrix k') ! 0) 1)"
proof -
  let ?k = "keyboard_new 1 2 (tiny_matrix RowToCol 5 []) 1 (0, []) (Some (replicate (unat (1 :: u8) * unat (2 :: u8)) 0)) True"
  have size: "unat (1 :: u8) * unat (2 :: u8) < 256" "unat (1 :: u8) \<le> 32"
    "length [4 :: u16, 5] = unat (1 :: u8) * unat (1 :: u8) * unat (2 :: u8)" by simp_all
  have counts: "row_count (tiny_matrix RowToCol 5 []) = unat (1 :: u8)" "col_count (tiny_matrix RowToCol 5 []) = unat (2 :: u8)"
    by simp_all
  obtain k' where k': "keyboard_run (nrf52_io board_arduino) (hid_tap slow_hid) [4, 5] ?k [1, 2, 20] = Some k'"
    "\<forall>r < unat (1 :: u8). \<forall>c < unat (2 :: u8). active_codes k' ! key_pos 2 r c \<noteq> 0 \<longrightarrow> bit (mx_stableRows (kb_matrix k') ! r) c"
    using keyboard_loop_sound [OF nrf52_pins.matrix_port_axioms slow_hid_port
      tiny_matrix_inv counts tiny_matrix_changed size refl] by blast
  have "active_codes k' ! key_pos 2 0 1 \<noteq> 0 \<longrightarrow> bit (mx_stableRows (kb_matrix k') ! 0) 1"
    using k'(2) [rule_format, of 0 1] by simp
  with k'(1) show ?thesis by blast
qed

text \<open>C25. Delivery: when the host is awake, nothing is pending and the changed keys give a report that
  differs from the last accepted one, the task that finds the change hands exactly this report to
  \<open>send\<close>, once.  Each later task without a change asks \<open>sendComplete\<close>: on a no it hands the same
  report over again, on the first yes it records the report as accepted and hands over nothing more.
  So a report is offered once and then once per no until the first yes.  The result of \<open>send\<close> plays
  no part in this: a port that refuses a report and says yes ends the offers too
  (\<open>refused_report_accepted\<close>).\<close>
theorem report_delivered:
  assumes port: "keyboard_port hv pend" and inv: "kb_inv keymap k" and seen: "keys_seen k"
    and awake: "\<And>h. \<not> hid_suspended hv h" and idle: "\<not> kb_reportPending k"
    and change: "changedRows_mask (kb_matrix k) = Some w" "w \<noteq> 0"
    and step: "keyboard_task (hid_tap hv) keymap k = Some k1"
    and new: "buildReport k1 = Some r" "r \<noteq> kb_lastAcceptedReport k"
  shows "\<exists>k2 ok oks. keyboard_tasks (hid_tap hv) keymap n k1 = Some k2 \<and>
    (kb_reportPending k2 \<and> kb_pendingReport k2 = r \<and> length oks = n \<and>
       snd (kb_hid k2) = snd (kb_hid k) @ [Handed r ok] @ concat (map (\<lambda>ok. [Asked False, Handed r ok]) oks) \<or>
     \<not> kb_reportPending k2 \<and> kb_lastAcceptedReport k2 = r \<and> length oks < n \<and>
       snd (kb_hid k2) = snd (kb_hid k) @ [Handed r ok] @ concat (map (\<lambda>ok. [Asked False, Handed r ok]) oks) @ [Asked True])"
proof -
  have k1: "kb_inv keymap k1" "no_stuck_key k1"
    using keyboard_port.keyboard_task_sound [OF hid_tap_port [OF port] inv] step seen by auto
  obtain ok where h: "waiting r k1" "\<not> kb_wasSuspended k1" "snd (kb_hid k1) = snd (kb_hid k) @ [Handed r ok]"
    using new_report_handed [OF port idle step awake new change] by blast
  from quiet_waiting [OF port awake k1 h(2,1), of n] obtain k2 oks where "keyboard_tasks (hid_tap hv) keymap n k1 = Some k2"
    "waiting r k2 \<and> length oks = n \<and> snd (kb_hid k2) = snd (kb_hid k1) @ offers r oks \<or>
     settled r k2 \<and> length oks < n \<and> snd (kb_hid k2) = snd (kb_hid k1) @ offers r oks @ [Asked True]" by blast
  with h(3) show ?thesis
    by (intro exI [of _ k2] exI [of _ ok] exI [of _ oks]) (auto simp: waiting_def settled_def offers_def)
qed

lemma report_delivered_witness:
  "\<exists>k1 k2 ok oks. keyboard_task (hid_tap slow_hid) [4, 5] (pressed_keyboard (1, []) 1) = Some k1 \<and>
    keyboard_tasks (hid_tap slow_hid) [4, 5] 3 k1 = Some k2 \<and>
    snd (kb_hid k2) = [Handed second_report True, Asked False, Handed second_report True, Asked True] \<and>
    kb_lastAcceptedReport k2 = second_report"
proof -
  let ?k = "pressed_keyboard (1 :: nat, [] :: hid_event list) 1"
  obtain k1 where k1: "keyboard_task (hid_tap slow_hid) [4, 5] ?k = Some k1" "buildReport k1 = Some second_report"
    using pressed_task by auto
  have log: "map_option (\<lambda>k. snd (kb_hid k)) (do { k \<leftarrow> keyboard_task (hid_tap slow_hid) [4, 5] ?k;
      keyboard_tasks (hid_tap slow_hid) [4, 5] 3 k }) =
    Some [Handed second_report True, Asked False, Handed second_report True, Asked True]" by code_simp
  have inv: "kb_inv [4, 5] ?k" by (rule pressed_inv) simp_all
  have seen: "keys_seen ?k" by (simp add: keys_seen_def key_pos_def less_2_cases_iff)
  have awake: "\<not> hid_suspended slow_hid h" for h by (simp add: slow_hid_def)
  have mask: "changedRows_mask (kb_matrix ?k) = Some 1" unfolding pressed_keyboard_sel by code_simp
  have "replicate 6 (0 :: u8) = [0, 0, 0, 0, 0, 0]" by code_simp
  then have ne: "second_report \<noteq> kb_lastAcceptedReport ?k" by (simp add: second_report_def empty_report_def)
  obtain k2 ok oks where k2: "keyboard_tasks (hid_tap slow_hid) [4, 5] 3 k1 = Some k2"
    "kb_reportPending k2 \<and> kb_pendingReport k2 = second_report \<and> length oks = 3 \<and>
       snd (kb_hid k2) = snd (kb_hid ?k) @ [Handed second_report ok] @ concat (map (\<lambda>ok. [Asked False, Handed second_report ok]) oks) \<or>
     \<not> kb_reportPending k2 \<and> kb_lastAcceptedReport k2 = second_report \<and> length oks < 3 \<and>
       snd (kb_hid k2) = snd (kb_hid ?k) @ [Handed second_report ok] @ concat (map (\<lambda>ok. [Asked False, Handed second_report ok]) oks) @ [Asked True]"
    using report_delivered [OF slow_hid_port inv seen awake _ mask _ k1 ne, of 3] by auto
  have l: "snd (kb_hid k2) = [Handed second_report True, Asked False, Handed second_report True, Asked True]"
    using log k1(1) k2(1) by simp
  have "kb_lastAcceptedReport k2 = second_report"
  proof (rule ccontr)
    assume "kb_lastAcceptedReport k2 \<noteq> second_report"
    with k2(2) have "length oks = 3" "snd (kb_hid k2) = snd (kb_hid ?k) @ [Handed second_report ok] @ concat (map (\<lambda>ok. [Asked False, Handed second_report ok]) oks)"
      by auto
    with l show False by (cases oks; cases "tl oks") auto
  qed
  with k1(1) k2(1) l show ?thesis by blast
qed

text \<open>A layer key found in the third pass only: both keys of a row go down in one scan, the second
  activates layer 1, on which the first is a layer key too; it is stored without being applied.
  Its release then takes layer 1 away although the second key is still held.\<close>
lemma unapplied_layer_release:
  "\<exists>ls codes boot ls' codes' boot'.
     apply_changes layer_trap 1 2 1 [3] [3] (layer_begin layer_state_new 2, [0, 0], False) = Some (ls, codes, boot) \<and>
     codes = [0x5201, 0x5201] \<and> layer_active ls 1 \<and>
     apply_changes layer_trap 1 2 1 [1] [2] (ls, codes, boot) = Some (ls', codes', boot') \<and>
     codes' = [0, 0x5201] \<and> \<not> layer_active ls' 1"
proof -
  have "apply_changes layer_trap 1 2 1 [3] [3] (layer_begin layer_state_new 2, [0, 0], False) =
      Some (\<lparr>ls_transientMask = 2, ls_refCounts = (replicate 32 0)[1 := 1], ls_layerCount = 2, ls_defaultLayer = 0\<rparr>,
        [0x5201, 0x5201], False)" by code_simp
  moreover have "apply_changes layer_trap 1 2 1 [1] [2]
      (\<lparr>ls_transientMask = 2, ls_refCounts = (replicate 32 0)[1 := 1], ls_layerCount = 2, ls_defaultLayer = 0\<rparr>,
        [0x5201, 0x5201], False) =
      Some (\<lparr>ls_transientMask = 0, ls_refCounts = replicate 32 0, ls_layerCount = 2, ls_defaultLayer = 0\<rparr>,
        [0, 0x5201], False)" by code_simp
  moreover have "bit (2 :: u32) 1" by code_simp
  ultimately show ?thesis by (intro exI conjI) (assumption | rule refl | simp add: layer_active_def)+
qed

section \<open>Scanning\<close>

text \<open>C12. The scan: on a board where a pulled-up pin reads low exactly when a closed switch connects
  it to a driven pin, one scan in either diode direction sets bit \<open>c\<close> of row \<open>r\<close> exactly for the
  closed switches if \<open>read\<close> gives the level (\<open>pol\<close> true), and exactly for the open ones otherwise.\<close>
theorem scan_sees_switches:
  assumes "switch_matrix vt pol driven pulled conn" and "scan_ready driven pulled m"
  shows "\<exists>m'. matrix_scan vt m = Some m' \<and> mx_config m' = mx_config m \<and>
    (\<forall>r < row_count m. \<forall>c. bit (mx_rawRows m' ! r) c \<longleftrightarrow> c < col_count m \<and> (switch_closed conn m r c \<longleftrightarrow> pol))"
  using switch_matrix.scan_reads_switches [OF assms] by (auto simp: same_config_def)

lemma scan_sees_switches_witness:
  "\<exists>m'. matrix_scan level_io (tiny_matrix RowToCol 5 [(3, 1)]) = Some m' \<and> bit (mx_rawRows m' ! 0) 1 \<and> \<not> bit (mx_rawRows m' ! 0) 0"
proof -
  let ?m = "tiny_matrix RowToCol 5 [(3, 1)]"
  have sw: "switch_closed board_closed ?m 0 1" "\<not> switch_closed board_closed ?m 0 0"
    by (simp_all add: switch_closed_def board_closed_def tiny_matrix_def tiny_config_def)
  from scan_sees_switches [OF level_switches tiny_matrix_ready, of 5 "[(3, 1)]"] show ?thesis
    using sw by auto
qed

text \<open>Polarity of the adapters: the ESP32 and nRF52 adapters return ``pin is low'' where the
  scanner expects the level, so that their scans set exactly the bits of the open switches.\<close>
theorem adapters_invert_switches:
  assumes ar: "arduino_pins ar mode out closed"
    and m: "scan_ready (driven_pins mode out) (pulled_pins mode) m" and vt: "vt = esp32_io ar \<or> vt = nrf52_io ar"
  shows "\<exists>m'. matrix_scan vt m = Some m' \<and>
    (\<forall>r < row_count m. \<forall>c < col_count m. bit (mx_rawRows m' ! r) c \<longleftrightarrow> \<not> switch_closed closed m r c)"
  using arduino_pins.adapter_scans [OF ar m] vt by auto

lemma adapters_invert_switches_witness:
  "\<exists>m'. matrix_scan (esp32_io board_arduino) (tiny_matrix RowToCol 5 [(3, 1)]) = Some m' \<and>
    bit (mx_rawRows m' ! 0) 0 \<and> \<not> bit (mx_rawRows m' ! 0) 1"
proof -
  let ?m = "tiny_matrix RowToCol 5 [(3, 1)]"
  have sw: "switch_closed board_closed ?m 0 1" "\<not> switch_closed board_closed ?m 0 0"
    by (simp_all add: switch_closed_def board_closed_def tiny_matrix_def tiny_config_def)
  from adapters_invert_switches [OF board.arduino_pins_axioms tiny_matrix_ready, of "esp32_io board_arduino" 5 "[(3, 1)]"]
  show ?thesis using sw by auto
qed

text \<open>C34. Termination of the scan: in the STM32F1 and ESP32-S3 adapters \<open>delayMicroseconds\<close> calls
  itself, so that no scan of a matrix with a key ever returns; with the delay of the core the same
  scan returns.\<close>
theorem member_delay_hangs_scan:
  assumes "mx_inv m" and "0 < row_count m" "0 < col_count m"
  shows "matrix_scan (stm32f1_io ar) m = None \<and> matrix_scan (esp32s3_io ar) m = None \<and>
    matrix_scan ((stm32f1_io ar)\<lparr>io_delayMicroseconds := global_delay ar\<rparr>) m \<noteq> None"
proof -
  have "matrix_port ((stm32f1_io ar)\<lparr>io_delayMicroseconds := global_delay ar\<rparr>)"
    by unfold_locales (simp add: global_delay_def)
  from matrix_port.matrix_task_total [OF this assms(1)] show ?thesis
    using scan_stuck [OF _ assms(2,3), of "stm32f1_io ar"] scan_stuck [OF _ assms(2,3), of "esp32s3_io ar"]
    by (auto simp: stm32f1_io_def esp32s3_io_def)
qed

lemma member_delay_hangs_scan_witness:
  "matrix_scan (stm32f1_io board_arduino) (tiny_matrix ColToRow 5 []) = None \<and> matrix_scan level_io (tiny_matrix ColToRow 5 []) \<noteq> None"
  using member_delay_hangs_scan [OF tiny_matrix_inv, of ColToRow 5 "[]" board_arduino] by (simp add: level_io_def)

section \<open>Debouncing\<close>

text \<open>C13. Debouncing: when the stable rows change, the new rows are the raw rows of the last scan, and
  all scans of at least the debounce time before it gave the same raw rows.\<close>
theorem stable_rows_were_steady:
  assumes inv: "mx_inv m0" "\<not> mx_debouncePending m0" "mc_debounceMs (mx_config m0) \<noteq> 0"
    and raws: "\<forall>(t, raw) \<in> set (scans @ [(now, raw1)]). length raw = row_count m0"
    and run: "debounce_run m0 scans = Some m" and step: "matrix_debounce (m\<lparr>mx_rawRows := raw1\<rparr>) now = Some m'"
    and change: "mx_stableRows m' \<noteq> mx_stableRows m"
  shows "mx_stableRows m' = raw1 \<and>
    (\<exists>before t0 since. scans @ [(now, raw1)] = before @ (t0, raw1) # since \<and> (\<forall>(t, raw) \<in> set since. raw = raw1) \<and>
       ucast (mc_debounceMs (mx_config m0)) \<le> now - t0)"
proof -
  have "steady m0 []" using inv by (simp add: steady_def)
  then have m: "steady m scans" "row_count m = row_count m0" "mx_config m = mx_config m0"
    using steady_run [OF _ run, of "[]"] raws by auto
  have "length raw1 = row_count m" using raws m(2) by auto
  from steady_step [OF m(1) this step] m(3) inv(3) change show ?thesis by simp
qed

lemma stable_rows_were_steady_witness:
  "\<exists>m m'. debounce_run (tiny_matrix ColToRow 5 []) [(100, [2]), (103, [2])] = Some m \<and>
    matrix_debounce (m\<lparr>mx_rawRows := [2]\<rparr>) 105 = Some m' \<and> mx_stableRows m' = [2]"
proof -
  let ?start = "tiny_matrix ColToRow 5 []"
  let ?m = "?start\<lparr>mx_rawRows := [2], mx_candidateRows := [2], mx_prevRaw := (replicate 8 0)[0 := 2],
    mx_lastRawChangeTS := 100, mx_debouncePending := True\<rparr>"
  let ?m' = "?m\<lparr>mx_stableRows := [2], mx_changedRows := [2], mx_debouncePending := False\<rparr>"
  have run: "debounce_run ?start [(100, [2]), (103, [2])] = Some ?m" by code_simp
  have step: "matrix_debounce (?m\<lparr>mx_rawRows := [2]\<rparr>) 105 = Some ?m'" by code_simp
  have "mx_stableRows ?m' = [2]"
    using stable_rows_were_steady [OF tiny_matrix_inv _ _ _ run step] by (simp add: tiny_matrix_def tiny_config_def)
  with run step show ?thesis by blast
qed

end
