(* ===== verification/Key_Theorems.thy ===== *)
theory Key_Theorems
  imports Demo Demo_Keyboard
begin

text \<open>
  What a user of the keyboard sees of one key: it sends the code the layers gave when it went down,
  until it goes up, and a code written by the host is the code of the next press.
\<close>

section \<open>Down and up\<close>

text \<open>C5. A key stroke, seen through the recorder in front of the HID port: when one key goes down,
  the next task stores the code that the layers give it at that moment, applies its layer action and,
  when the host is awake, leaves the report of the active keys as the last one handed to \<open>send\<close>.  When
  the key goes up, at any later time, the task clears this code and undoes its layer action, whatever
  the layers are by then and whatever the keymap holds, and again the last report handed over is that
  of the active keys: remapping a held key does not make it stick.  \<open>log_agrees\<close>, that the record and
  the fields agree before the task, holds from construction on (\<open>keyboard_new_agrees\<close>,
  \<open>keyboard_run_agrees\<close>).\<close>
theorem key_press_and_release:
  assumes port: "keyboard_port hv pend" and inv: "kb_inv keymap k" and one: "one_change (kb_matrix k) r c True"
    and up: "active_codes k ! key_pos (kb_columns k) r c = 0"
    and code: "resolve_key keymap (kb_rows k) (kb_columns k) r c (kb_layerState k) = Some code"
    and log: "log_agrees k"
  shows "\<exists>k1. keyboard_task (hid_tap hv) keymap k = Some k1 \<and> kb_layerState k1 = layers_after (kb_layerState k) code \<and>
    active_codes k1 = (active_codes k)[key_pos (kb_columns k) r c := stored_code code] \<and>
    (\<not> kb_wasSuspended k1 \<longrightarrow> buildReport k1 = Some (host_report (snd (kb_hid k1)))) \<and>
    (\<forall>k2 keymap'. kb_inv keymap' k2 \<and> log_agrees k2 \<and> one_change (kb_matrix k2) r c False \<and> kb_columns k2 = kb_columns k \<and>
       active_codes k2 = active_codes k1 \<and> stored_code code \<noteq> 0 \<longrightarrow>
       (\<exists>k3. keyboard_task (hid_tap hv) keymap' k2 = Some k3 \<and> active_codes k3 = (active_codes k)[key_pos (kb_columns k) r c := 0] \<and>
          applyLayerRelease (kb_layerState k2) code = Some (kb_layerState k3) \<and>
          (\<not> kb_wasSuspended k3 \<longrightarrow> buildReport k3 = Some (host_report (snd (kb_hid k3))))))"
proof -
  note port' = hid_tap_port [OF port]
  obtain k1 where k1: "keyboard_task (hid_tap hv) keymap k = Some k1" "kb_layerState k1 = layers_after (kb_layerState k) code"
    "active_codes k1 = (active_codes k)[key_pos (kb_columns k) r c := stored_code code]" "report_current k1"
    using keyboard_port.key_press [OF port' inv one up code] by blast
  have pos: "key_pos (kb_columns k) r c < length (active_codes k)"
    using one_change_facts [OF inv one] by (intro keys_wf_pos) auto
  have "\<exists>k3. keyboard_task (hid_tap hv) keymap' k2 = Some k3 \<and> active_codes k3 = (active_codes k)[key_pos (kb_columns k) r c := 0] \<and>
          applyLayerRelease (kb_layerState k2) code = Some (kb_layerState k3) \<and>
          (\<not> kb_wasSuspended k3 \<longrightarrow> buildReport k3 = Some (host_report (snd (kb_hid k3))))"
    if k2: "kb_inv keymap' k2" "one_change (kb_matrix k2) r c False" "kb_columns k2 = kb_columns k"
       "active_codes k2 = active_codes k1" "log_agrees k2" and nz: "stored_code code \<noteq> 0" for k2 keymap'
  proof -
    have code': "code \<noteq> 0" "active_codes k2 ! key_pos (kb_columns k2) r c = code"
      using nz pos k1(3) k2(3,4) by (auto simp: stored_code_def split: if_splits)
    have "layer_inv (kb_layerState k2)" using k2(1) by (simp add: kb_inv_def keys_wf_def)
    then obtain ls where ls: "applyLayerRelease (kb_layerState k2) code = Some ls" using release_total by blast
    from keyboard_port.key_release [OF port' k2(1,2) code'(2,1) ls] obtain k3 where
      k3: "keyboard_task (hid_tap hv) keymap' k2 = Some k3" "kb_layerState k3 = ls"
      "active_codes k3 = (active_codes k2)[key_pos (kb_columns k2) r c := 0]" "report_current k3" by blast
    from report_at_host [OF k3(4) keyboard_task_agrees [OF k2(5) k3(1)]] k3 ls k1(3) k2(3,4) show ?thesis by auto
  qed
  with k1 report_at_host [OF k1(4) keyboard_task_agrees [OF log k1(1)]] show ?thesis by auto
qed

lemma second_key: "key_pos 2 0 1 = 1"
  by (simp add: key_pos_def)

lemma key_press_and_release_witness:
  "\<exists>k1. keyboard_task (hid_tap slow_hid) [4, 5] (pressed_keyboard (1, []) 1) = Some k1 \<and> active_codes k1 = [0, 5] \<and>
     host_report (snd (kb_hid k1)) = second_report"
proof -
  let ?k = "pressed_keyboard (1 :: nat, [] :: hid_event list) 1"
  have inv: "kb_inv [4, 5] ?k" by (rule pressed_inv) simp_all
  have one: "one_change (kb_matrix ?k) 0 1 True" using pressed_change by simp
  have up: "active_codes ?k ! key_pos (kb_columns ?k) 0 1 = 0" using second_key by simp
  have code: "resolve_key [4, 5] (kb_rows ?k) (kb_columns ?k) 0 1 (kb_layerState ?k) = Some 5"
    unfolding pressed_keyboard_sel by code_simp
  have s: "stored_code 5 = 5" by code_simp
  obtain k1 where k1: "keyboard_task (hid_tap slow_hid) [4, 5] ?k = Some k1"
    "active_codes k1 = (active_codes ?k)[key_pos (kb_columns ?k) 0 1 := stored_code 5]"
    "\<not> kb_wasSuspended k1 \<longrightarrow> buildReport k1 = Some (host_report (snd (kb_hid k1)))"
    using key_press_and_release [OF slow_hid_port inv one up code pressed_agrees] by blast
  with pressed_task s second_key show ?thesis by auto
qed

section \<open>Remapping\<close>

lemma top_filter:
  "P m \<Longrightarrow> m < n \<Longrightarrow> (\<And>i. P i \<Longrightarrow> i \<le> m) \<Longrightarrow> \<exists>xs. filter P (rev [0..<n]) = m # xs"
proof (induction n)
  case (Suc n)
  show ?case
  proof (cases "m = n")
    case False
    then have "\<not> P n" using Suc.prems(2) Suc.prems(3) [of n] by auto
    with False Suc show ?thesis by auto
  qed (use Suc.prems in auto)
qed simp

text \<open>Layer \<open>l\<close> answers for the keys it does not leave transparent.\<close>

definition answering :: "layer_state \<Rightarrow> u8 \<Rightarrow> u16 \<Rightarrow> bool" where
  "answering ls l code \<longleftrightarrow> l < ls_layerCount ls \<and> (\<forall>i. layer_active ls i \<longrightarrow> i \<le> unat l) \<and>
     (if layer_active ls (unat l) then code \<noteq> 0x0001 else (\<forall>i. \<not> layer_active ls i) \<and> ls_defaultLayer ls = l)"

lemma resolve_answering:
  assumes wf: "keys_wf rows cols keymap ls codes" and rc: "r < rows" "c < cols"
    and ans: "answering ls l (layer_code keymap rows cols (unat l) r c)"
  shows "resolve_key keymap rows cols (unat r) (unat c) ls = Some (layer_code keymap rows cols (unat l) r c)"
proof -
  have len: "length keymap = unat (ls_layerCount ls) * unat rows * unat cols" using wf by (simp add: keys_wf_def)
  show ?thesis
  proof (cases "layer_active ls (unat l)")
    case True
    then have "unat l < 32" using bit_imp_le_length [of "ls_transientMask ls"] by (auto simp: layer_active_def)
    moreover have "\<And>i. layer_active ls i \<Longrightarrow> i \<le> unat l" using ans by (simp add: answering_def)
    ultimately obtain xs where "filter (layer_active ls) (rev [0..<32]) = unat l # xs"
      using top_filter [of "layer_active ls" "unat l" 32] True by blast
    with True ans show ?thesis
      by (simp add: resolve_key_def resolve_def resolve_from_eq [OF len rc] candidates_def answering_def)
  next
    case False
    then have "filter (layer_active ls) (rev [0..<32]) = []" using ans by (simp add: answering_def filter_empty_conv)
    with False ans show ?thesis
      by (simp add: resolve_key_def resolve_def resolve_from_eq [OF len rc] candidates_def answering_def)
  qed
qed

text \<open>C6. Remapping takes effect: after the host has set the code of a key on the layer that answers
  for it, the next press of the key on a keyboard that shares this keymap stores the new code; the
  keyboard's invariant holds over the changed keymap.\<close>
theorem remap_takes_effect:
  assumes wf: "wf_protocol p" and len: "length pkt = kPacketSize" and cmd: "pkt ! 0 = 0x05"
    and key: "pkt ! 1 < cfg_layers (p_config p)" "pkt ! 2 < cfg_rows (p_config p)" "pkt ! 3 < cfg_columns (p_config p)"
    and port: "keyboard_port hv pend" and inv: "kb_inv (p_keymap p) k"
    and dims: "kb_rows k = cfg_rows (p_config p)" "kb_columns k = cfg_columns (p_config p)"
    and ans: "answering (kb_layerState k) (pkt ! 1) (be16 (pkt ! 4) (pkt ! 5))"
    and one: "one_change (kb_matrix k) (unat (pkt ! 2)) (unat (pkt ! 3)) True"
    and up: "active_codes k ! key_pos (kb_columns k) (unat (pkt ! 2)) (unat (pkt ! 3)) = 0"
  shows "\<exists>p' k'. process d p pkt nowMs = Some (True, pkt, p') \<and> keyboard_task hv (p_keymap p') k = Some k' \<and>
    kb_inv (p_keymap p') k' \<and>
    active_codes k' = (active_codes k)[key_pos (kb_columns k) (unat (pkt ! 2)) (unat (pkt ! 3)) :=
      stored_code (be16 (pkt ! 4) (pkt ! 5))]"
proof -
  let ?c = "p_config p" and ?code = "be16 (pkt ! 4) (pkt ! 5)"
  define p' where "p' = markDirty (p\<lparr>p_keymap := (p_keymap p)[keyIndex ?c (pkt ! 1) (pkt ! 2) (pkt ! 3) := ?code]\<rparr>) nowMs"
  have "pkt \<noteq> []" using len by (auto simp: kPacketSize_def)
  then have run: "process d p pkt nowMs = Some (True, pkt, p')"
    using key cmd by (simp add: process_def process_cmd_def set_keycode_cmd_def setKeycode_total [OF wf] p'_def)
  have km: "p_keymap p' = (p_keymap p)[keyIndex ?c (pkt ! 1) (pkt ! 2) (pkt ! 3) := ?code]" by (simp add: p'_def frame)
  then have inv': "kb_inv (p_keymap p') k" using inv by (simp add: kb_inv_def keys_wf_def)
  have ix: "keyIndex ?c (pkt ! 1) (pkt ! 2) (pkt ! 3) < length (p_keymap p)"
    using keyIndex_less [OF key] wf by (simp add: wf_protocol_def)
  have code: "layer_code (p_keymap p') (kb_rows k) (kb_columns k) (unat (pkt ! 1)) (pkt ! 2) (pkt ! 3) = ?code"
    using ix by (simp add: layer_code_def km dims keyIndex_def algebra_simps)
  have "resolve_key (p_keymap p') (kb_rows k) (kb_columns k) (unat (pkt ! 2)) (unat (pkt ! 3)) (kb_layerState k) = Some ?code"
    using resolve_answering [OF one_change_facts(1) [OF inv' one], of "pkt ! 2" "pkt ! 3" "pkt ! 1", unfolded code] key ans
    by (simp add: dims)
  from keyboard_port.key_press [OF port inv' one up this] run show ?thesis by blast
qed

lemma remap_takes_effect_witness:
  "\<exists>p' k'. process demo_deps demo (0x05 # 0 # 0 # 1 # 0 # 0x1E # replicate 26 0) 0 =
      Some (True, 0x05 # 0 # 0 # 1 # 0 # 0x1E # replicate 26 0, p') \<and>
    keyboard_task (ble_hid_vt tiny_ble) (p_keymap p') (pressed_keyboard (ble_keyboard_new []) 2) = Some k' \<and> active_codes k' = [0, 0x1E]"
proof -
  let ?pkt = "0x05 # 0 # 0 # 1 # 0 # 0x1E # replicate 26 (0 :: u8)" and ?k = "pressed_keyboard (ble_keyboard_new []) 2"
  have wf: "wf_protocol demo" by (simp add: demo_def wf_protocol_def kPacketSize_def)
  have pkt: "length ?pkt = kPacketSize" "?pkt ! 0 = 0x05" "?pkt ! 1 < cfg_layers (p_config demo)"
    "?pkt ! 2 < cfg_rows (p_config demo)" "?pkt ! 3 < cfg_columns (p_config demo)"
    by (simp_all add: kPacketSize_def demo_def)
  have inv: "kb_inv (p_keymap demo) ?k" by (simp add: pressed_inv demo_def)
  have dims: "kb_rows ?k = cfg_rows (p_config demo)" "kb_columns ?k = cfg_columns (p_config demo)" by (simp_all add: demo_def)
  have code: "be16 (?pkt ! 4) (?pkt ! 5) = 0x1E" by (simp add: be16_def)
  have ans: "answering (kb_layerState ?k) (?pkt ! 1) (be16 (?pkt ! 4) (?pkt ! 5))"
    by (simp add: answering_def layer_active_def layer_begin_def layer_state_new_def)
  have one: "one_change (kb_matrix ?k) (unat (?pkt ! 2)) (unat (?pkt ! 3)) True" using pressed_change by simp
  have up: "active_codes ?k ! key_pos (kb_columns ?k) (unat (?pkt ! 2)) (unat (?pkt ! 3)) = 0"
    using second_key by simp
  have "stored_code 0x1E = 0x1E" by code_simp
  with remap_takes_effect [OF wf pkt ble_keyboard.keyboard_port_axioms [of tiny_ble] inv dims ans one up, where d = demo_deps and nowMs = 0]
  show ?thesis unfolding code using second_key by auto
qed

end
