(* ===== verification/Flash_Store.thy ===== *)
theory Flash_Store
  imports Crc Interfaces
begin

text \<open>
  The alternating-slot flash store of the STM32F1, \<open>src/VIA_STM32F1_Flash.h\<close> and
  \<open>src/VIA_STM32F1_Flash.cpp\<close>.  The class writes through the interface \<open>FlashMemory\<close>; what it
  needs of it is the locale \<open>nor_flash\<close>, the behaviour of NOR flash, interpreted on the simulated
  flash of the repository's tests.  Addresses are natural numbers: they are a slot base plus less
  than 4096, so no 32-bit sum wraps.
\<close>

text \<open>\<open>read\<close> gives the bytes, or nothing when it fails.\<close>

record 'f flash_vt =
  fl_read :: "'f \<Rightarrow> nat \<Rightarrow> nat \<Rightarrow> u8 list option"
  fl_write :: "'f \<Rightarrow> nat \<Rightarrow> u8 list \<Rightarrow> bool \<times> 'f"
  fl_erasePage :: "'f \<Rightarrow> nat \<Rightarrow> bool \<times> 'f"
  fl_commit :: "'f \<Rightarrow> bool \<times> 'f"

definition kSlotA :: nat where "kSlotA = 0x0801F000"

definition kSlotB :: nat where "kSlotB = 0x0801F800"

definition kPageSize :: nat where "kPageSize = 1024"

definition kEnvelopeSize :: nat where "kEnvelopeSize = 16"

definition kPayloadSize :: nat where "kPayloadSize = 2032"

definition kFlashMagic :: u32 where "kFlashMagic = 0xA5F103CB"

definition kCommitMarker :: u8 where "kCommitMarker = 0x5A"

lemmas flash_consts = kSlotA_def kSlotB_def kPageSize_def kEnvelopeSize_def kPayloadSize_def

record 'f flash_storage =
  fs_flash :: 'f
  fs_activeSlot :: nat
  fs_provisionalSlot :: nat
  fs_activeSeq :: u32
  fs_newSeq :: u32
  fs_activeValid :: bool
  fs_provisionalReady :: bool

definition flash_new :: "'f \<Rightarrow> 'f flash_storage" where
  "flash_new f = \<lparr>fs_flash = f, fs_activeSlot = kSlotA, fs_provisionalSlot = kSlotB, fs_activeSeq = 0,
     fs_newSeq = 0, fs_activeValid = False, fs_provisionalReady = False\<rparr>"

text \<open>The sequence number of a valid slot, and whether the slot is erased.\<close>

definition validateSlot :: "'f flash_vt \<Rightarrow> 'f \<Rightarrow> nat \<Rightarrow> u32 option \<times> bool" where
  "validateSlot fv f slotAddr =
     (case fl_read fv f slotAddr 13 of None \<Rightarrow> (None, False)
      | Some buf \<Rightarrow>
          if list_all (\<lambda>b. b = 0xFF) (take 13 buf) then (None, True)
          else if of_le32 (take 4 buf) \<noteq> kFlashMagic then (None, False)
          else if buf ! 12 \<noteq> kCommitMarker then (None, False)
          else (case fl_read fv f (slotAddr + kEnvelopeSize) kPayloadSize of None \<Rightarrow> (None, False)
            | Some payload \<Rightarrow>
                if flash_crc32 payload \<noteq> of_le32 (take 4 (drop 8 buf)) then (None, False)
                else (Some (of_le32 (take 4 (drop 4 buf))), False)))"

text \<open>The choice of \<open>begin\<close>.\<close>

definition select_slot :: "u32 option \<times> bool \<Rightarrow> u32 option \<times> bool \<Rightarrow> (nat \<times> u32) option" where
  "select_slot a b =
     (case (fst a, fst b) of
        (None, None) \<Rightarrow> if snd a then Some (kSlotA, 0) else if snd b then Some (kSlotB, 0) else None
      | (Some seqA, Some seqB) \<Rightarrow> if sint (seqA - seqB) > 0 then Some (kSlotA, seqA) else Some (kSlotB, seqB)
      | (Some seqA, None) \<Rightarrow> Some (kSlotA, seqA)
      | (None, Some seqB) \<Rightarrow> Some (kSlotB, seqB))"

definition flash_begin :: "'f flash_vt \<Rightarrow> 'f flash_storage \<Rightarrow> bool \<times> 'f flash_storage" where
  "flash_begin fv s =
     (case select_slot (validateSlot fv (fs_flash s) kSlotA) (validateSlot fv (fs_flash s) kSlotB) of
        None \<Rightarrow> (False, s\<lparr>fs_activeValid := False\<rparr>)
      | Some (slot, seq) \<Rightarrow> (True, s\<lparr>fs_activeSlot := slot, fs_activeSeq := seq, fs_activeValid := True\<rparr>))"

definition flash_capacity :: "'f flash_storage \<Rightarrow> nat" where
  "flash_capacity s = (if fs_activeValid s then kPayloadSize else 0)"

text \<open>The lengths are passed on as \<open>uint16_t\<close>; they are at most 2032 by then.\<close>

definition flash_read :: "'f flash_vt \<Rightarrow> 'f flash_storage \<Rightarrow> nat \<Rightarrow> u8 list \<Rightarrow> bool \<times> u8 list \<times> 'f flash_storage" where
  "flash_read fv s offset output =
     (if \<not> fs_activeValid s \<or> length output = 0 then (False, output, s)
      else if offset > kPayloadSize \<or> length output > kPayloadSize - offset then (False, output, s)
      else (case fl_read fv (fs_flash s) (fs_activeSlot s + kEnvelopeSize + offset) (length output) of
        None \<Rightarrow> (False, output, s) | Some bs \<Rightarrow> (True, bs, s)))"

definition flash_write :: "'f flash_vt \<Rightarrow> 'f flash_storage \<Rightarrow> nat \<Rightarrow> u8 list \<Rightarrow> bool \<times> 'f flash_storage" where
  "flash_write fv s offset input =
     (if \<not> fs_provisionalReady s \<or> length input = 0 then (False, s)
      else if offset > kPayloadSize \<or> length input > kPayloadSize - offset then (False, s)
      else (case fl_write fv (fs_flash s) (fs_provisionalSlot s + kEnvelopeSize + offset) input of
        (ok, f) \<Rightarrow> (ok, s\<lparr>fs_flash := f\<rparr>)))"

definition flash_header :: "u32 \<Rightarrow> u32 \<Rightarrow> u8 list" where
  "flash_header seq crc = le32 kFlashMagic @ le32 seq @ le32 crc"

definition flash_commit :: "'f flash_vt \<Rightarrow> 'f flash_storage \<Rightarrow> bool \<times> 'f flash_storage" where
  "flash_commit fv s =
     (if \<not> fs_provisionalReady s then (False, s)
      else case fl_read fv (fs_flash s) (fs_provisionalSlot s + kEnvelopeSize) kPayloadSize of None \<Rightarrow> (False, s)
      | Some payload \<Rightarrow>
          (case fl_write fv (fs_flash s) (fs_provisionalSlot s) (flash_header (fs_newSeq s) (flash_crc32 payload)) of
             (False, f) \<Rightarrow> (False, s\<lparr>fs_flash := f\<rparr>)
           | (True, f) \<Rightarrow>
               (case fl_write fv f (fs_provisionalSlot s + 12) [kCommitMarker] of
                  (False, f) \<Rightarrow> (False, s\<lparr>fs_flash := f\<rparr>)
                | (True, f) \<Rightarrow>
                    (case fl_commit fv f of
                       (False, f) \<Rightarrow> (False, s\<lparr>fs_flash := f\<rparr>)
                     | (True, f) \<Rightarrow> (True, s\<lparr>fs_flash := f, fs_activeSlot := fs_provisionalSlot s,
                         fs_activeSeq := fs_newSeq s, fs_provisionalReady := False\<rparr>)))))"

definition flash_erase :: "'f flash_vt \<Rightarrow> 'f flash_storage \<Rightarrow> bool \<times> 'f flash_storage" where
  "flash_erase fv s =
     (if \<not> fs_activeValid s then (False, s)
      else
        let s = s\<lparr>fs_provisionalSlot := (if fs_activeSlot s = kSlotA then kSlotB else kSlotA),
                  fs_newSeq := fs_activeSeq s + 1\<rparr>
        in case fl_erasePage fv (fs_flash s) (fs_provisionalSlot s) of
             (False, f) \<Rightarrow> (False, s\<lparr>fs_flash := f\<rparr>)
           | (True, f) \<Rightarrow>
               (case fl_erasePage fv f (fs_provisionalSlot s + kPageSize) of
                  (False, f) \<Rightarrow> (False, s\<lparr>fs_flash := f\<rparr>)
                | (True, f) \<Rightarrow> (True, s\<lparr>fs_flash := f, fs_provisionalReady := True\<rparr>)))"

definition flash_storage_vt :: "'f flash_vt \<Rightarrow> 'f flash_storage storage_vt" where
  "flash_storage_vt fv = \<lparr>st_capacity = flash_capacity, st_read = flash_read fv, st_write = flash_write fv,
     st_commit = flash_commit fv, st_erase = flash_erase fv\<rparr>"

section \<open>NOR flash\<close>

text \<open>The two slots: 4096 bytes from \<open>kSlotA\<close>.\<close>

definition in_region :: "nat \<Rightarrow> nat \<Rightarrow> bool" where
  "in_region a n \<longleftrightarrow> kSlotA \<le> a \<and> a + n \<le> kSlotA + 4096"

text \<open>Writing clears bits only; setting a bit needs an erase of its page.\<close>

definition writable :: "(nat \<Rightarrow> u8) \<Rightarrow> nat \<Rightarrow> u8 list \<Rightarrow> bool" where
  "writable c a bs \<longleftrightarrow> (\<forall>i < length bs. c (a + i) AND bs ! i = bs ! i)"

definition write_cells :: "(nat \<Rightarrow> u8) \<Rightarrow> nat \<Rightarrow> u8 list \<Rightarrow> nat \<Rightarrow> u8" where
  "write_cells c a bs = (\<lambda>x. if a \<le> x \<and> x < a + length bs then bs ! (x - a) else c x)"

definition region :: "(nat \<Rightarrow> u8) \<Rightarrow> nat \<Rightarrow> nat \<Rightarrow> u8 list" where
  "region c a n = map (\<lambda>i. c (a + i)) [0..<n]"

locale nor_flash =
  fixes fv :: "'f flash_vt" and cells :: "'f \<Rightarrow> nat \<Rightarrow> u8" and finv :: "'f \<Rightarrow> bool"
  assumes nor_read: "finv f \<Longrightarrow> in_region a n \<Longrightarrow> fl_read fv f a n = Some (region (cells f) a n)"
    and nor_write: "finv f \<Longrightarrow> in_region a (length bs) \<Longrightarrow> writable (cells f) a bs \<Longrightarrow>
      \<exists>f'. fl_write fv f a bs = (True, f') \<and> finv f' \<and> (\<forall>x. in_region x 1 \<longrightarrow> cells f' x = write_cells (cells f) a bs x)"
    and nor_refuse: "finv f \<Longrightarrow> in_region a (length bs) \<Longrightarrow> \<not> writable (cells f) a bs \<Longrightarrow> fl_write fv f a bs = (False, f)"
    and nor_erase: "finv f \<Longrightarrow> in_region a kPageSize \<Longrightarrow> a mod kPageSize = 0 \<Longrightarrow>
      \<exists>f'. fl_erasePage fv f a = (True, f') \<and> finv f' \<and>
        (\<forall>x. in_region x 1 \<longrightarrow> cells f' x = (if a \<le> x \<and> x < a + kPageSize then 0xFF else cells f x))"
    and nor_commit: "finv f \<Longrightarrow> fl_commit fv f = (True, f)"

section \<open>The simulated flash of the tests\<close>

type_synonym sim_flash = "u8 list"

definition kRegionSize :: nat where "kRegionSize = 4096"

definition sim_outside :: "nat \<Rightarrow> nat \<Rightarrow> bool" where
  "sim_outside addr n \<longleftrightarrow> addr < kSlotA \<or> addr - kSlotA + n > kRegionSize"

definition sim_read :: "sim_flash \<Rightarrow> nat \<Rightarrow> nat \<Rightarrow> u8 list option" where
  "sim_read m addr n = (if sim_outside addr n then None else Some (take n (drop (addr - kSlotA) m)))"

definition sim_write :: "sim_flash \<Rightarrow> nat \<Rightarrow> u8 list \<Rightarrow> bool \<times> sim_flash" where
  "sim_write m addr data =
     (if sim_outside addr (length data) then (False, m)
      else let offset = addr - kSlotA in
        if \<not> list_all (\<lambda>i. m ! (offset + i) AND data ! i = data ! i) [0..<length data] then (False, m)
        else (True, overwrite m offset (map (\<lambda>i. m ! (offset + i) AND data ! i) [0..<length data])))"

definition sim_erasePage :: "sim_flash \<Rightarrow> nat \<Rightarrow> bool \<times> sim_flash" where
  "sim_erasePage m addr =
     (if sim_outside addr kPageSize then (False, m)
      else if addr mod kPageSize \<noteq> 0 then (False, m)
      else (True, overwrite m (addr - kSlotA) (replicate kPageSize 0xFF)))"

definition sim_vt :: "sim_flash flash_vt" where
  "sim_vt = \<lparr>fl_read = sim_read, fl_write = sim_write, fl_erasePage = sim_erasePage, fl_commit = (\<lambda>m. (True, m))\<rparr>"

definition sim_cells :: "sim_flash \<Rightarrow> nat \<Rightarrow> u8" where
  "sim_cells m x = m ! (x - kSlotA)"

definition sim_fresh :: sim_flash where "sim_fresh = replicate kRegionSize 0xFF"

lemma in_region_sim: "in_region a n \<longleftrightarrow> \<not> sim_outside a n"
  by (auto simp: in_region_def sim_outside_def kRegionSize_def)

interpretation sim: nor_flash sim_vt sim_cells "\<lambda>m. length m = kRegionSize"
proof (unfold_locales, goal_cases)
  case (1 f a n)
  then show ?case
    by (auto simp: sim_vt_def sim_read_def in_region_sim region_def sim_cells_def sim_outside_def not_less intro!: nth_equalityI)
next
  case (2 f a bs)
  let ?o = "a - kSlotA"
  have o: "?o + length bs \<le> length f" "kSlotA \<le> a" using 2 by (auto simp: in_region_def kRegionSize_def)
  have "map (\<lambda>i. f ! (?o + i) AND bs ! i) [0..<length bs] = bs"
    using 2(3) o by (auto simp: writable_def sim_cells_def intro!: nth_equalityI)
  then have "sim_write f a bs = (True, overwrite f ?o bs)"
    using 2 o by (auto simp: sim_write_def in_region_sim writable_def sim_cells_def list_all_iff Let_def)
  moreover have "sim_cells (overwrite f ?o bs) x = write_cells (sim_cells f) a bs x" if "in_region x 1" for x
    using that o 2(1) by (auto simp: sim_cells_def write_cells_def nth_splice in_region_def kRegionSize_def intro!: arg_cong [where f = "(!) bs"])
  ultimately show ?case using 2 o by (intro exI [of _ "overwrite f ?o bs"]) (simp add: sim_vt_def)
next
  case (3 f a bs)
  then have "kSlotA \<le> a" by (simp add: in_region_def)
  with 3 show ?case
    by (auto simp: sim_vt_def sim_write_def in_region_sim writable_def sim_cells_def list_all_iff Let_def)
next
  case (4 f a)
  let ?f = "overwrite f (a - kSlotA) (replicate kPageSize 0xFF)"
  have o: "a - kSlotA + kPageSize \<le> length f" "kSlotA \<le> a" using 4 by (auto simp: in_region_def kRegionSize_def)
  have "sim_cells ?f x = (if a \<le> x \<and> x < a + kPageSize then 0xFF else sim_cells f x)" if "in_region x 1" for x
    using that o 4(1) by (auto simp: sim_cells_def nth_splice in_region_def kRegionSize_def)
  then show ?case using 4 o
    by (intro exI [of _ ?f]) (simp add: sim_vt_def sim_erasePage_def in_region_sim)
next
  case (5 f)
  then show ?case by (simp add: sim_vt_def)
qed

end
