(* ===== verification/Flash_Facts.thy ===== *)
theory Flash_Facts
  imports Flash_Store
begin

text \<open>The flash store over any NOR flash: an update is durable once its marker is written, and a power
  cut before that leaves the previous record (theory \<open>Flash_Power\<close> runs the operations into the cut).\<close>

section \<open>Slots\<close>

text \<open>What \<open>validateSlot\<close> sees of the cells of a slot.\<close>

definition slot_state :: "(nat \<Rightarrow> u8) \<Rightarrow> nat \<Rightarrow> u32 option \<times> bool" where
  "slot_state c slot =
     (let buf = region c slot 13; payload = region c (slot + kEnvelopeSize) kPayloadSize in
      if list_all (\<lambda>b. b = 0xFF) buf then (None, True)
      else if of_le32 (take 4 buf) \<noteq> kFlashMagic \<or> buf ! 12 \<noteq> kCommitMarker \<or>
              flash_crc32 payload \<noteq> of_le32 (take 4 (drop 8 buf)) then (None, False)
      else (Some (of_le32 (take 4 (drop 4 buf))), False))"

definition is_slot :: "nat \<Rightarrow> bool" where "is_slot slot \<longleftrightarrow> slot = kSlotA \<or> slot = kSlotB"

definition other_slot :: "nat \<Rightarrow> nat" where "other_slot slot = (if slot = kSlotA then kSlotB else kSlotA)"

text \<open>The 2048 bytes of a slot.\<close>

definition in_slot :: "nat \<Rightarrow> nat \<Rightarrow> bool" where "in_slot slot x \<longleftrightarrow> slot \<le> x \<and> x < slot + 2048"

lemma is_slot_other [simp]: "is_slot (other_slot slot)" by (simp add: is_slot_def other_slot_def)

lemma other_other: "is_slot slot \<Longrightarrow> other_slot (other_slot slot) = slot"
  by (auto simp: is_slot_def other_slot_def flash_consts)

lemma slots_disjoint: "is_slot slot \<Longrightarrow> in_slot slot x \<Longrightarrow> \<not> in_slot (other_slot slot) x"
  by (auto simp: is_slot_def other_slot_def in_slot_def flash_consts)

lemma slot_region: "is_slot slot \<Longrightarrow> k + n \<le> 2048 \<Longrightarrow> in_region (slot + k) n"
  by (auto simp: is_slot_def in_region_def flash_consts)

lemma in_slot_region: "is_slot slot \<Longrightarrow> in_slot slot x \<Longrightarrow> in_region x 1"
  by (auto simp: is_slot_def in_slot_def in_region_def flash_consts)

lemma region_cong: "(\<And>i. i < n \<Longrightarrow> c (a + i) = c' (a + i)) \<Longrightarrow> region c a n = region c' a n"
  by (simp add: region_def)

lemma slot_state_cong:
  assumes "\<And>x. in_slot slot x \<Longrightarrow> c x = c' x"
  shows "slot_state c slot = slot_state c' slot"
proof -
  have "region c slot 13 = region c' slot 13"
    "region c (slot + kEnvelopeSize) kPayloadSize = region c' (slot + kEnvelopeSize) kPayloadSize"
    using assms by (auto simp: in_slot_def flash_consts intro!: region_cong)
  then show ?thesis by (simp add: slot_state_def)
qed

lemma region_take_drop:
  "take k (region c a n) = region c a (min k n)" "drop k (region c a n) = region c (a + k) (n - k)"
proof -
  show "take k (region c a n) = region c a (min k n)" by (simp add: region_def take_map min_def)
  show "drop k (region c a n) = region c (a + k) (n - k)"
  proof (rule nth_equalityI)
    fix i assume "i < length (drop k (region c a n))"
    then have "k + i < n" "i < n - k" by (simp_all add: region_def)
    then show "drop k (region c a n) ! i = region c (a + k) (n - k) ! i" by (simp add: region_def add.assoc)
  qed (simp add: region_def)
qed

lemma region_nth: "i < n \<Longrightarrow> region c a n ! i = c (a + i)" by (simp add: region_def)

lemma length_region [simp]: "length (region c a n) = n" by (simp add: region_def)

lemma region_write_cells: "region (write_cells c a bs) a (length bs) = bs"
  by (auto simp: region_def write_cells_def intro: nth_equalityI)

text \<open>An erased header is empty whatever follows it.\<close>

lemma slot_state_erased:
  assumes "\<And>x. slot \<le> x \<Longrightarrow> x < slot + 13 \<Longrightarrow> c x = 0xFF"
  shows "slot_state c slot = (None, True)"
  using assms by (simp add: slot_state_def region_def list_all_iff)

text \<open>A header without its marker is not valid.\<close>

lemma slot_state_unmarked:
  assumes "c (slot + 12) \<noteq> kCommitMarker"
  shows "fst (slot_state c slot) = None"
proof -
  have "region c slot 13 ! 12 = c (slot + 12)" by (rule region_nth) simp
  then show ?thesis using assms unfolding slot_state_def Let_def by simp
qed

text \<open>A full header makes the slot valid.\<close>

lemma slot_state_committed:
  assumes "region c slot 12 = flash_header seq (flash_crc32 (region c (slot + kEnvelopeSize) kPayloadSize))"
    and "c (slot + 12) = kCommitMarker"
  shows "slot_state c slot = (Some seq, False)"
proof -
  let ?crc = "flash_crc32 (region c (slot + kEnvelopeSize) kPayloadSize)"
  have b: "region c slot 13 = flash_header seq ?crc @ [kCommitMarker]"
    using assms by (simp add: region_def numeral_eq_Suc)
  have f: "take 4 (region c slot 13) = le32 kFlashMagic" "take 4 (drop 4 (region c slot 13)) = le32 seq"
    "take 4 (drop 8 (region c slot 13)) = le32 ?crc" "region c slot 13 ! 12 = kCommitMarker"
    unfolding b by (simp_all add: flash_header_def nth_append)
  have "\<not> list_all (\<lambda>b. b = 0xFF) (region c slot 13)" unfolding b by (simp add: kCommitMarker_def)
  with f show ?thesis by (simp add: slot_state_def enc Let_def)
qed

context nor_flash
begin

lemma validateSlot_eq:
  assumes "finv f" "is_slot slot"
  shows "validateSlot fv f slot = slot_state (cells f) slot"
proof -
  have "fl_read fv f slot 13 = Some (region (cells f) slot 13)"
    using nor_read [OF assms(1) slot_region [OF assms(2), of 0 13]] by simp
  moreover have "fl_read fv f (slot + kEnvelopeSize) kPayloadSize = Some (region (cells f) (slot + kEnvelopeSize) kPayloadSize)"
    by (intro nor_read assms slot_region) (simp add: flash_consts)
  moreover have "take 13 (region (cells f) slot 13) = region (cells f) slot 13" by (simp add: region_take_drop)
  ultimately show ?thesis by (simp add: validateSlot_def slot_state_def Let_def)
qed

text \<open>The slot a restart selects.\<close>

definition selects :: "'f \<Rightarrow> (nat \<times> u32) option" where
  "selects f = select_slot (slot_state (cells f) kSlotA) (slot_state (cells f) kSlotB)"

lemma flash_begin_selects:
  assumes "finv (fs_flash s)"
  shows "flash_begin fv s = (case selects (fs_flash s) of
      None \<Rightarrow> (False, s\<lparr>fs_activeValid := False\<rparr>)
    | Some (slot, seq) \<Rightarrow> (True, s\<lparr>fs_activeSlot := slot, fs_activeSeq := seq, fs_activeValid := True\<rparr>))"
  using validateSlot_eq [OF assms, of kSlotA] validateSlot_eq [OF assms, of kSlotB]
  by (simp add: flash_begin_def selects_def is_slot_def)

lemma selects_slot: "selects f = Some (slot, seq) \<Longrightarrow> is_slot slot"
  by (auto simp: selects_def select_slot_def is_slot_def split: option.splits if_splits)

text \<open>A valid slot whose neighbour is not valid is selected; of two, the newer one.\<close>

lemma selects_only:
  assumes "is_slot slot" "fst (slot_state (cells f) slot) = Some seq" "fst (slot_state (cells f) (other_slot slot)) = None"
  shows "selects f = Some (slot, seq)"
  using assms by (auto simp: selects_def select_slot_def is_slot_def other_slot_def flash_consts)

lemma selects_newer:
  assumes "is_slot slot" "fst (slot_state (cells f) slot) = Some (seq + 1)"
    and "fst (slot_state (cells f) (other_slot slot)) = Some seq"
  shows "selects f = Some (slot, seq + 1)"
  using assms by (auto simp: selects_def select_slot_def is_slot_def other_slot_def flash_consts)

text \<open>\<open>read\<close> gives the payload of the active slot.\<close>

lemma flash_read_active:
  assumes "finv (fs_flash s)" "fs_activeValid s" "is_slot (fs_activeSlot s)" "buf \<noteq> []" "off + length buf \<le> kPayloadSize"
  shows "flash_read fv s off buf =
    (True, take (length buf) (drop off (region (cells (fs_flash s)) (fs_activeSlot s + kEnvelopeSize) kPayloadSize)), s)"
proof -
  have "fl_read fv (fs_flash s) (fs_activeSlot s + (kEnvelopeSize + off)) (length buf) =
      Some (region (cells (fs_flash s)) (fs_activeSlot s + (kEnvelopeSize + off)) (length buf))"
    using assms by (intro nor_read slot_region) (simp_all add: flash_consts)
  with assms show ?thesis by (simp add: flash_read_def region_take_drop add.assoc)
qed

text \<open>\<open>erase\<close> empties the other slot and nothing else.\<close>

lemma flash_erase_ok:
  assumes inv: "finv (fs_flash s)" and act: "fs_activeValid s" "is_slot (fs_activeSlot s)"
  shows "\<exists>f. flash_erase fv s = (True, s\<lparr>fs_flash := f, fs_provisionalSlot := other_slot (fs_activeSlot s),
      fs_newSeq := fs_activeSeq s + 1, fs_provisionalReady := True\<rparr>) \<and> finv f \<and>
    (\<forall>x. in_slot (other_slot (fs_activeSlot s)) x \<longrightarrow> cells f x = 0xFF) \<and>
    (\<forall>x. in_slot (fs_activeSlot s) x \<longrightarrow> cells f x = cells (fs_flash s) x)"
proof -
  let ?p = "other_slot (fs_activeSlot s)"
  have p: "is_slot ?p" "?p mod kPageSize = 0" "(?p + kPageSize) mod kPageSize = 0"
    by (auto simp: other_slot_def is_slot_def flash_consts)
  have r: "in_region ?p kPageSize" "in_region (?p + kPageSize) kPageSize"
    using slot_region [OF p(1), of 0 kPageSize] slot_region [OF p(1), of kPageSize kPageSize] by (simp_all add: flash_consts)
  obtain f1 where f1: "fl_erasePage fv (fs_flash s) ?p = (True, f1)" "finv f1"
    "\<forall>x. in_region x 1 \<longrightarrow> cells f1 x = (if ?p \<le> x \<and> x < ?p + kPageSize then 0xFF else cells (fs_flash s) x)"
    using nor_erase [OF inv r(1) p(2)] by blast
  obtain f2 where f2: "fl_erasePage fv f1 (?p + kPageSize) = (True, f2)" "finv f2"
    "\<forall>x. in_region x 1 \<longrightarrow> cells f2 x = (if ?p + kPageSize \<le> x \<and> x < ?p + kPageSize + kPageSize then 0xFF else cells f1 x)"
    using nor_erase [OF f1(2) r(2) p(3)] by blast
  have "flash_erase fv s = (True, s\<lparr>fs_flash := f2, fs_provisionalSlot := ?p, fs_newSeq := fs_activeSeq s + 1, fs_provisionalReady := True\<rparr>)"
    using act f1(1) f2(1) by (simp add: flash_erase_def Let_def other_slot_def)
  moreover have "cells f2 x = 0xFF" if "in_slot ?p x" for x
    using f1(3) f2(3) in_slot_region [OF p(1) that] that by (auto simp: in_slot_def flash_consts)
  moreover have "cells f2 x = cells (fs_flash s) x" if "in_slot (fs_activeSlot s) x" for x
  proof -
    have "\<not> in_slot ?p x" by (rule slots_disjoint [OF act(2) that])
    then show ?thesis using f1(3) f2(3) in_slot_region [OF act(2) that] by (auto simp: in_slot_def flash_consts)
  qed
  ultimately show ?thesis using f2(2) by blast
qed

text \<open>\<open>write\<close> goes to the other slot; it needs cleared cells there.\<close>

lemma flash_write_ok:
  assumes inv: "finv (fs_flash s)" and rdy: "fs_provisionalReady s" "is_slot (fs_provisionalSlot s)"
    and len: "bs \<noteq> []" "off + length bs \<le> kPayloadSize"
    and w: "writable (cells (fs_flash s)) (fs_provisionalSlot s + kEnvelopeSize + off) bs"
  shows "\<exists>f. flash_write fv s off bs = (True, s\<lparr>fs_flash := f\<rparr>) \<and> finv f \<and>
    (\<forall>x. in_region x 1 \<longrightarrow> cells f x = write_cells (cells (fs_flash s)) (fs_provisionalSlot s + kEnvelopeSize + off) bs x)"
proof -
  have "in_region (fs_provisionalSlot s + kEnvelopeSize + off) (length bs)"
    using slot_region [OF rdy(2), of "kEnvelopeSize + off" "length bs"] len by (simp add: flash_consts add.assoc)
  from nor_write [OF inv this w] rdy len show ?thesis by (auto simp: flash_write_def)
qed

lemma flash_write_refused:
  assumes inv: "finv (fs_flash s)" and slot: "is_slot (fs_provisionalSlot s)" and len: "off + length bs \<le> kPayloadSize"
    and w: "\<not> fs_provisionalReady s \<or> \<not> writable (cells (fs_flash s)) (fs_provisionalSlot s + kEnvelopeSize + off) bs"
  shows "flash_write fv s off bs = (False, s)"
proof (cases "fs_provisionalReady s")
  case True
  have "in_region (fs_provisionalSlot s + kEnvelopeSize + off) (length bs)"
    using slot_region [OF slot, of "kEnvelopeSize + off" "length bs"] len by (simp add: flash_consts add.assoc)
  from nor_refuse [OF inv this] w True len show ?thesis by (auto simp: flash_write_def)
qed (simp add: flash_write_def)

text \<open>\<open>commit\<close> on a slot with an erased header makes it valid with the next sequence number.\<close>

lemma flash_commit_ok:
  assumes inv: "finv (fs_flash s)" and rdy: "fs_provisionalReady s" "is_slot (fs_provisionalSlot s)"
    and hdr: "\<forall>x. fs_provisionalSlot s \<le> x \<and> x < fs_provisionalSlot s + 16 \<longrightarrow> cells (fs_flash s) x = 0xFF"
  shows "\<exists>f. flash_commit fv s = (True, s\<lparr>fs_flash := f, fs_activeSlot := fs_provisionalSlot s,
      fs_activeSeq := fs_newSeq s, fs_provisionalReady := False\<rparr>) \<and> finv f \<and>
    slot_state (cells f) (fs_provisionalSlot s) = (Some (fs_newSeq s), False) \<and>
    region (cells f) (fs_provisionalSlot s + kEnvelopeSize) kPayloadSize =
      region (cells (fs_flash s)) (fs_provisionalSlot s + kEnvelopeSize) kPayloadSize \<and>
    (\<forall>x. in_slot (other_slot (fs_provisionalSlot s)) x \<longrightarrow> cells f x = cells (fs_flash s) x)"
proof -
  let ?p = "fs_provisionalSlot s" and ?c = "cells (fs_flash s)"
  let ?payload = "region ?c (?p + kEnvelopeSize) kPayloadSize"
  let ?h = "flash_header (fs_newSeq s) (flash_crc32 ?payload)"
  have lh: "length ?h = 12" by (simp add: flash_header_def)
  have rd: "fl_read fv (fs_flash s) (?p + kEnvelopeSize) kPayloadSize = Some ?payload"
    by (intro nor_read inv slot_region rdy) (simp add: flash_consts)
  have ff: "(0xFF :: u8) AND b = b" for b
  proof -
    have "(0xFF :: u8) = - 1" by simp
    then show ?thesis by (metis and.left_neutral)
  qed
  have w1: "writable ?c ?p ?h" using hdr lh ff by (simp add: writable_def)
  have r1: "in_region ?p (length ?h)" using slot_region [OF rdy(2), of 0 12] lh by simp
  obtain f1 where f1: "fl_write fv (fs_flash s) ?p ?h = (True, f1)" "finv f1"
    "\<forall>x. in_region x 1 \<longrightarrow> cells f1 x = write_cells ?c ?p ?h x" using nor_write [OF inv r1 w1] by blast
  have r2: "in_region (?p + 12) (length [kCommitMarker])" using slot_region [OF rdy(2), of 12 1] by simp
  have "cells f1 (?p + 12) = 0xFF" using f1(3) r2 hdr lh by (simp add: write_cells_def)
  then have w2: "writable (cells f1) (?p + 12) [kCommitMarker]" using ff by (simp add: writable_def)
  obtain f2 where f2: "fl_write fv f1 (?p + 12) [kCommitMarker] = (True, f2)" "finv f2"
    "\<forall>x. in_region x 1 \<longrightarrow> cells f2 x = write_cells (cells f1) (?p + 12) [kCommitMarker] x"
    using nor_write [OF f1(2) r2 w2] by blast
  have cell: "cells f2 x = (if x = ?p + 12 then kCommitMarker else if ?p \<le> x \<and> x < ?p + 12 then ?h ! (x - ?p) else ?c x)"
    if "in_region x 1" for x
    using f1(3) f2(3) that lh by (auto simp: write_cells_def)
  have slot: "in_region (?p + i) 1" if "i < 2048" for i using slot_region [OF rdy(2), of i 1] that by simp
  have pay: "region (cells f2) (?p + kEnvelopeSize) kPayloadSize = ?payload"
  proof (rule region_cong)
    fix i assume i: "i < kPayloadSize"
    have "in_region (?p + (16 + i)) 1" by (rule slot) (use i in \<open>simp add: flash_consts\<close>)
    from cell [OF this] show "cells f2 (?p + kEnvelopeSize + i) = ?c (?p + kEnvelopeSize + i)" by (simp add: flash_consts add.assoc)
  qed
  have "region (cells f2) ?p 12 = ?h"
  proof (rule nth_equalityI)
    fix i assume "i < length (region (cells f2) ?p 12)"
    then have i: "i < 12" by simp
    with cell [OF slot, of i] show "region (cells f2) ?p 12 ! i = ?h ! i" by (simp add: region_nth)
  qed (simp add: lh)
  then have "slot_state (cells f2) ?p = (Some (fs_newSeq s), False)"
    using cell [OF slot, of 12] pay by (intro slot_state_committed) simp_all
  moreover have "cells f2 x = ?c x" if "in_slot (other_slot ?p) x" for x
  proof -
    have "\<not> in_slot ?p x" using slots_disjoint [OF is_slot_other that] other_other [OF rdy(2)] by simp
    then show ?thesis using cell [OF in_slot_region [OF is_slot_other that]] by (auto simp: in_slot_def)
  qed
  moreover have "flash_commit fv s = (True, s\<lparr>fs_flash := f2, fs_activeSlot := ?p, fs_activeSeq := fs_newSeq s, fs_provisionalReady := False\<rparr>)"
    using rdy rd f1(1) f2(1) nor_commit [OF f2(2)] by (simp add: flash_commit_def)
  ultimately show ?thesis using f2(2) pay by blast
qed

section \<open>Updates and power cuts\<close>

text \<open>A store as \<open>begin\<close> leaves it.\<close>

definition flash_started :: "'f flash_storage \<Rightarrow> bool" where
  "flash_started s \<longleftrightarrow> finv (fs_flash s) \<and> fs_activeValid s \<and>
     selects (fs_flash s) = Some (fs_activeSlot s, fs_activeSeq s)"

lemma begin_started:
  assumes "finv f" "flash_begin fv (flash_new f) = (True, s)"
  shows "flash_started s \<and> fs_flash s = f"
  using assms flash_begin_selects [of "flash_new f"]
  by (auto simp: flash_started_def flash_new_def split: option.splits)

lemma started_slot: "flash_started s \<Longrightarrow> is_slot (fs_activeSlot s)"
  using selects_slot by (auto simp: flash_started_def)

text \<open>The payload of a restart.\<close>

definition restart_payload :: "'f \<Rightarrow> u8 list option" where
  "restart_payload f = (case selects f of None \<Rightarrow> None
     | Some (slot, seq) \<Rightarrow> Some (region (cells f) (slot + kEnvelopeSize) kPayloadSize))"

lemma restart_reads:
  assumes "finv f" "restart_payload f = Some payload"
  shows "\<exists>s. flash_begin fv (flash_new f) = (True, s) \<and>
    (\<forall>off buf. buf \<noteq> [] \<longrightarrow> off + length buf \<le> kPayloadSize \<longrightarrow>
       flash_read fv s off buf = (True, take (length buf) (drop off payload), s))"
proof -
  obtain slot seq where sel: "selects f = Some (slot, seq)" "payload = region (cells f) (slot + kEnvelopeSize) kPayloadSize"
    using assms(2) by (auto simp: restart_payload_def split: option.splits)
  let ?s = "flash_new f\<lparr>fs_activeSlot := slot, fs_activeSeq := seq, fs_activeValid := True\<rparr>"
  have b: "flash_begin fv (flash_new f) = (True, ?s)"
    using flash_begin_selects [of "flash_new f"] assms(1) sel(1) by (simp add: flash_new_def)
  have "flash_read fv ?s off buf = (True, take (length buf) (drop off payload), ?s)"
    if "buf \<noteq> []" "off + length buf \<le> kPayloadSize" for off buf
    using flash_read_active [of ?s buf off] assms(1) selects_slot [OF sel(1)] that sel(2) by (simp add: flash_new_def)
  with b show ?thesis by blast
qed

lemma ff_writable: "(\<And>i. i < length bs \<Longrightarrow> c (a + i) = 0xFF) \<Longrightarrow> writable c a bs"
proof -
  assume c: "\<And>i. i < length bs \<Longrightarrow> c (a + i) = 0xFF"
  have "(0xFF :: u8) = - 1" by simp
  then have "(0xFF :: u8) AND b = b" for b by (metis and.left_neutral)
  with c show ?thesis by (simp add: writable_def)
qed

lemma valid_selected:
  assumes st: "flash_started s" and valid: "fst (slot_state (cells (fs_flash s)) (fs_activeSlot s)) = Some q"
  shows "q = fs_activeSeq s"
  using assms by (auto simp: flash_started_def selects_def select_slot_def flash_consts split: option.splits if_splits)

text \<open>Erase, write, commit and restart: all succeed, and the restart reads what was written.\<close>

lemma flash_update:
  assumes st: "flash_started s" and len: "length payload = kPayloadSize"
  shows "\<exists>s1 s2 s3. flash_erase fv s = (True, s1) \<and> flash_write fv s1 0 payload = (True, s2) \<and>
    flash_commit fv s2 = (True, s3) \<and> flash_started s3 \<and> fs_activeSeq s3 = fs_activeSeq s + 1 \<and>
    restart_payload (fs_flash s3) = Some payload \<and> fst (slot_state (cells (fs_flash s3)) (fs_activeSlot s3)) \<noteq> None"
proof -
  let ?a = "fs_activeSlot s" and ?p = "other_slot (fs_activeSlot s)"
  have ne: "payload \<noteq> []" using len by (auto simp: flash_consts)
  have a: "is_slot ?a" by (rule started_slot [OF st])
  have s: "finv (fs_flash s)" "fs_activeValid s" using st by (simp_all add: flash_started_def)
  obtain f1 where f1: "flash_erase fv s = (True, s\<lparr>fs_flash := f1, fs_provisionalSlot := ?p,
      fs_newSeq := fs_activeSeq s + 1, fs_provisionalReady := True\<rparr>)" "finv f1"
    "\<forall>x. in_slot ?p x \<longrightarrow> cells f1 x = 0xFF" "\<forall>x. in_slot ?a x \<longrightarrow> cells f1 x = cells (fs_flash s) x"
    using flash_erase_ok [OF s a] by blast
  let ?s1 = "s\<lparr>fs_flash := f1, fs_provisionalSlot := ?p, fs_newSeq := fs_activeSeq s + 1, fs_provisionalReady := True\<rparr>"
  have "writable (cells f1) (?p + kEnvelopeSize + 0) payload"
    using f1(3) len by (intro ff_writable) (simp add: in_slot_def flash_consts)
  then obtain f2 where f2: "flash_write fv ?s1 0 payload = (True, ?s1\<lparr>fs_flash := f2\<rparr>)" "finv f2"
    "\<forall>x. in_region x 1 \<longrightarrow> cells f2 x = write_cells (cells f1) (?p + kEnvelopeSize) payload x"
    using flash_write_ok [of ?s1 payload 0] f1(2) len ne by (auto simp: flash_consts)
  let ?s2 = "?s1\<lparr>fs_flash := f2\<rparr>"
  have c2: "cells f2 x = write_cells (cells f1) (?p + kEnvelopeSize) payload x" if "in_slot ?p x \<or> in_slot ?a x" for x
    using f2(3) in_slot_region [OF is_slot_other] in_slot_region [OF a] that by blast
  have hdr: "\<forall>x. ?p \<le> x \<and> x < ?p + 16 \<longrightarrow> cells f2 x = 0xFF"
    using c2 f1(3) by (simp add: in_slot_def write_cells_def flash_consts)
  have pay: "region (cells f2) (?p + kEnvelopeSize) kPayloadSize = payload"
  proof -
    have "region (cells f2) (?p + kEnvelopeSize) kPayloadSize =
        region (write_cells (cells f1) (?p + kEnvelopeSize) payload) (?p + kEnvelopeSize) kPayloadSize"
      by (intro region_cong c2) (simp add: in_slot_def flash_consts)
    then show ?thesis using region_write_cells len by metis
  qed
  obtain f3 where f3: "flash_commit fv ?s2 = (True, ?s2\<lparr>fs_flash := f3, fs_activeSlot := ?p,
      fs_activeSeq := fs_activeSeq s + 1, fs_provisionalReady := False\<rparr>)" "finv f3"
    "slot_state (cells f3) ?p = (Some (fs_activeSeq s + 1), False)"
    "region (cells f3) (?p + kEnvelopeSize) kPayloadSize = payload"
    "\<forall>x. in_slot (other_slot ?p) x \<longrightarrow> cells f3 x = cells f2 x"
    using flash_commit_ok [of ?s2] f2(2) hdr pay by auto
  have "cells f3 x = cells (fs_flash s) x" if "in_slot ?a x" for x
    using f3(5) other_other [OF a] that c2 [of x] f1(4) slots_disjoint [OF a that] len
    by (auto simp: write_cells_def in_slot_def flash_consts)
  then have old: "slot_state (cells f3) ?a = slot_state (cells (fs_flash s)) ?a" by (rule slot_state_cong)
  have sel: "selects f3 = Some (?p, fs_activeSeq s + 1)"
  proof (cases "fst (slot_state (cells (fs_flash s)) ?a)")
    case None
    with f3(3) old other_other [OF a] show ?thesis by (intro selects_only) simp_all
  next
    case (Some q)
    with valid_selected [OF st] f3(3) old other_other [OF a] show ?thesis by (intro selects_newer) simp_all
  qed
  let ?s3 = "?s2\<lparr>fs_flash := f3, fs_activeSlot := ?p, fs_activeSeq := fs_activeSeq s + 1, fs_provisionalReady := False\<rparr>"
  have "flash_started ?s3" using f3(2) sel s(2) by (simp add: flash_started_def)
  moreover have "restart_payload f3 = Some payload" using sel f3(4) by (simp add: restart_payload_def)
  ultimately show ?thesis using f1(1) f2(1) f3(1,3) by (intro exI [of _ ?s1] exI [of _ ?s2] exI [of _ ?s3]) simp
qed

text \<open>Until the marker is written a restart still finds the old record: \<open>f\<close> is any content whose
  active slot is untouched and whose other slot lacks the marker.\<close>

lemma flash_power_cut:
  assumes st: "flash_started s" and valid: "fst (slot_state (cells (fs_flash s)) (fs_activeSlot s)) \<noteq> None"
    and kept: "\<forall>x. in_slot (fs_activeSlot s) x \<longrightarrow> cells f x = cells (fs_flash s) x"
    and unmarked: "cells f (other_slot (fs_activeSlot s) + 12) \<noteq> kCommitMarker"
  shows "restart_payload f = restart_payload (fs_flash s)"
proof -
  let ?a = "fs_activeSlot s"
  have a: "is_slot ?a" by (rule started_slot [OF st])
  have st': "slot_state (cells f) ?a = slot_state (cells (fs_flash s)) ?a" using kept by (intro slot_state_cong) simp
  obtain q where q: "fst (slot_state (cells (fs_flash s)) ?a) = Some q" using valid by blast
  have "selects f = Some (?a, q)"
    by (rule selects_only [OF a]) (use q st' slot_state_unmarked [where c = "cells f", OF unmarked] in simp_all)
  moreover have "selects (fs_flash s) = Some (?a, q)"
    using st valid_selected [OF st q] by (simp add: flash_started_def)
  moreover have "region (cells f) (?a + kEnvelopeSize) kPayloadSize = region (cells (fs_flash s)) (?a + kEnvelopeSize) kPayloadSize"
    using kept by (intro region_cong) (simp add: in_slot_def flash_consts)
  ultimately show ?thesis by (simp add: restart_payload_def)
qed

end

section \<open>What a restart reads\<close>

text \<open>The bytes a firmware reads after starting afresh on a given flash, if it starts at all.\<close>

definition after_restart :: "'f flash_vt \<Rightarrow> 'f \<Rightarrow> nat \<Rightarrow> u8 list \<Rightarrow> u8 list option" where
  "after_restart fv f off buf =
     (case flash_begin fv (flash_new f) of
        (False, _) \<Rightarrow> None
      | (True, s) \<Rightarrow> (case flash_read fv s off buf of (ok, out, _) \<Rightarrow> if ok then Some out else None))"

context nor_flash
begin

lemma after_restart_eq:
  assumes "finv f" "buf \<noteq> []" "off + length buf \<le> kPayloadSize"
  shows "after_restart fv f off buf = map_option (\<lambda>p. take (length buf) (drop off p)) (restart_payload f)"
proof (cases "restart_payload f")
  case None
  then have "selects f = None" by (auto simp: restart_payload_def split: option.splits)
  then show ?thesis using None flash_begin_selects [of "flash_new f"] assms(1)
    by (simp add: after_restart_def flash_new_def)
next
  case (Some p)
  from restart_reads [OF assms(1) Some] assms(2,3) Some show ?thesis by (auto simp: after_restart_def)
qed

lemma validateSlot_state:
  "flash_started s \<Longrightarrow> validateSlot fv (fs_flash s) (fs_activeSlot s) = slot_state (cells (fs_flash s)) (fs_activeSlot s)"
  using validateSlot_eq started_slot by (auto simp: flash_started_def)

end

text \<open>A new flash: both slots are erased, the first becomes active.\<close>

lemma sim_fresh_started: "sim.flash_started (snd (flash_begin sim_vt (flash_new sim_fresh))) \<and>
  fst (flash_begin sim_vt (flash_new sim_fresh))"
proof -
  have c: "sim_cells sim_fresh x = 0xFF" if "in_region x 1" for x
  proof -
    have "x - kSlotA < kRegionSize" using that by (auto simp: in_region_def kRegionSize_def)
    then show ?thesis by (simp add: sim_cells_def sim_fresh_def)
  qed
  have r: "in_region x 1" if "slot \<le> x" "x < slot + 13" "is_slot slot" for x slot
    using in_slot_region [OF that(3), of x] that by (simp add: in_slot_def)
  have "slot_state (sim_cells sim_fresh) slot = (None, True)" if "is_slot slot" for slot
    by (rule slot_state_erased) (use c r that in blast)
  then have sel: "sim.selects sim_fresh = Some (kSlotA, 0)"
    by (simp add: sim.selects_def select_slot_def is_slot_def)
  have l: "length (fs_flash (flash_new sim_fresh)) = kRegionSize" by (simp add: flash_new_def sim_fresh_def)
  have "flash_begin sim_vt (flash_new sim_fresh) =
      (True, flash_new sim_fresh\<lparr>fs_activeSlot := kSlotA, fs_activeSeq := 0, fs_activeValid := True\<rparr>)"
    using sim.flash_begin_selects [OF l] sel by (simp add: flash_new_def)
  then show ?thesis using sel l by (simp add: sim.flash_started_def flash_new_def)
qed

end
