(* ===== verification/Flash_Protocol.thy ===== *)
theory Flash_Protocol
  imports Flash_Facts Persist
begin

text \<open>
  The protocol core on the flash store of the STM32F1.  \<open>FlashStorage::write\<close> accepts data only
  after \<open>erase\<close>, and flash cells only go from 1 to 0 until then; \<open>Protocol::save\<close> writes without
  an erase and \<open>Protocol::factoryReset\<close> writes its header twice, so both fail.
\<close>

section \<open>Saving\<close>

text \<open>\<open>save\<close> writes without an erase, and \<open>FlashStorage::write\<close> refuses to write before one.\<close>

lemma flash_save_fails:
  assumes vt: "d_storage d = flash_storage_vt fv" and s: "p_storage p = Some s" "\<not> fs_provisionalReady s"
    and save: "save d p = Some (ok, p')"
  shows "\<not> ok \<and> p_storage p' = p_storage p \<and> p_dirty p' = p_dirty p"
proof -
  have w: "write_seq (flash_storage_vt fv) s (state_writes p bytes cs crc km em ma) = (False, s)" for bytes cs crc km em ma
    using s(2) by (simp add: state_writes_def Let_def flash_storage_vt_def flash_write_def)
  show ?thesis using save s w vt
    by (auto simp: save_def writeState_def split: option.splits prod.splits if_splits bind_splits)
qed

section \<open>Factory reset\<close>

lemma write_cells_nth: "i < length bs \<Longrightarrow> write_cells c a bs (a + i) = bs ! i"
  by (simp add: write_cells_def)

text \<open>The final header rewrites the CRC field, which holds zeros by then: on NOR flash no bit can be
  set again without an erase.\<close>

lemma header_rewrite:
  assumes "crc \<noteq> 0"
  shows "\<exists>i < kHeaderSize. header_bytes m v n 0 ! i AND header_bytes m v n crc ! i \<noteq> header_bytes m v n crc ! i"
proof -
  have "le32 crc \<noteq> replicate 4 0"
  proof
    assume "le32 crc = replicate 4 0"
    moreover have "le32 0 = replicate 4 0" by (simp add: le32_def numeral_eq_Suc)
    ultimately show False using assms of_le32_le32 by metis
  qed
  then obtain j where j: "j < 4" "le32 crc ! j \<noteq> 0" by (auto simp: list_eq_iff_nth_eq)
  have "header_bytes m v n c ! (8 + j) = le32 c ! j" for c
    by (simp add: header_bytes_def nth_append)
  moreover have "le32 0 ! j = 0" using j(1) by (simp add: le32_def nth_Cons' split: if_splits)
  ultimately show ?thesis using j by (intro exI [of _ "8 + j"]) (simp add: kHeaderSize_def)
qed

context nor_flash
begin

lemma flash_reset_fails:
  assumes st: "flash_started s" and len: "payload \<noteq> []" "kHeaderSize + length payload \<le> kPayloadSize"
    and crc: "NOT (crc32_bytes 0xFFFFFFFF payload) \<noteq> 0"
  shows "fst (reset_store (flash_storage_vt fv) s payload bytes) = False"
proof -
  let ?a = "fs_activeSlot s" and ?p = "other_slot (fs_activeSlot s)"
  let ?h = "header_bytes kStateMagic kStateVersion (of_nat bytes)" and ?crc = "NOT (crc32_bytes 0xFFFFFFFF payload)"
  have hs: "kHeaderSize = 12" "length (?h c) = 12" for c by (simp_all add: kHeaderSize_def header_bytes_def)
  have a: "is_slot ?a" by (rule started_slot [OF st])
  have s: "finv (fs_flash s)" "fs_activeValid s" using st by (simp_all add: flash_started_def)
  obtain f1 where f1: "flash_erase fv s = (True, s\<lparr>fs_flash := f1, fs_provisionalSlot := ?p,
      fs_newSeq := fs_activeSeq s + 1, fs_provisionalReady := True\<rparr>)" "finv f1"
    "\<forall>x. in_slot ?p x \<longrightarrow> cells f1 x = 0xFF" using flash_erase_ok [OF s a] by blast
  let ?s1 = "s\<lparr>fs_flash := f1, fs_provisionalSlot := ?p, fs_newSeq := fs_activeSeq s + 1, fs_provisionalReady := True\<rparr>"
  have h0: "?h 0 \<noteq> []" using hs(2) [of 0] by (metis list.size(3) zero_neq_numeral)
  have "writable (cells f1) (?p + kEnvelopeSize + 0) (?h 0)"
    using f1(3) hs by (intro ff_writable) (simp add: in_slot_def flash_consts)
  then obtain f2 where f2: "flash_write fv ?s1 0 (?h 0) = (True, ?s1\<lparr>fs_flash := f2\<rparr>)" "finv f2"
    "\<forall>x. in_region x 1 \<longrightarrow> cells f2 x = write_cells (cells f1) (?p + kEnvelopeSize) (?h 0) x"
    using flash_write_ok [of ?s1 "?h 0" 0] f1(2) hs h0 by (auto simp: flash_consts)
  let ?s2 = "?s1\<lparr>fs_flash := f2\<rparr>"
  have reg: "in_region (?p + kEnvelopeSize + i) 1" if "i < kPayloadSize" for i
    using slot_region [OF is_slot_other, of "kEnvelopeSize + i" 1] that by (simp add: flash_consts add.assoc)
  have "writable (cells f2) (?p + kEnvelopeSize + kHeaderSize) payload"
  proof (rule ff_writable)
    fix i assume i: "i < length payload"
    have "cells f2 (?p + kEnvelopeSize + (kHeaderSize + i)) = cells f1 (?p + kEnvelopeSize + (kHeaderSize + i))"
      using f2(3) reg [of "kHeaderSize + i"] i len hs by (simp add: write_cells_def)
    also have "\<dots> = 0xFF" using f1(3) i len hs by (simp add: in_slot_def flash_consts)
    finally show "cells f2 (?p + kEnvelopeSize + kHeaderSize + i) = 0xFF" by (simp add: add.assoc)
  qed
  then obtain f3 where f3: "flash_write fv ?s2 kHeaderSize payload = (True, ?s2\<lparr>fs_flash := f3\<rparr>)" "finv f3"
    "\<forall>x. in_region x 1 \<longrightarrow> cells f3 x = write_cells (cells f2) (?p + kEnvelopeSize + kHeaderSize) payload x"
    using flash_write_ok [of ?s2 payload kHeaderSize] f2(2) len by auto
  let ?s3 = "?s2\<lparr>fs_flash := f3\<rparr>"
  have cell: "cells f3 (?p + kEnvelopeSize + i) = ?h 0 ! i" if "i < 12" for i
    using f2(3) f3(3) reg [of i] that hs by (simp add: write_cells_def flash_consts)
  obtain i where i: "i < 12" "?h 0 ! i AND ?h ?crc ! i \<noteq> ?h ?crc ! i"
    using header_rewrite [OF crc] hs(1) by metis
  have "\<not> writable (cells f3) (?p + kEnvelopeSize + 0) (?h ?crc)"
    using i cell hs by (auto simp: writable_def)
  then have "flash_write fv ?s3 0 (?h ?crc) = (False, ?s3)"
    using f3(2) hs by (intro flash_write_refused) (simp_all add: flash_consts)
  then show ?thesis using f1(1) f2(1) f3(1) by (simp add: reset_store_def flash_storage_vt_def Let_def)
qed

end

end
