(* ===== verification/Flash_Power.thy ===== *)
theory Flash_Power
  imports Flash_Facts
begin

text \<open>
  Power cuts in the flash store.  \<open>power_vt\<close> puts a supply in front of a flash: each page erase and
  each programmed byte takes one unit, and what comes after the last unit does not happen.  The store's
  own \<open>erase\<close>, \<open>write\<close> and \<open>commit\<close> run over it with any supply, so that the cut falls between any
  two page erases or programmed bytes.  A single byte and a single page are not torn.
\<close>

section \<open>A flash with a limited supply\<close>

definition power_vt :: "'f flash_vt \<Rightarrow> ('f \<times> nat) flash_vt" where
  "power_vt fv = \<lparr>fl_read = (\<lambda>(f, n). fl_read fv f),
     fl_write = (\<lambda>(f, n) a bs.
       if length bs \<le> n then (case fl_write fv f a bs of (ok, f) \<Rightarrow> (ok, (f, n - length bs)))
       else (False, (snd (fl_write fv f a (take n bs)), 0))),
     fl_erasePage = (\<lambda>(f, n) a. if n = 0 then (False, (f, 0)) else (case fl_erasePage fv f a of (ok, f) \<Rightarrow> (ok, (f, n - 1)))),
     fl_commit = (\<lambda>(f, n). case fl_commit fv f of (ok, f) \<Rightarrow> (ok, (f, n)))\<rparr>"

text \<open>An update as the class asks for it: erase, write, commit, each only after the one before succeeded.\<close>

definition flash_replace :: "'f flash_vt \<Rightarrow> u8 list \<Rightarrow> 'f flash_storage \<Rightarrow> bool \<times> 'f flash_storage" where
  "flash_replace fv payload s =
     (case flash_erase fv s of
        (False, s) \<Rightarrow> (False, s)
      | (True, s) \<Rightarrow>
          (case flash_write fv s 0 payload of
             (False, s) \<Rightarrow> (False, s)
           | (True, s) \<Rightarrow> flash_commit fv s))"

definition lift_power :: "nat \<Rightarrow> 'f flash_storage \<Rightarrow> ('f \<times> nat) flash_storage" where
  "lift_power n s = \<lparr>fs_flash = (fs_flash s, n), fs_activeSlot = fs_activeSlot s, fs_provisionalSlot = fs_provisionalSlot s,
     fs_activeSeq = fs_activeSeq s, fs_newSeq = fs_newSeq s, fs_activeValid = fs_activeValid s,
     fs_provisionalReady = fs_provisionalReady s\<rparr>"

lemma lift_power_sel [simp]:
  "fs_flash (lift_power n s) = (fs_flash s, n)" "fs_activeSlot (lift_power n s) = fs_activeSlot s"
  "fs_provisionalSlot (lift_power n s) = fs_provisionalSlot s" "fs_activeSeq (lift_power n s) = fs_activeSeq s"
  "fs_newSeq (lift_power n s) = fs_newSeq s" "fs_activeValid (lift_power n s) = fs_activeValid s"
  "fs_provisionalReady (lift_power n s) = fs_provisionalReady s"
  by (simp_all add: lift_power_def)

lemma flash_storage_eqI:
  "fs_flash s = fs_flash t \<Longrightarrow> fs_activeSlot s = fs_activeSlot t \<Longrightarrow> fs_provisionalSlot s = fs_provisionalSlot t \<Longrightarrow>
   fs_activeSeq s = fs_activeSeq t \<Longrightarrow> fs_newSeq s = fs_newSeq t \<Longrightarrow> fs_activeValid s = fs_activeValid t \<Longrightarrow>
   fs_provisionalReady s = fs_provisionalReady t \<Longrightarrow> s = (t :: 'f flash_storage)"
  by simp

lemma power_begin:
  assumes "flash_begin fv (flash_new f) = (True, s)"
  shows "flash_begin (power_vt fv) (flash_new (f, n)) = (True, lift_power n s)"
proof -
  have rd: "fl_read (power_vt fv) (f, n) = fl_read fv f" by (simp add: power_vt_def)
  have "validateSlot (power_vt fv) (f, n) slot = validateSlot fv f slot" for slot
    unfolding validateSlot_def rd ..
  with assms show ?thesis
    by (auto simp: flash_begin_def flash_new_def split: option.splits intro!: flash_storage_eqI)
qed

section \<open>With enough supply nothing changes\<close>

lemma power_erase_enough:
  assumes "flash_erase fv s = (True, s')" and "2 \<le> n"
  shows "flash_erase (power_vt fv) (lift_power n s) = (True, lift_power (n - 2) s')"
proof -
  let ?p = "if fs_activeSlot s = kSlotA then kSlotB else kSlotA"
  obtain f1 f2 where f: "fs_activeValid s" "fl_erasePage fv (fs_flash s) ?p = (True, f1)"
      "fl_erasePage fv f1 (?p + kPageSize) = (True, f2)"
      "s' = s\<lparr>fs_provisionalSlot := ?p, fs_newSeq := fs_activeSeq s + 1, fs_flash := f2, fs_provisionalReady := True\<rparr>"
    using assms(1) by (auto simp: flash_erase_def Let_def split: if_splits prod.splits bool.splits)
  then show ?thesis using assms(2)
    by (auto simp: flash_erase_def Let_def power_vt_def intro!: flash_storage_eqI)
qed

lemma power_write_enough:
  assumes "flash_write fv s off bs = (True, s')" and "length bs \<le> n"
  shows "flash_write (power_vt fv) (lift_power n s) off bs = (True, lift_power (n - length bs) s')"
proof -
  obtain f1 where f: "fs_provisionalReady s" "bs \<noteq> []" "\<not> off > kPayloadSize" "\<not> length bs > kPayloadSize - off"
    "fl_write fv (fs_flash s) (fs_provisionalSlot s + kEnvelopeSize + off) bs = (True, f1)" "s' = s\<lparr>fs_flash := f1\<rparr>"
    using assms(1) by (auto simp: flash_write_def split: if_splits prod.splits)
  then show ?thesis using assms(2)
    by (auto simp: flash_write_def power_vt_def intro!: flash_storage_eqI)
qed

lemma length_flash_header [simp]: "length (flash_header seq crc) = 12"
  by (simp add: flash_header_def)

lemma power_commit_enough:
  assumes "flash_commit fv s = (True, s')" and "13 \<le> n"
  shows "flash_commit (power_vt fv) (lift_power n s) = (True, lift_power (n - 13) s')"
proof -
  obtain payload f1 f2 f3 where f: "fs_provisionalReady s"
    "fl_read fv (fs_flash s) (fs_provisionalSlot s + kEnvelopeSize) kPayloadSize = Some payload"
    "fl_write fv (fs_flash s) (fs_provisionalSlot s) (flash_header (fs_newSeq s) (flash_crc32 payload)) = (True, f1)"
    "fl_write fv f1 (fs_provisionalSlot s + 12) [kCommitMarker] = (True, f2)" "fl_commit fv f2 = (True, f3)"
    "s' = s\<lparr>fs_flash := f3, fs_activeSlot := fs_provisionalSlot s, fs_activeSeq := fs_newSeq s, fs_provisionalReady := False\<rparr>"
    using assms(1) by (auto simp: flash_commit_def split: if_splits option.splits prod.splits bool.splits)
  then show ?thesis using assms(2)
    by (auto simp: flash_commit_def power_vt_def intro!: flash_storage_eqI)
qed

section \<open>With too little\<close>

text \<open>What is left of the flash when an update stopped.\<close>

definition left_over :: "'f flash_vt \<Rightarrow> u8 list \<Rightarrow> nat \<Rightarrow> 'f flash_storage \<Rightarrow> 'f" where
  "left_over fv payload n s = fst (fs_flash (snd (flash_replace (power_vt fv) payload (lift_power n s))))"

text \<open>Two page erases, the payload, the header and the marker.\<close>

definition kUpdateCost :: nat where "kUpdateCost = 2 + kPayloadSize + 12 + 1"

context nor_flash
begin

text \<open>The active slot is untouched and the other one has no marker, or nothing happened.\<close>

definition harmless :: "'f flash_storage \<Rightarrow> 'f \<Rightarrow> bool" where
  "harmless s f \<longleftrightarrow> finv f \<and> (\<forall>x. in_slot (fs_activeSlot s) x \<longrightarrow> cells f x = cells (fs_flash s) x) \<and>
     (f = fs_flash s \<or> cells f (other_slot (fs_activeSlot s) + 12) \<noteq> kCommitMarker)"

lemma harmless_restart:
  assumes st: "flash_started s" and valid: "fst (slot_state (cells (fs_flash s)) (fs_activeSlot s)) \<noteq> None" and h: "harmless s f"
  shows "finv f \<and> restart_payload f = restart_payload (fs_flash s)"
  using h flash_power_cut [OF st valid, of f] by (auto simp: harmless_def)

text \<open>Bytes programmed into erased cells of the other slot, away from its marker.\<close>

lemma program_harmless:
  assumes a: "is_slot (fs_activeSlot s)" and h: "harmless s f"
    and p: "p = other_slot (fs_activeSlot s)" and w: "cells f (p + 12) = 0xFF"
    and r: "k + length bs \<le> 2048" "12 < k \<or> k + length bs \<le> 12"
    and e: "\<And>i. i < length bs \<Longrightarrow> cells f (p + k + i) = 0xFF"
  shows "\<exists>f'. fl_write fv f (p + k) bs = (True, f') \<and> harmless s f' \<and> cells f' (p + 12) = 0xFF \<and>
    (\<forall>x. in_region x 1 \<longrightarrow> cells f' x = write_cells (cells f) (p + k) bs x)"
proof -
  have inv: "finv f" using h by (simp add: harmless_def)
  have reg: "in_region (p + k) (length bs)" using slot_region [OF is_slot_other r(1)] p by simp
  obtain f' where f': "fl_write fv f (p + k) bs = (True, f')" "finv f'"
    "\<forall>x. in_region x 1 \<longrightarrow> cells f' x = write_cells (cells f) (p + k) bs x"
    using nor_write [OF inv reg ff_writable] e by blast
  have p12: "in_region (p + 12) 1" using slot_region [OF is_slot_other, of 12 1] p by simp
  have c12: "cells f' (p + 12) = 0xFF" using f'(3) p12 w r(2) by (auto simp: write_cells_def)
  have "cells f' x = cells (fs_flash s) x" if "in_slot (fs_activeSlot s) x" for x
    using f'(3) in_slot_region [OF a that] slots_disjoint [OF a that] h that r(1) p
    by (auto simp: harmless_def write_cells_def in_slot_def)
  moreover have "(0xFF :: u8) \<noteq> kCommitMarker" by (simp add: kCommitMarker_def)
  ultimately show ?thesis using f' c12 p by (auto simp: harmless_def)
qed

lemma erase_page_harmless:
  assumes a: "is_slot (fs_activeSlot s)" and h: "finv f" "\<forall>x. in_slot (fs_activeSlot s) x \<longrightarrow> cells f x = cells (fs_flash s) x"
  shows "\<exists>f'. fl_erasePage fv f (other_slot (fs_activeSlot s)) = (True, f') \<and> harmless s f'"
proof -
  let ?p = "other_slot (fs_activeSlot s)"
  have r: "in_region ?p kPageSize" "?p mod kPageSize = 0"
    using slot_region [OF is_slot_other, of 0 kPageSize] by (auto simp: flash_consts other_slot_def)
  obtain f' where f': "fl_erasePage fv f ?p = (True, f')" "finv f'"
    "\<forall>x. in_region x 1 \<longrightarrow> cells f' x = (if ?p \<le> x \<and> x < ?p + kPageSize then 0xFF else cells f x)"
    using nor_erase [OF h(1) r] by blast
  have "cells f' x = cells (fs_flash s) x" if "in_slot (fs_activeSlot s) x" for x
    using f'(3) in_slot_region [OF a that] slots_disjoint [OF a that] h that by (auto simp: in_slot_def flash_consts)
  moreover have "cells f' (?p + 12) = 0xFF" "(0xFF :: u8) \<noteq> kCommitMarker"
    using f'(3) slot_region [OF is_slot_other, of 12 1] by (simp_all add: flash_consts kCommitMarker_def)
  ultimately show ?thesis using f' by (auto simp: harmless_def)
qed

lemma power_cut_harmless:
  assumes st: "flash_started s" and len: "length payload = kPayloadSize" and n: "n < kUpdateCost"
  shows "harmless s (left_over fv payload n s)"
proof -
  let ?a = "fs_activeSlot s" and ?p = "other_slot (fs_activeSlot s)" and ?P = "power_vt fv"
  have a: "is_slot ?a" by (rule started_slot [OF st])
  have s: "finv (fs_flash s)" "fs_activeValid s" using st by (simp_all add: flash_started_def)
  have h0: "harmless s (fs_flash s)" using s by (simp add: harmless_def)
  have ne: "payload \<noteq> []" using len by (auto simp: flash_consts)
  obtain f1 where f1: "flash_erase fv s = (True, s\<lparr>fs_flash := f1, fs_provisionalSlot := ?p,
      fs_newSeq := fs_activeSeq s + 1, fs_provisionalReady := True\<rparr>)" "finv f1"
    "\<forall>x. in_slot ?p x \<longrightarrow> cells f1 x = 0xFF" "\<forall>x. in_slot ?a x \<longrightarrow> cells f1 x = cells (fs_flash s) x"
    using flash_erase_ok [OF s a] by blast
  let ?s1 = "s\<lparr>fs_flash := f1, fs_provisionalSlot := ?p, fs_newSeq := fs_activeSeq s + 1, fs_provisionalReady := True\<rparr>"
  have e1: "cells f1 (?p + i) = 0xFF" if "i < 2048" for i using f1(3) that by (simp add: in_slot_def)
  have ffm: "(0xFF :: u8) \<noteq> kCommitMarker" by (simp add: kCommitMarker_def)
  have h1: "harmless s f1" using f1 e1 [of 12] ffm by (simp add: harmless_def)
  show ?thesis
  proof (cases "n < 2")
    case True
    have p: "?p = (if fs_activeSlot s = kSlotA then kSlotB else kSlotA)" by (simp add: other_slot_def)
    obtain f' where f': "fl_erasePage fv (fs_flash s) ?p = (True, f')" "harmless s f'"
      using erase_page_harmless [OF a s(1)] by auto
    have "left_over fv payload n s = (if n = 0 then fs_flash s else f')"
      using True s(2) f'(1) by (auto simp: left_over_def flash_replace_def flash_erase_def power_vt_def Let_def p [symmetric])
    then show ?thesis using f'(2) h0 by simp
  next
    case False
    define m where "m = n - 2"
    have er: "flash_erase ?P (lift_power n s) = (True, lift_power m ?s1)"
      using power_erase_enough [OF f1(1)] False by (simp add: m_def)
    have at: "?p + kEnvelopeSize = ?p + 16" by (simp add: flash_consts)
    show ?thesis
    proof (cases "m < kPayloadSize")
      case True
      obtain f' where f': "fl_write fv f1 (?p + 16) (take m payload) = (True, f')" "harmless s f'"
        using program_harmless [OF a h1 refl e1, of 16 "take m payload"] e1 len by (auto simp: flash_consts add.assoc)
      have "left_over fv payload n s = f'"
        using er True len ne f'(1)
        by (simp add: left_over_def flash_replace_def flash_write_def power_vt_def at)
      then show ?thesis using f'(2) by simp
    next
      case False
      define j where "j = m - kPayloadSize"
      have j: "j < 13" using n False by (simp add: j_def m_def kUpdateCost_def)
      obtain f2 where f2: "fl_write fv f1 (?p + 16) payload = (True, f2)" "harmless s f2" "cells f2 (?p + 12) = 0xFF"
        "\<forall>x. in_region x 1 \<longrightarrow> cells f2 x = write_cells (cells f1) (?p + 16) payload x"
        using program_harmless [OF a h1 refl e1, of 16 payload] e1 len by (auto simp: flash_consts add.assoc)
      let ?s2 = "?s1\<lparr>fs_flash := f2\<rparr>"
      have "flash_write fv ?s1 0 payload = (True, ?s2)"
        using f2(1) len ne by (simp add: flash_write_def at kPayloadSize_def)
      from power_write_enough [OF this, of m] False len
      have wr: "flash_write ?P (lift_power m ?s1) 0 payload = (True, lift_power j ?s2)" by (simp add: j_def)
      have inv2: "finv f2" using f2(2) by (simp add: harmless_def)
      have e2: "cells f2 (?p + i) = 0xFF" if "i < 16" for i
        using f2(4) slot_region [OF is_slot_other, of i 1] that e1 by (simp add: write_cells_def)
      have "in_region (?p + kEnvelopeSize) kPayloadSize" by (rule slot_region [OF is_slot_other]) (simp add: flash_consts)
      then obtain bs where rd: "fl_read fv f2 (?p + kEnvelopeSize) kPayloadSize = Some bs" using nor_read [OF inv2] by blast
      define hd where "hd = flash_header (fs_activeSeq s + 1) (flash_crc32 bs)"
      have lh: "length hd = 12" by (simp add: hd_def)
      show ?thesis
      proof (cases "j < 12")
        case True
        obtain f' where f': "fl_write fv f2 (?p + 0) (take j hd) = (True, f')" "harmless s f'"
          using program_harmless [OF a f2(2) refl f2(3), of 0 "take j hd"] e2 lh True by auto
        have "left_over fv payload n s = f'"
          using er wr rd True f'(1) lh
          by (simp add: left_over_def flash_replace_def flash_commit_def power_vt_def hd_def)
        then show ?thesis using f'(2) by simp
      next
        case False
        then have j12: "j = 12" using j by simp
        obtain f3 where f3: "fl_write fv f2 (?p + 0) hd = (True, f3)" "harmless s f3" "cells f3 (?p + 12) = 0xFF"
          using program_harmless [OF a f2(2) refl f2(3), of 0 hd] e2 lh by auto
        obtain f' where f': "fl_write fv f3 (?p + 12) [] = (True, f')" "harmless s f'"
          using program_harmless [OF a f3(2) refl f3(3), of 12 "[]"] by auto
        have "left_over fv payload n s = f'"
          using er wr rd j12 f3(1) f'(1) lh
          by (simp add: left_over_def flash_replace_def flash_commit_def power_vt_def hd_def)
        then show ?thesis using f'(2) by simp
      qed
    qed
  qed
qed

lemma enough_power_updates:
  assumes st: "flash_started s" and len: "length payload = kPayloadSize" and n: "kUpdateCost \<le> n"
  shows "finv (left_over fv payload n s) \<and> restart_payload (left_over fv payload n s) = Some payload"
proof -
  obtain s1 s2 s3 where u: "flash_erase fv s = (True, s1)" "flash_write fv s1 0 payload = (True, s2)"
    "flash_commit fv s2 = (True, s3)" "flash_started s3" "restart_payload (fs_flash s3) = Some payload"
    using flash_update [OF st len] by blast
  have n': "2 \<le> n" "length payload \<le> n - 2" "13 \<le> n - 2 - length payload" using n len by (simp_all add: kUpdateCost_def)
  have "left_over fv payload n s = fs_flash s3"
    using power_erase_enough [OF u(1) n'(1)] power_write_enough [OF u(2) n'(2)] power_commit_enough [OF u(3) n'(3)]
    by (simp add: left_over_def flash_replace_def)
  then show ?thesis using u(4,5) by (simp add: flash_started_def)
qed

end

end
