(* ===== verification/Fs_Store.thy ===== *)
theory Fs_Store
  imports Crc Interfaces
begin

text \<open>
  The file store of the nRF52, \<open>src/VIA_nRF52_InternalFS.h\<close> and \<open>src/VIA_nRF52_InternalFS.cpp\<close>:
  a staging buffer in RAM and two files that are written in turn.  The file system library is a
  parameter, stated as three contracts.  \<open>file_library\<close> is a library that works, with the behaviour
  of the repository's own fake (opening for writing truncates); \<open>file_append\<close> is the same library
  opening for writing at the end of the file; \<open>file_faults\<close> is a library that truncates and in which
  any operation may fail: opening, a short write, a short read, and damage when a written file is
  closed.  They are interpreted on the fake.
\<close>

text \<open>Files are read and written through handles; the flag of \<open>open\<close> says whether for writing.\<close>

record 'f littlefs =
  lf_begin :: "'f \<Rightarrow> bool \<times> 'f"
  lf_open :: "'f \<Rightarrow> string \<Rightarrow> bool \<Rightarrow> nat option \<times> 'f"
  lf_read :: "'f \<Rightarrow> nat \<Rightarrow> nat \<Rightarrow> u8 list \<times> 'f"
  lf_write :: "'f \<Rightarrow> nat \<Rightarrow> u8 list \<Rightarrow> nat \<times> 'f"
  lf_seek :: "'f \<Rightarrow> nat \<Rightarrow> nat \<Rightarrow> 'f"
  lf_close :: "'f \<Rightarrow> nat \<Rightarrow> 'f"
  lf_remove :: "'f \<Rightarrow> string \<Rightarrow> 'f"

definition kFsMagic :: u32 where "kFsMagic = 0x56494146"

definition kFileA :: string where "kFileA = ''/via_a.dat''"

definition kFileB :: string where "kFileB = ''/via_b.dat''"

definition kRecordHeader :: nat where "kRecordHeader = 16"

record 'f fs_storage =
  if_staging :: "u8 list"
  if_capacity :: nat
  if_activeGeneration :: u32
  if_initialized :: bool
  if_fs :: 'f

definition fs_new :: "u8 list \<Rightarrow> nat \<Rightarrow> 'f \<Rightarrow> 'f fs_storage" where
  "fs_new staging capacity f = \<lparr>if_staging = staging, if_capacity = capacity, if_activeGeneration = 0,
     if_initialized = False, if_fs = f\<rparr>"

text \<open>\<open>RecordHeader\<close>: magic, generation, length, CRC.\<close>

definition record_header :: "u32 \<Rightarrow> u32 \<Rightarrow> u32 \<Rightarrow> u32 \<Rightarrow> u8 list" where
  "record_header magic generation len crc = le32 magic @ le32 generation @ le32 len @ le32 crc"

definition rh_magic :: "u8 list \<Rightarrow> u32" where "rh_magic h = of_le32 (take 4 h)"

definition rh_generation :: "u8 list \<Rightarrow> u32" where "rh_generation h = of_le32 (take 4 (drop 4 h))"

definition rh_length :: "u8 list \<Rightarrow> u32" where "rh_length h = of_le32 (take 4 (drop 8 h))"

definition rh_crc :: "u8 list \<Rightarrow> u32" where "rh_crc h = of_le32 (take 4 (drop 12 h))"

definition newer :: "u32 \<Rightarrow> u32 \<Rightarrow> bool" where "newer a b \<longleftrightarrow> sint (a - b) > 0"

text \<open>The loop that reads a file in chunks of 256 bytes; nothing when a read comes up short.\<close>

function file_crc :: "'f littlefs \<Rightarrow> nat \<Rightarrow> nat \<Rightarrow> u32 \<Rightarrow> 'f \<Rightarrow> u32 option \<times> 'f" where
  "file_crc lf h remaining crc f =
     (if remaining = 0 then (Some crc, f)
      else
        let toRead = (if remaining > 256 then 256 else remaining)
        in case lf_read lf f h toRead of (bs, f) \<Rightarrow>
             if length bs \<noteq> toRead then (None, f)
             else file_crc lf h (remaining - toRead) (nrf52_crc32 bs crc) f)"
  by auto
termination
  by (relation "measure (\<lambda>(lf, h, remaining, crc, f). remaining)") (auto split: if_splits)

declare file_crc.simps [simp del]

text \<open>The validation of one file in \<open>begin\<close>: its generation when it is valid.\<close>

definition probe_file :: "'f littlefs \<Rightarrow> nat \<Rightarrow> string \<Rightarrow> 'f \<Rightarrow> u32 option \<times> 'f" where
  "probe_file lf capacity name f =
     (case lf_open lf f name False of
        (None, f) \<Rightarrow> (None, f)
      | (Some h, f) \<Rightarrow>
          (case lf_read lf f h kRecordHeader of (header, f) \<Rightarrow>
             (case (if length header = kRecordHeader \<and> rh_magic header = kFsMagic \<and> unat (rh_length header) = capacity
                    then (case file_crc lf h (unat (rh_length header)) 0xFFFFFFFF f of
                            (Some crc, f) \<Rightarrow> (if crc = rh_crc header then Some (rh_generation header) else None, f)
                          | (None, f) \<Rightarrow> (None, f))
                    else (None, f)) of
                (gen, f) \<Rightarrow> (gen, lf_close lf f h))))"

definition choose_file :: "u32 option \<Rightarrow> u32 option \<Rightarrow> (string \<times> u32) option" where
  "choose_file a b =
     (case (a, b) of
        (Some aGen, Some bGen) \<Rightarrow> Some (if newer aGen bGen then (kFileA, aGen) else (kFileB, bGen))
      | (Some aGen, None) \<Rightarrow> Some (kFileA, aGen)
      | (None, Some bGen) \<Rightarrow> Some (kFileB, bGen)
      | (None, None) \<Rightarrow> None)"

definition fs_blank :: "'f fs_storage \<Rightarrow> 'f fs_storage" where
  "fs_blank s = s\<lparr>if_staging := replicate (if_capacity s) 0x00, if_activeGeneration := 0, if_initialized := True\<rparr>"

definition fs_begin :: "'f littlefs \<Rightarrow> 'f fs_storage \<Rightarrow> bool \<times> 'f fs_storage" where
  "fs_begin lf s =
     (case lf_begin lf (if_fs s) of
        (False, f) \<Rightarrow> (False, s\<lparr>if_fs := f\<rparr>)
      | (True, f) \<Rightarrow>
          (case probe_file lf (if_capacity s) kFileA f of (a, f) \<Rightarrow>
          (case probe_file lf (if_capacity s) kFileB f of (b, f) \<Rightarrow>
          (case choose_file a b of
             None \<Rightarrow> (True, fs_blank (s\<lparr>if_fs := f\<rparr>))
           | Some (activeFile, gen) \<Rightarrow>
               let s = s\<lparr>if_activeGeneration := gen\<rparr>
               in case lf_open lf f activeFile False of
                    (None, f) \<Rightarrow> (True, fs_blank (s\<lparr>if_fs := f\<rparr>))
                  | (Some h, f) \<Rightarrow>
                      (case lf_read lf (lf_seek lf f h kRecordHeader) h (if_capacity s) of (bs, f) \<Rightarrow>
                         if length bs = if_capacity s
                         then (True, s\<lparr>if_staging := bs, if_initialized := True, if_fs := lf_close lf f h\<rparr>)
                         else (True, fs_blank (s\<lparr>if_fs := lf_close lf f h\<rparr>)))))))"

definition fs_refuses :: "'f fs_storage \<Rightarrow> nat \<Rightarrow> nat \<Rightarrow> bool" where
  "fs_refuses s offset len \<longleftrightarrow> \<not> if_initialized s \<or> offset > if_capacity s \<or> len > if_capacity s - offset"

definition fs_read :: "'f fs_storage \<Rightarrow> nat \<Rightarrow> u8 list \<Rightarrow> bool \<times> u8 list \<times> 'f fs_storage" where
  "fs_read s offset output =
     (if fs_refuses s offset (length output) then (False, output, s)
      else (True, take (length output) (drop offset (if_staging s)), s))"

definition fs_write :: "'f fs_storage \<Rightarrow> nat \<Rightarrow> u8 list \<Rightarrow> bool \<times> 'f fs_storage" where
  "fs_write s offset input =
     (if fs_refuses s offset (length input) then (False, s)
      else (True, s\<lparr>if_staging := overwrite (if_staging s) offset input\<rparr>))"

definition inactive_file :: "u32 \<Rightarrow> string" where
  "inactive_file nextGen = (if nextGen mod 2 = 1 then kFileA else kFileB)"

text \<open>Writing the record, then reading it back.\<close>

definition write_record :: "'f littlefs \<Rightarrow> string \<Rightarrow> u8 list \<Rightarrow> u8 list \<Rightarrow> 'f \<Rightarrow> bool \<times> 'f" where
  "write_record lf name header staging f =
     (case lf_open lf f name True of
        (None, f) \<Rightarrow> (False, f)
      | (Some h, f) \<Rightarrow>
          (case lf_write lf f h header of (n, f) \<Rightarrow>
             if n \<noteq> kRecordHeader then (False, lf_close lf f h)
             else (case lf_write lf f h staging of (n, f) \<Rightarrow>
               if n \<noteq> length staging then (False, lf_close lf f h) else (True, lf_close lf f h))))"

definition verify_record :: "'f littlefs \<Rightarrow> string \<Rightarrow> nat \<Rightarrow> u32 \<Rightarrow> u32 \<Rightarrow> 'f \<Rightarrow> bool \<times> 'f" where
  "verify_record lf name capacity nextGen crc f =
     (case lf_open lf f name False of
        (None, f) \<Rightarrow> (False, f)
      | (Some h, f) \<Rightarrow>
          (case lf_read lf f h kRecordHeader of (header, f) \<Rightarrow>
             if length header \<noteq> kRecordHeader then (False, lf_close lf f h)
             else if rh_magic header \<noteq> kFsMagic \<or> rh_generation header \<noteq> nextGen \<or>
                     unat (rh_length header) \<noteq> capacity \<or> rh_crc header \<noteq> crc then (False, lf_close lf f h)
             else (case file_crc lf h (unat (rh_length header)) 0xFFFFFFFF f of
                     (None, f) \<Rightarrow> (False, lf_close lf f h)
                   | (Some c, f) \<Rightarrow> (c = rh_crc header, lf_close lf f h))))"

definition fs_commit :: "'f littlefs \<Rightarrow> 'f fs_storage \<Rightarrow> bool \<times> 'f fs_storage" where
  "fs_commit lf s =
     (if \<not> if_initialized s then (False, s)
      else
        let nextGen = if_activeGeneration s + 1; name = inactive_file nextGen;
            staging = take (if_capacity s) (if_staging s); crc = nrf52_crc32 staging 0xFFFFFFFF;
            header = record_header kFsMagic nextGen (of_nat (if_capacity s)) crc
        in case write_record lf name header staging (if_fs s) of
             (False, f) \<Rightarrow> (False, s\<lparr>if_fs := f\<rparr>)
           | (True, f) \<Rightarrow>
               (case verify_record lf name (if_capacity s) nextGen crc f of
                  (False, f) \<Rightarrow> (False, s\<lparr>if_fs := f\<rparr>)
                | (True, f) \<Rightarrow> (True, s\<lparr>if_fs := f, if_activeGeneration := nextGen\<rparr>)))"

definition fs_erase :: "'f littlefs \<Rightarrow> 'f fs_storage \<Rightarrow> bool \<times> 'f fs_storage" where
  "fs_erase lf s =
     (let f = lf_remove lf (lf_remove lf (if_fs s) kFileA) kFileB in (True, fs_blank (s\<lparr>if_fs := f\<rparr>)))"

definition fs_vt :: "'f littlefs \<Rightarrow> 'f fs_storage storage_vt" where
  "fs_vt lf = \<lparr>st_capacity = if_capacity, st_read = fs_read, st_write = fs_write, st_commit = fs_commit lf, st_erase = fs_erase lf\<rparr>"

definition fs_inv :: "'f fs_storage \<Rightarrow> bool" where
  "fs_inv s \<longleftrightarrow> if_initialized s \<and> length (if_staging s) = if_capacity s"

interpretation fs_contract: storage_contract "fs_vt lf" fs_inv if_staging
  by unfold_locales
     (auto simp: fs_vt_def fs_read_def fs_write_def fs_commit_def fs_erase_def fs_blank_def fs_refuses_def
       fs_inv_def Let_def split: if_splits prod.splits bool.splits)

section \<open>The library\<close>

text \<open>\<open>files\<close> is the directory, \<open>handle f h\<close> the file, position and mode of an open handle.\<close>

locale file_directory =
  fixes lf :: "'f littlefs" and files :: "'f \<Rightarrow> string \<Rightarrow> u8 list option"
    and handle :: "'f \<Rightarrow> nat \<Rightarrow> (string \<times> nat \<times> bool) option"
  assumes begin_files: "lf_begin lf f = (ok, f') \<Longrightarrow> files f' = files f"
    and open_read: "files f name = Some bs \<Longrightarrow>
      \<exists>h f'. lf_open lf f name False = (Some h, f') \<and> files f' = files f \<and> handle f' h = Some (name, 0, False)"
    and open_missing: "files f name = None \<Longrightarrow> \<exists>f'. lf_open lf f name False = (None, f') \<and> files f' = files f"
    and read_bytes: "handle f h = Some (name, pos, False) \<Longrightarrow> files f name = Some bs \<Longrightarrow>
      \<exists>f'. lf_read lf f h n = (take n (drop pos bs), f') \<and> files f' = files f \<and>
        handle f' h = Some (name, pos + length (take n (drop pos bs)), False)"
    and write_bytes: "handle f h = Some (name, pos, True) \<Longrightarrow> files f name = Some old \<Longrightarrow>
      \<exists>k f'. k \<le> length bs \<and> lf_write lf f h bs = (k, f') \<and> files f' = (files f)(name \<mapsto> old @ take k bs) \<and>
        handle f' h = Some (name, pos + k, True)"
    and seek_handle: "handle f h = Some (name, pos, m) \<Longrightarrow> files f name = Some bs \<Longrightarrow> p \<le> length bs \<Longrightarrow>
      files (lf_seek lf f h p) = files f \<and> handle (lf_seek lf f h p) h = Some (name, p, m)"
    and close_files: "files (lf_close lf f h) = files f"
    and remove_file: "files (lf_remove lf f name) = (files f)(name := None)"

text \<open>Opening for writing either truncates, which the code assumes and the repository's fake does, or
  positions the handle at the end of what is there.\<close>

locale file_library = file_directory +
  assumes open_write: "lf_open lf f name True = (r, f') \<Longrightarrow>
      (case r of None \<Rightarrow> files f' = files f
       | Some h \<Rightarrow> files f' = (files f)(name \<mapsto> []) \<and> handle f' h = Some (name, 0, True))"

locale file_append = file_directory +
  assumes open_append: "lf_open lf f name True = (r, f') \<Longrightarrow>
      (let old = (case files f name of None \<Rightarrow> [] | Some bs \<Rightarrow> bs)
       in case r of None \<Rightarrow> files f' = files f
          | Some h \<Rightarrow> files f' = (files f)(name \<mapsto> old) \<and> handle f' h = Some (name, length old, True))"

text \<open>A library at fault: reading may fail to open or come up short, writing may stop early, a failed
  opening may have emptied the file, and closing a written file may have damaged its last byte, which
  is the damage the fake of the tests can do.\<close>

locale file_faults =
  fixes lf :: "'f littlefs" and files :: "'f \<Rightarrow> string \<Rightarrow> u8 list option"
    and handle :: "'f \<Rightarrow> nat \<Rightarrow> (string \<times> nat \<times> bool) option"
  assumes fault_open_write: "lf_open lf f name True = (r, f') \<Longrightarrow>
      (case r of None \<Rightarrow> files f' = files f \<or> files f' = (files f)(name \<mapsto> [])
       | Some h \<Rightarrow> files f' = (files f)(name \<mapsto> []) \<and> handle f' h = Some (name, 0, True))"
    and fault_open_read: "lf_open lf f name False = (r, f') \<Longrightarrow> files f' = files f \<and>
      (\<forall>h. r = Some h \<longrightarrow> files f name \<noteq> None \<and> handle f' h = Some (name, 0, False))"
    and fault_read: "handle f h = Some (name, pos, False) \<Longrightarrow> files f name = Some bs \<Longrightarrow>
      \<exists>k f'. lf_read lf f h n = (take k (take n (drop pos bs)), f') \<and> files f' = files f \<and>
        handle f' h = Some (name, pos + length (take k (take n (drop pos bs))), False)"
    and fault_write: "handle f h = Some (name, pos, True) \<Longrightarrow> files f name = Some old \<Longrightarrow>
      \<exists>k f'. k \<le> length bs \<and> lf_write lf f h bs = (k, f') \<and> files f' = (files f)(name \<mapsto> old @ take k bs) \<and>
        handle f' h = Some (name, pos + k, True)"
    and fault_close_read: "handle f h = Some (name, pos, False) \<Longrightarrow> files (lf_close lf f h) = files f"
    and fault_close_write: "handle f h = Some (name, pos, True) \<Longrightarrow> files f name = Some bs \<Longrightarrow>
      files (lf_close lf f h) = files f \<or> (\<exists>b. files (lf_close lf f h) = (files f)(name \<mapsto> butlast bs @ [b]) \<and> bs \<noteq> [])"

section \<open>The fake of the tests\<close>

text \<open>\<open>ff_corrupt\<close> is \<open>g_fake_fs_corrupt_after_write\<close>: the next file closed after writing has its last
  byte complemented.\<close>

record fake_fs =
  ff_files :: "string \<Rightarrow> u8 list option"
  ff_handles :: "nat \<Rightarrow> (string \<times> nat \<times> bool) option"
  ff_next :: nat
  ff_beginOk :: bool
  ff_writeFail :: bool
  ff_corrupt :: bool

definition fake_fs_open :: "fake_fs \<Rightarrow> string \<Rightarrow> bool \<Rightarrow> nat option \<times> fake_fs" where
  "fake_fs_open f name w =
     (let h = ff_next f; f' = f\<lparr>ff_handles := (ff_handles f)(h \<mapsto> (name, 0, w)), ff_next := h + 1\<rparr>
      in if w then (Some h, f'\<lparr>ff_files := (ff_files f)(name \<mapsto> [])\<rparr>)
         else if ff_files f name = None then (None, f) else (Some h, f'))"

definition fake_fs_read :: "fake_fs \<Rightarrow> nat \<Rightarrow> nat \<Rightarrow> u8 list \<times> fake_fs" where
  "fake_fs_read f h n =
     (case ff_handles f h of
        Some (name, pos, False) \<Rightarrow>
          (case ff_files f name of None \<Rightarrow> ([], f)
           | Some bs \<Rightarrow> let r = take n (drop pos bs)
                        in (r, f\<lparr>ff_handles := (ff_handles f)(h \<mapsto> (name, pos + length r, False))\<rparr>))
      | _ \<Rightarrow> ([], f))"

definition fake_fs_write :: "fake_fs \<Rightarrow> nat \<Rightarrow> u8 list \<Rightarrow> nat \<times> fake_fs" where
  "fake_fs_write f h bs =
     (case ff_handles f h of
        Some (name, pos, True) \<Rightarrow>
          (case ff_files f name of None \<Rightarrow> (0, f)
           | Some old \<Rightarrow>
               let k = (if ff_writeFail f then 0 else length bs)
               in (k, f\<lparr>ff_files := (ff_files f)(name \<mapsto> old @ take k bs),
                        ff_handles := (ff_handles f)(h \<mapsto> (name, pos + k, True))\<rparr>))
      | _ \<Rightarrow> (0, f))"

definition fake_fs_seek :: "fake_fs \<Rightarrow> nat \<Rightarrow> nat \<Rightarrow> fake_fs" where
  "fake_fs_seek f h p =
     (case ff_handles f h of None \<Rightarrow> f
      | Some (name, pos, m) \<Rightarrow>
          (case ff_files f name of None \<Rightarrow> f
           | Some bs \<Rightarrow> if p \<le> length bs then f\<lparr>ff_handles := (ff_handles f)(h \<mapsto> (name, p, m))\<rparr> else f))"

definition fake_fs_close :: "fake_fs \<Rightarrow> nat \<Rightarrow> fake_fs" where
  "fake_fs_close f h =
     (let f' = f\<lparr>ff_handles := (ff_handles f)(h := None)\<rparr> in
      case ff_handles f h of
        Some (name, pos, True) \<Rightarrow>
          (case ff_files f name of
             Some bs \<Rightarrow> if ff_corrupt f \<and> bs \<noteq> []
               then f'\<lparr>ff_files := (ff_files f)(name \<mapsto> butlast bs @ [last bs XOR 0xFF]), ff_corrupt := False\<rparr> else f'
           | None \<Rightarrow> f')
      | _ \<Rightarrow> f')"

definition fake_littlefs :: "fake_fs littlefs" where
  "fake_littlefs = \<lparr>lf_begin = (\<lambda>f. (ff_beginOk f, f)), lf_open = fake_fs_open, lf_read = fake_fs_read,
     lf_write = fake_fs_write, lf_seek = fake_fs_seek, lf_close = fake_fs_close,
     lf_remove = (\<lambda>f name. f\<lparr>ff_files := (ff_files f)(name := None)\<rparr>)\<rparr>"

interpretation fake_lf: file_faults fake_littlefs ff_files ff_handles
proof
  fix f :: fake_fs and h name pos n and bs :: "u8 list"
  assume "ff_handles f h = Some (name, pos, False)" "ff_files f name = Some bs"
  then show "\<exists>k f'. lf_read fake_littlefs f h n = (take k (take n (drop pos bs)), f') \<and> ff_files f' = ff_files f \<and>
      ff_handles f' h = Some (name, pos + length (take k (take n (drop pos bs))), False)"
    by (intro exI [of _ n]) (simp add: fake_littlefs_def fake_fs_read_def Let_def)
qed (auto simp: fake_littlefs_def fake_fs_open_def fake_fs_write_def fake_fs_close_def Let_def split: if_splits)

text \<open>The fake while nothing is to be damaged.\<close>

definition calm_littlefs :: "fake_fs littlefs" where
  "calm_littlefs = fake_littlefs\<lparr>lf_close := (\<lambda>f h. f\<lparr>ff_handles := (ff_handles f)(h := None)\<rparr>)\<rparr>"

interpretation calm_lf: file_library calm_littlefs ff_files ff_handles
  by unfold_locales
     (auto simp: calm_littlefs_def fake_littlefs_def fake_fs_open_def fake_fs_read_def fake_fs_write_def fake_fs_seek_def Let_def
       split: if_splits)

text \<open>The same fake, opening for writing at the end.\<close>

definition append_fs_open :: "fake_fs \<Rightarrow> string \<Rightarrow> bool \<Rightarrow> nat option \<times> fake_fs" where
  "append_fs_open f name w =
     (if w
      then let h = ff_next f; old = (case ff_files f name of None \<Rightarrow> [] | Some bs \<Rightarrow> bs)
           in (Some h, f\<lparr>ff_files := (ff_files f)(name \<mapsto> old),
                 ff_handles := (ff_handles f)(h \<mapsto> (name, length old, True)), ff_next := h + 1\<rparr>)
      else fake_fs_open f name False)"

definition append_littlefs :: "fake_fs littlefs" where
  "append_littlefs = calm_littlefs\<lparr>lf_open := append_fs_open\<rparr>"

interpretation append_lf: file_append append_littlefs ff_files ff_handles
  by unfold_locales
     (auto simp: append_littlefs_def append_fs_open_def calm_littlefs_def fake_littlefs_def fake_fs_open_def fake_fs_read_def
       fake_fs_write_def fake_fs_seek_def Let_def split: if_splits option.splits)

end
