(* ===== verification/Fs_Facts.thy ===== *)
theory Fs_Facts
  imports Fs_Store
begin

text \<open>
  Facts about the file store of the nRF52 (theory \<open>Fs_Store\<close>).  Over a file library that truncates a
  file opened for writing, \<open>begin\<close> reads back the newest valid record, a commit is all or nothing and
  the generation's parity keeps it off the file in use (\<open>fs_commit_atomic\<close>), and \<open>erase\<close> is
  visible at once.  Over a library that may fail anywhere, the reading back included, a restart finds
  the new content exactly when the whole record arrived (\<open>faulty_commit\<close>).  Over a library that opens for writing at the end of the file, the third commit
  and every later one fails (\<open>fs_commit_appended\<close>).
\<close>

section \<open>Records\<close>

text \<open>The generation of a valid record.\<close>

definition record_gen :: "nat \<Rightarrow> u8 list \<Rightarrow> u32 option" where
  "record_gen capacity bs =
     (let h = take kRecordHeader bs in
      if kRecordHeader + capacity \<le> length bs \<and> rh_magic h = kFsMagic \<and> unat (rh_length h) = capacity \<and>
         nrf52_crc32 (take capacity (drop kRecordHeader bs)) 0xFFFFFFFF = rh_crc h
      then Some (rh_generation h) else None)"

definition file_gen :: "(string \<Rightarrow> u8 list option) \<Rightarrow> nat \<Rightarrow> string \<Rightarrow> u32 option" where
  "file_gen fs capacity name = (case fs name of None \<Rightarrow> None | Some bs \<Rightarrow> record_gen capacity bs)"

definition chosen :: "(string \<Rightarrow> u8 list option) \<Rightarrow> nat \<Rightarrow> (string \<times> u32) option" where
  "chosen fs capacity = choose_file (file_gen fs capacity kFileA) (file_gen fs capacity kFileB)"

text \<open>What a restart puts into the staging buffer.\<close>

definition restart_content :: "(string \<Rightarrow> u8 list option) \<Rightarrow> nat \<Rightarrow> u8 list" where
  "restart_content fs capacity =
     (case chosen fs capacity of None \<Rightarrow> replicate capacity 0
      | Some (name, gen) \<Rightarrow> (case fs name of None \<Rightarrow> [] | Some bs \<Rightarrow> take capacity (drop kRecordHeader bs)))"

lemma length_record_header [simp]: "length (record_header m g n c) = kRecordHeader"
  by (simp add: record_header_def kRecordHeader_def)

lemma record_header_fields [enc]:
  "rh_magic (record_header m g n c) = m" "rh_generation (record_header m g n c) = g"
  "rh_length (record_header m g n c) = n" "rh_crc (record_header m g n c) = c"
  by (simp_all add: rh_magic_def rh_generation_def rh_length_def rh_crc_def record_header_def enc)

lemma record_gen_written:
  assumes "length staging = capacity" "capacity < 4294967296"
  shows "record_gen capacity (record_header kFsMagic g (of_nat capacity) (nrf52_crc32 staging 0xFFFFFFFF) @ staging) = Some g"
  using assms by (simp add: record_gen_def Let_def enc unat_of_nat)

lemma record_gen_short: "length bs < kRecordHeader + capacity \<Longrightarrow> record_gen capacity bs = None"
  by (simp add: record_gen_def)

lemma nrf52_crc32_append: "nrf52_crc32 (xs @ ys) crc = nrf52_crc32 ys (nrf52_crc32 xs crc)"
  by (simp add: nrf52_crc32_def)

lemma files_differ: "kFileA \<noteq> kFileB" by (simp add: kFileA_def kFileB_def)

text \<open>The parity of the generation tells the two files apart.\<close>

definition gen_parity :: "(string \<Rightarrow> u8 list option) \<Rightarrow> nat \<Rightarrow> bool" where
  "gen_parity fs capacity \<longleftrightarrow> (\<forall>g. file_gen fs capacity kFileA = Some g \<longrightarrow> odd g) \<and>
     (\<forall>g. file_gen fs capacity kFileB = Some g \<longrightarrow> even g)"

definition chosen_gen :: "(string \<Rightarrow> u8 list option) \<Rightarrow> nat \<Rightarrow> u32" where
  "chosen_gen fs capacity = (case chosen fs capacity of None \<Rightarrow> 0 | Some (name, gen) \<Rightarrow> gen)"

text \<open>The state of a started storage against the directory: the generation in use is the one a restart chooses.\<close>

definition fs_synced :: "(string \<Rightarrow> u8 list option) \<Rightarrow> 'f fs_storage \<Rightarrow> bool" where
  "fs_synced fs s \<longleftrightarrow> fs_inv s \<and> if_capacity s < 4294967296 \<and> gen_parity fs (if_capacity s) \<and>
     if_activeGeneration s = chosen_gen fs (if_capacity s)"

lemma inactive_file_cases: "inactive_file g = (if odd g then kFileA else kFileB)"
  by (simp add: inactive_file_def odd_iff_mod_2_eq_one)

lemma newer_succ: "newer (g + 1) g" "\<not> newer g (g + 1)"
  by (simp_all add: newer_def)

lemma file_gen_other: "name \<noteq> name' \<Longrightarrow> file_gen (fs(name \<mapsto> bs)) capacity name' = file_gen fs capacity name'"
  by (simp add: file_gen_def)

lemma file_gen_same: "file_gen (fs(name \<mapsto> bs)) capacity name = record_gen capacity bs"
  by (simp add: file_gen_def)

text \<open>The inactive file, once written, is chosen; damaged, it is not, and the other one stays.\<close>

lemma chosen_update:
  assumes par: "gen_parity fs capacity" and bs: "record_gen capacity bs = Some (chosen_gen fs capacity + 1)"
  shows "chosen (fs(inactive_file (chosen_gen fs capacity + 1) \<mapsto> bs)) capacity =
      Some (inactive_file (chosen_gen fs capacity + 1), chosen_gen fs capacity + 1)"
    "gen_parity (fs(inactive_file (chosen_gen fs capacity + 1) \<mapsto> bs)) capacity"
proof -
  note files_differ [simp] files_differ [symmetric, simp]
  show "chosen (fs(inactive_file (chosen_gen fs capacity + 1) \<mapsto> bs)) capacity =
      Some (inactive_file (chosen_gen fs capacity + 1), chosen_gen fs capacity + 1)"
    using par bs newer_succ
    by (auto simp: chosen_def chosen_gen_def choose_file_def gen_parity_def inactive_file_cases file_gen_other
      file_gen_same split: option.splits if_splits)
  show "gen_parity (fs(inactive_file (chosen_gen fs capacity + 1) \<mapsto> bs)) capacity"
    using par bs by (auto simp: gen_parity_def inactive_file_cases file_gen_other file_gen_same split: if_splits)
qed

lemma chosen_damaged:
  assumes par: "gen_parity fs capacity" and bs: "record_gen capacity bs = None"
  shows "chosen (fs(inactive_file (chosen_gen fs capacity + 1) \<mapsto> bs)) capacity = chosen fs capacity"
    "gen_parity (fs(inactive_file (chosen_gen fs capacity + 1) \<mapsto> bs)) capacity"
proof -
  note files_differ [simp] files_differ [symmetric, simp]
  show "chosen (fs(inactive_file (chosen_gen fs capacity + 1) \<mapsto> bs)) capacity = chosen fs capacity"
    using par bs
    by (auto simp: chosen_def chosen_gen_def choose_file_def gen_parity_def inactive_file_cases file_gen_other
      file_gen_same split: option.splits if_splits)
  show "gen_parity (fs(inactive_file (chosen_gen fs capacity + 1) \<mapsto> bs)) capacity"
    using par bs by (auto simp: gen_parity_def inactive_file_cases file_gen_other file_gen_same split: if_splits)
qed

lemma chosen_not_inactive:
  assumes "gen_parity fs capacity" "chosen fs capacity = Some (name, gen)"
  shows "name \<noteq> inactive_file (chosen_gen fs capacity + 1)"
  using assms files_differ
  by (auto simp: chosen_def chosen_gen_def choose_file_def gen_parity_def inactive_file_cases split: option.splits if_splits)

lemma restart_content_damaged:
  assumes "gen_parity fs capacity" and "record_gen capacity bs = None"
  shows "restart_content (fs(inactive_file (chosen_gen fs capacity + 1) \<mapsto> bs)) capacity = restart_content fs capacity"
  using chosen_damaged [OF assms] chosen_not_inactive [OF assms(1)]
  by (auto simp: restart_content_def split: option.splits)

context file_library
begin

lemma file_crc_eq:
  assumes "handle f h = Some (name, pos, False)" and "files f name = Some bs"
  shows "\<exists>f'. file_crc lf h n crc f =
      (if n = 0 \<or> pos + n \<le> length bs then Some (nrf52_crc32 (take n (drop pos bs)) crc) else None, f') \<and> files f' = files f"
  using assms(1,2)
proof (induction n arbitrary: pos crc f rule: less_induct)
  case (less n)
  show ?case
  proof (cases "n = 0")
    case True
    then show ?thesis by (intro exI [of _ f]) (subst file_crc.simps, simp add: nrf52_crc32_def)
  next
    case False
    define k where "k = (if n > 256 then 256 else n)"
    have k: "0 < k" "k \<le> n" using False by (auto simp: k_def)
    obtain f1 where f1: "lf_read lf f h k = (take k (drop pos bs), f1)" "files f1 = files f"
      "handle f1 h = Some (name, pos + length (take k (drop pos bs)), False)"
      using read_bytes [OF less.prems, of k] by blast
    have unf: "file_crc lf h n crc f = (if length (take k (drop pos bs)) \<noteq> k then (None, f1)
        else file_crc lf h (n - k) (nrf52_crc32 (take k (drop pos bs)) crc) f1)"
      using False f1(1) by (subst file_crc.simps) (simp add: k_def Let_def)
    show ?thesis
    proof (cases "pos + k \<le> length bs")
      case True
      then have len: "length (take k (drop pos bs)) = k" by simp
      have hd: "handle f1 h = Some (name, pos + k, False)" using f1(3) len by simp
      have fl: "files f1 name = Some bs" using f1(2) less.prems(2) by simp
      obtain f2 where f2: "file_crc lf h (n - k) (nrf52_crc32 (take k (drop pos bs)) crc) f1 =
          (if n - k = 0 \<or> pos + k + (n - k) \<le> length bs
           then Some (nrf52_crc32 (take (n - k) (drop (pos + k) bs)) (nrf52_crc32 (take k (drop pos bs)) crc)) else None, f2)"
        "files f2 = files f1" using less.IH [OF _ hd fl, of "n - k"] k by auto
      have "take n (drop pos bs) = take k (drop pos bs) @ take (n - k) (drop (pos + k) bs)"
        using k take_add [of k "n - k" "drop pos bs"] by (simp add: add.commute)
      moreover have "(n - k = 0 \<or> pos + k + (n - k) \<le> length bs) \<longleftrightarrow> (n = 0 \<or> pos + n \<le> length bs)"
        using k True by auto
      ultimately show ?thesis using unf len f2 f1(2) by (simp add: nrf52_crc32_append)
    next
      case shrt: False
      then have "length (take k (drop pos bs)) \<noteq> k" using k by auto
      moreover have "\<not> (n = 0 \<or> pos + n \<le> length bs)" using shrt k False by auto
      ultimately show ?thesis using unf f1(2) by auto
    qed
  qed
qed

lemma probe_file_eq: "\<exists>f'. probe_file lf capacity name f = (file_gen (files f) capacity name, f') \<and> files f' = files f"
proof (cases "files f name")
  case None
  with open_missing [OF None] show ?thesis by (auto simp: probe_file_def file_gen_def)
next
  case (Some bs)
  obtain h f1 where f1: "lf_open lf f name False = (Some h, f1)" "files f1 = files f" "handle f1 h = Some (name, 0, False)"
    using open_read [OF Some] by blast
  have fl1: "files f1 name = Some bs" using f1(2) Some by simp
  obtain f2 where f2: "lf_read lf f1 h kRecordHeader = (take kRecordHeader (drop 0 bs), f2)" "files f2 = files f1"
    "handle f2 h = Some (name, 0 + length (take kRecordHeader (drop 0 bs)), False)" using read_bytes [OF f1(3) fl1] by blast
  let ?h = "take kRecordHeader bs"
  show ?thesis
  proof (cases "length ?h = kRecordHeader \<and> rh_magic ?h = kFsMagic \<and> unat (rh_length ?h) = capacity")
    case True
    have "handle f2 h = Some (name, kRecordHeader, False)" using f2(3) True by simp
    moreover have "files f2 name = Some bs" using f2(2) fl1 by simp
    ultimately obtain f3 where f3: "file_crc lf h (unat (rh_length ?h)) 0xFFFFFFFF f2 =
        (if unat (rh_length ?h) = 0 \<or> kRecordHeader + unat (rh_length ?h) \<le> length bs
         then Some (nrf52_crc32 (take (unat (rh_length ?h)) (drop kRecordHeader bs)) 0xFFFFFFFF) else None, f3)"
      "files f3 = files f2" using file_crc_eq by blast
    have l: "kRecordHeader \<le> length bs" using conjunct1 [OF True] by (auto simp: min_def split: if_splits)
    define crc where "crc = nrf52_crc32 (take capacity (drop kRecordHeader bs)) 0xFFFFFFFF"
    have "probe_file lf capacity name f =
        (if capacity = 0 \<or> kRecordHeader + capacity \<le> length bs
         then if crc = rh_crc ?h then Some (rh_generation ?h) else None else None, lf_close lf f3 h)"
      using f1(1) f2(1) f3(1) True by (simp add: probe_file_def crc_def)
    moreover have "file_gen (files f) capacity name =
        (if kRecordHeader + capacity \<le> length bs \<and> crc = rh_crc ?h then Some (rh_generation ?h) else None)"
      using True Some by (simp add: file_gen_def record_gen_def Let_def crc_def)
    ultimately show ?thesis using l f1(2) f2(2) f3(2) close_files by auto
  next
    case False
    then have "record_gen capacity bs = None" by (auto simp: record_gen_def Let_def min_def split: if_splits)
    then have g: "file_gen (files f) capacity name = None" using Some by (simp add: file_gen_def)
    have "probe_file lf capacity name f = (None, lf_close lf f2 h)"
      using f1(1) f2(1) False by (auto simp: probe_file_def)
    then show ?thesis using g f1(2) f2(2) close_files by simp
  qed
qed

lemma chosen_file:
  assumes "chosen fs capacity = Some (name, gen)"
  shows "\<exists>bs. fs name = Some bs \<and> record_gen capacity bs = Some gen \<and> kRecordHeader + capacity \<le> length bs \<and>
    (name = kFileA \<or> name = kFileB)"
proof -
  have "file_gen fs capacity name = Some gen \<and> (name = kFileA \<or> name = kFileB)"
    using assms by (auto simp: chosen_def choose_file_def split: option.splits if_splits)
  then obtain bs where "fs name = Some bs" "record_gen capacity bs = Some gen" "name = kFileA \<or> name = kFileB"
    by (auto simp: file_gen_def split: option.splits)
  then show ?thesis using record_gen_short [of bs capacity] not_less by fastforce
qed

text \<open>A start that finds the file system leaves the storage initialised with the chosen record.\<close>

lemma fs_begin_eq:
  assumes "lf_begin lf (if_fs s) = (True, f0)"
  shows "\<exists>s'. fs_begin lf s = (True, s') \<and> if_staging s' = restart_content (files (if_fs s)) (if_capacity s) \<and>
    if_activeGeneration s' = (case chosen (files (if_fs s)) (if_capacity s) of None \<Rightarrow> 0 | Some (name, gen) \<Rightarrow> gen) \<and>
    if_capacity s' = if_capacity s \<and> fs_inv s' \<and> files (if_fs s') = files (if_fs s)"
proof -
  let ?cap = "if_capacity s"
  obtain f1 where f1: "probe_file lf ?cap kFileA f0 = (file_gen (files f0) ?cap kFileA, f1)" "files f1 = files f0"
    using probe_file_eq by blast
  obtain f2 where f2: "probe_file lf ?cap kFileB f1 = (file_gen (files f1) ?cap kFileB, f2)" "files f2 = files f1"
    using probe_file_eq by blast
  have fl: "files f2 = files (if_fs s)" "files f0 = files (if_fs s)" using f1(2) f2(2) begin_files [OF assms] by simp_all
  have ch: "choose_file (file_gen (files f0) ?cap kFileA) (file_gen (files f1) ?cap kFileB) = chosen (files (if_fs s)) ?cap"
    using f1(2) fl(2) by (simp add: chosen_def)
  show ?thesis
  proof (cases "chosen (files (if_fs s)) ?cap")
    case None
    then show ?thesis using assms f1(1) f2(1) ch fl
      by (simp add: fs_begin_def fs_blank_def restart_content_def fs_inv_def)
  next
    case (Some ng)
    obtain name gen where ng: "ng = (name, gen)" by fastforce
    obtain bs where bs: "files (if_fs s) name = Some bs" "kRecordHeader + ?cap \<le> length bs"
      using chosen_file Some ng by blast
    have "files f2 name = Some bs" using bs(1) fl by simp
    then obtain h f3 where f3: "lf_open lf f2 name False = (Some h, f3)" "files f3 = files f2" "handle f3 h = Some (name, 0, False)"
      using open_read by blast
    have fl3: "files f3 name = Some bs" using f3(2) fl bs(1) by simp
    have sk: "files (lf_seek lf f3 h kRecordHeader) = files f3"
      "handle (lf_seek lf f3 h kRecordHeader) h = Some (name, kRecordHeader, False)"
      using seek_handle [OF f3(3) fl3, of kRecordHeader] bs(2) by simp_all
    obtain f4 where f4: "lf_read lf (lf_seek lf f3 h kRecordHeader) h ?cap = (take ?cap (drop kRecordHeader bs), f4)"
      "files f4 = files (lf_seek lf f3 h kRecordHeader)"
      using read_bytes [OF sk(2), of bs ?cap] sk(1) fl3 by auto
    have len: "length (take ?cap (drop kRecordHeader bs)) = ?cap" using bs(2) by simp
    have "fs_begin lf s = (True, s\<lparr>if_activeGeneration := gen, if_staging := take ?cap (drop kRecordHeader bs),
        if_initialized := True, if_fs := lf_close lf f4 h\<rparr>)"
      using assms f1(1) f2(1) ch Some ng f3(1) f4(1) len by (simp add: fs_begin_def Let_def)
    then show ?thesis using Some ng bs len f4(2) sk(1) f3(2) fl close_files
      by (simp add: restart_content_def fs_inv_def)
  qed
qed

text \<open>Writing the record: complete, or a proper prefix, or nothing at all.\<close>

lemma write_record_cases:
  assumes w: "write_record lf name header staging f = (ok, f')" and len: "length header = kRecordHeader"
  shows "ok \<and> files f' = (files f)(name \<mapsto> header @ staging) \<or>
    \<not> ok \<and> (files f' = files f \<or> (\<exists>m < kRecordHeader + length staging. files f' = (files f)(name \<mapsto> take m (header @ staging))))"
proof -
  obtain r f1 where o: "lf_open lf f name True = (r, f1)" by fastforce
  show ?thesis
  proof (cases r)
    case None
    with o w open_write [OF o] show ?thesis by (auto simp: write_record_def)
  next
    case (Some h)
    have f1: "files f1 = (files f)(name \<mapsto> [])" "handle f1 h = Some (name, 0, True)" using open_write [OF o] Some by simp_all
    then have fl1: "files f1 name = Some []" by simp
    obtain k1 f2 where f2: "k1 \<le> length header" "lf_write lf f1 h header = (k1, f2)"
      "files f2 = (files f1)(name \<mapsto> [] @ take k1 header)" "handle f2 h = Some (name, 0 + k1, True)"
      using write_bytes [OF f1(2) fl1] by blast
    show ?thesis
    proof (cases "k1 = kRecordHeader")
      case False
      then have k: "k1 < kRecordHeader" using f2(1) len by simp
      have "files f' = (files f)(name \<mapsto> take k1 (header @ staging))" "\<not> ok"
        using w o Some f2 False k f1(1) close_files len by (auto simp: write_record_def)
      then show ?thesis using k by (intro disjI2 conjI exI [of _ k1]) auto
    next
      case True
      then have fl2: "files f2 name = Some header" using f2(3) len by simp
      obtain k2 f3 where f3: "k2 \<le> length staging" "lf_write lf f2 h staging = (k2, f3)"
        "files f3 = (files f2)(name \<mapsto> header @ take k2 staging)"
        using write_bytes [OF f2(4) fl2, of staging] by blast
      have fl: "files (lf_close lf f3 h) = (files f)(name \<mapsto> header @ take k2 staging)"
        using f3(3) f2(3) f1(1) close_files by simp
      show ?thesis
      proof (cases "k2 = length staging")
        case True
        with w o Some f2(2) f3(2) \<open>k1 = kRecordHeader\<close> fl show ?thesis by (auto simp: write_record_def)
      next
        case False
        then have k: "k2 < length staging" using f3(1) by simp
        have "files f' = (files f)(name \<mapsto> take (kRecordHeader + k2) (header @ staging))" "\<not> ok"
          using w o Some f2(2) f3(2) \<open>k1 = kRecordHeader\<close> fl False len by (auto simp: write_record_def)
        then show ?thesis using k by (intro disjI2 conjI exI [of _ "kRecordHeader + k2"]) auto
      qed
    qed
  qed
qed

text \<open>Reading back a complete record succeeds.\<close>

lemma verify_record_ok:
  assumes fl: "files f name = Some (record_header kFsMagic g (of_nat cap) (nrf52_crc32 staging 0xFFFFFFFF) @ staging)"
    and len: "length staging = cap" "cap < 4294967296"
  shows "\<exists>f'. verify_record lf name cap g (nrf52_crc32 staging 0xFFFFFFFF) f = (True, f') \<and> files f' = files f"
proof -
  let ?h = "record_header kFsMagic g (of_nat cap) (nrf52_crc32 staging 0xFFFFFFFF)"
  obtain h f1 where f1: "lf_open lf f name False = (Some h, f1)" "files f1 = files f" "handle f1 h = Some (name, 0, False)"
    using open_read [OF fl] by blast
  obtain f2 where f2: "lf_read lf f1 h kRecordHeader = (?h, f2)" "files f2 = files f1" "handle f2 h = Some (name, kRecordHeader, False)"
    using read_bytes [OF f1(3), of "?h @ staging" kRecordHeader] f1(2) fl by auto
  obtain f3 where f3: "file_crc lf h cap 0xFFFFFFFF f2 = (Some (nrf52_crc32 staging 0xFFFFFFFF), f3)" "files f3 = files f2"
    using file_crc_eq [OF f2(3), of "?h @ staging" cap "0xFFFFFFFF"] f2(2) f1(2) fl len by auto
  have "unat (of_nat cap :: u32) = cap" using len(2) by (simp add: unat_of_nat)
  then show ?thesis using f1 f2 f3 close_files by (simp add: verify_record_def enc)
qed

text \<open>A commit: the new content, or the old one, and nothing else is visible after a restart.\<close>

lemma fs_commit_atomic:
  assumes syn: "fs_synced (files (if_fs s)) s" and c: "fs_commit lf s = (ok, s')"
  shows "restart_content (files (if_fs s')) (if_capacity s) =
      (if ok then if_staging s else restart_content (files (if_fs s)) (if_capacity s)) \<and>
    fs_synced (files (if_fs s')) s' \<and> if_staging s' = if_staging s \<and> if_capacity s' = if_capacity s"
proof -
  let ?fs = "files (if_fs s)" and ?cap = "if_capacity s"
  let ?next = "if_activeGeneration s + 1" and ?crc = "nrf52_crc32 (if_staging s) 0xFFFFFFFF"
  let ?name = "inactive_file ?next"
  let ?h = "record_header kFsMagic ?next (of_nat ?cap) ?crc"
  have inv: "if_initialized s" "length (if_staging s) = ?cap" and cap: "?cap < 4294967296" and par: "gen_parity ?fs ?cap"
    and act: "if_activeGeneration s = chosen_gen ?fs ?cap"
    using syn by (simp_all add: fs_synced_def fs_inv_def)
  obtain ok1 f1 where w: "write_record lf ?name ?h (if_staging s) (if_fs s) = (ok1, f1)" by fastforce
  from write_record_cases [OF w] consider
      (full) "ok1" "files f1 = ?fs(?name \<mapsto> ?h @ if_staging s)"
    | (same) "\<not> ok1" "files f1 = ?fs"
    | (cut) m where "\<not> ok1" "m < kRecordHeader + ?cap" "files f1 = ?fs(?name \<mapsto> take m (?h @ if_staging s))"
    using inv(2) by auto
  then show ?thesis
  proof cases
    case full
    have fl: "files f1 ?name = Some (?h @ if_staging s)" using full(2) by simp
    obtain f2 where v: "verify_record lf ?name ?cap ?next ?crc f1 = (True, f2)" "files f2 = files f1"
      using verify_record_ok [OF fl inv(2) cap] by blast
    have rg: "record_gen ?cap (?h @ if_staging s) = Some ?next" by (rule record_gen_written [OF inv(2) cap])
    have ok: "ok" "s' = s\<lparr>if_fs := f2, if_activeGeneration := ?next\<rparr>"
      using c w v(1) full(1) inv by (simp_all add: fs_commit_def Let_def)
    have "record_gen ?cap (?h @ if_staging s) = Some (chosen_gen ?fs ?cap + 1)" by (subst act [symmetric]) (rule rg)
    note up = chosen_update [OF par this]
    have f2: "files f2 = ?fs(inactive_file (chosen_gen ?fs ?cap + 1) \<mapsto> ?h @ if_staging s)"
      using v(2) full(2) act by simp
    have "restart_content (files f2) ?cap = if_staging s"
      unfolding restart_content_def f2 up(1) using inv(2) by simp
    moreover have "chosen_gen (files f2) ?cap = chosen_gen ?fs ?cap + 1" unfolding f2 chosen_gen_def [of "_(_ \<mapsto> _)"] up(1) by simp
    moreover have "gen_parity (files f2) ?cap" unfolding f2 by (rule up(2))
    ultimately show ?thesis using ok act inv cap by (simp add: fs_synced_def fs_inv_def)
  next
    case same
    have "\<not> ok" "s' = s\<lparr>if_fs := f1\<rparr>" using c w same(1) inv by (auto simp: fs_commit_def Let_def)
    then show ?thesis using same(2) syn by (simp add: fs_synced_def fs_inv_def)
  next
    case cut
    have rg: "record_gen ?cap (take m (?h @ if_staging s)) = None" by (rule record_gen_short) (use cut(2) in simp)
    have f1: "files f1 = ?fs(inactive_file (chosen_gen ?fs ?cap + 1) \<mapsto> take m (?h @ if_staging s))"
      using cut(3) act by simp
    have s': "\<not> ok" "s' = s\<lparr>if_fs := f1\<rparr>" using c w cut(1) inv by (auto simp: fs_commit_def Let_def)
    have "restart_content (files f1) ?cap = restart_content ?fs ?cap"
      unfolding f1 by (rule restart_content_damaged [OF par rg])
    moreover have "chosen_gen (files f1) ?cap = chosen_gen ?fs ?cap" "gen_parity (files f1) ?cap"
      unfolding f1 using chosen_damaged [OF par rg] by (simp_all add: chosen_gen_def)
    ultimately show ?thesis using s' syn by (simp add: fs_synced_def fs_inv_def)
  qed
qed

text \<open>A start and an erase leave the storage in step with its files.\<close>

lemma fs_begin_synced:
  assumes "lf_begin lf (if_fs s) = (True, f0)" and "if_capacity s < 4294967296" and "gen_parity (files (if_fs s)) (if_capacity s)"
  shows "\<exists>s'. fs_begin lf s = (True, s') \<and> if_staging s' = restart_content (files (if_fs s)) (if_capacity s) \<and>
    fs_synced (files (if_fs s')) s' \<and> files (if_fs s') = files (if_fs s) \<and> if_capacity s' = if_capacity s"
  using fs_begin_eq [OF assms(1)] assms(2,3) by (auto simp: fs_synced_def chosen_gen_def)

lemma fs_erase_at_once:
  assumes "if_capacity s < 4294967296" and "fs_erase lf s = (ok, s')"
  shows "ok" "restart_content (files (if_fs s')) (if_capacity s) = replicate (if_capacity s) 0"
    "if_staging s' = replicate (if_capacity s) 0" "fs_synced (files (if_fs s')) s'"
proof -
  have no: "file_gen (files (if_fs s')) n kFileA = None" "file_gen (files (if_fs s')) n kFileB = None" for n
    using assms(2) by (auto simp: fs_erase_def fs_blank_def remove_file file_gen_def)
  have ch: "chosen (files (if_fs s')) n = None" for n by (simp add: chosen_def choose_file_def no)
  show "ok" using assms(2) by (simp add: fs_erase_def)
  show "restart_content (files (if_fs s')) (if_capacity s) = replicate (if_capacity s) 0"
    by (simp add: restart_content_def ch)
  show "if_staging s' = replicate (if_capacity s) 0" using assms(2) by (auto simp: fs_erase_def fs_blank_def)
  have "if_capacity s' = if_capacity s" "if_activeGeneration s' = 0" "fs_inv s'"
    using assms(2) by (auto simp: fs_erase_def fs_blank_def fs_inv_def)
  then show "fs_synced (files (if_fs s')) s'"
    using assms(1) by (simp add: fs_synced_def gen_parity_def no chosen_gen_def ch)
qed

end

section \<open>A library at fault\<close>

text \<open>The last byte of a record is guarded: with another one it is no record.\<close>

lemma record_gen_damaged:
  assumes len: "length staging = capacity" "capacity < 4294967296" and h: "length h = kRecordHeader"
    and e: "h = record_header kFsMagic g (of_nat capacity) (nrf52_crc32 staging 0xFFFFFFFF)" and b: "b \<noteq> last (h @ staging)"
  shows "record_gen capacity (butlast (h @ staging) @ [b]) = None"
proof (cases "staging = []")
  case False
  define pre where "pre = butlast staging"
  have s: "staging = pre @ [last staging]" using False by (simp add: pre_def)
  have d: "butlast (h @ staging) @ [b] = h @ pre @ [b]" using False by (simp add: pre_def butlast_append)
  have ne: "b \<noteq> last staging" using b False by simp
  have n: "length (pre @ [b]) = capacity" using len(1) s by (metis length_append_singleton)
  have "nrf52_crc32 (pre @ [b]) 0xFFFFFFFF \<noteq> nrf52_crc32 (pre @ [last staging]) 0xFFFFFFFF"
    using crc32_bytes_burst [of "[b]" "[last staging]" "0xFFFFFFFF" pre "[]"] ne by (auto simp: nrf52_crc32_eq)
  then have "nrf52_crc32 (pre @ [b]) 0xFFFFFFFF \<noteq> nrf52_crc32 staging 0xFFFFFFFF" using s by simp
  then show ?thesis unfolding d using n h e by (simp add: record_gen_def Let_def enc)
next
  case True
  define c where "c = nrf52_crc32 staging 0xFFFFFFFF"
  obtain c0 c1 c2 c3 where c: "le32 c = [c0, c1, c2, c3]" by (rule length_4_cases [of "le32 c"]) simp_all
  let ?m = "le32 kFsMagic @ le32 g @ le32 (of_nat capacity)"
  have hh: "h = ?m @ [c0, c1, c2, c3]" using e c by (simp add: record_header_def c_def)
  have "length ?m = 12" by simp
  then have "rh_crc (?m @ [c0, c1, c2, b]) = of_le32 [c0, c1, c2, b]" by (simp add: rh_crc_def)
  moreover have "of_le32 [c0, c1, c2, b] \<noteq> c"
  proof
    assume "of_le32 [c0, c1, c2, b] = c"
    then have "le32 (of_le32 [c0, c1, c2, b]) = [c0, c1, c2, c3]" using c by simp
    then show False using b True hh by (simp add: enc)
  qed
  moreover have "butlast (h @ staging) @ [b] = ?m @ [c0, c1, c2, b]" using True hh by (simp add: butlast_append)
  moreover have "length (?m @ [c0, c1, c2, b]) = kRecordHeader" by (simp add: kRecordHeader_def)
  ultimately show ?thesis using True len(1) by (simp add: record_gen_def Let_def c_def)
qed

context file_faults
begin

lemma faulty_crc:
  assumes "handle f h = Some (name, pos, False)" and "files f name = Some bs" and "file_crc lf h n crc f = (r, f')"
  shows "files f' = files f \<and> (\<exists>pos'. handle f' h = Some (name, pos', False)) \<and>
    (\<forall>c. r = Some c \<longrightarrow> (n = 0 \<or> pos + n \<le> length bs) \<and> c = nrf52_crc32 (take n (drop pos bs)) crc)"
  using assms
proof (induction n arbitrary: pos crc f rule: less_induct)
  case (less n)
  show ?case
  proof (cases "n = 0")
    case True
    then have "r = Some crc" "f' = f" using less.prems(3) file_crc.simps [of lf h n crc f] by simp_all
    then show ?thesis using True less.prems by (simp add: nrf52_crc32_def)
  next
    case False
    define k where "k = (if n > 256 then 256 else n)"
    have k: "0 < k" "k \<le> n" using False by (auto simp: k_def)
    obtain j f1 where f1: "lf_read lf f h k = (take j (take k (drop pos bs)), f1)" "files f1 = files f"
      "handle f1 h = Some (name, pos + length (take j (take k (drop pos bs))), False)"
      using fault_read [OF less.prems(1,2), of k] by blast
    have unf: "file_crc lf h n crc f = (if length (take j (take k (drop pos bs))) \<noteq> k then (None, f1)
        else file_crc lf h (n - k) (nrf52_crc32 (take j (take k (drop pos bs))) crc) f1)"
      using False f1(1) by (subst file_crc.simps) (simp add: k_def Let_def)
    show ?thesis
    proof (cases "length (take j (take k (drop pos bs))) = k")
      case True
      then have l: "k \<le> j" "pos + k \<le> length bs" using k(1) by (auto simp: min_def split: if_splits)
      then have t: "take j (take k (drop pos bs)) = take k (drop pos bs)" by simp
      have run: "file_crc lf h (n - k) (nrf52_crc32 (take k (drop pos bs)) crc) f1 = (r, f')"
        using less.prems(3) unf True t by simp
      have hd: "handle f1 h = Some (name, pos + k, False)" using f1(3) True by simp
      have fl: "files f1 name = Some bs" using f1(2) less.prems(2) by simp
      have "n - k < n" using k by simp
      note ih = less.IH [OF this hd fl run]
      have "take n (drop pos bs) = take k (drop pos bs) @ take (n - k) (drop (pos + k) bs)"
        using k take_add [of k "n - k" "drop pos bs"] by (simp add: add.commute)
      with ih f1(2) l(2) k show ?thesis by (auto simp: nrf52_crc32_append)
    next
      case False
      with unf less.prems(3) f1 show ?thesis by auto
    qed
  qed
qed

lemma faulty_close_length:
  assumes "handle f h = Some (name, pos, True)" and "files f name = Some bs"
  shows "\<exists>bs'. length bs' = length bs \<and> files (lf_close lf f h) = (files f)(name \<mapsto> bs')"
proof -
  have "length (butlast bs @ [b]) = length bs" if "bs \<noteq> []" for b using that by simp
  moreover have "files f = (files f)(name \<mapsto> bs)" using assms(2) by (simp add: fun_upd_idem)
  ultimately show ?thesis using fault_close_write [OF assms] by metis
qed

text \<open>Writing: the whole record, which closing may have damaged at its end, or too little of it.\<close>

lemma faulty_write_record:
  assumes w: "write_record lf name header staging f = (ok, f')" and len: "length header = kRecordHeader"
  shows "ok \<and> (files f' = (files f)(name \<mapsto> header @ staging) \<or>
      (\<exists>b. files f' = (files f)(name \<mapsto> butlast (header @ staging) @ [b]))) \<or>
    \<not> ok \<and> (files f' = files f \<or> (\<exists>bs. length bs < kRecordHeader + length staging \<and> files f' = (files f)(name \<mapsto> bs)))"
proof -
  obtain r f1 where o: "lf_open lf f name True = (r, f1)" by fastforce
  show ?thesis
  proof (cases r)
    case None
    with o w have "\<not> ok" "f' = f1" by (simp_all add: write_record_def)
    moreover from fault_open_write [OF o] None have "files f1 = files f \<or> files f1 = (files f)(name \<mapsto> [])" by simp
    moreover have "length ([] :: u8 list) < kRecordHeader + length staging" by (simp add: kRecordHeader_def)
    ultimately show ?thesis by blast
  next
    case (Some h)
    have f1: "files f1 = (files f)(name \<mapsto> [])" "handle f1 h = Some (name, 0, True)" using fault_open_write [OF o] Some by simp_all
    then have fl1: "files f1 name = Some []" by simp
    obtain k1 f2 where f2: "k1 \<le> length header" "lf_write lf f1 h header = (k1, f2)"
      "files f2 = (files f1)(name \<mapsto> [] @ take k1 header)" "handle f2 h = Some (name, 0 + k1, True)"
      using fault_write [OF f1(2) fl1] by blast
    have fl2: "files f2 name = Some (take k1 header)" using f2(3) by simp
    show ?thesis
    proof (cases "k1 = kRecordHeader")
      case False
      then have k: "k1 < kRecordHeader" using f2(1) len by simp
      have "\<not> ok" "f' = lf_close lf f2 h" using w o Some f2(2) False by (simp_all add: write_record_def)
      moreover obtain bs where "length bs = length (take k1 header)" "files (lf_close lf f2 h) = (files f)(name \<mapsto> bs)"
        using faulty_close_length [OF f2(4) fl2] f2(3) f1(1) by auto
      moreover have "length (take k1 header) < kRecordHeader + length staging" using k by simp
      ultimately show ?thesis by metis
    next
      case True
      obtain k2 f3 where f3: "k2 \<le> length staging" "lf_write lf f2 h staging = (k2, f3)"
        "files f3 = (files f2)(name \<mapsto> take k1 header @ take k2 staging)" "handle f3 h = Some (name, 0 + k1 + k2, True)"
        using fault_write [OF f2(4) fl2, of staging] by blast
      have fl3: "files f3 name = Some (header @ take k2 staging)" using f3(3) True len by simp
      have eq: "files f3 = (files f)(name \<mapsto> header @ take k2 staging)" using f3(3) f2(3) f1(1) True len by simp
      have ok: "ok \<longleftrightarrow> k2 = length staging" "f' = lf_close lf f3 h"
        using w o Some f2(2) f3(2) True by (auto simp: write_record_def split: if_splits)
      show ?thesis
      proof (cases "k2 = length staging")
        case True
        then show ?thesis using fault_close_write [OF f3(4) fl3] eq ok by auto
      next
        case False
        then have "length (header @ take k2 staging) < kRecordHeader + length staging" using f3(1) len by simp
        moreover obtain bs where "length bs = length (header @ take k2 staging)" "files (lf_close lf f3 h) = (files f)(name \<mapsto> bs)"
          using faulty_close_length [OF f3(4) fl3] eq by auto
        ultimately show ?thesis using ok False by metis
      qed
    qed
  qed
qed

text \<open>Reading back says yes only over a valid record of the generation written.\<close>

lemma faulty_verify:
  assumes v: "verify_record lf name cap g crc f = (ok, f')" and fl: "files f name = Some bs"
  shows "files f' = files f \<and> (ok \<longrightarrow> record_gen cap bs = Some g)"
proof -
  obtain r f1 where o: "lf_open lf f name False = (r, f1)" by fastforce
  show ?thesis
  proof (cases r)
    case None
    with o v fault_open_read [OF o] show ?thesis by (simp add: verify_record_def)
  next
    case (Some h)
    have f1: "files f1 = files f" "handle f1 h = Some (name, 0, False)" using fault_open_read [OF o] Some by simp_all
    then have fl1: "files f1 name = Some bs" using fl by simp
    obtain k f2 where f2: "lf_read lf f1 h kRecordHeader = (take k (take kRecordHeader (drop 0 bs)), f2)" "files f2 = files f1"
      "handle f2 h = Some (name, 0 + length (take k (take kRecordHeader (drop 0 bs))), False)"
      using fault_read [OF f1(2) fl1] by blast
    define header where "header = take k (take kRecordHeader bs)"
    have fl2: "files f2 name = Some bs" using f2(2) fl1 by simp
    have h2: "handle f2 h = Some (name, length header, False)" using f2(3) by (simp add: header_def)
    note close = fault_close_read
    show ?thesis
    proof (cases "length header = kRecordHeader \<and> rh_magic header = kFsMagic \<and> rh_generation header = g \<and>
        unat (rh_length header) = cap \<and> rh_crc header = crc")
      case False
      then have "\<not> ok \<and> f' = lf_close lf f2 h"
        using v o Some f2(1) by (auto simp: verify_record_def header_def split: if_splits)
      then show ?thesis using close [OF h2] f2(2) f1(1) by simp
    next
      case True
      then have take: "header = take kRecordHeader bs" "kRecordHeader \<le> length bs"
        by (auto simp: header_def min_def split: if_splits)
      obtain c f3 where c: "file_crc lf h cap 0xFFFFFFFF f2 = (c, f3)" by fastforce
      have h3: "handle f2 h = Some (name, kRecordHeader, False)" using h2 True by simp
      from faulty_crc [OF h3 fl2 c] obtain pos' where f3: "files f3 = files f2" "handle f3 h = Some (name, pos', False)"
        "\<forall>x. c = Some x \<longrightarrow> (cap = 0 \<or> kRecordHeader + cap \<le> length bs) \<and> x = nrf52_crc32 (take cap (drop kRecordHeader bs)) 0xFFFFFFFF"
        by blast
      have "f' = lf_close lf f3 h \<and> (ok \<longrightarrow> c = Some (rh_crc header))"
        using v o Some f2(1) c True by (auto simp: verify_record_def header_def split: option.splits)
      then show ?thesis using close [OF f3(2)] f3 f2(2) f1(1) True take
        by (auto simp: record_gen_def Let_def)
    qed
  qed
qed

end

text \<open>The record a commit writes.\<close>

definition fs_record :: "'f fs_storage \<Rightarrow> u8 list" where
  "fs_record s = record_header kFsMagic (if_activeGeneration s + 1) (of_nat (if_capacity s))
     (nrf52_crc32 (if_staging s) 0xFFFFFFFF) @ if_staging s"

lemma record_not_there:
  assumes "fs_synced fs s"
  shows "fs (inactive_file (if_activeGeneration s + 1)) \<noteq> Some (fs_record s)"
proof
  let ?n = "inactive_file (if_activeGeneration s + 1)"
  assume there: "fs ?n = Some (fs_record s)"
  have inv: "length (if_staging s) = if_capacity s" "if_capacity s < 4294967296" "gen_parity fs (if_capacity s)"
    and act: "if_activeGeneration s = chosen_gen fs (if_capacity s)"
    using assms by (simp_all add: fs_synced_def fs_inv_def)
  have "record_gen (if_capacity s) (fs_record s) = Some (chosen_gen fs (if_capacity s) + 1)"
    using record_gen_written [OF inv(1,2)] act by (simp add: fs_record_def)
  from chosen_update(1) [OF inv(3) this] there act have "chosen fs (if_capacity s) = Some (?n, chosen_gen fs (if_capacity s) + 1)"
    by (simp add: fun_upd_idem)
  then have "chosen_gen fs (if_capacity s) = chosen_gen fs (if_capacity s) + 1"
    by (subst chosen_gen_def) simp
  then show False by simp
qed

context file_faults
begin

text \<open>A commit over a library at fault: a restart finds the new content exactly when the whole record
  arrived, and the old content otherwise.  Success says that it arrived; failure does not say that it
  did not.\<close>

lemma faulty_commit:
  assumes syn: "fs_synced (files (if_fs s)) s" and c: "fs_commit lf s = (ok, s')"
  shows "restart_content (files (if_fs s')) (if_capacity s) =
      (if files (if_fs s') (inactive_file (if_activeGeneration s + 1)) = Some (fs_record s) then if_staging s
       else restart_content (files (if_fs s)) (if_capacity s)) \<and>
    (ok \<longrightarrow> files (if_fs s') (inactive_file (if_activeGeneration s + 1)) = Some (fs_record s))"
proof -
  let ?fs = "files (if_fs s)" and ?cap = "if_capacity s"
  define g where "g = if_activeGeneration s + 1"
  define name where "name = inactive_file g"
  define crc where "crc = nrf52_crc32 (if_staging s) 0xFFFFFFFF"
  define h where "h = record_header kFsMagic g (of_nat ?cap) crc"
  have inv: "if_initialized s" "length (if_staging s) = ?cap" and cap: "?cap < 4294967296" and par: "gen_parity ?fs ?cap"
    and act: "g = chosen_gen ?fs ?cap + 1"
    using syn by (simp_all add: fs_synced_def fs_inv_def g_def)
  have rec: "fs_record s = h @ if_staging s" by (simp add: fs_record_def h_def crc_def g_def)
  have rg: "record_gen ?cap (h @ if_staging s) = Some (chosen_gen ?fs ?cap + 1)"
    using record_gen_written [OF inv(2) cap, of g] act by (simp add: h_def crc_def)
  have other: "restart_content (?fs(name \<mapsto> bs)) ?cap = restart_content ?fs ?cap" if "record_gen ?cap bs = None" for bs
    using restart_content_damaged [OF par that] by (simp add: name_def act)
  obtain ok1 f1 where w: "write_record lf name h (if_staging s) (if_fs s) = (ok1, f1)" by fastforce
  have "(ok1, ok, if_fs s') = (False, False, f1) \<or> ok1 \<and> (ok, if_fs s') = verify_record lf name ?cap g crc f1"
    using c w inv by (auto simp: fs_commit_def Let_def name_def g_def h_def crc_def split: prod.splits bool.splits)
  then consider (short) "\<not> ok1" "\<not> ok" "if_fs s' = f1" | (read) "ok1" "verify_record lf name ?cap g crc f1 = (ok, if_fs s')" by auto
  then show ?thesis unfolding g_def [symmetric] name_def [symmetric] rec
  proof cases
    case short
    from faulty_write_record [OF w] short(1) consider "files f1 = ?fs"
      | bs where "length bs < kRecordHeader + ?cap" "files f1 = ?fs(name \<mapsto> bs)" using inv(2) by (auto simp: h_def)
    then show "restart_content (files (if_fs s')) ?cap = (if files (if_fs s') name = Some (h @ if_staging s) then if_staging s
        else restart_content ?fs ?cap) \<and> (ok \<longrightarrow> files (if_fs s') name = Some (h @ if_staging s))"
    proof cases
      case 1
      then show ?thesis using short record_not_there [OF syn] by (simp add: rec name_def g_def)
    next
      case 2
      then have "bs \<noteq> h @ if_staging s" using inv(2) by (auto simp: h_def)
      with 2 short other [OF record_gen_short [OF 2(1)]] show ?thesis by simp
    qed
  next
    case read
    have len: "length h = kRecordHeader" by (simp add: h_def)
    have ne: "h @ if_staging s \<noteq> []" using len by (auto simp: kRecordHeader_def)
    from faulty_write_record [OF w len] read(1) obtain b where f1: "files f1 = ?fs(name \<mapsto> butlast (h @ if_staging s) @ [b])"
    proof (elim disjE conjE exE, goal_cases)
      case 1
      have "butlast (h @ if_staging s) @ [last (h @ if_staging s)] = h @ if_staging s" using ne by (rule append_butlast_last_id)
      then show ?case using 1 by metis
    qed auto
    then have "files f1 name = Some (butlast (h @ if_staging s) @ [b])" by simp
    note v = faulty_verify [OF read(2) this]
    show "restart_content (files (if_fs s')) ?cap = (if files (if_fs s') name = Some (h @ if_staging s) then if_staging s
        else restart_content ?fs ?cap) \<and> (ok \<longrightarrow> files (if_fs s') name = Some (h @ if_staging s))"
    proof (cases "b = last (h @ if_staging s)")
      case True
      then have f2: "files (if_fs s') = ?fs(name \<mapsto> h @ if_staging s)" using v f1 ne by simp
      then have "restart_content (files (if_fs s')) ?cap = if_staging s"
        unfolding restart_content_def f2 name_def act chosen_update(1) [OF par rg] using inv(2) by (simp add: h_def)
      with f2 show ?thesis by simp
    next
      case False
      have none: "record_gen ?cap (butlast (h @ if_staging s) @ [b]) = None"
        by (rule record_gen_damaged [OF inv(2) cap len _ False, of g]) (simp add: h_def crc_def)
      then have "butlast (h @ if_staging s) @ [b] \<noteq> h @ if_staging s" using rg by auto
      with v none f1 other [OF none] show ?thesis by auto
    qed
  qed
qed

end

section \<open>A library that appends\<close>

context file_append
begin

lemma write_record_appended:
  assumes w: "write_record lf name header staging f = (True, f')" and old: "files f name = Some old"
  shows "\<exists>more. files f' name = Some (old @ more)"
proof -
  obtain r f1 where o: "lf_open lf f name True = (r, f1)" by fastforce
  show ?thesis
  proof (cases r)
    case None
    then show ?thesis using w o by (simp add: write_record_def)
  next
    case (Some h)
    have f1: "files f1 name = Some old" "handle f1 h = Some (name, length old, True)"
      using open_append [OF o] Some old by simp_all
    obtain k1 f2 where f2: "lf_write lf f1 h header = (k1, f2)"
      "files f2 = (files f1)(name \<mapsto> old @ take k1 header)" "handle f2 h = Some (name, length old + k1, True)"
      using write_bytes [OF f1(2,1), of header] by blast
    then have fl2: "files f2 name = Some (old @ take k1 header)" by simp
    obtain k2 f3 where f3: "lf_write lf f2 h staging = (k2, f3)"
      "files f3 = (files f2)(name \<mapsto> (old @ take k1 header) @ take k2 staging)"
      using write_bytes [OF f2(3) fl2, of staging] by blast
    have "f' = lf_close lf f3 h" using w o Some f2(1) f3(1) by (auto simp: write_record_def split: if_splits)
    then show ?thesis using f3(2) close_files by simp
  qed
qed

lemma fs_commit_appended:
  assumes old: "files (if_fs s) (inactive_file (if_activeGeneration s + 1)) = Some old"
    and len: "kRecordHeader \<le> length old" and gen: "rh_generation (take kRecordHeader old) \<noteq> if_activeGeneration s + 1"
  shows "\<not> fst (fs_commit lf s)"
proof -
  let ?next = "if_activeGeneration s + 1"
  let ?name = "inactive_file ?next" and ?staging = "take (if_capacity s) (if_staging s)"
  let ?crc = "nrf52_crc32 ?staging 0xFFFFFFFF"
  let ?h = "record_header kFsMagic ?next (of_nat (if_capacity s)) ?crc"
  obtain ok f1 where w: "write_record lf ?name ?h ?staging (if_fs s) = (ok, f1)" by fastforce
  have "\<not> fst (verify_record lf ?name (if_capacity s) ?next ?crc f1)" if ok
  proof -
    have "write_record lf ?name ?h ?staging (if_fs s) = (True, f1)" using w that by simp
    then obtain more where more: "files f1 ?name = Some (old @ more)"
      using write_record_appended [OF _ old] by blast
    obtain h f2 where f2: "lf_open lf f1 ?name False = (Some h, f2)" "files f2 = files f1" "handle f2 h = Some (?name, 0, False)"
      using open_read [OF more] by blast
    have fl2: "files f2 ?name = Some (old @ more)" using f2(2) more by simp
    obtain f3 where "lf_read lf f2 h kRecordHeader = (take kRecordHeader (drop 0 (old @ more)), f3)"
      using read_bytes [OF f2(3) fl2, of kRecordHeader] by blast
    then show ?thesis using f2(1) len gen by (simp add: verify_record_def)
  qed
  then show ?thesis using w by (auto simp: fs_commit_def Let_def split: prod.splits bool.splits)
qed

end

end
