(* ===== verification/Ble_Transport.thy ===== *)
theory Ble_Transport
  imports Mailbox
begin

text \<open>
  VIA over Bluetooth: \<open>BLEViaTransport\<close> of \<open>src/VIA_ESP32_BLE_ViaTransport.h/.cpp\<close> (which the
  ESP32-S3 header aliases) and of \<open>src/VIA_nRF52_BLE_ViaTransport.h/.cpp\<close>.  The Bluetooth
  libraries are parameters; the result of each \<open>xSemaphoreTake\<close> is an argument, and in the
  transport as the protocol calls it the libraries' state decides it (\<open>ng_mutexTake\<close>, \<open>bg_mutexTake\<close>).  The static
  \<open>activeTransport_\<close> is null, this transport (\<open>Some True\<close>) or another one.
\<close>

section \<open>The identification record\<close>

text \<open>Characteristic FF62: the firmware version, high byte first, and at most 28 bytes of the name.\<close>

definition identity_info :: "u8 list \<Rightarrow> u32 \<Rightarrow> u8 list" where
  "identity_info deviceName fwVersion =
     overwrite (overwrite (replicate kPacketSize 0) 0 (be32 fwVersion)) 4
       (take (if length deviceName > 28 then 28 else length deviceName) deviceName)"

lemma identity_info_fields:
  "length (identity_info name v) = kPacketSize \<and> take 4 (identity_info name v) = be32 v \<and>
   take (min 28 (length name)) (drop 4 (identity_info name v)) = take 28 name \<and>
   drop (4 + min 28 (length name)) (identity_info name v) = replicate (28 - length name) 0"
  by (auto simp: identity_info_def overwrite_def kPacketSize_def min_def)

section \<open>ESP32\<close>

record 'n nimble_gatt =
  ng_connectedCount :: "'n \<Rightarrow> nat"
  ng_setServerCallbacks :: "'n \<Rightarrow> 'n"
  ng_createService :: "'n \<Rightarrow> bool \<times> 'n"
  ng_createCharacteristic :: "'n \<Rightarrow> u16 \<Rightarrow> bool \<times> 'n"
  ng_setValue :: "'n \<Rightarrow> u16 \<Rightarrow> u8 list \<Rightarrow> 'n"
  ng_notify :: "'n \<Rightarrow> u16 \<Rightarrow> u8 list \<Rightarrow> bool \<times> 'n"
  ng_mutexTake :: "'n \<Rightarrow> bool"

record 'n ble_transport =
  bt_server :: bool
  bt_service :: bool
  bt_ff61 :: bool
  bt_ff62 :: bool
  bt_mutex :: bool
  bt_requestBuffer :: "u8 list"
  bt_pendingRequest :: bool
  bt_droppedPackets :: u32
  bt_notifySubscribers :: u8
  bt_active :: "bool option"
  bt_stack :: 'n

definition ble_transport_new :: "bool \<Rightarrow> bool option \<Rightarrow> 'n \<Rightarrow> 'n ble_transport" where
  "ble_transport_new mutex active n = \<lparr>bt_server = False, bt_service = False, bt_ff61 = False, bt_ff62 = False,
     bt_mutex = mutex, bt_requestBuffer = replicate kPacketSize 0, bt_pendingRequest = False,
     bt_droppedPackets = 0, bt_notifySubscribers = 0, bt_active = active, bt_stack = n\<rparr>"

definition ble_transport_destroy :: "'n ble_transport \<Rightarrow> 'n ble_transport" where
  "ble_transport_destroy t = (if bt_active t = Some True then t\<lparr>bt_active := None\<rparr> else t)"

definition ble_begin ::
  "'n nimble_gatt \<Rightarrow> bool \<Rightarrow> u8 list option \<Rightarrow> u32 \<Rightarrow> 'n ble_transport \<Rightarrow> bool \<times> 'n ble_transport" where
  "ble_begin ng server deviceName fwVersion t =
     (case deviceName of None \<Rightarrow> (False, t)
      | Some name \<Rightarrow>
          if \<not> server \<or> \<not> bt_mutex t \<or> bt_active t \<noteq> None then (False, t)
          else
            let t = t\<lparr>bt_server := True, bt_stack := ng_setServerCallbacks ng (bt_stack t)\<rparr>;
                (ok, n) = ng_createService ng (bt_stack t); t = t\<lparr>bt_service := ok, bt_stack := n\<rparr>
            in if \<not> ok then (False, t) else
            let (ok, n) = ng_createCharacteristic ng (bt_stack t) 0xFF61; t = t\<lparr>bt_ff61 := ok, bt_stack := n\<rparr>
            in if \<not> ok then (False, t) else
            let t = t\<lparr>bt_stack := ng_setValue ng (bt_stack t) 0xFF61 (replicate kPacketSize 0)\<rparr>;
                (ok, n) = ng_createCharacteristic ng (bt_stack t) 0xFF62; t = t\<lparr>bt_ff62 := ok, bt_stack := n\<rparr>
            in if \<not> ok then (False, t) else
            (True, t\<lparr>bt_stack := ng_setValue ng (bt_stack t) 0xFF62 (identity_info name fwVersion), bt_active := Some True\<rparr>))"

text \<open>The callbacks; \<open>mine\<close> says that the characteristic is this transport's FF61.\<close>

definition ble_onWrite :: "bool \<Rightarrow> bool \<Rightarrow> u8 list \<Rightarrow> 'n ble_transport \<Rightarrow> 'n ble_transport" where
  "ble_onWrite mine locked value t =
     (if bt_active t \<noteq> Some True \<or> \<not> mine then t
      else if length value \<noteq> kPacketSize then t
      else if \<not> locked then t
      else if bt_pendingRequest t then t\<lparr>bt_droppedPackets := bt_droppedPackets t + 1\<rparr>
      else t\<lparr>bt_requestBuffer := take kPacketSize value, bt_pendingRequest := True\<rparr>)"

definition ble_onSubscribe :: "bool \<Rightarrow> u16 \<Rightarrow> 'n ble_transport \<Rightarrow> 'n ble_transport" where
  "ble_onSubscribe mine subValue t =
     (if bt_active t \<noteq> Some True \<or> \<not> mine then t
      else if subValue AND 0x01 \<noteq> 0 then
        if bt_notifySubscribers t < 255 then t\<lparr>bt_notifySubscribers := bt_notifySubscribers t + 1\<rparr> else t
      else if bt_notifySubscribers t > 0 then t\<lparr>bt_notifySubscribers := bt_notifySubscribers t - 1\<rparr> else t)"

definition ble_onDisconnect :: "bool \<Rightarrow> 'n ble_transport \<Rightarrow> 'n ble_transport" where
  "ble_onDisconnect locked t =
     (if bt_active t \<noteq> Some True then t else if \<not> locked then t else t\<lparr>bt_pendingRequest := False\<rparr>)"

definition ble_receive :: "bool \<Rightarrow> u8 list \<Rightarrow> 'n ble_transport \<Rightarrow> bool \<times> u8 list \<times> 'n ble_transport" where
  "ble_receive locked packet t =
     (if \<not> locked then (False, packet, t)
      else if bt_pendingRequest t
      then (True, overwrite packet 0 (take kPacketSize (bt_requestBuffer t)), t\<lparr>bt_pendingRequest := False\<rparr>)
      else (False, packet, t))"

definition ble_connected :: "'n nimble_gatt \<Rightarrow> 'n ble_transport \<Rightarrow> bool" where
  "ble_connected ng t \<longleftrightarrow> bt_server t \<and> ng_connectedCount ng (bt_stack t) > 0"

definition ble_send :: "'n nimble_gatt \<Rightarrow> 'n ble_transport \<Rightarrow> u8 list \<Rightarrow> bool \<times> 'n ble_transport" where
  "ble_send ng t packet =
     (if \<not> ble_connected ng t \<or> \<not> bt_ff61 t then (False, t)
      else
        let t = t\<lparr>bt_stack := ng_setValue ng (bt_stack t) 0xFF61 (take kPacketSize packet)\<rparr>
        in if bt_notifySubscribers t > 0
           then let (ok, n) = ng_notify ng (bt_stack t) 0xFF61 (take kPacketSize packet) in (ok, t\<lparr>bt_stack := n\<rparr>)
           else (True, t))"

definition ble_transport_vt :: "'n nimble_gatt \<Rightarrow> 'n ble_transport transport_vt" where
  "ble_transport_vt ng = \<lparr>tp_receive = (\<lambda>t pkt. ble_receive (ng_mutexTake ng (bt_stack t)) pkt t), tp_send = ble_send ng,
     tp_sendComplete = transport_sendComplete\<rparr>"

interpretation ble_link: transport_contract "ble_transport_vt ng"
  by unfold_locales (auto simp: ble_transport_vt_def ble_receive_def overwrite_def split: if_splits)

definition ble_mail_inv :: "'n ble_transport \<Rightarrow> bool" where
  "ble_mail_inv t \<longleftrightarrow> bt_active t = Some True \<and> length (bt_requestBuffer t) = kPacketSize"

definition ble_slot :: "'n ble_transport \<Rightarrow> u8 list option" where
  "ble_slot t = (if bt_pendingRequest t then Some (bt_requestBuffer t) else None)"

interpretation ble_mail: counting_mailbox "ble_onWrite True" ble_receive ble_mail_inv ble_slot bt_droppedPackets
  by unfold_locales
     (auto simp: ble_onWrite_def ble_receive_def ble_mail_inv_def ble_slot_def overwrite_def split: if_splits)

text \<open>A disconnect discards the waiting request, if it obtains the mutex, but not the count of
  subscribers: a client that leaves without unsubscribing stays counted.\<close>

lemma ble_disconnect:
  assumes "bt_active t = Some True"
  shows "ble_slot (ble_onDisconnect True t) = None \<and>
    bt_notifySubscribers (ble_onDisconnect locked t) = bt_notifySubscribers t"
  using assms by (simp add: ble_onDisconnect_def ble_slot_def)

text \<open>The subscriber count saturates instead of wrapping.\<close>

lemma ble_subscribers_saturate:
  assumes "bt_active t = Some True"
  shows "unat (bt_notifySubscribers (ble_onSubscribe True v t)) =
    (if v AND 0x01 \<noteq> 0 then min 255 (unat (bt_notifySubscribers t) + 1) else unat (bt_notifySubscribers t) - 1)"
proof -
  have s: "unat (n + 1) = unat n + 1" if "n < 255" for n :: u8
    using that by (simp add: unat_word_ariths word_less_nat_alt)
  have e: "unat n = 255" if "\<not> n < 255" for n :: u8
    using that unat_u8_le [of n] by (simp add: word_less_nat_alt)
  have m: "unat (n - 1) = unat n - 1" if "0 < n" for n :: u8
    using that by (metis unat_minus_one word_gt_0)
  have z: "n = 0" if "\<not> 0 < n" for n :: u8 using that by (simp add: word_gt_0)
  show ?thesis
    using assms s [of "bt_notifySubscribers t"] e [of "bt_notifySubscribers t"] m [of "bt_notifySubscribers t"]
      z [of "bt_notifySubscribers t"]
    by (auto simp: ble_onSubscribe_def word_less_nat_alt min_def)
qed

section \<open>nRF52\<close>

record 'b bluefruit_gatt =
  bg_connected :: "'b \<Rightarrow> bool"
  bg_service_begin :: "'b \<Rightarrow> 'b"
  bg_characteristic_begin :: "'b \<Rightarrow> u16 \<Rightarrow> 'b"
  bg_write :: "'b \<Rightarrow> u16 \<Rightarrow> u8 list \<Rightarrow> 'b"
  bg_notifyEnabled :: "'b \<Rightarrow> u16 \<Rightarrow> bool"
  bg_notify :: "'b \<Rightarrow> u16 \<Rightarrow> u8 list \<Rightarrow> bool \<times> 'b"
  bg_mutexTake :: "'b \<Rightarrow> bool"

record 'b nrf_transport =
  nt_requestBuffer :: "u8 list"
  nt_responseBuffer :: "u8 list"
  nt_mutex :: bool
  nt_pendingRequest :: bool
  nt_droppedPackets :: u32
  nt_active :: "bool option"
  nt_stack :: 'b

definition nrf_transport_new :: "bool \<Rightarrow> bool option \<Rightarrow> 'b \<Rightarrow> 'b nrf_transport" where
  "nrf_transport_new mutex active b = \<lparr>nt_requestBuffer = replicate kPacketSize 0,
     nt_responseBuffer = replicate kPacketSize 0, nt_mutex = mutex, nt_pendingRequest = False,
     nt_droppedPackets = 0, nt_active = active, nt_stack = b\<rparr>"

definition nrf_transport_destroy :: "'b nrf_transport \<Rightarrow> 'b nrf_transport" where
  "nrf_transport_destroy t = (if nt_active t = Some True then t\<lparr>nt_active := None\<rparr> else t)"

definition nrf_begin ::
  "'b bluefruit_gatt \<Rightarrow> u8 list option \<Rightarrow> u32 \<Rightarrow> 'b nrf_transport \<Rightarrow> bool \<times> 'b nrf_transport" where
  "nrf_begin bg deviceName firmwareVersion t =
     (case deviceName of None \<Rightarrow> (False, t)
      | Some name \<Rightarrow>
          if \<not> nt_mutex t \<or> nt_active t \<noteq> None then (False, t)
          else
            let t = t\<lparr>nt_active := Some True\<rparr>;
                b = bg_service_begin bg (nt_stack t);
                b = bg_write bg (bg_characteristic_begin bg b 0xFF61) 0xFF61 (nt_responseBuffer t);
                b = bg_write bg (bg_characteristic_begin bg b 0xFF62) 0xFF62 (identity_info name firmwareVersion)
            in (True, t\<lparr>nt_stack := b\<rparr>))"

definition nrf_onWrite :: "bool \<Rightarrow> u8 list \<Rightarrow> 'b nrf_transport \<Rightarrow> 'b nrf_transport" where
  "nrf_onWrite locked data t =
     (if nt_active t \<noteq> Some True \<or> length data \<noteq> kPacketSize then t
      else if \<not> locked then t
      else if nt_pendingRequest t then t\<lparr>nt_droppedPackets := nt_droppedPackets t + 1\<rparr>
      else t\<lparr>nt_requestBuffer := take kPacketSize data, nt_pendingRequest := True\<rparr>)"

definition nrf_receive :: "bool \<Rightarrow> u8 list \<Rightarrow> 'b nrf_transport \<Rightarrow> bool \<times> u8 list \<times> 'b nrf_transport" where
  "nrf_receive locked packet t =
     (if \<not> locked then (False, packet, t)
      else if nt_pendingRequest t
      then (True, overwrite packet 0 (take kPacketSize (nt_requestBuffer t)), t\<lparr>nt_pendingRequest := False\<rparr>)
      else (False, packet, t))"

definition nrf_send :: "'b bluefruit_gatt \<Rightarrow> 'b nrf_transport \<Rightarrow> u8 list \<Rightarrow> bool \<times> 'b nrf_transport" where
  "nrf_send bg t packet =
     (if \<not> bg_connected bg (nt_stack t) then (False, t)
      else
        let t = t\<lparr>nt_stack := bg_write bg (nt_stack t) 0xFF61 (take kPacketSize packet)\<rparr>
        in if bg_notifyEnabled bg (nt_stack t) 0xFF61
           then let (ok, b) = bg_notify bg (nt_stack t) 0xFF61 (take kPacketSize packet) in (ok, t\<lparr>nt_stack := b\<rparr>)
           else (True, t))"

definition nrf_transport_vt :: "'b bluefruit_gatt \<Rightarrow> 'b nrf_transport transport_vt" where
  "nrf_transport_vt bg = \<lparr>tp_receive = (\<lambda>t pkt. nrf_receive (bg_mutexTake bg (nt_stack t)) pkt t), tp_send = nrf_send bg,
     tp_sendComplete = transport_sendComplete\<rparr>"

interpretation nrf_link: transport_contract "nrf_transport_vt bg"
  by unfold_locales (auto simp: nrf_transport_vt_def nrf_receive_def overwrite_def split: if_splits)

definition nrf_mail_inv :: "'b nrf_transport \<Rightarrow> bool" where
  "nrf_mail_inv t \<longleftrightarrow> nt_active t = Some True \<and> length (nt_requestBuffer t) = kPacketSize"

definition nrf_slot :: "'b nrf_transport \<Rightarrow> u8 list option" where
  "nrf_slot t = (if nt_pendingRequest t then Some (nt_requestBuffer t) else None)"

interpretation nrf_mail: counting_mailbox nrf_onWrite nrf_receive nrf_mail_inv nrf_slot nt_droppedPackets
  by unfold_locales
     (auto simp: nrf_onWrite_def nrf_receive_def nrf_mail_inv_def nrf_slot_def overwrite_def split: if_splits)

end
