(* ===== verification/Ble_Session.thy ===== *)
theory Ble_Session
  imports Ble_Transport Main_Loop
begin

text \<open>
  The VIA transport of the ESP32 between connections.  NimBLE reports what peers do through the two
  adapter classes of \<open>src/VIA_ESP32_BLE_ViaTransport.cpp\<close>, \<open>CharCallbacks\<close> and \<open>ServerCallbacks\<close>,
  which ignore the connection and hand the event to the static handlers.
\<close>

text \<open>\<open>mine\<close>: the event is about this transport's FF61; \<open>locked\<close>: the handler obtained the mutex.\<close>

datatype nimble_event = GattWrite (mine: bool) (locked: bool) "u8 list" | GattSubscribe (mine: bool) u16 | PeerGone (locked: bool)

fun nimble_handle :: "nimble_event \<Rightarrow> 'n ble_transport \<Rightarrow> 'n ble_transport" where
  "nimble_handle (GattWrite m l value) t = ble_onWrite m l value t"
| "nimble_handle (GattSubscribe m subValue) t = ble_onSubscribe m subValue t"
| "nimble_handle (PeerGone l) t = ble_onDisconnect l t"

definition nimble_events :: "nimble_event list \<Rightarrow> 'n ble_transport \<Rightarrow> 'n ble_transport" where
  "nimble_events es t = fold nimble_handle es t"

lemma nimble_events_simps [simp]:
  "nimble_events [] t = t" "nimble_events (e # es) t = nimble_events es (nimble_handle e t)"
  "nimble_events (es @ [e]) t = nimble_handle e (nimble_events es t)"
  by (simp_all add: nimble_events_def)

text \<open>The handlers touch neither the characteristics nor the library.\<close>

lemma nimble_handle_frame:
  "bt_stack (nimble_handle e t) = bt_stack t \<and> bt_server (nimble_handle e t) = bt_server t \<and>
   bt_ff61 (nimble_handle e t) = bt_ff61 t \<and> bt_active (nimble_handle e t) = bt_active t"
  by (cases e) (simp_all add: ble_onWrite_def ble_onSubscribe_def ble_onDisconnect_def)

lemma nimble_handle_mail: "ble_mail_inv t \<Longrightarrow> ble_mail_inv (nimble_handle e t)"
  by (cases e) (simp_all add: ble_mail_inv_def ble_onWrite_def ble_onSubscribe_def ble_onDisconnect_def)

lemma nimble_events_mail: "ble_mail_inv t \<Longrightarrow> ble_mail_inv (nimble_events es t)"
  by (induction es arbitrary: t) (simp_all add: nimble_handle_mail)

lemma phase_of_transport [simp]: "phase_of (p\<lparr>p_transport := t\<rparr>) = phase_of p"
  by (simp add: phase_of_def)

section \<open>A request of a connection that ended\<close>

text \<open>After a disconnect that obtained the mutex \<open>receive\<close> finds nothing, until the next write.\<close>

lemma no_request_after_disconnect:
  assumes "bt_active t = Some True"
  shows "fst (ble_receive l buf (nimble_handle (PeerGone True) t)) = False"
  using assms by (simp add: ble_onDisconnect_def ble_receive_def)

text \<open>With nothing to receive a quiet protocol stays quiet.\<close>

lemma quiet_task_silent:
  assumes loop: "protocol_loop d sinv view cinv csize" and inv: "task_inv sinv cinv p" and quiet: "phase_of p = Quiet"
    and none: "fst (tp_receive (d_transport d) (p_transport p) (p_pendingResponse p)) = False"
  shows "\<exists>p'. protocol_task d p now = Some p' \<and> phase_of p' = Quiet \<and>
    p_transport p' = snd (snd (tp_receive (d_transport d) (p_transport p) (p_pendingResponse p)))"
proof -
  obtain got pkt t where r: "tp_receive (d_transport d) (p_transport p) (p_pendingResponse p) = (got, pkt, t)" by (metis prod_cases3)
  have q: "\<not> p_responsePending p" "\<not> p_bootloaderPending p" using quiet by (auto simp: phase_of_def split: if_splits)
  let ?p = "p\<lparr>p_transport := t, p_pendingResponse := pkt\<rparr>"
  have rec: "task_receive d p now = Some ?p" using q r none by (simp add: task_receive_def)
  obtain p1 where p1: "task_receive d p now = Some p1" "task_inv sinv cinv p1"
    using protocol_loop.task_receive_total [OF loop inv] by blast
  then have i: "task_inv sinv cinv ?p" using rec by simp
  obtain p' where s: "task_save d ?p now = Some p'" "sound sinv cinv ?p p'"
    using protocol_loop.task_save_sound [OF loop i] by blast
  then have k: "phase_of p' = phase_of ?p" "p_transport p' = t" using keeps_wire [of ?p p'] by (simp_all add: sound_def)
  have "protocol_task d p now = Some p'" using rec s(1) q by (simp add: protocol_task_def task_send_def task_jump_def)
  with k q r show ?thesis by (simp add: phase_of_def)
qed

section \<open>A reply of a connection that ended\<close>

text \<open>A reply that is owed goes out with the next accepted send.\<close>

lemma owed_reply_sent:
  assumes loop: "protocol_loop d sinv view cinv csize" and inv: "task_inv sinv cinv p" and owes: "phase_of p = Owes r b"
    and send: "tp_send (d_transport d) (p_transport p) r = (True, t)"
    and complete: "\<And>t. tp_sendComplete (d_transport d) t = (True, t)"
  shows "\<exists>p'. protocol_task d p now = Some p' \<and> phase_of p' = Quiet \<and> p_transport p' = t"
proof -
  have o: "p_responsePending p" "p_pendingResponse p = r" using owes by (auto simp: phase_of_def split: if_splits)
  let ?p = "p\<lparr>p_transport := t, p_responsePending := False\<rparr>"
  have rec: "task_receive d p now = Some p" and s: "task_send d p = ?p"
    using o send by (simp_all add: task_receive_def task_send_def)
  have i: "task_inv sinv cinv ?p" using protocol_loop.task_send_inv [OF loop inv] s by simp
  obtain p2 where j: "task_jump d ?p = Some p2" "task_inv sinv cinv p2" using protocol_loop.task_jump_total [OF loop i] by blast
  have p2: "phase_of p2 = Quiet" "p_transport p2 = t"
    using j(1) i complete [of t] by (auto simp: task_jump_def task_inv_def phase_of_def frame Let_def split: if_splits)
  obtain p3 where p3: "task_save d p2 now = Some p3" "sound sinv cinv p2 p3"
    using protocol_loop.task_save_sound [OF loop j(2)] by blast
  then have "phase_of p3 = Quiet" "p_transport p3 = t" using keeps_wire [of p2 p3] p2 by (simp_all add: sound_def)
  with rec s j(1) p3(1) show ?thesis by (simp add: protocol_task_def)
qed

end
