(* ===== verification/Encoder.thy ===== *)
theory Encoder
  imports Prelude "HOL-Library.Signed_Division"
begin

text \<open>
  The quadrature decoder \<open>src/VIA_Encoder.h\<close>.  \<open>steps_\<close> is a 32-bit signed integer, kept as a
  word; its division by 4 truncates towards zero.
\<close>

record encoder =
  en_lastState :: u8
  en_lastPinState :: u8
  en_lastChangeTs :: u32
  en_debounceUs :: u16
  en_steps :: u32

definition kDebounceDefault :: u16 where "kDebounceDefault = 2000"

definition encoder_new :: encoder where
  "encoder_new = \<lparr>en_lastState = 0, en_lastPinState = 0, en_lastChangeTs = 0, en_debounceUs = 0, en_steps = 0\<rparr>"

definition setDebounceUs :: "u16 \<Rightarrow> encoder \<Rightarrow> encoder" where
  "setDebounceUs us e = e\<lparr>en_debounceUs := us\<rparr>"

definition encoder_state :: "u8 \<Rightarrow> u8 \<Rightarrow> u8" where
  "encoder_state a b = (if a \<noteq> 0 then 2 else 0) OR (if b \<noteq> 0 then 1 else 0)"

text \<open>The step of one edge, as the nested \<open>switch\<close> has it.\<close>

definition edge_step :: "u8 \<Rightarrow> u8 \<Rightarrow> u32 \<Rightarrow> u32" where
  "edge_step old st steps =
     (if old = 0 then (if st = 1 then steps - 1 else if st = 2 then steps + 1 else steps)
      else if old = 1 then (if st = 3 then steps - 1 else if st = 0 then steps + 1 else steps)
      else if old = 2 then (if st = 0 then steps - 1 else if st = 3 then steps + 1 else steps)
      else if old = 3 then (if st = 2 then steps - 1 else if st = 1 then steps + 1 else steps)
      else steps)"

definition encoder_update :: "u8 \<Rightarrow> u8 \<Rightarrow> u32 \<Rightarrow> encoder \<Rightarrow> encoder" where
  "encoder_update a b now e =
     (let st = encoder_state a b in
      if st = en_lastState e then e
      else if now - en_lastChangeTs e < ucast (en_debounceUs e) then e
      else e\<lparr>en_lastState := st, en_lastChangeTs := now,
             en_steps := edge_step (en_lastPinState e) st (en_steps e), en_lastPinState := st\<rparr>)"

definition encoder_count :: "encoder \<Rightarrow> int" where
  "encoder_count e = sint (en_steps e) sdiv 4"

definition encoder_consume :: "encoder \<Rightarrow> int \<times> encoder" where
  "encoder_consume e = (encoder_count e, e\<lparr>en_steps := 0\<rparr>)"

section \<open>The position of the shaft\<close>

text \<open>The four states in clockwise order are 0, 2, 3, 1; \<open>phase_index\<close> is the place in that cycle.\<close>

definition phase_index :: "u8 \<Rightarrow> int" where
  "phase_index st = (if st = 0 then 0 else if st = 2 then 1 else if st = 3 then 2 else 3)"

text \<open>A shaft moving by quarter steps: its positions modulo 4 give the pins.\<close>

definition pins_at :: "int \<Rightarrow> u8 \<times> u8" where
  "pins_at pos = (if pos mod 4 = 0 then (0, 0) else if pos mod 4 = 1 then (1, 0)
     else if pos mod 4 = 2 then (1, 1) else (0, 1))"

text \<open>The samples of a path: every sample is at most one quarter step from the one before, and a
  sample that differs comes at least the debounce time after the last change.\<close>

fun encoder_run :: "encoder \<Rightarrow> (int \<times> u32) list \<Rightarrow> encoder" where
  "encoder_run e [] = e"
| "encoder_run e ((pos, now) # ps) = encoder_run (encoder_update (fst (pins_at pos)) (snd (pins_at pos)) now e) ps"

fun smooth :: "u16 \<Rightarrow> int \<Rightarrow> u32 \<Rightarrow> (int \<times> u32) list \<Rightarrow> bool" where
  "smooth deb pos ts [] \<longleftrightarrow> True"
| "smooth deb pos ts ((pos', now) # ps) \<longleftrightarrow>
     (pos' = pos \<and> smooth deb pos ts ps) \<or>
     (\<bar>pos' - pos\<bar> = 1 \<and> ucast deb \<le> now - ts \<and> smooth deb pos' now ps)"

definition tracks :: "encoder \<Rightarrow> int \<Rightarrow> int \<Rightarrow> bool" where
  "tracks e start pos \<longleftrightarrow> en_lastPinState e = en_lastState e \<and>
     en_lastState e = encoder_state (fst (pins_at pos)) (snd (pins_at pos)) \<and>
     en_steps e = of_int (pos - start)"

lemma pins_state:
  "encoder_state (fst (pins_at pos)) (snd (pins_at pos)) =
    (if pos mod 4 = 0 then 0 else if pos mod 4 = 1 then 2 else if pos mod 4 = 2 then 3 else 1)"
  by (simp add: pins_at_def encoder_state_def)

lemma mod4_cases: "pos mod 4 = 0 \<or> pos mod 4 = 1 \<or> pos mod 4 = 2 \<or> pos mod 4 = (3 :: int)"
  by presburger

lemma mod4_succ: "(pos + 1) mod 4 = (if pos mod 4 = 3 then 0 else pos mod 4 + (1 :: int))"
  by presburger

lemma mod4_pred: "(pos - 1) mod 4 = (if pos mod 4 = 0 then 3 else pos mod 4 - (1 :: int))"
  by presburger

lemma pins_state_inj:
  "encoder_state (fst (pins_at pos)) (snd (pins_at pos)) = encoder_state (fst (pins_at pos')) (snd (pins_at pos')) \<longleftrightarrow>
    pos mod 4 = pos' mod 4"
  unfolding pins_state using mod4_cases [of pos] mod4_cases [of pos'] by (elim disjE) simp_all

text \<open>One quarter step changes the count by one in its direction.\<close>

lemma edge_step_quarter:
  "edge_step (encoder_state (fst (pins_at pos)) (snd (pins_at pos)))
     (encoder_state (fst (pins_at (pos + 1))) (snd (pins_at (pos + 1)))) steps = steps + 1"
  "edge_step (encoder_state (fst (pins_at pos)) (snd (pins_at pos)))
     (encoder_state (fst (pins_at (pos - 1))) (snd (pins_at (pos - 1)))) steps = steps - 1"
  using mod4_cases [of pos] by (auto simp: pins_state mod4_succ mod4_pred edge_step_def)

lemma update_tracks:
  assumes t: "tracks e start pos" and s: "pos' = pos + 1 \<or> pos' = pos - 1"
    and deb: "ucast (en_debounceUs e) \<le> now - en_lastChangeTs e"
  shows "tracks (encoder_update (fst (pins_at pos')) (snd (pins_at pos')) now e) start pos' \<and>
    en_lastChangeTs (encoder_update (fst (pins_at pos')) (snd (pins_at pos')) now e) = now \<and>
    en_debounceUs (encoder_update (fst (pins_at pos')) (snd (pins_at pos')) now e) = en_debounceUs e"
proof -
  let ?st = "encoder_state (fst (pins_at pos)) (snd (pins_at pos))"
  let ?st' = "encoder_state (fst (pins_at pos')) (snd (pins_at pos'))"
  have "pos' mod 4 \<noteq> pos mod 4" using s by presburger
  then have ne: "?st' \<noteq> ?st" by (simp only: pins_state_inj not_False_eq_True)
  have step: "edge_step ?st ?st' (of_int (pos - start)) = of_int (pos' - start)"
    using s edge_step_quarter [of pos "of_int (pos - start)"] by (auto simp: algebra_simps)
  show ?thesis
    using t ne step deb by (simp add: tracks_def encoder_update_def Let_def not_less)
qed

text \<open>A smooth path is counted exactly, quarter step by quarter step.\<close>

lemma run_tracks:
  assumes "tracks e start pos" and "smooth (en_debounceUs e) pos (en_lastChangeTs e) ps"
  shows "tracks (encoder_run e ps) start (if ps = [] then pos else fst (last ps))"
  using assms
proof (induction ps arbitrary: e pos)
  case (Cons p ps)
  obtain pos' now where p: "p = (pos', now)" by fastforce
  let ?e = "encoder_update (fst (pins_at pos')) (snd (pins_at pos')) now e"
  show ?case
  proof (cases "pos' = pos \<and> smooth (en_debounceUs e) pos (en_lastChangeTs e) ps")
    case True
    then have "?e = e" using Cons.prems(1) by (simp add: encoder_update_def tracks_def Let_def)
    with Cons True show ?thesis by (auto simp: p)
  next
    case False
    then have s: "pos' = pos + 1 \<or> pos' = pos - 1" "ucast (en_debounceUs e) \<le> now - en_lastChangeTs e"
      "smooth (en_debounceUs e) pos' now ps"
      using Cons.prems(2) by (auto simp: p)
    from update_tracks [OF Cons.prems(1) s(1,2)] s(3) Cons.IH [of ?e pos'] show ?thesis
      by (auto simp: p)
  qed
qed simp

end
