(* ===== verification/Power_State.thy ===== *)
theory Power_State
  imports Prelude
begin

text \<open>
  Battery and sleep: \<open>src/VIA_Battery.h\<close> and \<open>src/VIA_SleepMgr.h\<close>.  A division by zero, a
  shift by 32 or more and an access outside the sample buffer are \<open>None\<close>.
\<close>

section \<open>Battery\<close>

record battery =
  ba_minMv :: u16
  ba_maxMv :: u16
  ba_vrefMv :: u16
  ba_adcBits :: u16
  ba_avgSamples :: u8
  ba_charging :: bool
  ba_circular :: "u16 list"
  ba_sampleIndex :: u8
  ba_sampleCount :: u8
  ba_sampleSum :: u32

definition battery_new :: battery where
  "battery_new = \<lparr>ba_minMv = 3200, ba_maxMv = 4200, ba_vrefMv = 3300, ba_adcBits = 12, ba_avgSamples = 32,
     ba_charging = False, ba_circular = replicate 32 0, ba_sampleIndex = 0, ba_sampleCount = 0, ba_sampleSum = 0\<rparr>"

definition setCalibration :: "u16 \<Rightarrow> u16 \<Rightarrow> battery \<Rightarrow> battery" where
  "setCalibration minMv maxMv b = b\<lparr>ba_minMv := minMv, ba_maxMv := maxMv\<rparr>"

definition setAverageSamples :: "u8 \<Rightarrow> battery \<Rightarrow> battery" where
  "setAverageSamples n b = b\<lparr>ba_avgSamples := n\<rparr>"

definition setCharging :: "bool \<Rightarrow> battery \<Rightarrow> battery" where "setCharging on b = b\<lparr>ba_charging := on\<rparr>"

definition setVref :: "u16 \<Rightarrow> battery \<Rightarrow> battery" where "setVref v b = b\<lparr>ba_vrefMv := v\<rparr>"

definition setAdcBits :: "u16 \<Rightarrow> battery \<Rightarrow> battery" where "setAdcBits n b = b\<lparr>ba_adcBits := n\<rparr>"

definition max_raw :: "battery \<Rightarrow> u32 option" where
  "max_raw b = (if unat (ba_adcBits b) < 32 then Some (push_bit (unat (ba_adcBits b)) 1 - 1) else None)"

definition rawToMv :: "battery \<Rightarrow> u16 \<Rightarrow> u16 option" where
  "rawToMv b raw = do {
     maxRaw \<leftarrow> max_raw b;
     if maxRaw = 0 then None else Some (ucast ((ucast raw * ucast (ba_vrefMv b) :: u32) div maxRaw)) }"

definition rawFromMv :: "battery \<Rightarrow> u16 \<Rightarrow> u16 option" where
  "rawFromMv b mv = do {
     maxRaw \<leftarrow> max_raw b;
     if ba_vrefMv b = 0 then None
     else let raw = (ucast mv * maxRaw :: u32) div ucast (ba_vrefMv b)
          in Some (if raw > 65535 then 65535 else ucast raw) }"

definition clamp_mv :: "battery \<Rightarrow> u16 \<Rightarrow> u16" where
  "clamp_mv b mv =
     (let mv = (if mv < ba_minMv b then ba_minMv b else mv)
      in if mv > ba_maxMv b then ba_maxMv b else mv)"

definition battery_update :: "u16 \<Rightarrow> battery \<Rightarrow> battery option" where
  "battery_update rawAdc b = do {
     mv \<leftarrow> rawToMv b rawAdc;
     let mv = clamp_mv b mv;
     old \<leftarrow> arr_get (ba_circular b) (unat (ba_sampleIndex b));
     circ \<leftarrow> arr_set (ba_circular b) (unat (ba_sampleIndex b)) mv;
     let count = (if ba_sampleCount b < ba_avgSamples b then ba_sampleCount b + 1 else ba_sampleCount b);
     let index = ba_sampleIndex b + 1;
     Some (b\<lparr>ba_sampleSum := ba_sampleSum b + ucast mv - ucast old, ba_circular := circ,
       ba_sampleCount := count, ba_sampleIndex := (if index \<ge> ba_avgSamples b then 0 else index)\<rparr>) }"

text \<open>The last division is by \<open>maxMv_ - minMv_\<close>, an \<open>int\<close>.\<close>

definition percentage :: "battery \<Rightarrow> u8 option" where
  "percentage b =
     (if ba_sampleCount b = 0 then Some 0
      else
        let avgMv = ucast (ba_sampleSum b div ucast (ba_sampleCount b)) :: u16
        in if avgMv \<le> ba_minMv b then Some 0
           else if avgMv \<ge> ba_maxMv b then Some 100
           else if ba_maxMv b = ba_minMv b then None
           else Some (ucast ((ucast (avgMv - ba_minMv b) * 100 :: u32) div ucast (ba_maxMv b - ba_minMv b))))"

text \<open>The samples in the order of the buffer, and the invariant of the running sum: the buffer is
  filled up to \<open>sampleCount\<close> and zero above, the index is where the next sample goes.\<close>

definition battery_inv :: "battery \<Rightarrow> bool" where
  "battery_inv b \<longleftrightarrow> length (ba_circular b) = 32 \<and> 0 < ba_avgSamples b \<and> ba_avgSamples b \<le> 32 \<and>
     ba_minMv b \<le> ba_maxMv b \<and>
     ba_sampleIndex b < ba_avgSamples b \<and> ba_sampleCount b \<le> ba_avgSamples b \<and>
     (ba_sampleCount b < ba_avgSamples b \<longrightarrow> ba_sampleIndex b = ba_sampleCount b) \<and>
     (\<forall>i < 32. i < unat (ba_sampleCount b) \<longrightarrow> ba_minMv b \<le> ba_circular b ! i \<and> ba_circular b ! i \<le> ba_maxMv b) \<and>
     (\<forall>i < 32. unat (ba_sampleCount b) \<le> i \<longrightarrow> ba_circular b ! i = 0) \<and>
     unat (ba_sampleSum b) = sum_list (map unat (ba_circular b))"

lemma battery_inv_new: "battery_inv battery_new"
  by (auto simp: battery_inv_def battery_new_def sum_list_replicate)

lemma clamp_bounds: "ba_minMv b \<le> ba_maxMv b \<Longrightarrow> ba_minMv b \<le> clamp_mv b mv \<and> clamp_mv b mv \<le> ba_maxMv b"
  by (auto simp: clamp_mv_def Let_def not_le not_less)

lemma rawToMv_total: "0 < unat (ba_adcBits b) \<Longrightarrow> unat (ba_adcBits b) < 32 \<Longrightarrow> \<exists>mv. rawToMv b raw = Some mv"
proof -
  assume n: "0 < unat (ba_adcBits b)" "unat (ba_adcBits b) < 32"
  have "(2 ^ unat (ba_adcBits b) :: u32) - 1 \<noteq> 0"
  proof
    assume "(2 ^ unat (ba_adcBits b) :: u32) - 1 = 0"
    then have "(2 ^ unat (ba_adcBits b) :: u32) = 1" by simp
    then have "bit (2 ^ unat (ba_adcBits b) :: u32) 0" by simp
    with n show False by (simp add: bit_exp_iff)
  qed
  with n show ?thesis by (simp add: rawToMv_def max_raw_def Let_def)
qed

lemma sum_list_update_nat:
  "i < length xs \<Longrightarrow> sum_list (map unat (xs[i := v])) + unat (xs ! i) = sum_list (map unat xs) + unat (v :: u16)"
  by (induction xs arbitrary: i) (auto split: nat.split)

lemma sum_list_bound: "sum_list (map unat (xs :: u16 list)) \<le> 65535 * length xs"
proof (induction xs)
  case (Cons x xs)
  with unat_u16_le [of x] show ?case by simp
qed simp

lemma battery_update_inv:
  assumes inv: "battery_inv b" and adc: "0 < unat (ba_adcBits b)" "unat (ba_adcBits b) < 32"
  shows "\<exists>b'. battery_update raw b = Some b' \<and> battery_inv b' \<and> ba_adcBits b' = ba_adcBits b \<and>
    0 < ba_sampleCount b'"
proof -
  obtain mv where mv: "rawToMv b raw = Some mv" using rawToMv_total [OF adc] by blast
  let ?mv = "clamp_mv b mv" and ?i = "unat (ba_sampleIndex b)"
  let ?circ = "(ba_circular b)[?i := ?mv]"
  let ?count = "if ba_sampleCount b < ba_avgSamples b then ba_sampleCount b + 1 else ba_sampleCount b"
  let ?index = "if ba_sampleIndex b + 1 \<ge> ba_avgSamples b then 0 else ba_sampleIndex b + 1"
  let ?sum = "ba_sampleSum b + ucast ?mv - ucast (ba_circular b ! ?i)"
  let ?b = "b\<lparr>ba_sampleSum := ?sum, ba_circular := ?circ, ba_sampleCount := ?count, ba_sampleIndex := ?index\<rparr>"
  have n: "unat (ba_avgSamples b) \<le> 32" "0 < unat (ba_avgSamples b)" "?i < unat (ba_avgSamples b)"
      "unat (ba_sampleCount b) \<le> unat (ba_avgSamples b)"
    and len: "length (ba_circular b) = 32"
    using inv by (auto simp: battery_inv_def word_less_nat_alt word_le_nat_alt)
  then have i: "?i < 32" by simp
  have upd: "battery_update raw b = Some ?b" using mv i len by (simp add: battery_update_def mem Let_def)
  have inc: "unat (x + 1) = unat x + 1" if "unat x < 32" for x :: u8
    using that by (simp add: unat_word_ariths)
  have count: "unat ?count = min (unat (ba_avgSamples b)) (unat (ba_sampleCount b) + 1)"
    using n inc [of "ba_sampleCount b"] by (auto simp: word_less_nat_alt min_def)
  have s: "unat (ba_sampleSum b) = sum_list (map unat (ba_circular b))" using inv by (simp add: battery_inv_def)
  have s': "sum_list (map unat ?circ) + unat (ba_circular b ! ?i) = sum_list (map unat (ba_circular b)) + unat ?mv"
    using sum_list_update_nat i len by metis
  have small: "sum_list (map unat ?circ) < 4294967296" "unat (ba_sampleSum b) + unat ?mv < 4294967296"
    using sum_list_bound [of ?circ] sum_list_bound [of "ba_circular b"] len s unat_u16_le [of ?mv] by simp_all
  have "unat ?sum = sum_list (map unat ?circ)"
  proof -
    have a: "unat (ba_sampleSum b + ucast ?mv) = unat (ba_sampleSum b) + unat ?mv"
      using small(2) by (subst unat_u32_add) simp_all
    have "(ucast (ba_circular b ! ?i) :: u32) \<le> ba_sampleSum b + ucast ?mv"
      using a s s' by (simp add: word_le_nat_alt)
    then show ?thesis using a s s' by (simp add: unat_sub)
  qed
  moreover have "?index < ba_avgSamples b" using n inc [of "ba_sampleIndex b"] by (auto simp: word_less_nat_alt word_le_nat_alt)
  moreover have "?count < ba_avgSamples b \<longrightarrow> ?index = ?count"
    using inv n inc [of "ba_sampleCount b"] count
    by (auto simp: battery_inv_def word_less_nat_alt word_le_nat_alt)
  moreover have "?count \<le> ba_avgSamples b" using count by (simp add: word_le_nat_alt)
  moreover have "ba_minMv b \<le> ?circ ! j \<and> ?circ ! j \<le> ba_maxMv b" if "j < 32" "j < unat ?count" for j
  proof (cases "j = ?i")
    case True
    with clamp_bounds [of b mv] inv i len show ?thesis by (simp add: battery_inv_def)
  next
    case False
    have "j < unat (ba_sampleCount b)"
    proof (cases "ba_sampleCount b < ba_avgSamples b")
      case True
      then have "?i = unat (ba_sampleCount b)" using inv by (simp add: battery_inv_def)
      with that(2) count False show ?thesis by simp
    qed (use that(2) in simp)
    with False inv that(1) show ?thesis by (simp add: battery_inv_def)
  qed
  moreover have "?circ ! j = 0" if "j < 32" "unat ?count \<le> j" for j
  proof -
    have "unat (ba_sampleCount b) \<le> j" "j \<noteq> ?i" using that(2) count n inv
      by (auto simp: battery_inv_def min_def word_less_nat_alt split: if_splits)
    then show ?thesis using inv that(1) by (simp add: battery_inv_def)
  qed
  moreover have "0 < ?count" using count n by (simp add: word_less_nat_alt)
  ultimately show ?thesis using upd inv len by (intro exI [of _ ?b]) (auto simp: battery_inv_def)
qed

text \<open>Any number of samples.\<close>

fun battery_run :: "u16 list \<Rightarrow> battery \<Rightarrow> battery option" where
  "battery_run [] b = Some b"
| "battery_run (raw # raws) b = do { b' \<leftarrow> battery_update raw b; battery_run raws b' }"

lemma battery_update_config:
  "battery_update raw b = Some b' \<Longrightarrow> ba_minMv b' = ba_minMv b \<and> ba_maxMv b' = ba_maxMv b"
  by (auto simp: battery_update_def Let_def split: bind_splits)

lemma battery_run_inv:
  assumes "battery_inv b" and "0 < unat (ba_adcBits b)" "unat (ba_adcBits b) < 32" and "raws \<noteq> []"
  shows "\<exists>b'. battery_run raws b = Some b' \<and> battery_inv b' \<and> 0 < ba_sampleCount b' \<and>
    ba_minMv b' = ba_minMv b \<and> ba_maxMv b' = ba_maxMv b"
  using assms
proof (induction raws arbitrary: b)
  case (Cons raw raws)
  obtain b1 where b1: "battery_update raw b = Some b1" "battery_inv b1" "ba_adcBits b1 = ba_adcBits b" "0 < ba_sampleCount b1"
    using battery_update_inv [OF Cons.prems(1-3)] by blast
  note cfg = battery_update_config [OF b1(1)]
  show ?case
  proof (cases "raws = []")
    case True
    with b1 cfg show ?thesis by simp
  next
    case False
    with Cons.IH [OF b1(2)] b1 cfg Cons.prems(2,3) show ?thesis by simp
  qed
qed simp

lemma sum_list_above:
  assumes "n \<le> length xs" "\<forall>i < length xs. n \<le> i \<longrightarrow> xs ! i = (0 :: u16)"
  shows "sum_list (map unat xs) = sum_list (map unat (take n xs))"
proof -
  have "drop n xs = replicate (length xs - n) 0" using assms by (auto simp: list_eq_iff_nth_eq)
  then have "sum_list (map unat (drop n xs)) = 0" by (simp add: sum_list_replicate)
  moreover have "map unat xs = map unat (take n xs) @ map unat (drop n xs)" by (simp flip: map_append)
  ultimately show ?thesis by (metis add_0_right sum_list_append)
qed

lemma sum_list_between:
  assumes "\<forall>x \<in> set xs. lo \<le> x \<and> x \<le> (hi :: u16)"
  shows "unat lo * length xs \<le> sum_list (map unat xs) \<and> sum_list (map unat xs) \<le> unat hi * length xs"
  using assms by (induction xs) (auto simp: word_le_nat_alt)

text \<open>The running sum is the sum of the samples taken, so their average lies within the calibrated
  range.\<close>

lemma average_between:
  assumes inv: "battery_inv b" and ne: "0 < ba_sampleCount b"
  shows "unat (ba_sampleSum b) = sum_list (map unat (take (unat (ba_sampleCount b)) (ba_circular b))) \<and>
    unat (ba_minMv b) \<le> unat (ba_sampleSum b) div unat (ba_sampleCount b) \<and>
    unat (ba_sampleSum b) div unat (ba_sampleCount b) \<le> unat (ba_maxMv b)"
proof -
  let ?n = "unat (ba_sampleCount b)" and ?xs = "take (unat (ba_sampleCount b)) (ba_circular b)"
  have len: "length (ba_circular b) = 32" "?n \<le> 32" "0 < ?n"
    using inv ne by (auto simp: battery_inv_def word_less_nat_alt word_le_nat_alt)
  have s: "unat (ba_sampleSum b) = sum_list (map unat ?xs)"
    using sum_list_above [of ?n "ba_circular b"] inv len by (simp add: battery_inv_def)
  have "\<forall>x \<in> set ?xs. ba_minMv b \<le> x \<and> x \<le> ba_maxMv b"
    using inv len by (auto simp: battery_inv_def in_set_conv_nth)
  from sum_list_between [OF this] have b: "unat (ba_minMv b) * ?n \<le> unat (ba_sampleSum b)"
    "unat (ba_sampleSum b) \<le> unat (ba_maxMv b) * ?n" using s len by simp_all
  have "unat (ba_minMv b) \<le> unat (ba_sampleSum b) div ?n" using div_le_mono [OF b(1), of ?n] len by simp
  moreover have "unat (ba_sampleSum b) div ?n \<le> unat (ba_maxMv b)" using div_le_mono [OF b(2), of ?n] len by simp
  ultimately show ?thesis using s by simp
qed

text \<open>The percentage is defined and at most 100.\<close>

lemma percentage_total:
  assumes inv: "battery_inv b" and ne: "0 < ba_sampleCount b" and range: "ba_minMv b < ba_maxMv b"
  shows "\<exists>p. percentage b = Some p \<and> p \<le> 100"
proof -
  let ?n = "unat (ba_sampleCount b)"
  let ?avg = "ucast (ba_sampleSum b div ucast (ba_sampleCount b)) :: u16"
  consider "?avg \<le> ba_minMv b" | "ba_maxMv b \<le> ?avg" | "ba_minMv b < ?avg" "?avg < ba_maxMv b" by fastforce
  then show ?thesis
  proof cases
    case 3
    let ?d = "?avg - ba_minMv b" and ?r = "ba_maxMv b - ba_minMv b"
    have d: "unat ?d = unat ?avg - unat (ba_minMv b)" using 3(1) by (simp add: unat_sub word_le_nat_alt word_less_nat_alt)
    have r: "unat ?r = unat (ba_maxMv b) - unat (ba_minMv b)" using range by (simp add: unat_sub word_le_nat_alt word_less_nat_alt)
    have lt: "unat ?d < unat ?r" using d r 3 by (simp add: word_less_nat_alt)
    define x where "x = ?d"
    have "unat x * 100 < 4294967296" using unat_u16_le [of x] by linarith
    then have "unat (ucast x * 100 :: u32) = unat x * 100" by (subst unat_u32_mult) simp_all
    then have m: "unat (ucast ?d * 100 :: u32) = unat ?d * 100" by (simp only: x_def)
    have q: "unat ((ucast ?d * 100 :: u32) div ucast ?r) = unat ?d * 100 div unat ?r" by (simp add: unat_div m)
    have "unat ?d * 100 div unat ?r \<le> unat ?r * 100 div unat ?r" using lt by (intro div_le_mono mult_le_mono1) simp
    also have "\<dots> = 100" using lt by simp
    finally have le: "unat ((ucast ?d * 100 :: u32) div ucast ?r) \<le> 100" using q by simp
    have "unat (ucast ((ucast ?d * 100 :: u32) div ucast ?r) :: u8) \<le> 100"
      using le by (simp add: unsigned_ucast_eq take_bit_nat_eq_self)
    moreover have "percentage b = Some (ucast ((ucast ?d * 100 :: u32) div ucast ?r))"
      using 3 ne range by (auto simp: percentage_def Let_def)
    ultimately show ?thesis by (simp add: word_le_nat_alt)
  qed (use ne range in \<open>auto simp: percentage_def Let_def\<close>)
qed

section \<open>Sleep\<close>

record sleep_mgr =
  sl_timeoutMs :: u32
  sl_lastActivityTs :: u32
  sl_sleepRequested :: bool

definition sleep_new :: sleep_mgr where
  "sleep_new = \<lparr>sl_timeoutMs = 300000, sl_lastActivityTs = 0, sl_sleepRequested = False\<rparr>"

definition sleep_configure :: "u32 \<Rightarrow> sleep_mgr \<Rightarrow> sleep_mgr" where
  "sleep_configure timeoutMs s = s\<lparr>sl_timeoutMs := timeoutMs\<rparr>"

definition sleep_update :: "bool \<Rightarrow> u32 \<Rightarrow> sleep_mgr \<Rightarrow> bool \<times> sleep_mgr" where
  "sleep_update anyActivity now s =
     (if anyActivity then (False, s\<lparr>sl_lastActivityTs := now, sl_sleepRequested := False\<rparr>)
      else if sl_sleepRequested s then (False, s)
      else if now - sl_lastActivityTs s \<ge> sl_timeoutMs s then (True, s\<lparr>sl_sleepRequested := True\<rparr>)
      else (False, s))"

fun sleep_run :: "sleep_mgr \<Rightarrow> (bool \<times> u32) list \<Rightarrow> bool list \<times> sleep_mgr" where
  "sleep_run s [] = ([], s)"
| "sleep_run s ((act, now) # evs) =
     (case sleep_update act now s of (r, s') \<Rightarrow> (case sleep_run s' evs of (rs, s'') \<Rightarrow> (r # rs, s'')))"

text \<open>Between two activities sleep is requested at most once, and only after the timeout.\<close>

lemma sleep_run_idle:
  assumes "sleep_run s (map (Pair False) ts) = (rs, s')"
  shows "length (filter id rs) \<le> (if sl_sleepRequested s then 0 else 1) \<and>
    (sl_sleepRequested s' \<longleftrightarrow> sl_sleepRequested s \<or> (\<exists>t \<in> set ts. t - sl_lastActivityTs s \<ge> sl_timeoutMs s))"
  using assms
proof (induction ts arbitrary: s rs)
  case (Cons t ts)
  obtain r s1 where u: "sleep_update False t s = (r, s1)" by fastforce
  obtain rs1 where r: "sleep_run s1 (map (Pair False) ts) = (rs1, s')" "rs = r # rs1"
    using Cons.prems u by (auto split: prod.splits)
  from Cons.IH [OF r(1)] u r(2) show ?case by (auto simp: sleep_update_def split: if_splits)
qed simp

end
