(* ===== verification/Boot.thy ===== *)
theory Boot
  imports Keyboard Persist
begin

text \<open>
  \<open>BootCoordinator\<close> of \<open>src/VIA_STM32F1_Boot.h\<close> and \<open>src/VIA_STM32F1_Boot.cpp\<close>: the sequence
  that ends in the system memory bootloader.  The jump does not return; it is an outcome of its
  own, with the stack pointer and the entry point read from system memory.
\<close>

datatype boot_state = BIdle | BDirtySave | BKeyboardRelease | BViaRelease | BDetach | BJump

record ('s, 'c, 't, 'h) boot =
  bc_protocol :: "('s, 'c, 't) protocol"
  bc_hid :: 'h
  bc_state :: boot_state

datatype ('s, 'c, 't, 'h) boot_outcome = Running "('s, 'c, 't, 'h) boot" | Jumped u32 u32 "('s, 'c, 't, 'h) boot"

definition boot_new :: "('s, 'c, 't) protocol \<Rightarrow> 'h \<Rightarrow> ('s, 'c, 't, 'h) boot" where
  "boot_new p h = \<lparr>bc_protocol = p, bc_hid = h, bc_state = BIdle\<rparr>"

definition boot_request :: "('s, 'c, 't, 'h) boot \<Rightarrow> bool \<times> ('s, 'c, 't, 'h) boot" where
  "boot_request b = (if bc_state b \<noteq> BIdle then (False, b) else (True, b\<lparr>bc_state := BDirtySave\<rparr>))"

definition boot_active :: "('s, 'c, 't, 'h) boot \<Rightarrow> bool" where
  "boot_active b \<longleftrightarrow> bc_state b \<noteq> BIdle"

definition loadSystemMemoryVector :: "(u32 \<Rightarrow> u32) \<Rightarrow> u32 \<times> u32" where
  "loadSystemMemoryVector mem = (mem 0x1FFFF000, mem (0x1FFFF000 + 4))"

definition boot_save ::
  "('s, 'c, 't) deps \<Rightarrow> 'h hid_vt \<Rightarrow> ('s, 'c, 't, 'h) boot \<Rightarrow> ('s, 'c, 't, 'h) boot option" where
  "boot_save d hv b = do {
     (ok, p) \<leftarrow> (if p_dirty (bc_protocol b) then save d (bc_protocol b) else Some (True, bc_protocol b));
     if \<not> ok then Some (b\<lparr>bc_protocol := p, bc_state := BIdle\<rparr>)
     else
       let h = (if hid_configured hv (bc_hid b) then snd (hid_send hv (bc_hid b) empty_report) else bc_hid b)
       in Some (b\<lparr>bc_protocol := p, bc_hid := h, bc_state := BKeyboardRelease\<rparr>) }"

definition boot_task ::
  "('s, 'c, 't) deps \<Rightarrow> 'h hid_vt \<Rightarrow> (u32 \<Rightarrow> u32) \<Rightarrow> ('s, 'c, 't, 'h) boot \<Rightarrow> ('s, 'c, 't, 'h) boot_outcome option" where
  "boot_task d hv mem b =
     (case bc_state b of
        BIdle \<Rightarrow> Some (Running b)
      | BDirtySave \<Rightarrow> map_option Running (boot_save d hv b)
      | BKeyboardRelease \<Rightarrow>
          if \<not> hid_configured hv (bc_hid b) then Some (Running (b\<lparr>bc_state := BViaRelease\<rparr>))
          else (case hid_sendComplete hv (bc_hid b) of
            (done, h) \<Rightarrow> Some (Running (b\<lparr>bc_hid := h, bc_state := (if done then BViaRelease else BKeyboardRelease)\<rparr>)))
      | BViaRelease \<Rightarrow> Some (Running (b\<lparr>bc_state := BDetach\<rparr>))
      | BDetach \<Rightarrow> (case loadSystemMemoryVector mem of (msp, entry) \<Rightarrow> Some (Jumped msp entry b))
      | BJump \<Rightarrow> Some (Running b))"

fun boot_run ::
  "('s, 'c, 't) deps \<Rightarrow> 'h hid_vt \<Rightarrow> (u32 \<Rightarrow> u32) \<Rightarrow> nat \<Rightarrow> ('s, 'c, 't, 'h) boot \<Rightarrow> ('s, 'c, 't, 'h) boot_outcome option" where
  "boot_run d hv mem 0 b = Some (Running b)"
| "boot_run d hv mem (Suc n) b =
     (case boot_task d hv mem b of
        Some (Running b') \<Rightarrow> boot_run d hv mem n b'
      | r \<Rightarrow> r)"

lemma save_clean: "save d p = Some (True, p') \<Longrightarrow> \<not> p_dirty p'"
  by (auto simp: save_def writeState_def Let_def split: option.splits if_splits prod.splits bind_splits)

text \<open>What holds once the state has been saved: nothing is left to write.\<close>

definition boot_saved :: "('s, 'c, 't, 'h) boot \<Rightarrow> bool" where
  "boot_saved b \<longleftrightarrow> (bc_state b \<in> {BKeyboardRelease, BViaRelease, BDetach} \<longrightarrow> \<not> p_dirty (bc_protocol b))"

lemma boot_save_saved:
  assumes clean: "\<And>p'. save d (bc_protocol b) = Some (True, p') \<Longrightarrow> \<not> p_dirty p'"
    and "boot_save d hv b = Some b'"
  shows "boot_saved b'"
  using assms by (auto simp: boot_save_def boot_saved_def Let_def split: if_splits bind_splits prod.splits)

lemma boot_task_saved:
  assumes clean: "\<And>p p'. save d p = Some (True, p') \<Longrightarrow> \<not> p_dirty p'"
    and saved: "boot_saved b" and step: "boot_task d hv mem b = Some r"
  shows "case r of Running b' \<Rightarrow> boot_saved b'
    | Jumped msp entry b' \<Rightarrow> bc_state b = BDetach \<and> b' = b \<and> \<not> p_dirty (bc_protocol b)"
proof (cases "bc_state b")
  case BDirtySave
  then obtain b' where "boot_save d hv b = Some b'" "r = Running b'" using step by (auto simp: boot_task_def)
  with boot_save_saved [OF clean] show ?thesis by auto
qed (use step saved in \<open>auto simp: boot_task_def boot_saved_def loadSystemMemoryVector_def split: if_splits prod.splits\<close>)

text \<open>The jump is never taken with unsaved state.\<close>

lemma boot_run_saved:
  assumes clean: "\<And>p p'. save d p = Some (True, p') \<Longrightarrow> \<not> p_dirty p'"
    and saved: "boot_saved b" and run: "boot_run d hv mem n b = Some (Jumped msp entry b')"
  shows "\<not> p_dirty (bc_protocol b')"
  using saved run
proof (induction n arbitrary: b)
  case (Suc n)
  obtain r where r: "boot_task d hv mem b = Some r" using Suc.prems(2) by (auto split: option.splits)
  have s: "case r of Running b' \<Rightarrow> boot_saved b'
    | Jumped msp entry b' \<Rightarrow> bc_state b = BDetach \<and> b' = b \<and> \<not> p_dirty (bc_protocol b)"
    by (rule boot_task_saved [OF _ Suc.prems(1) r]) (rule clean)
  show ?case
  proof (cases r)
    case (Running b1)
    with s r Suc show ?thesis by simp
  next
    case (Jumped m e b1)
    with s r Suc.prems(2) show ?thesis by simp
  qed
qed simp

text \<open>With a host that completes its transfers the jump follows four tasks after the save.\<close>

lemma boot_run_jumps:
  assumes dirty: "bc_state b = BDirtySave" and saved: "boot_save d hv b = Some b1" "bc_state b1 = BKeyboardRelease"
    and host: "hid_configured hv (bc_hid b1) \<Longrightarrow> fst (hid_sendComplete hv (bc_hid b1))"
  shows "\<exists>b2. boot_run d hv mem 4 b = Some (Jumped (mem 0x1FFFF000) (mem 0x1FFFF004) b2) \<and>
    bc_protocol b2 = bc_protocol b1"
proof -
  obtain dn h where h: "hid_sendComplete hv (bc_hid b1) = (dn, h)" by fastforce
  show ?thesis
    using assms h
    by (cases "hid_configured hv (bc_hid b1)")
       (simp_all add: numeral_eq_Suc boot_task_def loadSystemMemoryVector_def)
qed

lemma boot_save_fails:
  assumes "bc_state b = BDirtySave" "p_dirty (bc_protocol b)" "save d (bc_protocol b) = Some (False, p)"
  shows "boot_task d hv mem b = Some (Running (b\<lparr>bc_protocol := p, bc_state := BIdle\<rparr>))"
  using assms by (simp add: boot_task_def boot_save_def)

end
