(* ===== verification/Demo_Platform.thy ===== *)
theory Demo_Platform
  imports Demo Demo_Keyboard Flash_Protocol Flash_Power Fs_Facts Usb_Device Ble_Session Encoder Power_State Boot
begin

text \<open>
  The stores and devices the witnesses of theory \<open>Platform_Theorems\<close> use: the simulated flash of
  the tests freshly started, the small keyboard on it, a file store of two bytes on the fake file
  system, a USB device stack that accepts everything, and a Bluetooth transport with a peer.
\<close>

definition sim_started :: "sim_flash flash_storage" where
  "sim_started = snd (flash_begin sim_vt (flash_new sim_fresh))"

lemma sim_starts: "flash_begin sim_vt (flash_new sim_fresh) = (True, sim_started)"
  using sim_fresh_started by (simp add: sim_started_def prod_eq_iff)

lemma sim_fresh_length: "length sim_fresh = kRegionSize" by (simp add: sim_fresh_def)

definition flash_demo :: "(sim_flash flash_storage, rgb_light, memory_transport) protocol" where
  "flash_demo = (demo_with memory_transport_new (Some sim_started))\<lparr>p_customValue := None, p_dirty := True\<rparr>"

definition flash_deps :: "(sim_flash flash_storage, rgb_light, memory_transport) deps" where
  "flash_deps = light_deps (flash_storage_vt sim_vt) memory_transport_vt"

text \<open>A store of two bytes on the fake file system, empty and failing.\<close>

definition tiny_files :: "bool \<Rightarrow> fake_fs" where
  "tiny_files broken = \<lparr>ff_files = Map.empty, ff_handles = Map.empty, ff_next = 0, ff_beginOk = True, ff_writeFail = broken, ff_corrupt = False\<rparr>"

definition tiny_fs :: "bool \<Rightarrow> fake_fs fs_storage" where
  "tiny_fs broken = (fs_new [3, 4] 2 (tiny_files broken))\<lparr>if_initialized := True\<rparr>"

lemma tiny_fs_synced: "fs_synced (ff_files (if_fs (tiny_fs broken))) (tiny_fs broken)"
  by (simp add: fs_synced_def fs_inv_def gen_parity_def chosen_gen_def chosen_def choose_file_def file_gen_def
      tiny_fs_def tiny_files_def fs_new_def)

text \<open>The fake with reading broken: a commit writes its record and cannot read it back.\<close>

definition blind_littlefs :: "fake_fs littlefs" where
  "blind_littlefs = calm_littlefs\<lparr>lf_open := (\<lambda>f name w. if w then fake_fs_open f name w else (None, f))\<rparr>"

lemma blind_faults: "file_faults blind_littlefs ff_files ff_handles"
proof
  fix f :: fake_fs and h name pos n and bs :: "u8 list"
  assume "ff_handles f h = Some (name, pos, False)" "ff_files f name = Some bs"
  then show "\<exists>k f'. lf_read blind_littlefs f h n = (take k (take n (drop pos bs)), f') \<and> ff_files f' = ff_files f \<and>
      ff_handles f' h = Some (name, pos + length (take k (take n (drop pos bs))), False)"
    by (intro exI [of _ n]) (simp add: blind_littlefs_def calm_littlefs_def fake_littlefs_def fake_fs_read_def Let_def)
qed (auto simp: blind_littlefs_def calm_littlefs_def fake_littlefs_def fake_fs_open_def fake_fs_write_def Let_def split: if_splits)

lemma blind_commit:
  "\<exists>s'. fs_commit blind_littlefs (tiny_fs False) = (False, s') \<and> lf_begin calm_littlefs (if_fs s') = (True, if_fs s') \<and>
     ff_files (if_fs s') (inactive_file 1) = Some (fs_record (tiny_fs False))"
  by (simp add: fs_commit_def write_record_def verify_record_def tiny_fs_def tiny_files_def fs_new_def fs_record_def
      blind_littlefs_def calm_littlefs_def fake_littlefs_def fake_fs_open_def fake_fs_write_def Let_def)

definition appended_fs :: "fake_fs fs_storage" where
  "appended_fs = (fs_new [3, 4] 2 ((tiny_files False)\<lparr>ff_files := [kFileA \<mapsto> record_header kFsMagic 1 2 0 @ [3, 4]]\<rparr>))
     \<lparr>if_initialized := True, if_activeGeneration := 2\<rparr>"

text \<open>A device stack that starts and accepts everything.\<close>

definition tiny_usb :: "unit usb_ll" where
  "tiny_usb = \<lparr>ll_init = Pair True, ll_start = Pair True, ll_transmit = (\<lambda>l _ _. (True, l)),
     ll_prepareReceive = (\<lambda>l _ _. l), ll_ctlReceiveData = (\<lambda>l _. l), ll_ctlSendData = (\<lambda>l _. l)\<rparr>"

definition tiny_device :: "bool \<Rightarrow> unit usb_world" where
  "tiny_device busy = \<lparr>uw_active = Some 0, uw_dev = (\<lambda>_. usb_device_new\<lparr>ud_configured := True, ud_kb_tx_busy := busy\<rparr>), uw_ll = ()\<rparr>"

text \<open>A Bluetooth library with one peer, and the transport it serves.\<close>

definition linked_gatt :: "unit nimble_gatt" where
  "linked_gatt = \<lparr>ng_connectedCount = (\<lambda>_. 1), ng_setServerCallbacks = (\<lambda>n. n), ng_createService = (\<lambda>n. (True, n)),
     ng_createCharacteristic = (\<lambda>n _. (True, n)), ng_setValue = (\<lambda>n _ _. n), ng_notify = (\<lambda>n _ _. (True, n)), ng_mutexTake = (\<lambda>_. True)\<rparr>"

definition linked_transport :: "unit ble_transport" where
  "linked_transport = (ble_transport_new True (Some True) ())\<lparr>bt_server := True, bt_ff61 := True\<rparr>"

end
