(* ===== verification/Platform_Theorems.thy ===== *)
theory Platform_Theorems
  imports Demo_Platform
begin

text \<open>
  The properties of the platform parts: the flash and file stores, encoder and battery, the
  bootloader sequence, and the USB and Bluetooth links.
\<close>

section \<open>The flash store of the STM32F1\<close>

text \<open>C9. Durability on flash: on any NOR flash, after \<open>begin\<close> the sequence erase, write of a payload
  and commit succeeds, and a restart on the resulting flash reads exactly that payload.\<close>
theorem flash_update_durable:
  assumes nor: "nor_flash fv cells finv" and f: "finv f"
    and start: "flash_begin fv (flash_new f) = (True, s)" and len: "length payload = kPayloadSize"
  shows "\<exists>s1 s2 s3. flash_erase fv s = (True, s1) \<and> flash_write fv s1 0 payload = (True, s2) \<and>
    flash_commit fv s2 = (True, s3) \<and>
    (\<forall>off buf. buf \<noteq> [] \<and> off + length buf \<le> kPayloadSize \<longrightarrow>
       after_restart fv (fs_flash s3) off buf = Some (take (length buf) (drop off payload)))"
proof -
  have st: "nor_flash.flash_started cells finv s" using nor_flash.begin_started [OF nor f start] by blast
  obtain s1 s2 s3 where u: "flash_erase fv s = (True, s1)" "flash_write fv s1 0 payload = (True, s2)"
    "flash_commit fv s2 = (True, s3)" "nor_flash.flash_started cells finv s3"
    "nor_flash.restart_payload cells (fs_flash s3) = Some payload"
    using nor_flash.flash_update [OF nor st len] by blast
  have "finv (fs_flash s3)" using u(4) by (simp add: nor_flash.flash_started_def [OF nor])
  from nor_flash.after_restart_eq [OF nor this] u show ?thesis by auto
qed

lemma flash_update_durable_witness:
  "\<exists>s1 s2 s3. flash_erase sim_vt sim_started = (True, s1) \<and> flash_write sim_vt s1 0 (replicate kPayloadSize 7) = (True, s2) \<and>
    flash_commit sim_vt s2 = (True, s3) \<and> after_restart sim_vt (fs_flash s3) 4 [0, 0] = Some [7, 7]"
proof -
  have b: "[0, 0] \<noteq> ([] :: u8 list) \<and> 4 + length [0 :: u8, 0] \<le> kPayloadSize" by (simp add: kPayloadSize_def)
  have t: "take (length [0 :: u8, 0]) (drop 4 (replicate kPayloadSize 7)) = [7, 7 :: u8]"
    by (simp add: kPayloadSize_def drop_replicate take_replicate numeral_2_eq_2)
  from flash_update_durable [OF sim.nor_flash_axioms sim_fresh_length sim_starts, of "replicate kPayloadSize 7"] b t
  show ?thesis by (auto simp del: length_Cons)
qed

text \<open>C20. Power cuts: the supply lasts for \<open>n\<close> steps, each the erase of a page or the programming of
  a byte, and an update runs over it: \<open>erase\<close>, \<open>write\<close> of a payload and \<open>commit\<close>.  If the supply
  lasts for all of them (two pages, the payload, the header and the commit marker) a restart reads the
  new payload; if it ends at any earlier point, between the two page erases, inside the payload, inside
  the header or before the marker, a restart reads exactly what it would have read before the update.
  The device holds a valid record at the beginning.  A single byte and a single page are not torn.\<close>
theorem flash_power_cut_keeps_old:
  assumes nor: "nor_flash fv cells finv" and f: "finv f" and start: "flash_begin fv (flash_new f) = (True, s)"
    and old: "fst (validateSlot fv f (fs_activeSlot s)) \<noteq> None" and len: "length payload = kPayloadSize"
    and run: "flash_begin (power_vt fv) (flash_new (f, n)) = (b, s1)" "flash_replace (power_vt fv) payload s1 = (ok, s2)"
    and buf: "buf \<noteq> []" "off + length buf \<le> kPayloadSize"
  shows "after_restart fv (fst (fs_flash s2)) off buf =
      (if 2 + kPayloadSize + 12 + 1 \<le> n then Some (take (length buf) (drop off payload)) else after_restart fv f off buf) \<and>
    after_restart fv f off buf \<noteq> None"
proof -
  have st: "nor_flash.flash_started cells finv s" and fs: "fs_flash s = f" using nor_flash.begin_started [OF nor f start] by blast+
  have v: "fst (slot_state (cells (fs_flash s)) (fs_activeSlot s)) \<noteq> None"
    using old nor_flash.validateSlot_state [OF nor st] fs by simp
  have "s1 = lift_power n s" using power_begin [OF start] run(1) by simp
  then have l: "left_over fv payload n s = fst (fs_flash s2)" using run(2) by (simp add: left_over_def)
  have "nor_flash.restart_payload cells f \<noteq> None"
    using st by (auto simp: nor_flash.flash_started_def [OF nor] nor_flash.restart_payload_def [OF nor] fs)
  then have o: "after_restart fv f off buf \<noteq> None" using nor_flash.after_restart_eq [OF nor f buf] by simp
  show ?thesis
  proof (cases "kUpdateCost \<le> n")
    case True
    then show ?thesis
      using nor_flash.enough_power_updates [OF nor st len True] nor_flash.after_restart_eq [OF nor _ buf] l o
      by (simp add: kUpdateCost_def)
  next
    case False
    then have "nor_flash.harmless cells finv s (fst (fs_flash s2))"
      using nor_flash.power_cut_harmless [OF nor st len, of n] l by simp
    from nor_flash.harmless_restart [OF nor st v this] False show ?thesis
      using nor_flash.after_restart_eq [OF nor _ buf] f fs o by (simp add: kUpdateCost_def)
  qed
qed

lemma flash_power_cut_keeps_old_witness:
  "\<exists>f s1 ok s2. flash_begin (power_vt sim_vt) (flash_new (f, 1000)) = (True, s1) \<and>
    flash_replace (power_vt sim_vt) (replicate kPayloadSize 9) s1 = (ok, s2) \<and>
    after_restart sim_vt (fst (fs_flash s2)) 4 [0, 0] = after_restart sim_vt f 4 [0, 0] \<and> after_restart sim_vt f 4 [0, 0] \<noteq> None"
proof -
  have st0: "sim.flash_started sim_started" using sim_fresh_started by (simp add: sim_started_def)
  obtain s where s: "sim.flash_started s" "fst (slot_state (sim_cells (fs_flash s)) (fs_activeSlot s)) \<noteq> None"
    using sim.flash_update [OF st0, of "replicate kPayloadSize 7"] by auto
  let ?t = "flash_new (fs_flash s)\<lparr>fs_activeSlot := fs_activeSlot s, fs_activeSeq := fs_activeSeq s, fs_activeValid := True\<rparr>"
  have len: "length (fs_flash s) = kRegionSize" using s(1) by (simp add: sim.flash_started_def)
  have start: "flash_begin sim_vt (flash_new (fs_flash s)) = (True, ?t)"
    using sim.flash_begin_selects [of "flash_new (fs_flash s)"] s(1) by (simp add: sim.flash_started_def flash_new_def)
  have v: "fst (validateSlot sim_vt (fs_flash s) (fs_activeSlot ?t)) \<noteq> None" using sim.validateSlot_state [OF s(1)] s(2) by simp
  have b: "[0, 0] \<noteq> ([] :: u8 list)" "4 + length [0 :: u8, 0] \<le> kPayloadSize" by (simp_all add: kPayloadSize_def)
  obtain ok s2 where run: "flash_replace (power_vt sim_vt) (replicate kPayloadSize 9) (lift_power 1000 ?t) = (ok, s2)" by fastforce
  note p = power_begin [OF start, of 1000]
  have "after_restart sim_vt (fst (fs_flash s2)) 4 [0, 0] = after_restart sim_vt (fs_flash s) 4 [0, 0] \<and>
      after_restart sim_vt (fs_flash s) 4 [0, 0] \<noteq> None"
    using flash_power_cut_keeps_old [OF sim.nor_flash_axioms len start v length_replicate p run b] by (simp add: kPayloadSize_def)
  with run p show ?thesis by blast
qed

text \<open>C37. Saving to flash: \<open>save\<close> does not erase first and \<open>FlashStorage::write\<close> refuses until then, so
  that on a store as \<open>begin\<close> leaves it every \<open>save\<close> reports failure, changes nothing and leaves
  the state dirty; without a custom value \<open>save\<close> does return.\<close>
theorem flash_store_never_saves:
  assumes vt: "d_storage d = flash_storage_vt fv" and start: "flash_begin fv (flash_new f) = (True, s)"
    and p: "p_storage p = Some s" "wf_protocol p"
  shows "(\<forall>ok p'. save d p = Some (ok, p') \<longrightarrow> \<not> ok \<and> p_dirty p' = p_dirty p \<and> p_storage p' = Some s) \<and>
    (p_customValue p = None \<longrightarrow> save d p \<noteq> None)"
proof -
  have np: "\<not> fs_provisionalReady s"
    using start by (auto simp: flash_begin_def flash_new_def split: option.splits)
  have "save d p \<noteq> None" if nc: "p_customValue p = None"
  proof (cases "stateBytes d p")
    case (Some bn)
    then obtain bytes where bn: "bn = (bytes, 0)"
      using nc by (auto simp: stateBytes_def Let_def split: if_splits)
    have w: "write_seq (flash_storage_vt fv) s (state_writes p b cs crc km em ma) = (False, s)" for b cs crc km em ma
      using np by (simp add: state_writes_def Let_def flash_storage_vt_def flash_write_def)
    have "stateCrc p [] 0 \<noteq> None" using stateCrc_eq [OF p(2), of "[]" 0] by simp
    moreover have "mem_read (bytes16 (p_keymap p)) 0 (keymapBytes (p_config p)) \<noteq> None"
      "mem_read (bytes16 (p_encoderMap p)) 0 (encoderMapBytes (p_config p)) \<noteq> None"
      "mem_read (p_macros p) 0 (unat (cfg_macroBytes (p_config p))) \<noteq> None"
      using p(2) by (simp_all add: wf_protocol_def mem keymapBytes_def)
    ultimately show ?thesis using Some bn p(1) vt w by (auto simp: save_def writeState_def)
  qed (simp add: save_def writeState_def p(1))
  then show ?thesis using flash_save_fails [OF vt p(1) np] p(1) by auto
qed

lemma flash_store_never_saves_witness:
  "\<exists>p'. save flash_deps flash_demo = Some (False, p') \<and> p_dirty p'"
proof -
  have "wf_protocol flash_demo" by (simp add: flash_demo_def wf_protocol_def kPacketSize_def)
  then have "(\<forall>ok p'. save flash_deps flash_demo = Some (ok, p') \<longrightarrow> \<not> ok \<and> p_dirty p' = p_dirty flash_demo \<and>
      p_storage p' = Some sim_started) \<and> (p_customValue flash_demo = None \<longrightarrow> save flash_deps flash_demo \<noteq> None)"
    by (intro flash_store_never_saves [OF _ sim_starts]) (simp_all add: flash_deps_def flash_demo_def)
  then show ?thesis by (auto simp: flash_demo_def)
qed

text \<open>Factory reset on flash: the store phase of \<open>factoryReset\<close> writes its header twice, first
  with a CRC of zero; NOR flash cannot set bits again, so it fails for every payload whose CRC is
  not zero.\<close>
theorem flash_store_never_resets:
  assumes nor: "nor_flash fv cells finv" and f: "finv f" and start: "flash_begin fv (flash_new f) = (True, s)"
    and len: "payload \<noteq> []" "kHeaderSize + length payload \<le> kPayloadSize" and crc: "crc32_bytes 0xFFFFFFFF payload \<noteq> - 1"
  shows "fst (reset_store (flash_storage_vt fv) s payload bytes) = False"
proof -
  have st: "nor_flash.flash_started cells finv s" using nor_flash.begin_started [OF nor f start] by blast
  have "NOT (crc32_bytes 0xFFFFFFFF payload) \<noteq> 0" using crc by (metis bit.double_compl bit.compl_zero)
  from nor_flash.flash_reset_fails [OF nor st len this] show ?thesis .
qed

lemma flash_store_never_resets_witness: "fst (reset_store (flash_storage_vt sim_vt) sim_started [1] 1) = False"
proof -
  have "crc32_bytes 0xFFFFFFFF [1] \<noteq> - 1" by code_simp
  then show ?thesis
    by (intro flash_store_never_resets [OF sim.nor_flash_axioms sim_fresh_length sim_starts])
       (simp_all add: kHeaderSize_def kPayloadSize_def)
qed

section \<open>The file store of the nRF52\<close>



text \<open>Files opened at their end: over a library whose open for writing keeps the content, a commit
  whose file already holds a record of another generation fails, which is every commit from the
  third on.\<close>
theorem internalfs_append_stuck:
  assumes "file_append lf files handle" and "files (if_fs s) (inactive_file (if_activeGeneration s + 1)) = Some old"
    and "kRecordHeader \<le> length old" and "rh_generation (take kRecordHeader old) \<noteq> if_activeGeneration s + 1"
  shows "\<exists>s'. fs_commit lf s = (False, s')"
  using file_append.fs_commit_appended [OF assms] by (metis (full_types) prod.collapse)

lemma internalfs_append_stuck_witness: "\<exists>s'. fs_commit append_littlefs appended_fs = (False, s')"
proof -
  have "inactive_file 3 = kFileA" by (simp add: inactive_file_def)
  moreover have "take kRecordHeader (record_header kFsMagic 1 2 0 @ [3, 4]) = record_header kFsMagic 1 2 0" by simp
  ultimately show ?thesis
    by (intro internalfs_append_stuck [OF append_lf.file_append_axioms, where old = "record_header kFsMagic 1 2 0 @ [3, 4]"])
       (simp_all add: appended_fs_def fs_new_def record_header_fields)
qed

section \<open>Encoder and battery\<close>

text \<open>C17. The encoder: for a shaft that moves by at most one quarter step per sample, no faster than
  the debounce time, the count is the distance travelled in quarter steps divided by four, rounded
  towards zero, as long as it fits into 32 bits.\<close>
theorem encoder_counts_detents:
  assumes "tracks e start pos" and "smooth (en_debounceUs e) pos (en_lastChangeTs e) ps" and "ps \<noteq> []"
    and "-(2 ^ 31) \<le> fst (last ps) - start" "fst (last ps) - start < 2 ^ 31"
  shows "encoder_count (encoder_run e ps) = (fst (last ps) - start) sdiv 4"
proof -
  have "en_steps (encoder_run e ps) = of_int (fst (last ps) - start)"
    using run_tracks [OF assms(1,2)] assms(3) by (simp add: tracks_def)
  moreover have "sint (of_int d :: u32) = d" if "-(2 ^ 31) \<le> d" "d < 2 ^ 31" for d
    using that by (simp add: signed_of_int signed_take_bit_int_eq_self)
  ultimately show ?thesis using assms(4,5) by (simp only: encoder_count_def)
qed

lemma encoder_counts_detents_witness:
  "encoder_count (encoder_run encoder_new [(1, 5), (2, 6), (3, 9), (4, 9), (5, 12), (4, 20), (3, 21)]) = 0"
proof -
  have "tracks encoder_new 0 0" by (simp add: tracks_def encoder_new_def pins_at_def encoder_state_def)
  from encoder_counts_detents [OF this, of "[(1, 5), (2, 6), (3, 9), (4, 9), (5, 12), (4, 20), (3, 21)]"]
  show ?thesis by (simp add: encoder_new_def)
qed

text \<open>C32. The battery: over any sequence of samples the update returns, the running 32-bit sum is the
  sum of the samples in the window, their average lies in the calibrated range, and the percentage
  is defined and at most 100.\<close>
theorem battery_average_bounded:
  assumes inv: "battery_inv b" and adc: "0 < unat (ba_adcBits b)" "unat (ba_adcBits b) < 32" and cal: "ba_minMv b < ba_maxMv b"
    and run: "raws \<noteq> []"
  shows "\<exists>b' p. battery_run raws b = Some b' \<and> percentage b' = Some p \<and> p \<le> 100 \<and>
    unat (ba_sampleSum b') = sum_list (map unat (take (unat (ba_sampleCount b')) (ba_circular b'))) \<and>
    unat (ba_minMv b) \<le> unat (ba_sampleSum b') div unat (ba_sampleCount b') \<and>
    unat (ba_sampleSum b') div unat (ba_sampleCount b') \<le> unat (ba_maxMv b)"
proof -
  obtain b' where b': "battery_run raws b = Some b'" "battery_inv b'" "0 < ba_sampleCount b'"
    "ba_minMv b' = ba_minMv b" "ba_maxMv b' = ba_maxMv b"
    using battery_run_inv [OF inv adc run] by blast
  with percentage_total [OF b'(2,3)] average_between [OF b'(2,3)] cal show ?thesis by auto
qed

lemma battery_average_bounded_witness:
  "\<exists>b' p. battery_run [4095, 3000, 4000] battery_new = Some b' \<and> percentage b' = Some p \<and> p \<le> 100"
  using battery_average_bounded [OF battery_inv_new, of "[4095, 3000, 4000]"] by (auto simp: battery_new_def)

section \<open>The bootloader jump\<close>

text \<open>C33. The bootloader: a request followed by four tasks ends in the jump to the address stored in
  system memory, with the state saved, if the save succeeds and the host takes the release report.\<close>
theorem bootloader_jump_after_save:
  assumes req: "boot_request b = (True, b0)" and sv: "boot_save d hv b0 = Some b1" "bc_state b1 = BKeyboardRelease"
    and host: "hid_configured hv (bc_hid b1) \<Longrightarrow> fst (hid_sendComplete hv (bc_hid b1))"
  shows "\<exists>b2. boot_run d hv mem 4 b0 = Some (Jumped (mem 0x1FFFF000) (mem 0x1FFFF004) b2) \<and> \<not> p_dirty (bc_protocol b2)"
proof -
  have "bc_state b0 = BDirtySave" using req by (auto simp: boot_request_def split: if_splits)
  then obtain b2 where b2: "boot_run d hv mem 4 b0 = Some (Jumped (mem 0x1FFFF000) (mem 0x1FFFF004) b2)"
    using boot_run_jumps [OF _ sv host] by blast
  have "boot_saved b0" using \<open>bc_state b0 = BDirtySave\<close> by (simp add: boot_saved_def)
  then have "\<not> p_dirty (bc_protocol b2)" by (rule boot_run_saved [OF _ _ b2, rotated]) (rule save_clean)
  with b2 show ?thesis by blast
qed

lemma bootloader_jump_after_save_witness:
  "\<exists>b2. boot_run demo_deps (ble_hid_vt tiny_ble) (\<lambda>a. a + 1) 4
     ((boot_new demo (ble_keyboard_new []))\<lparr>bc_state := BDirtySave\<rparr>) = Some (Jumped 0x1FFFF001 0x1FFFF005 b2) \<and>
    \<not> p_dirty (bc_protocol b2)"
proof -
  let ?b = "boot_new demo (ble_keyboard_new [])" and ?hv = "ble_hid_vt tiny_ble"
  have req: "boot_request ?b = (True, ?b\<lparr>bc_state := BDirtySave\<rparr>)" by (simp add: boot_request_def boot_new_def)
  have nc: "\<not> hid_configured ?hv (ble_keyboard_new [])"
    by (simp add: ble_hid_vt_def ble_hid_connected_def ble_keyboard_new_def)
  have sv: "boot_save demo_deps ?hv (?b\<lparr>bc_state := BDirtySave\<rparr>) = Some (?b\<lparr>bc_state := BKeyboardRelease\<rparr>)"
    using nc by (simp add: boot_save_def boot_new_def demo_def)
  from bootloader_jump_after_save [OF req sv, of "\<lambda>a. a + 1"] nc show ?thesis by (simp add: boot_new_def)
qed

section \<open>USB and Bluetooth\<close>

text \<open>USB buffers: in every sequence of calls, handlers and host writes the buffers of the device
  keep their sizes, and no step changes a buffer whose transmission is in flight.\<close>
theorem usb_transfers_undisturbed:
  assumes run: "(usb_step ll i)\<^sup>*\<^sup>* w w1" and step: "usb_step ll i w1 w2"
    and start: "usb_buffers (uw_dev w i)" "uw_active w = Some i"
  shows "usb_buffers (uw_dev w2 i) \<and> uw_active w2 = Some i \<and>
    (ud_kb_tx_busy (uw_dev w1 i) \<and> ud_kb_tx_busy (uw_dev w2 i) \<longrightarrow> ud_kb_buf (uw_dev w2 i) = ud_kb_buf (uw_dev w1 i)) \<and>
    (ud_via_tx_busy (uw_dev w1 i) \<and> ud_via_tx_busy (uw_dev w2 i) \<longrightarrow> ud_via_in_buf (uw_dev w2 i) = ud_via_in_buf (uw_dev w1 i))"
  using usb_step_safe [OF step] usb_run_safe [OF run start] by blast

lemma usb_transfers_undisturbed_witness:
  "ud_kb_buf (uw_dev (snd (usb_send_report tiny_usb 0 (tiny_device True) empty_report)) 0) = replicate 8 0 \<and>
   usb_buffers (uw_dev (snd (usb_send_report tiny_usb 0 (tiny_device True) empty_report)) 0)"
proof -
  let ?w = "tiny_device True" and ?w2 = "snd (usb_send_report tiny_usb 0 (tiny_device True) empty_report)"
  have "usb_step tiny_usb 0 ?w ?w2"
    by (rule usb_step.report [of _ _ _ empty_report "fst (usb_send_report tiny_usb 0 ?w empty_report)"])
       (simp_all add: empty_report_def)
  moreover have "usb_buffers (uw_dev ?w 0)" using usb_buffers_new by (simp add: usb_buffers_def tiny_device_def)
  moreover have "uw_active ?w = Some 0" by (simp add: tiny_device_def)
  ultimately have "usb_buffers (uw_dev ?w2 0) \<and> uw_active ?w2 = Some 0 \<and>
    (ud_kb_tx_busy (uw_dev ?w 0) \<and> ud_kb_tx_busy (uw_dev ?w2 0) \<longrightarrow> ud_kb_buf (uw_dev ?w2 0) = ud_kb_buf (uw_dev ?w 0)) \<and>
    (ud_via_tx_busy (uw_dev ?w 0) \<and> ud_via_tx_busy (uw_dev ?w2 0) \<longrightarrow> ud_via_in_buf (uw_dev ?w2 0) = ud_via_in_buf (uw_dev ?w 0))"
    by (intro usb_transfers_undisturbed [OF rtranclp.rtrancl_refl])
  then show ?thesis by (simp add: usb_defs tiny_device_def usb_device_new_def)
qed

text \<open>A USB reset during a transmission: the class is configured again but the busy flag stays, so
  that every keyboard report is refused and \<open>sendComplete\<close> stays false.\<close>
theorem usb_reset_wedges_keyboard:
  assumes "uw_active w = Some i" "ud_kb_tx_busy (uw_dev w i)"
    and "classDeInit w = (ok1, w1)" "classInit ll w1 = (ok2, w2)"
  shows "ud_configured (uw_dev w2 i) \<and> (\<forall>r. usb_send_report ll i w2 r = (False, w2)) \<and>
    (\<forall>leds w3. usb_takeHostLeds i w2 = (leds, w3) \<longrightarrow> (\<forall>r. usb_send_report ll i w3 r = (False, w3))) \<and>
    fst (usb_sendComplete i w2) = False"
  using assms by (auto simp: usb_defs usb_sendComplete_def)

lemma usb_reset_wedges_keyboard_witness:
  "\<exists>w1 w2. classDeInit (tiny_device True) = (True, w1) \<and> classInit tiny_usb w1 = (True, w2) \<and>
    usb_send_report tiny_usb 0 w2 empty_report = (False, w2)"
proof -
  obtain w1 where w1: "classDeInit (tiny_device True) = (True, w1)" by (simp add: classDeInit_def tiny_device_def)
  obtain w2 where w2: "classInit tiny_usb w1 = (True, w2)"
    using w1 by (auto simp: classInit_def classDeInit_def tiny_device_def upd_dev_def)
  have "uw_active (tiny_device True) = Some 0" "ud_kb_tx_busy (uw_dev (tiny_device True) 0)" by (simp_all add: tiny_device_def)
  from usb_reset_wedges_keyboard [OF this w1 w2] w1 w2 show ?thesis by blast
qed

text \<open>C31. Requests over Bluetooth, over every sequence of writes and polls, whether each obtains the mutex
  or not: the packets the main loop receives are, in order and unchanged, some of those whose handler
  obtained the mutex; and every full packet written is received, still waiting, counted in
  \<open>droppedPackets\<close> (modulo 2^32), or one of those whose handler did not obtain the mutex: these
  are lost and not counted.\<close>
theorem ble_requests_in_order:
  assumes "ble_mail_inv t" and "length buf = kPacketSize"
    and "mailbox_run (ble_onWrite True) ble_receive t buf evs = (pkts, t')"
  shows "subseq pkts (slot_list (ble_slot t) @ obtained evs) \<and> subseq (obtained evs) (written evs) \<and>
    of_nat (length (slot_list (ble_slot t)) + length (written evs)) =
      (of_nat (length pkts + length (slot_list (ble_slot t')) + missed evs) + (bt_droppedPackets t' - bt_droppedPackets t) :: u32)"
proof -
  have "subseq (pkts @ slot_list (ble_slot t')) (slot_list (ble_slot t) @ obtained evs)"
    using ble_mail.mailbox_run_subseq [OF assms] by blast
  moreover have "subseq pkts (pkts @ slot_list (ble_slot t'))" by (intro subseq_rev_drop_many) simp
  ultimately have "subseq pkts (slot_list (ble_slot t) @ obtained evs)" using subseq_order.order_trans by blast
  with ble_mail.mailbox_run_counts [OF assms] obtained_written [of evs] show ?thesis by blast
qed

lemma ble_requests_in_order_witness:
  "\<exists>t'. mailbox_run (ble_onWrite True) ble_receive (ble_transport_new True (Some True) ()) (replicate 32 0)
     [HostWrite True (replicate 32 1), HostWrite True (replicate 32 2), HostWrite False (replicate 32 3), Poll True] = ([replicate 32 1], t') \<and>
     bt_droppedPackets t' = 1"
proof -
  let ?t = "ble_transport_new True (Some True) ()"
  let ?evs = "[HostWrite True (replicate 32 1), HostWrite True (replicate 32 2), HostWrite False (replicate 32 3), Poll True]"
  have inv: "ble_mail_inv ?t" by (simp add: ble_mail_inv_def ble_transport_new_def)
  have sz: "length (replicate 32 (0 :: u8)) = kPacketSize" by (simp add: kPacketSize_def)
  obtain t' where r: "mailbox_run (ble_onWrite True) ble_receive ?t (replicate 32 0) ?evs = ([replicate 32 1], t')"
    "ble_slot t' = None"
    by (simp add: ble_onWrite_def ble_receive_def ble_transport_new_def kPacketSize_def overwrite_all ble_slot_def)
  note c = ble_requests_in_order [OF inv sz r(1)]
  have "bt_droppedPackets t' = 1" using c r(2) by (simp add: ble_slot_def ble_transport_new_def kPacketSize_def)
  with r(1) show ?thesis by auto
qed

text \<open>C38. The end of a connection on the ESP32: a disconnect that obtains the mutex discards the request
  that waits, so that the next task of a quiet protocol processes and sends nothing; but a reply
  that is owed stays in the protocol, and whatever the peers do in between, the first send the
  library accepts on the next connection carries that reply.\<close>
theorem ble_reply_outlives_connection:
  assumes loop: "protocol_loop d sinv view cinv csize" and d: "d_transport d = ble_transport_vt ng"
    and inv: "task_inv sinv cinv p" and active: "bt_active (p_transport p) = Some True"
  shows "(phase_of p = Quiet \<longrightarrow> (\<exists>p'. protocol_task d (p\<lparr>p_transport := nimble_handle (PeerGone True) (p_transport p)\<rparr>) now = Some p' \<and>
      phase_of p' = Quiet \<and> bt_stack (p_transport p') = bt_stack (p_transport p))) \<and>
    (\<forall>r b es n. phase_of p = Owes r b \<and> fst (ble_send ng ((nimble_events (es @ [PeerGone True]) (p_transport p))\<lparr>bt_stack := n\<rparr>) r) \<longrightarrow>
      (\<exists>p'. protocol_task d (p\<lparr>p_transport := (nimble_events (es @ [PeerGone True]) (p_transport p))\<lparr>bt_stack := n\<rparr>\<rparr>) now = Some p' \<and>
        phase_of p' = Quiet \<and>
        p_transport p' = snd (ble_send ng ((nimble_events (es @ [PeerGone True]) (p_transport p))\<lparr>bt_stack := n\<rparr>) r)))"
proof (intro conjI impI allI; (elim conjE)?)
  let ?t = "nimble_handle (PeerGone True) (p_transport p)"
  assume "phase_of p = Quiet"
  then have q: "phase_of (p\<lparr>p_transport := ?t\<rparr>) = Quiet" by simp
  have i: "task_inv sinv cinv (p\<lparr>p_transport := ?t\<rparr>)" using inv by (simp add: task_inv_def env_inv_def wf_protocol_def)
  have "ble_receive l (p_pendingResponse p) ?t = (False, p_pendingResponse p, ?t)" for l
    using active by (simp add: ble_receive_def ble_onDisconnect_def)
  with quiet_task_silent [OF loop i q, of now] show "\<exists>p'. protocol_task d (p\<lparr>p_transport := ?t\<rparr>) now = Some p' \<and>
      phase_of p' = Quiet \<and> bt_stack (p_transport p') = bt_stack (p_transport p)"
    using nimble_handle_frame [of "PeerGone True" "p_transport p"] by (auto simp: d ble_transport_vt_def)
next
  fix r b es n
  let ?t = "(nimble_events (es @ [PeerGone True]) (p_transport p))\<lparr>bt_stack := n\<rparr>"
  assume o: "phase_of p = Owes r b" and s: "fst (ble_send ng ?t r)"
  have o': "phase_of (p\<lparr>p_transport := ?t\<rparr>) = Owes r b" using o by simp
  have i: "task_inv sinv cinv (p\<lparr>p_transport := ?t\<rparr>)" using inv by (simp add: task_inv_def env_inv_def wf_protocol_def)
  have "tp_send (d_transport d) (p_transport (p\<lparr>p_transport := ?t\<rparr>)) r = (True, snd (ble_send ng ?t r))"
    using s by (simp add: d ble_transport_vt_def prod_eq_iff)
  from owed_reply_sent [OF loop i o' this] show "\<exists>p'. protocol_task d (p\<lparr>p_transport := ?t\<rparr>) now = Some p' \<and>
      phase_of p' = Quiet \<and> p_transport p' = snd (ble_send ng ?t r)"
    by (simp add: d ble_transport_vt_def transport_sendComplete_def)
qed

lemma ble_reply_outlives_connection_witness:
  "\<exists>p'. protocol_task (light_deps memory_vt (ble_transport_vt linked_gatt))
      ((demo_with (nimble_handle (PeerGone True) linked_transport) (Some demo_store))\<lparr>p_responsePending := True\<rparr>) 5 = Some p' \<and>
    phase_of p' = Quiet"
proof -
  let ?d = "light_deps memory_vt (ble_transport_vt linked_gatt)"
  let ?p = "(demo_with linked_transport (Some demo_store))\<lparr>p_responsePending := True\<rparr>"
  have loop: "protocol_loop ?d memory_inv memory_view (\<lambda>_. True) kRgbStateSize"
    by (rule light_loop [OF memory.storage_contract_axioms ble_link.transport_contract_axioms])
  have inv: "task_inv memory_inv (\<lambda>_. True) ?p"
    using demo_env_inv [of memory_inv "Some demo_store" linked_transport]
    by (simp add: task_inv_def env_inv_def wf_protocol_def)
  have d: "d_transport ?d = ble_transport_vt linked_gatt" by (simp add: light_deps_def)
  have a: "bt_active (p_transport ?p) = Some True" by (simp add: linked_transport_def ble_transport_new_def)
  have o: "phase_of ?p = Owes (replicate 32 0) False" by (simp add: phase_of_def)
  have s: "fst (ble_send linked_gatt ((nimble_events ([] @ [PeerGone True]) (p_transport ?p))\<lparr>bt_stack := ()\<rparr>) (replicate 32 0))"
    by (simp add: ble_send_def ble_connected_def linked_gatt_def linked_transport_def ble_transport_new_def ble_onDisconnect_def)
  from ble_reply_outlives_connection [OF loop d inv a, of 5] o s
  obtain p' where "protocol_task ?d (?p\<lparr>p_transport := (nimble_events ([] @ [PeerGone True]) (p_transport ?p))\<lparr>bt_stack := ()\<rparr>\<rparr>) 5 = Some p'"
    "phase_of p' = Quiet" by blast
  moreover have "?p\<lparr>p_transport := (nimble_events ([] @ [PeerGone True]) (p_transport ?p))\<lparr>bt_stack := ()\<rparr>\<rparr> =
      (demo_with (nimble_handle (PeerGone True) linked_transport) (Some demo_store))\<lparr>p_responsePending := True\<rparr>"
    by (simp add: demo_with_def protocol_new_def)
  ultimately show ?thesis by metis
qed

end
