(* ===== verification/Fs_Corruptor.thy ===== *)
theory Fs_Corruptor
  imports Fs_Facts
begin

text \<open>
  The recovery test \<open>extras/nice_nano_storage_corruptor\<close>: a sketch that overwrites the newest of the
  two files of \<open>InternalFSStorage\<close>, so that the next start of the keyboard has to fall back to the
  older one.  It has its own header check (no CRC, capacity 4096).
\<close>

section \<open>The sketch\<close>

text \<open>The generation of the header when \<open>readHeader\<close> returns true.\<close>

definition readHeader :: "'f littlefs \<Rightarrow> string \<Rightarrow> 'f \<Rightarrow> u32 option \<times> 'f" where
  "readHeader lf path f =
     (case lf_open lf f path False of
        (None, f) \<Rightarrow> (None, f)
      | (Some h, f) \<Rightarrow>
          (case lf_read lf f h kRecordHeader of (header, f) \<Rightarrow>
             (if length header = kRecordHeader \<and> rh_magic header = 0x56494146 \<and> rh_length header = 4096
              then Some (rh_generation header) else None, lf_close lf f h)))"

text \<open>\<open>setup\<close>: the printed line and the file system.\<close>

definition corrupt_setup :: "'f littlefs \<Rightarrow> 'f \<Rightarrow> string \<times> 'f" where
  "corrupt_setup lf f =
     (case lf_begin lf f of
        (False, f) \<Rightarrow> (''FAIL: mount'', f)
      | (True, f) \<Rightarrow>
          (case readHeader lf kFileA f of
             (None, f) \<Rightarrow> (''FAIL: two committed slots required'', f)
           | (Some a, f) \<Rightarrow>
               (case readHeader lf kFileB f of
                  (None, f) \<Rightarrow> (''FAIL: two committed slots required'', f)
                | (Some b, f) \<Rightarrow>
                    let newest = (if newer a b then kFileA else kFileB)
                    in case lf_open lf f newest True of
                         (None, f) \<Rightarrow> (''FAIL: open newest slot'', f)
                       | (Some h, f) \<Rightarrow>
                           (case lf_write lf f h (replicate kRecordHeader 0) of (n, f) \<Rightarrow>
                              (if n = kRecordHeader then ''PASS: newest slot corrupted'' else ''FAIL: write'', lf_close lf f h)))))"

section \<open>What it does\<close>

definition header_gen :: "(string \<Rightarrow> u8 list option) \<Rightarrow> string \<Rightarrow> u32 option" where
  "header_gen fs name = (case fs name of None \<Rightarrow> None
     | Some bs \<Rightarrow> let h = take kRecordHeader bs
                  in if kRecordHeader \<le> length bs \<and> rh_magic h = 0x56494146 \<and> rh_length h = 4096 then Some (rh_generation h) else None)"

lemma header_of_record:
  assumes "file_gen fs 4096 name = Some g"
  shows "header_gen fs name = Some g"
proof -
  obtain bs where bs: "fs name = Some bs" "record_gen 4096 bs = Some g"
    using assms by (auto simp: file_gen_def split: option.splits)
  then have "unat (rh_length (take kRecordHeader bs)) = unat (4096 :: u32)"
    by (simp add: record_gen_def Let_def split: if_splits)
  then have "rh_length (take kRecordHeader bs) = 4096" by (simp only: word_unat_eq_iff)
  with bs show ?thesis by (auto simp: header_gen_def record_gen_def Let_def kFsMagic_def split: if_splits)
qed

context file_directory
begin

lemma readHeader_eq: "\<exists>f'. readHeader lf name f = (header_gen (files f) name, f') \<and> files f' = files f"
proof (cases "files f name")
  case None
  with open_missing [OF None] show ?thesis by (auto simp: readHeader_def header_gen_def)
next
  case (Some bs)
  obtain h f1 where f1: "lf_open lf f name False = (Some h, f1)" "files f1 = files f" "handle f1 h = Some (name, 0, False)"
    using open_read [OF Some] by blast
  obtain f2 where "lf_read lf f1 h kRecordHeader = (take kRecordHeader bs, f2)" "files f2 = files f1"
    using read_bytes [OF f1(3), of bs kRecordHeader] f1(2) Some by auto
  with f1 Some show ?thesis by (auto simp: readHeader_def header_gen_def Let_def close_files)
qed

text \<open>With two valid files only the opening and the writing can fail.\<close>

lemma corrupt_cases:
  assumes ab: "file_gen (files f) 4096 kFileA = Some a" "file_gen (files f) 4096 kFileB = Some b"
    and run: "corrupt_setup lf f = (''PASS: newest slot corrupted'', f')"
  obtains f1 h f2 f3 where "files f1 = files f" "lf_open lf f1 (if newer a b then kFileA else kFileB) True = (Some h, f2)"
    "lf_write lf f2 h (replicate kRecordHeader 0) = (kRecordHeader, f3)" "f' = lf_close lf f3 h"
proof -
  obtain f0 where f0: "lf_begin lf f = (True, f0)"
    using run by (auto simp: corrupt_setup_def split: prod.splits bool.splits)
  obtain fa where fa: "readHeader lf kFileA f0 = (Some a, fa)" "files fa = files f"
    using readHeader_eq [of kFileA f0] header_of_record [OF ab(1)] begin_files [OF f0] by auto
  obtain fb where fb: "readHeader lf kFileB fa = (Some b, fb)" "files fb = files f"
    using readHeader_eq [of kFileB fa] header_of_record [OF ab(2)] fa(2) by auto
  obtain r f2 where o: "lf_open lf fb (if newer a b then kFileA else kFileB) True = (r, f2)" by fastforce
  have step: "corrupt_setup lf f = (case r of None \<Rightarrow> (''FAIL: open newest slot'', f2)
      | Some h \<Rightarrow> (case lf_write lf f2 h (replicate kRecordHeader 0) of (n, f) \<Rightarrow>
          (if n = kRecordHeader then ''PASS: newest slot corrupted'' else ''FAIL: write'', lf_close lf f h)))"
    using f0 fa(1) fb(1) o by (simp add: corrupt_setup_def Let_def)
  obtain h where h: "r = Some h" using step run by (cases r) auto
  obtain n f3 where w: "lf_write lf f2 h (replicate kRecordHeader 0) = (n, f3)" by fastforce
  have "n = kRecordHeader" "f' = lf_close lf f3 h" using step run h w by (auto split: if_splits)
  with that [of fb h f2 f3] fb(2) o h w show thesis by simp
qed

end

text \<open>The other file of a pair.\<close>

definition older_file :: "u32 \<Rightarrow> u32 \<Rightarrow> string" where
  "older_file a b = (if newer a b then kFileB else kFileA)"

lemma blank_record: "record_gen 4096 (replicate kRecordHeader 0) = None"
  by (rule record_gen_short) simp

lemma chosen_after_loss:
  assumes ab: "file_gen fs 4096 kFileA = Some a" "file_gen fs 4096 kFileB = Some b" and bad: "record_gen 4096 bs = None"
  shows "chosen (fs((if newer a b then kFileA else kFileB) \<mapsto> bs)) 4096 =
    Some (older_file a b, if newer a b then b else a)"
  using ab bad files_differ by (simp add: chosen_def choose_file_def file_gen_other file_gen_same older_file_def)

context file_library
begin

lemma corrupt_truncating:
  assumes ab: "file_gen (files f) 4096 kFileA = Some a" "file_gen (files f) 4096 kFileB = Some b"
    and run: "corrupt_setup lf f = (''PASS: newest slot corrupted'', f')"
  shows "files f' = (files f)((if newer a b then kFileA else kFileB) \<mapsto> replicate kRecordHeader 0)"
proof -
  obtain f1 h f2 f3 where c: "files f1 = files f" "lf_open lf f1 (if newer a b then kFileA else kFileB) True = (Some h, f2)"
    "lf_write lf f2 h (replicate kRecordHeader 0) = (kRecordHeader, f3)" "f' = lf_close lf f3 h"
    using corrupt_cases [OF ab run] by blast
  let ?n = "if newer a b then kFileA else kFileB"
  have f2: "files f2 = (files f)(?n \<mapsto> [])" "handle f2 h = Some (?n, 0, True)" using open_write [OF c(2)] c(1) by simp_all
  then have "files f2 ?n = Some []" by simp
  from write_bytes [OF f2(2) this, of "replicate kRecordHeader 0"] c(3) have "files f3 = (files f2)(?n \<mapsto> replicate kRecordHeader 0)"
    by auto
  with f2(1) c(4) show ?thesis by (simp add: close_files)
qed

end

text \<open>Over a library that opens for writing at the end of the file the zeros follow the record.\<close>

context file_append
begin

lemma corrupt_appending:
  assumes ab: "file_gen (files f) 4096 kFileA = Some a" "file_gen (files f) 4096 kFileB = Some b"
    and run: "corrupt_setup lf f = (''PASS: newest slot corrupted'', f')"
  shows "restart_content (files f') 4096 = restart_content (files f) 4096 \<and> chosen (files f') 4096 = chosen (files f) 4096"
proof -
  obtain f1 h f2 f3 where c: "files f1 = files f" "lf_open lf f1 (if newer a b then kFileA else kFileB) True = (Some h, f2)"
    "lf_write lf f2 h (replicate kRecordHeader 0) = (kRecordHeader, f3)" "f' = lf_close lf f3 h"
    using corrupt_cases [OF ab run] by blast
  define n where "n = (if newer a b then kFileA else kFileB)"
  note c = c [folded n_def]
  obtain old where old: "files f n = Some old" using ab by (cases "newer a b") (auto simp: n_def file_gen_def split: option.splits)
  have f2: "files f2 = (files f)(n \<mapsto> old)" "handle f2 h = Some (n, length old, True)"
    using open_append [OF c(2)] c(1) old by simp_all
  then have "files f2 n = Some old" by simp
  from write_bytes [OF f2(2) this, of "replicate kRecordHeader 0"] c(3)
  have "files f3 = (files f2)(n \<mapsto> old @ replicate kRecordHeader 0)" by auto
  then have fl: "files f' = (files f)(n \<mapsto> old @ replicate kRecordHeader 0)" using f2(1) c(4) by (simp add: close_files)
  have valid: "record_gen 4096 old = Some (if newer a b then a else b)"
    using ab old by (cases "newer a b") (simp_all add: n_def file_gen_def)
  then have long: "kRecordHeader + 4096 \<le> length old" using record_gen_short [of old 4096] by fastforce
  then have same: "record_gen 4096 (old @ replicate kRecordHeader 0) = record_gen 4096 old"
    by (simp add: record_gen_def)
  then have "file_gen (files f') 4096 name = file_gen (files f) 4096 name" for name
    using fl old by (simp add: file_gen_def)
  then have "chosen (files f') 4096 = chosen (files f) 4096" by (simp add: chosen_def)
  then show ?thesis using fl old long by (auto simp: restart_content_def split: option.splits)
qed

end

section \<open>Recovery\<close>

definition newest_file :: "u32 \<Rightarrow> u32 \<Rightarrow> string" where
  "newest_file a b = (if newer a b then kFileA else kFileB)"

text \<open>C11. The corrupted file: on a device with two valid files, after the corruptor reported that it
  damaged the newest one, the next start of the file store finds the older record, payload and
  generation, if the library truncates a file opened for writing, which the sketch relies on; over a
  library that opens it at its end, the same report comes and the start still finds the newest
  record, so that the test passes without a recovery.\<close>
theorem corruptor_rolls_back:
  assumes lib: "if truncates then file_library lf files handle else file_append lf files handle"
    and ab: "file_gen (files f) 4096 kFileA = Some a" "file_gen (files f) 4096 kFileB = Some b"
    and run: "corrupt_setup lf f = (''PASS: newest slot corrupted'', f')"
    and restart: "file_library lf2 files2 handle2" "files2 g = files f'" "lf_begin lf2 g = (True, g')"
  shows "\<exists>t kept. fs_begin lf2 (fs_new buf 4096 g) = (True, t) \<and>
    files f (if truncates then older_file a b else newest_file a b) = Some kept \<and>
    if_staging t = take 4096 (drop kRecordHeader kept) \<and>
    if_activeGeneration t = (if truncates = newer a b then b else a)"
proof -
  have there: "\<exists>kept. files f (older_file a b) = Some kept" "\<exists>kept. files f (newest_file a b) = Some kept"
    using ab by (cases "newer a b"; auto simp: older_file_def newest_file_def file_gen_def split: option.splits)+
  have up: "lf_begin lf2 (if_fs (fs_new buf 4096 g)) = (True, g')" using restart(3) by (simp add: fs_new_def)
  have start: "\<exists>t. fs_begin lf2 (fs_new buf 4096 g) = (True, t) \<and> if_staging t = restart_content (files f') 4096 \<and>
      if_activeGeneration t = (case chosen (files f') 4096 of None \<Rightarrow> 0 | Some (name, gen) \<Rightarrow> gen)"
    using file_library.fs_begin_eq [OF restart(1) up] restart(2) by (auto simp: fs_new_def)
  show ?thesis
  proof (cases truncates)
    case True
    then have "file_library lf files handle" using lib by simp
    from file_library.corrupt_truncating [OF this ab run]
    have fl: "files f' = (files f)(newest_file a b \<mapsto> replicate kRecordHeader 0)" by (simp add: newest_file_def)
    have ch: "chosen (files f') 4096 = Some (older_file a b, if newer a b then b else a)"
      unfolding fl newest_file_def by (rule chosen_after_loss [OF ab blank_record])
    obtain kept where kept: "files f (older_file a b) = Some kept" using there(1) by blast
    then have "files f' (older_file a b) = Some kept" using fl files_differ by (auto simp: older_file_def newest_file_def)
    with start ch kept True show ?thesis by (auto simp: restart_content_def)
  next
    case False
    then have "file_append lf files handle" using lib by simp
    note same = file_append.corrupt_appending [OF this ab run]
    have ch: "chosen (files f) 4096 = Some (newest_file a b, if newer a b then a else b)"
      using ab by (simp add: chosen_def choose_file_def newest_file_def)
    obtain kept where kept: "files f (newest_file a b) = Some kept" using there(2) by blast
    with start same ch False lib show ?thesis by (auto simp: restart_content_def)
  qed
qed

text \<open>A device after two commits.\<close>

definition two_slots :: fake_fs where
  "two_slots = (let rec = (\<lambda>g v. record_header kFsMagic g (of_nat 4096) (nrf52_crc32 (replicate 4096 v) 0xFFFFFFFF) @ replicate 4096 v)
     in \<lparr>ff_files = [kFileA \<mapsto> rec 5 1, kFileB \<mapsto> rec 6 2], ff_handles = Map.empty, ff_next = 0, ff_beginOk = True, ff_writeFail = False, ff_corrupt = False\<rparr>)"

lemma two_slots_valid:
  "file_gen (ff_files two_slots) 4096 kFileA = Some 5" "file_gen (ff_files two_slots) 4096 kFileB = Some 6"
  "ff_files two_slots kFileA = Some (record_header kFsMagic 5 (of_nat 4096) (nrf52_crc32 (replicate 4096 1) 0xFFFFFFFF) @ replicate 4096 1)"
  using record_gen_written [of "replicate 4096 1" 4096 5] record_gen_written [of "replicate 4096 2" 4096 6] files_differ
  by (simp_all add: two_slots_def Let_def file_gen_def)

lemma corruptor_rolls_back_witness:
  "\<exists>f' t. corrupt_setup calm_littlefs two_slots = (''PASS: newest slot corrupted'', f') \<and>
    fs_begin calm_littlefs (fs_new [] 4096 f') = (True, t) \<and> if_staging t = replicate 4096 1"
proof -
  have b: "lf_begin calm_littlefs two_slots = (True, two_slots)" by (simp add: calm_littlefs_def fake_littlefs_def two_slots_def Let_def)
  obtain fa where fa: "readHeader calm_littlefs kFileA two_slots = (Some 5, fa)" "ff_files fa = ff_files two_slots"
    using calm_lf.readHeader_eq [of kFileA two_slots] header_of_record [OF two_slots_valid(1)] by auto
  obtain fb where fb: "readHeader calm_littlefs kFileB fa = (Some 6, fb)" "ff_files fb = ff_files two_slots"
    using calm_lf.readHeader_eq [of kFileB fa] header_of_record [OF two_slots_valid(2)] fa(2) by auto
  have up: "ff_writeFail fb = False \<and> ff_beginOk fb"
    using fa(1) fb(1) by (auto simp: readHeader_def calm_littlefs_def fake_littlefs_def fake_fs_open_def fake_fs_read_def two_slots_def Let_def
        split: if_splits option.splits prod.splits)
  have n: "(if newer 5 6 then kFileA else kFileB) = kFileB" using newer_succ(2) [of 5] by simp
  obtain f' where f': "corrupt_setup calm_littlefs two_slots = (''PASS: newest slot corrupted'', f')" "ff_beginOk f'"
  proof -
    define f2 where "f2 = snd (lf_open calm_littlefs fb kFileB True)"
    have o: "lf_open calm_littlefs fb kFileB True = (Some (ff_next fb), f2)" "ff_writeFail f2 = False" "ff_beginOk f2"
      "ff_handles f2 (ff_next fb) = Some (kFileB, 0, True)" "ff_files f2 kFileB = Some []"
      using up by (simp_all add: f2_def calm_littlefs_def fake_littlefs_def fake_fs_open_def Let_def)
    obtain f3 where w: "lf_write calm_littlefs f2 (ff_next fb) (replicate kRecordHeader 0) = (kRecordHeader, f3)" "ff_beginOk f3"
      using o by (simp add: calm_littlefs_def fake_littlefs_def fake_fs_write_def Let_def)
    have "corrupt_setup calm_littlefs two_slots = (''PASS: newest slot corrupted'', lf_close calm_littlefs f3 (ff_next fb))"
      using b fa(1) fb(1) o(1) w(1) n by (simp add: corrupt_setup_def Let_def)
    moreover have "ff_beginOk (lf_close calm_littlefs f3 (ff_next fb))" using w(2) by (simp add: calm_littlefs_def fake_littlefs_def)
    ultimately show thesis by (rule that)
  qed
  have "lf_begin calm_littlefs f' = (True, f')" using f'(2) by (simp add: calm_littlefs_def fake_littlefs_def)
  moreover have lib: "if True then file_library calm_littlefs ff_files ff_handles else file_append calm_littlefs ff_files ff_handles"
    using calm_lf.file_library_axioms by simp
  ultimately obtain t old where
    t: "fs_begin calm_littlefs (fs_new [] 4096 f') = (True, t)" "ff_files two_slots (older_file 5 6) = Some old"
    "if_staging t = take 4096 (drop kRecordHeader old)"
    using corruptor_rolls_back [OF lib two_slots_valid(1,2) f'(1) calm_lf.file_library_axioms refl, of f' "[]"] by auto
  have "older_file 5 6 = kFileA" using newer_succ(2) [of 5] by (simp add: older_file_def)
  with t two_slots_valid(3) have "if_staging t = replicate 4096 1" by auto
  with f'(1) t(1) show ?thesis by blast
qed

end
