(* ===== verification/Eeprom_Store.thy ===== *)
theory Eeprom_Store
  imports Interfaces
begin

text \<open>
  \<open>EEPROMStorage\<close> of \<open>src/VIA_EEPROMStorage.h\<close>.  The EEPROM library of the Arduino core is a
  parameter; the locale \<open>eeprom_library\<close> states its documented behaviour: bytes written are read
  back, and \<open>commit\<close> makes the content durable when it succeeds.
\<close>

record 'e eeprom =
  ee_begin :: "'e \<Rightarrow> nat \<Rightarrow> 'e"
  ee_read :: "'e \<Rightarrow> nat \<Rightarrow> u8"
  ee_write :: "'e \<Rightarrow> nat \<Rightarrow> u8 \<Rightarrow> 'e"
  ee_commit :: "'e \<Rightarrow> bool \<times> 'e"

record 'e eeprom_storage =
  es_length :: nat
  es_started :: bool
  es_eeprom :: 'e

definition eeprom_new :: "nat \<Rightarrow> 'e \<Rightarrow> 'e eeprom_storage" where
  "eeprom_new len e = \<lparr>es_length = len, es_started = False, es_eeprom = e\<rparr>"

definition eeprom_begin :: "'e eeprom \<Rightarrow> 'e eeprom_storage \<Rightarrow> bool \<times> 'e eeprom_storage" where
  "eeprom_begin ee s = (True, s\<lparr>es_eeprom := ee_begin ee (es_eeprom s) (es_length s), es_started := True\<rparr>)"

definition eeprom_refuses :: "'e eeprom_storage \<Rightarrow> nat \<Rightarrow> nat \<Rightarrow> bool" where
  "eeprom_refuses s offset len \<longleftrightarrow> \<not> es_started s \<or> offset > es_length s \<or> len > es_length s - offset"

definition eeprom_read :: "'e eeprom \<Rightarrow> 'e eeprom_storage \<Rightarrow> nat \<Rightarrow> u8 list \<Rightarrow> bool \<times> u8 list \<times> 'e eeprom_storage" where
  "eeprom_read ee s offset output =
     (if eeprom_refuses s offset (length output) then (False, output, s)
      else (True, map (\<lambda>i. ee_read ee (es_eeprom s) (offset + i)) [0..<length output], s))"

definition write_bytes :: "'e eeprom \<Rightarrow> nat \<Rightarrow> u8 list \<Rightarrow> 'e \<Rightarrow> 'e" where
  "write_bytes ee offset bs e = fold (\<lambda>i e. ee_write ee e (offset + i) (bs ! i)) [0..<length bs] e"

definition eeprom_write :: "'e eeprom \<Rightarrow> 'e eeprom_storage \<Rightarrow> nat \<Rightarrow> u8 list \<Rightarrow> bool \<times> 'e eeprom_storage" where
  "eeprom_write ee s offset input =
     (if eeprom_refuses s offset (length input) then (False, s)
      else (True, s\<lparr>es_eeprom := write_bytes ee offset input (es_eeprom s)\<rparr>))"

definition eeprom_commit :: "'e eeprom \<Rightarrow> 'e eeprom_storage \<Rightarrow> bool \<times> 'e eeprom_storage" where
  "eeprom_commit ee s =
     (if \<not> es_started s then (False, s)
      else let (ok, e) = ee_commit ee (es_eeprom s) in (ok, s\<lparr>es_eeprom := e\<rparr>))"

definition eeprom_erase :: "'e eeprom \<Rightarrow> 'e eeprom_storage \<Rightarrow> bool \<times> 'e eeprom_storage" where
  "eeprom_erase ee s =
     (if \<not> es_started s then (False, s)
      else
        let e = write_bytes ee 0 (replicate (es_length s) 0xFF) (es_eeprom s);
            (ok, e) = ee_commit ee e
        in (ok, s\<lparr>es_eeprom := e\<rparr>))"

definition eeprom_vt :: "'e eeprom \<Rightarrow> 'e eeprom_storage storage_vt" where
  "eeprom_vt ee = \<lparr>st_capacity = es_length, st_read = eeprom_read ee, st_write = eeprom_write ee,
     st_commit = eeprom_commit ee, st_erase = eeprom_erase ee\<rparr>"

section \<open>Contract\<close>

text \<open>\<open>cells\<close> is the RAM image of the library, \<open>stored\<close> what survives a power cycle; \<open>begin\<close> reads the
  first bytes of the one into the other.\<close>

locale eeprom_library =
  fixes ee :: "'e eeprom" and cells stored :: "'e \<Rightarrow> nat \<Rightarrow> u8"
  assumes read_cell: "ee_read ee e i = cells e i"
    and write_cell: "cells (ee_write ee e i v) = (cells e)(i := v)"
    and write_stored: "stored (ee_write ee e i v) = stored e"
    and commit_cells: "ee_commit ee e = (ok, e') \<Longrightarrow> cells e' = cells e \<and> (if ok then stored e' = cells e else stored e' = stored e)"
    and begin_cells: "i < n \<Longrightarrow> cells (ee_begin ee e n) i = stored e i"
begin

definition eeprom_inv :: "'e eeprom_storage \<Rightarrow> bool" where "eeprom_inv s \<longleftrightarrow> es_started s"

definition eeprom_view :: "'e eeprom_storage \<Rightarrow> u8 list" where
  "eeprom_view s = map (cells (es_eeprom s)) [0..<es_length s]"

lemma write_bytes_cells:
  "cells (write_bytes ee off bs e) j = (if off \<le> j \<and> j < off + length bs then bs ! (j - off) else cells e j) \<and>
   stored (write_bytes ee off bs e) = stored e"
proof -
  have "cells (fold (\<lambda>i e. ee_write ee e (off + i) (bs ! i)) [0..<k] e) j =
      (if off \<le> j \<and> j < off + k then bs ! (j - off) else cells e j) \<and>
    stored (fold (\<lambda>i e. ee_write ee e (off + i) (bs ! i)) [0..<k] e) = stored e" for k
    by (induction k) (auto simp: write_cell write_stored less_Suc_eq)
  then show ?thesis by (simp add: write_bytes_def)
qed

lemma view_write:
  assumes "off + length bs \<le> es_length s"
  shows "eeprom_view (s\<lparr>es_eeprom := write_bytes ee off bs (es_eeprom s)\<rparr>) = overwrite (eeprom_view s) off bs"
proof (rule nth_equalityI)
  show "length (eeprom_view (s\<lparr>es_eeprom := write_bytes ee off bs (es_eeprom s)\<rparr>)) = length (overwrite (eeprom_view s) off bs)"
    using assms by (simp add: eeprom_view_def)
next
  fix i assume "i < length (eeprom_view (s\<lparr>es_eeprom := write_bytes ee off bs (es_eeprom s)\<rparr>))"
  then show "eeprom_view (s\<lparr>es_eeprom := write_bytes ee off bs (es_eeprom s)\<rparr>) ! i = overwrite (eeprom_view s) off bs ! i"
    using assms write_bytes_cells [of off bs "es_eeprom s" i] by (simp add: eeprom_view_def nth_splice)
qed

lemma read_view_bytes:
  assumes "off + n \<le> es_length s"
  shows "map (\<lambda>i. ee_read ee (es_eeprom s) (off + i)) [0..<n] = take n (drop off (eeprom_view s))"
  using assms by (intro nth_equalityI) (simp_all add: eeprom_view_def read_cell)

end

sublocale eeprom_library \<subseteq> eeprom: storage_contract "eeprom_vt ee" eeprom_inv eeprom_view
proof (unfold_locales, goal_cases)
  case (1 s)
  then show ?case by (simp add: eeprom_vt_def eeprom_view_def)
next
  case (2 s buf off)
  then show ?case using read_view_bytes [of off "length buf" s]
    by (simp add: eeprom_vt_def eeprom_read_def eeprom_refuses_def eeprom_inv_def eeprom_view_def)
next
  case (3 s bs off)
  then show ?case using view_write [of off bs s]
    by (simp add: eeprom_vt_def eeprom_write_def eeprom_refuses_def eeprom_inv_def) (simp add: eeprom_view_def)
next
  case (4 s ok s')
  then show ?case using commit_cells [of "es_eeprom s"]
    by (auto simp: eeprom_vt_def eeprom_commit_def eeprom_inv_def eeprom_view_def split: prod.splits)
next
  case (5 s ok s')
  then show ?case
    by (auto simp: eeprom_vt_def eeprom_erase_def eeprom_inv_def eeprom_view_def Let_def split: prod.splits)
qed

context eeprom_library
begin

text \<open>What a power cycle finds.\<close>

definition eeprom_stored :: "'e eeprom_storage \<Rightarrow> u8 list" where
  "eeprom_stored s = map (stored (es_eeprom s)) [0..<es_length s]"

text \<open>Writes are provisional until the commit, but \<open>erase\<close> commits at once: the adapter makes no
  claim to atomicity, and its header says so.\<close>

lemma eeprom_durability:
  assumes "es_started s"
  shows "eeprom_write ee s off bs = (ok, s') \<Longrightarrow> eeprom_stored s' = eeprom_stored s"
    and "eeprom_commit ee s = (ok, s') \<Longrightarrow> eeprom_stored s' = (if ok then eeprom_view s else eeprom_stored s)"
    and "eeprom_erase ee s = (True, s') \<Longrightarrow> eeprom_stored s' = replicate (es_length s) 0xFF"
proof -
  show "eeprom_write ee s off bs = (ok, s') \<Longrightarrow> eeprom_stored s' = eeprom_stored s"
    using write_bytes_cells [of off bs "es_eeprom s"] by (auto simp: eeprom_write_def eeprom_stored_def split: if_splits)
next
  show "eeprom_commit ee s = (ok, s') \<Longrightarrow> eeprom_stored s' = (if ok then eeprom_view s else eeprom_stored s)"
    using assms commit_cells [of "es_eeprom s"]
    by (auto simp: eeprom_commit_def eeprom_stored_def eeprom_view_def split: prod.splits)
next
  assume e: "eeprom_erase ee s = (True, s')"
  obtain e' where c: "ee_commit ee (write_bytes ee 0 (replicate (es_length s) 0xFF) (es_eeprom s)) = (True, e')" "s' = s\<lparr>es_eeprom := e'\<rparr>"
    using e assms by (auto simp: eeprom_erase_def Let_def split: prod.splits)
  have "stored e' = cells (write_bytes ee 0 (replicate (es_length s) 0xFF) (es_eeprom s))" using commit_cells [OF c(1)] by simp
  then show "eeprom_stored s' = replicate (es_length s) 0xFF"
    using write_bytes_cells [of 0 "replicate (es_length s) 0xFF" "es_eeprom s"] c(2)
    by (intro nth_equalityI) (simp_all add: eeprom_stored_def)
qed

lemma same_length:
  "eeprom_write ee s off bs = (ok, s') \<Longrightarrow> es_length s' = es_length s"
  "eeprom_commit ee s = (ok, s') \<Longrightarrow> es_length s' = es_length s"
  "eeprom_erase ee s = (ok, s') \<Longrightarrow> es_length s' = es_length s"
  by (auto simp: eeprom_write_def eeprom_commit_def eeprom_erase_def Let_def split: if_splits prod.splits)

lemma sized_contract: "storage_contract (eeprom_vt ee) (\<lambda>s. eeprom_inv s \<and> es_length s = n) eeprom_view"
proof (unfold_locales, goal_cases)
  case (1 s)
  then show ?case using eeprom.capacity_view by blast
next
  case (2 s buf off)
  then show ?case using eeprom.read_view by blast
next
  case (3 s bs off)
  then obtain s' where "eeprom_write ee s off bs = (True, s')" "eeprom_inv s'" "eeprom_view s' = overwrite (eeprom_view s) off bs"
    using eeprom.write_view [of s bs off] by (auto simp: eeprom_vt_def)
  with 3 same_length(1) show ?case by (auto simp: eeprom_vt_def)
next
  case (4 s ok s')
  then show ?case using eeprom.commit_view [of s ok s'] same_length(2) [of s ok s'] by (simp add: eeprom_vt_def)
next
  case (5 s ok s')
  then show ?case using eeprom.erase_view [of s ok s'] same_length(3) [of s ok s'] by (simp add: eeprom_vt_def)
qed

text \<open>\<open>begin\<close> finds what was stored.\<close>

lemma begin_view:
  "eeprom_begin ee s = (ok, s') \<Longrightarrow> ok \<and> eeprom_inv s' \<and> es_length s' = es_length s \<and> eeprom_view s' = eeprom_stored s"
  by (auto simp: eeprom_begin_def eeprom_inv_def eeprom_view_def eeprom_stored_def begin_cells)

end

section \<open>An EEPROM emulation\<close>

text \<open>The emulation of the cores the header names: a RAM image and the flash behind it.\<close>

record emulated_eeprom =
  em_ram :: "nat \<Rightarrow> u8"
  em_flash :: "nat \<Rightarrow> u8"

definition emulated :: "emulated_eeprom eeprom" where
  "emulated = \<lparr>ee_begin = (\<lambda>e n. e\<lparr>em_ram := em_flash e\<rparr>), ee_read = em_ram,
     ee_write = (\<lambda>e i v. e\<lparr>em_ram := (em_ram e)(i := v)\<rparr>), ee_commit = (\<lambda>e. (True, e\<lparr>em_flash := em_ram e\<rparr>))\<rparr>"

interpretation emulated: eeprom_library emulated em_ram em_flash
  by unfold_locales (auto simp: emulated_def)

end
