(* ===== verification/Sketches.thy ===== *)
theory Sketches
  imports Main_Loop Memory_Store Nvs_Store Eeprom_Store Fs_Store Gpio Ble_Hid Ble_Transport Raw_Hid Encoder Power_State
begin

text \<open>
  The example sketches under \<open>examples/\<close>: the programs that put the components together.  Each has
  its configuration tables, its global objects, \<open>setup\<close> and \<open>loop\<close>.  The addresses of the arrays
  are chosen by the linker and are parameters, as are the Arduino core and the Bluetooth, USB and
  file libraries.  \<open>STM32F103_Keyboard_MVP\<close> is in theory \<open>Stm32_Sketch\<close>.
\<close>

section \<open>What the sketches share\<close>

record addresses =
  ad_keymap :: u32
  ad_defaultKeymap :: u32
  ad_macros :: u32
  ad_encoderMap :: u32
  ad_defaultEncoderMap :: u32
  ad_loadBuffer :: u32

text \<open>No sketch has a custom value: the table is never used.\<close>

definition no_custom :: "unit custom_vt" where
  "no_custom = \<lparr>cv_set = (\<lambda>c pkt. (False, pkt, c)), cv_get = (\<lambda>c pkt. (False, pkt, c)), cv_save = custom_save,
     cv_reset = custom_reset, cv_stateSize = custom_stateSize, cv_saveState = custom_saveState,
     cv_validateState = custom_validateState custom_stateSize, cv_loadState = custom_loadState\<rparr>"

definition sketch_deps :: "'s storage_vt \<Rightarrow> 't transport_vt \<Rightarrow> (nat \<Rightarrow> u8) \<Rightarrow> ('s, unit, 't) deps" where
  "sketch_deps st tv junk = \<lparr>d_storage = st, d_custom = no_custom, d_transport = tv,
     d_matrixRow = (\<lambda>_. 0), d_uninit = junk\<rparr>"

text \<open>The global objects of a keyboard sketch; \<open>sk_app\<close> is the state of the Bluetooth library that
  belongs to no adapter.\<close>

record ('s, 't, 'a, 'h, 'v) sketch =
  sk_protocol :: "('s, unit, 't) protocol"
  sk_keyboard :: "('a, 'h) keyboard"
  sk_app :: 'v

record ('s, 't, 'a, 'h, 'v) encoder_sketch = "('s, 't, 'a, 'h, 'v) sketch" +
  ek_encoder :: encoder

text \<open>Between two turns of the loop the world acts: radio callbacks on the transport, switches on the
  pins, the host on the HID port.\<close>

record ('t, 'a, 'h) turn =
  tn_now :: u32
  tn_radio :: "'t \<Rightarrow> 't"
  tn_pins :: "'a \<Rightarrow> 'a"
  tn_host :: "'h \<Rightarrow> 'h"

definition world_step :: "('t, 'a, 'h) turn \<Rightarrow> ('s, 't, 'a, 'h, 'v, 'z) sketch_scheme \<Rightarrow> ('s, 't, 'a, 'h, 'v, 'z) sketch_scheme" where
  "world_step tn s =
     (let p = sk_protocol s; k = sk_keyboard s; m = kb_matrix k
      in s\<lparr>sk_protocol := p\<lparr>p_transport := tn_radio tn (p_transport p)\<rparr>,
           sk_keyboard := k\<lparr>kb_matrix := m\<lparr>mx_io := tn_pins tn (mx_io m)\<rparr>, kb_hid := tn_host tn (kb_hid k)\<rparr>\<rparr>)"

fun turns ::
  "(u32 \<Rightarrow> ('s, 't, 'a, 'h, 'v, 'z) sketch_scheme \<Rightarrow> ('s, 't, 'a, 'h, 'v, 'z) sketch_scheme option) \<Rightarrow>
   ('t, 'a, 'h) turn list \<Rightarrow> ('s, 't, 'a, 'h, 'v, 'z) sketch_scheme \<Rightarrow> ('s, 't, 'a, 'h, 'v, 'z) sketch_scheme option" where
  "turns loop [] s = Some s"
| "turns loop (tn # tns) s = do { s' \<leftarrow> loop (tn_now tn) (world_step tn s); turns loop tns s' }"

section \<open>ESP32-WROOM-32\<close>

definition wroom_matrixConfig :: matrix_config where
  "wroom_matrixConfig = \<lparr>mc_rows = 5, mc_columns = 6, mc_rowPins = [4, 5, 12, 13, 14],
     mc_columnPins = [15, 16, 17, 18, 21, 22], mc_direction = ColToRow, mc_settleUs = 30, mc_debounceMs = 5\<rparr>"

text \<open>The names the sketch gives to keycodes.\<close>

definition wroom_keycodes :: "(string \<times> u16) list" where
  "wroom_keycodes = [
     (''TRNS'', 0x0001), (''A'', 0x0004), (''S'', 0x0005), (''D'', 0x0006), (''F'', 0x0007), (''G'', 0x0008),
     (''H'', 0x0009), (''Z'', 0x000A), (''X'', 0x000B), (''C'', 0x000C), (''V'', 0x000D), (''B'', 0x000E),
     (''N'', 0x000F), (''Q'', 0x0010), (''W'', 0x0011), (''E'', 0x0012), (''R'', 0x0013), (''T'', 0x0014),
     (''Y'', 0x0015), (''1'', 0x001E), (''2'', 0x001F), (''3'', 0x0020), (''4'', 0x0021), (''5'', 0x0022),
     (''6'', 0x0023), (''F1'', 0x003A), (''F2'', 0x003B), (''F3'', 0x003C), (''F4'', 0x003D), (''F5'', 0x003E),
     (''F6'', 0x003F), (''VOLU'', 0x00E2), (''VOLD'', 0x00E4), (''MUTE'', 0x00E7), (''MO1'', 0x5221), (''DF0'', 0x5260)]"

definition wroom_code :: "string \<Rightarrow> u16" where
  "wroom_code name = (case map_of wroom_keycodes name of Some code \<Rightarrow> code | None \<Rightarrow> 0)"

definition wroom_defaultKeymap :: "u16 list" where
  "wroom_defaultKeymap = map wroom_code (
     [''Q'', ''W'', ''E'', ''R'', ''T'', ''Y'',
      ''A'', ''S'', ''D'', ''F'', ''G'', ''H'',
      ''Z'', ''X'', ''C'', ''V'', ''B'', ''N'',
      ''1'', ''2'', ''3'', ''4'', ''5'', ''6'',
      ''MO1'', ''DF0'', ''TRNS'', ''TRNS'', ''TRNS'', ''TRNS''] @
     [''F1'', ''F2'', ''F3'', ''F4'', ''F5'', ''F6''] @ replicate 18 ''TRNS'' @ [''DF0''] @ replicate 5 ''TRNS'' @
     [''VOLU'', ''VOLD'', ''MUTE''] @ replicate 21 ''TRNS'' @ [''DF0''] @ replicate 5 ''TRNS'')"

definition wroom_defaultEncoderMap :: "u16 list" where
  "wroom_defaultEncoderMap = map wroom_code [''VOLU'', ''VOLD''] @ replicate 4 0"

definition wroom_config :: "addresses \<Rightarrow> config" where
  "wroom_config ad = \<lparr>cfg_rows = 5, cfg_columns = 6, cfg_layers = 3, cfg_keymap = ad_keymap ad,
     cfg_defaultKeymap = ad_defaultKeymap ad, cfg_macros = 0, cfg_macroBytes = 0, cfg_macroCount = 0,
     cfg_firmwareVersion = 1, cfg_autoSaveMs = 750, cfg_defaultLayoutOptions = 0, cfg_encoderCount = 1,
     cfg_encoderMap = ad_encoderMap ad, cfg_defaultEncoderMap = ad_defaultEncoderMap ad,
     cfg_loadBuffer = ad_loadBuffer ad, cfg_loadBufferBytes = 196, cfg_matrixStateEnabled = False,
     cfg_eepromResetEnabled = False, cfg_bootloaderEnabled = False\<rparr>"

text \<open>The global objects as the static initialisers leave them; \<open>mutex\<close> is the result of creating the
  mutex, \<open>prev\<close> and \<open>junk\<close> are arrays without an initialiser.\<close>

definition wroom_new ::
  "addresses \<Rightarrow> bool \<Rightarrow> u32 list \<Rightarrow> u8 list \<Rightarrow> 'n \<Rightarrow> 'g \<Rightarrow> 'a \<Rightarrow> 'b \<Rightarrow> 'v \<Rightarrow>
   ('n nvs_storage, 'g ble_transport, 'a, 'b ble_keyboard, 'v) encoder_sketch option" where
  "wroom_new ad mutex prev junk n g a b v = do {
     m \<leftarrow> matrix_new wroom_matrixConfig (replicate 5 0) (replicate 5 0) (replicate 5 0) (replicate 5 0) a prev;
     Some \<lparr>sk_protocol = protocol_new (wroom_config ad) (replicate 90 0) wroom_defaultKeymap (replicate 6 0)
         wroom_defaultEncoderMap [] (replicate 196 0) junk (ble_transport_new mutex None g) (Some (nvs_new n)) None False,
       sk_keyboard = keyboard_new 5 6 m (cfg_layers (wroom_config ad)) (ble_keyboard_new b) (Some (replicate 30 0)) True,
       sk_app = v, ek_encoder = encoder_new\<rparr> }"

text \<open>What the sketches use of NimBLE besides the adapters.\<close>

datatype nimble_call = Init string | StartServer | AddServiceUUID string | SetName string | StartAdvertising

record 'v nimble_app =
  na_call :: "'v \<Rightarrow> nimble_call \<Rightarrow> 'v"
  na_createServer :: "'v \<Rightarrow> bool \<times> 'v"
  na_getAdvertising :: "'v \<Rightarrow> bool \<times> 'v"

definition ascii :: "string \<Rightarrow> u8 list" where "ascii name = map of_char name"

text \<open>\<open>setup\<close> up to \<open>keyboard.begin()\<close>, the same in both ESP32 sketches but for the names.  The flag
  tells whether it went through; an early return leaves what was done so far.\<close>

definition ble_setup_store ::
  "'n preferences \<Rightarrow> ('n nvs_storage, 't, 'a, 'h, 'v, 'z) sketch_scheme \<Rightarrow> bool \<times> ('n nvs_storage, 't, 'a, 'h, 'v, 'z) sketch_scheme" where
  "ble_setup_store pf s =
     (case p_storage (sk_protocol s) of None \<Rightarrow> (False, s)
      | Some st \<Rightarrow> (case nvs_begin pf st ''via'' of (ok, st) \<Rightarrow>
          (ok, s\<lparr>sk_protocol := (sk_protocol s)\<lparr>p_storage := Some st\<rparr>\<rparr>)))"

definition ble_setup_radio ::
  "'b nimble_hid \<Rightarrow> 'g nimble_gatt \<Rightarrow> 'v nimble_app \<Rightarrow> string \<Rightarrow> string \<Rightarrow>
   ('s, 'g ble_transport, 'a, 'b ble_keyboard, 'v, 'z) sketch_scheme \<Rightarrow>
   bool \<times> ('s, 'g ble_transport, 'a, 'b ble_keyboard, 'v, 'z) sketch_scheme" where
  "ble_setup_radio nh ng na name manufacturer s =
     (let (server, v) = na_createServer na (na_call na (sk_app s) (Init name)); s = s\<lparr>sk_app := v\<rparr>
      in if \<not> server then (False, s) else
      let (ok, h) = ble_hid_begin nh server (Some manufacturer) (kb_hid (sk_keyboard s));
          s = s\<lparr>sk_keyboard := (sk_keyboard s)\<lparr>kb_hid := h\<rparr>\<rparr>
      in if \<not> ok then (False, s) else
      let (ok, t) = ble_begin ng server (Some (ascii name)) 1 (p_transport (sk_protocol s));
          s = s\<lparr>sk_protocol := (sk_protocol s)\<lparr>p_transport := t\<rparr>\<rparr>
      in if \<not> ok then (False, s) else
      let (adv, v) = na_getAdvertising na (na_call na (sk_app s) StartServer); s = s\<lparr>sk_app := v\<rparr>
      in if \<not> adv then (False, s) else
      (True, s\<lparr>sk_app := fold (\<lambda>c v. na_call na v c) [AddServiceUUID ''0x1812'',
         AddServiceUUID ''0000FF60-0000-1000-8000-00805F9B34FB'', SetName name, StartAdvertising] (sk_app s)\<rparr>))"

definition setup_core ::
  "('s, unit, 't) deps \<Rightarrow> u32 \<Rightarrow> ('s, 't, 'a, 'h, 'v, 'z) sketch_scheme \<Rightarrow> (bool \<times> ('s, 't, 'a, 'h, 'v, 'z) sketch_scheme) option" where
  "setup_core d millis s = do {
     (ok, p) \<leftarrow> protocol_begin d (sk_protocol s) millis;
     let s = s\<lparr>sk_protocol := p\<rparr>;
     Some (ok \<and> keyboard_begin (sk_keyboard s), s) }"

definition ble_setup ::
  "'n preferences \<Rightarrow> 'b nimble_hid \<Rightarrow> 'g nimble_gatt \<Rightarrow> 'v nimble_app \<Rightarrow> (nat \<Rightarrow> u8) \<Rightarrow> string \<Rightarrow> string \<Rightarrow> u32 \<Rightarrow>
   ('n nvs_storage, 'g ble_transport, 'a, 'b ble_keyboard, 'v, 'z) sketch_scheme \<Rightarrow>
   (bool \<times> ('n nvs_storage, 'g ble_transport, 'a, 'b ble_keyboard, 'v, 'z) sketch_scheme) option" where
  "ble_setup pf nh ng na junk name manufacturer millis s =
     (case ble_setup_store pf s of
        (False, s) \<Rightarrow> Some (False, s)
      | (True, s) \<Rightarrow>
          (case ble_setup_radio nh ng na name manufacturer s of
             (False, s) \<Rightarrow> Some (False, s)
           | (True, s) \<Rightarrow> setup_core (sketch_deps (nvs_vt pf) (ble_transport_vt ng) junk) millis s))"

definition set_pins :: "'a arduino \<Rightarrow> pin list \<Rightarrow> pin_mode \<Rightarrow> 'a \<Rightarrow> 'a" where
  "set_pins ar pins md a = fold (\<lambda>p a. ar_pinMode ar a p md) pins a"

definition wroom_setup ::
  "'n preferences \<Rightarrow> 'b nimble_hid \<Rightarrow> 'g nimble_gatt \<Rightarrow> 'v nimble_app \<Rightarrow> 'a arduino \<Rightarrow> (nat \<Rightarrow> u8) \<Rightarrow> u32 \<Rightarrow>
   ('n nvs_storage, 'g ble_transport, 'a, 'b ble_keyboard, 'v) encoder_sketch \<Rightarrow>
   (bool \<times> ('n nvs_storage, 'g ble_transport, 'a, 'b ble_keyboard, 'v) encoder_sketch) option" where
  "wroom_setup pf nh ng na ar junk millis s = do {
     (ok, s) \<leftarrow> ble_setup pf nh ng na junk ''AirVIA WROOM32'' ''AirVIA'' millis s;
     let k = sk_keyboard s;
     let m = kb_matrix k;
     Some (ok, if ok then s\<lparr>sk_keyboard := k\<lparr>kb_matrix := m\<lparr>mx_io := set_pins ar [33, 32] INPUT_PULLUP (mx_io m)\<rparr>\<rparr>\<rparr> else s) }"

text \<open>The first three calls of a turn; the encoder pins are read afterwards.  The matrix adapter is an
  argument.\<close>

definition keys_turn ::
  "('s, unit, 't) deps \<Rightarrow> 'a matrix_io \<Rightarrow> 'h hid_vt \<Rightarrow> u32 \<Rightarrow> ('s, 't, 'a, 'h, 'v, 'z) sketch_scheme \<Rightarrow>
   ('s, 't, 'a, 'h, 'v, 'z) sketch_scheme option" where
  "keys_turn d vt hv now s = do {
     p \<leftarrow> protocol_task d (sk_protocol s) now;
     k \<leftarrow> keyboard_turn vt hv (p_keymap p) (sk_keyboard s) now;
     Some (s\<lparr>sk_protocol := p, sk_keyboard := k\<rparr>) }"

definition encoder_turn ::
  "'a arduino \<Rightarrow> pin \<Rightarrow> pin \<Rightarrow> u32 \<Rightarrow> ('s, 't, 'a, 'h, 'v, 'z) encoder_sketch_scheme \<Rightarrow> ('s, 't, 'a, 'h, 'v, 'z) encoder_sketch_scheme" where
  "encoder_turn ar pa pb now s =
     (let k = sk_keyboard s; m = kb_matrix k;
          (a, io) = ar_digitalRead ar (mx_io m) pa; (b, io) = ar_digitalRead ar io pb;
          e = encoder_update (if a \<noteq> LOW then 1 else 0) (if b \<noteq> LOW then 1 else 0) now (ek_encoder s)
      in s\<lparr>sk_keyboard := k\<lparr>kb_matrix := m\<lparr>mx_io := io\<rparr>\<rparr>, ek_encoder := snd (encoder_consume e)\<rparr>)"

definition wroom_loop ::
  "('s, unit, 't) deps \<Rightarrow> 'a arduino \<Rightarrow> 'h hid_vt \<Rightarrow> u32 \<Rightarrow> ('s, 't, 'a, 'h, 'v) encoder_sketch \<Rightarrow>
   ('s, 't, 'a, 'h, 'v) encoder_sketch option" where
  "wroom_loop d ar hv now s = do {
     s \<leftarrow> keys_turn d (esp32_io ar) hv now s;
     Some (encoder_turn ar 33 32 now s) }"

section \<open>ESP32-S3\<close>

record ('s, 't, 'a, 'h, 'v) s3_sketch = "('s, 't, 'a, 'h, 'v) encoder_sketch" +
  s3_battery :: battery
  s3_sleepMgr :: sleep_mgr

definition s3_matrixConfig :: matrix_config where
  "s3_matrixConfig = \<lparr>mc_rows = 5, mc_columns = 15, mc_rowPins = [5, 6, 7, 15, 16],
     mc_columnPins = [8, 9, 10, 11, 12, 13, 14, 17, 18, 19, 20, 21, 39, 40, 41], mc_direction = ColToRow,
     mc_settleUs = 30, mc_debounceMs = 5\<rparr>"

definition s3_config :: "addresses \<Rightarrow> config" where
  "s3_config ad = \<lparr>cfg_rows = 5, cfg_columns = 15, cfg_layers = 4, cfg_keymap = ad_keymap ad,
     cfg_defaultKeymap = ad_defaultKeymap ad, cfg_macros = 0, cfg_macroBytes = 0, cfg_macroCount = 0,
     cfg_firmwareVersion = 1, cfg_autoSaveMs = 750, cfg_defaultLayoutOptions = 0, cfg_encoderCount = 0,
     cfg_encoderMap = 0, cfg_defaultEncoderMap = 0, cfg_loadBuffer = ad_loadBuffer ad, cfg_loadBufferBytes = 604,
     cfg_matrixStateEnabled = False, cfg_eepromResetEnabled = False, cfg_bootloaderEnabled = False\<rparr>"

definition s3_new ::
  "addresses \<Rightarrow> bool \<Rightarrow> u32 list \<Rightarrow> u8 list \<Rightarrow> 'n \<Rightarrow> 'g \<Rightarrow> 'a \<Rightarrow> 'b \<Rightarrow> 'v \<Rightarrow>
   ('n nvs_storage, 'g ble_transport, 'a, 'b ble_keyboard, 'v) s3_sketch option" where
  "s3_new ad mutex prev junk n g a b v = do {
     m \<leftarrow> matrix_new s3_matrixConfig (replicate 5 0) (replicate 5 0) (replicate 5 0) (replicate 5 0) a prev;
     Some \<lparr>sk_protocol = protocol_new (s3_config ad) (replicate 300 0) (replicate 300 0) [] [] [] (replicate 604 0) junk
         (ble_transport_new mutex None g) (Some (nvs_new n)) None False,
       sk_keyboard = keyboard_new 5 15 m (cfg_layers (s3_config ad)) (ble_keyboard_new b) (Some (replicate 75 0)) True,
       sk_app = v, ek_encoder = encoder_new, s3_battery = battery_new, s3_sleepMgr = sleep_new\<rparr> }"

definition s3_setup ::
  "'n preferences \<Rightarrow> 'b nimble_hid \<Rightarrow> 'g nimble_gatt \<Rightarrow> 'v nimble_app \<Rightarrow> (nat \<Rightarrow> u8) \<Rightarrow> u32 \<Rightarrow>
   ('n nvs_storage, 'g ble_transport, 'a, 'b ble_keyboard, 'v) s3_sketch \<Rightarrow>
   (bool \<times> ('n nvs_storage, 'g ble_transport, 'a, 'b ble_keyboard, 'v) s3_sketch) option" where
  "s3_setup pf nh ng na junk millis s = do {
     (ok, s) \<leftarrow> ble_setup pf nh ng na junk ''AirVIA S3'' ''VIA-Arduino'' millis s;
     Some (ok, if ok then s\<lparr>s3_battery := setCalibration 3200 4200 (s3_battery s),
         s3_sleepMgr := snd (sleep_update True millis (sleep_configure 300000 (s3_sleepMgr s)))\<rparr> else s) }"

text \<open>\<open>esp_deep_sleep_start\<close> does not return.\<close>

datatype 'x outcome = Running 'x | Asleep 'x

text \<open>The end of the turn: battery, activity, sleep.  \<open>analogRead\<close> is the function of the Arduino core.\<close>

definition power_turn ::
  "('s, unit, 't) deps \<Rightarrow> ('a \<Rightarrow> pin \<Rightarrow> u16 \<times> 'a) \<Rightarrow> u32 \<Rightarrow> ('s, 't, 'a, 'h, 'v, 'z) s3_sketch_scheme \<Rightarrow>
   ('s, 't, 'a, 'h, 'v, 'z) s3_sketch_scheme outcome option" where
  "power_turn d analogRead now s = do {
     let k = sk_keyboard s;
     let (raw, io) = analogRead (mx_io (kb_matrix k)) 47;
     b \<leftarrow> battery_update raw (s3_battery s);
     (any, m) \<leftarrow> hasChanged ((kb_matrix k)\<lparr>mx_io := io\<rparr>);
     let sl = snd (sleep_update (\<not> any) now (s3_sleepMgr s));
     let s = s\<lparr>sk_keyboard := k\<lparr>kb_matrix := m\<rparr>, s3_battery := b, s3_sleepMgr := sl\<rparr>;
     if sl_sleepRequested sl then do {
       (_, p) \<leftarrow> save d (sk_protocol s);
       Some (Asleep (s\<lparr>sk_protocol := p\<rparr>)) }
     else Some (Running s) }"

text \<open>The body of \<open>loop\<close>, over the operations \<open>vt\<close> of the matrix adapter; the sketch declares the
  adapter of the ESP32-S3 package, \<open>via::esp32s3::MatrixIOArduino\<close>.\<close>

definition s3_body ::
  "('s, unit, 't) deps \<Rightarrow> 'a matrix_io \<Rightarrow> 'a arduino \<Rightarrow> ('a \<Rightarrow> pin \<Rightarrow> u16 \<times> 'a) \<Rightarrow> 'h hid_vt \<Rightarrow> u32 \<Rightarrow>
   ('s, 't, 'a, 'h, 'v) s3_sketch \<Rightarrow> ('s, 't, 'a, 'h, 'v) s3_sketch outcome option" where
  "s3_body d vt ar analogRead hv now s = do {
     s \<leftarrow> keys_turn d vt hv now s;
     power_turn d analogRead now (encoder_turn ar 4 3 now s) }"

definition s3_loop ::
  "('s, unit, 't) deps \<Rightarrow> 'a arduino \<Rightarrow> ('a \<Rightarrow> pin \<Rightarrow> u16 \<times> 'a) \<Rightarrow> 'h hid_vt \<Rightarrow> u32 \<Rightarrow>
   ('s, 't, 'a, 'h, 'v) s3_sketch \<Rightarrow> ('s, 't, 'a, 'h, 'v) s3_sketch outcome option" where
  "s3_loop d ar = s3_body d (esp32s3_io ar) ar"

section \<open>nice!nano v2\<close>

text \<open>The pins \<open>D0\<close> to \<open>D4\<close> are numbers of the board package.\<close>

definition nano_matrixConfig :: "(nat \<Rightarrow> pin) \<Rightarrow> matrix_config" where
  "nano_matrixConfig D = \<lparr>mc_rows = 2, mc_columns = 3, mc_rowPins = [D 0, D 1], mc_columnPins = [D 2, D 3, D 4],
     mc_direction = ColToRow, mc_settleUs = 30, mc_debounceMs = 5\<rparr>"

definition nano_defaultKeymap :: "u16 list" where
  "nano_defaultKeymap = [0x0004, 0x0005, 0x0006, 0x0007, 0x0008, 0x5221, 0x001E, 0x001F, 0x0020, 0x0021, 0x0022, 0x0001]"

definition nano_config :: "addresses \<Rightarrow> config" where
  "nano_config ad = \<lparr>cfg_rows = 2, cfg_columns = 3, cfg_layers = 2, cfg_keymap = ad_keymap ad,
     cfg_defaultKeymap = ad_defaultKeymap ad, cfg_macros = 0, cfg_macroBytes = 0, cfg_macroCount = 0,
     cfg_firmwareVersion = 1, cfg_autoSaveMs = 750, cfg_defaultLayoutOptions = 0, cfg_encoderCount = 0,
     cfg_encoderMap = 0, cfg_defaultEncoderMap = 0, cfg_loadBuffer = ad_loadBuffer ad, cfg_loadBufferBytes = 28,
     cfg_matrixStateEnabled = False, cfg_eepromResetEnabled = False, cfg_bootloaderEnabled = False\<rparr>"

definition nano_new ::
  "addresses \<Rightarrow> (nat \<Rightarrow> pin) \<Rightarrow> bool \<Rightarrow> u32 list \<Rightarrow> u8 list \<Rightarrow> 'f \<Rightarrow> 'g \<Rightarrow> 'a \<Rightarrow> 'b \<Rightarrow> 'v \<Rightarrow>
   ('f fs_storage, 'g nrf_transport, 'a, 'b nrf_keyboard, 'v) sketch option" where
  "nano_new ad D mutex prev junk f g a b v = do {
     m \<leftarrow> matrix_new (nano_matrixConfig D) (replicate 2 0) (replicate 2 0) (replicate 2 0) (replicate 2 0) a prev;
     Some \<lparr>sk_protocol = protocol_new (nano_config ad) (replicate 12 0) nano_defaultKeymap [] [] [] (replicate 28 0) junk
         (nrf_transport_new mutex None g) (Some (fs_new (replicate 4096 0) 4096 f)) None False,
       sk_keyboard = keyboard_new 2 3 m (cfg_layers (nano_config ad)) (nrf_keyboard_new None b) (Some (replicate 6 0)) True,
       sk_app = v\<rparr> }"

datatype bluefruit_call =
    ConfigPrphBandwidth | SetDeviceName string | SetTxPower int | SetAppearance | SetIOCaps bool bool bool
  | HidServiceBegin | AddFlags | AddTxPower | AddAppearance | AddHidService | AddViaService | AddScanName
  | RestartOnDisconnect bool | SetInterval nat nat | SetFastTimeout nat | StartAdv nat

record 'v bluefruit_app =
  ba_call :: "'v \<Rightarrow> bluefruit_call \<Rightarrow> 'v"
  ba_begin :: "'v \<Rightarrow> nat \<Rightarrow> nat \<Rightarrow> bool \<times> 'v"

definition bluefruit_calls :: "'v bluefruit_app \<Rightarrow> bluefruit_call list \<Rightarrow> 'v \<Rightarrow> 'v" where
  "bluefruit_calls ba cs v = fold (\<lambda>c v. ba_call ba v c) cs v"

definition nano_startAdvertising :: "'v bluefruit_app \<Rightarrow> 'v \<Rightarrow> 'v" where
  "nano_startAdvertising ba v = bluefruit_calls ba [AddFlags, AddTxPower, AddAppearance, AddHidService, AddViaService,
     AddScanName, RestartOnDisconnect True, SetInterval 32 244, SetFastTimeout 30, StartAdv 0] v"

definition nano_setup ::
  "'f littlefs \<Rightarrow> 'b bluefruit_hid \<Rightarrow> 'g bluefruit_gatt \<Rightarrow> 'v bluefruit_app \<Rightarrow> (nat \<Rightarrow> u8) \<Rightarrow> u32 \<Rightarrow>
   ('f fs_storage, 'g nrf_transport, 'a, 'b nrf_keyboard, 'v) sketch \<Rightarrow>
   (bool \<times> ('f fs_storage, 'g nrf_transport, 'a, 'b nrf_keyboard, 'v) sketch) option" where
  "nano_setup lf bh bg ba junk millis s =
     (let (ok, v) = ba_begin ba (ba_call ba (sk_app s) ConfigPrphBandwidth) 1 0; s = s\<lparr>sk_app := v\<rparr>
      in if \<not> ok then Some (False, s) else
      let s = s\<lparr>sk_app := bluefruit_calls ba [SetDeviceName ''AirVIA nice!nano'', SetTxPower 4, SetAppearance,
            SetIOCaps False False False, HidServiceBegin] (sk_app s)\<rparr>;
          (ok, h) = nrf_hid_begin bh (kb_hid (sk_keyboard s)); s = s\<lparr>sk_keyboard := (sk_keyboard s)\<lparr>kb_hid := h\<rparr>\<rparr>
      in if \<not> ok then Some (False, s) else
      let (ok, t) = nrf_begin bg (Some (ascii ''AirVIA nice!nano'')) 1 (p_transport (sk_protocol s));
          s = s\<lparr>sk_protocol := (sk_protocol s)\<lparr>p_transport := t\<rparr>\<rparr>
      in if \<not> ok then Some (False, s) else
      case p_storage (sk_protocol s) of None \<Rightarrow> Some (False, s)
      | Some st \<Rightarrow>
          let (ok, st) = fs_begin lf st; s = s\<lparr>sk_protocol := (sk_protocol s)\<lparr>p_storage := Some st\<rparr>\<rparr>
          in if \<not> ok then Some (False, s)
             else do {
               (ok, s) \<leftarrow> setup_core (sketch_deps (fs_vt lf) (nrf_transport_vt bg) junk) millis s;
               Some (ok, if ok then s\<lparr>sk_app := nano_startAdvertising ba (sk_app s)\<rparr> else s) })"

text \<open>The loop calls no \<open>matrix.task\<close>.\<close>

definition nano_loop ::
  "('s, unit, 't) deps \<Rightarrow> 'h hid_vt \<Rightarrow> u32 \<Rightarrow> ('s, 't, 'a, 'h, 'v) sketch \<Rightarrow> ('s, 't, 'a, 'h, 'v) sketch option" where
  "nano_loop d hv now s = do {
     p \<leftarrow> protocol_task d (sk_protocol s) now;
     k \<leftarrow> keyboard_task hv (p_keymap p) (sk_keyboard s);
     Some (s\<lparr>sk_protocol := p, sk_keyboard := k\<rparr>) }"

section \<open>RP2040\<close>

definition pico_defaultKeymap :: "u16 list" where
  "pico_defaultKeymap = [0x0004, 0x0005, 0x0006, 0x0007, 0x0008, 0x0009, 0x0014, 0x001A, 0x001B, 0x001D, 0x001C, 0x0018]"

definition pico_config :: "addresses \<Rightarrow> config" where
  "pico_config ad = \<lparr>cfg_rows = 2, cfg_columns = 3, cfg_layers = 2, cfg_keymap = ad_keymap ad,
     cfg_defaultKeymap = ad_defaultKeymap ad, cfg_macros = ad_macros ad, cfg_macroBytes = 512, cfg_macroCount = 16,
     cfg_firmwareVersion = 1, cfg_autoSaveMs = 750, cfg_defaultLayoutOptions = 0, cfg_encoderCount = 0,
     cfg_encoderMap = 0, cfg_defaultEncoderMap = 0, cfg_loadBuffer = ad_loadBuffer ad, cfg_loadBufferBytes = 540,
     cfg_matrixStateEnabled = False, cfg_eepromResetEnabled = False, cfg_bootloaderEnabled = False\<rparr>"

definition pico_new ::
  "addresses \<Rightarrow> u8 list \<Rightarrow> 'e \<Rightarrow> 'u \<Rightarrow> ('e eeprom_storage, unit, 'u raw_hid) protocol" where
  "pico_new ad junk e u = protocol_new (pico_config ad) pico_defaultKeymap pico_defaultKeymap [] [] (replicate 512 0)
     (replicate 540 0) junk (raw_hid_new u) (Some (eeprom_new 1024 e)) None False"

definition pico_deps :: "'e eeprom \<Rightarrow> 'u tinyusb \<Rightarrow> (nat \<Rightarrow> u8) \<Rightarrow> ('e eeprom_storage, unit, 'u raw_hid) deps" where
  "pico_deps ee tu junk = sketch_deps (eeprom_vt ee) (raw_hid_vt tu) junk"

text \<open>\<open>setup\<close>; \<open>tk\<close> and \<open>tu\<close> are the keyboard and the raw interface of the USB library, whose state is
  one.  The results of \<open>begin\<close> are ignored.\<close>

definition pico_setup ::
  "'e eeprom \<Rightarrow> 'u tinyusb \<Rightarrow> 'u tinyusb \<Rightarrow> (nat \<Rightarrow> u8) \<Rightarrow> u32 \<Rightarrow> ('e eeprom_storage, unit, 'u raw_hid) protocol \<Rightarrow>
   (bool \<times> ('e eeprom_storage, unit, 'u raw_hid) protocol) option" where
  "pico_setup ee tk tu junk millis p =
     (let p = p\<lparr>p_storage := map_option (\<lambda>s. snd (eeprom_begin ee s)) (p_storage p)\<rparr>;
          h = p_transport p; h = h\<lparr>rh_stack := snd (tusb_keyboard_begin tk ''VIA Keyboard'' (rh_stack h))\<rparr>;
          p = p\<lparr>p_transport := snd (raw_hid_begin tu ''VIA Raw HID'' h)\<rparr>
      in protocol_begin (pico_deps ee tu junk) p millis)"

text \<open>\<open>loop\<close> after loop, the host acting on the transport in between.\<close>

fun pico_loops ::
  "('e eeprom_storage, unit, 'u raw_hid) deps \<Rightarrow> (u32 \<times> ('u raw_hid \<Rightarrow> 'u raw_hid)) list \<Rightarrow>
   ('e eeprom_storage, unit, 'u raw_hid) protocol \<Rightarrow> ('e eeprom_storage, unit, 'u raw_hid) protocol option" where
  "pico_loops d [] p = Some p"
| "pico_loops d ((now, host) # tns) p = do {
     p \<leftarrow> protocol_task d (p\<lparr>p_transport := host (p_transport p)\<rparr>) now;
     pico_loops d tns p }"

section \<open>Protocol self-test\<close>

definition selftest_config :: "addresses \<Rightarrow> config" where
  "selftest_config ad = \<lparr>cfg_rows = 1, cfg_columns = 2, cfg_layers = 2, cfg_keymap = ad_keymap ad,
     cfg_defaultKeymap = ad_defaultKeymap ad, cfg_macros = ad_macros ad, cfg_macroBytes = 64, cfg_macroCount = 2,
     cfg_firmwareVersion = 1, cfg_autoSaveMs = 750, cfg_defaultLayoutOptions = 0, cfg_encoderCount = 0,
     cfg_encoderMap = 0, cfg_defaultEncoderMap = 0, cfg_loadBuffer = ad_loadBuffer ad, cfg_loadBufferBytes = 76,
     cfg_matrixStateEnabled = False, cfg_eepromResetEnabled = False, cfg_bootloaderEnabled = False\<rparr>"

definition selftest_new :: "addresses \<Rightarrow> u8 list \<Rightarrow> (memory_storage, unit, memory_transport) protocol" where
  "selftest_new ad junk = protocol_new (selftest_config ad) [0x0004, 0x0005, 0x0014, 0x001A] [0x0004, 0x0005, 0x0014, 0x001A]
     [] [] (replicate 64 0) (replicate 76 0) junk memory_transport_new (Some (memory_storage_new (Some (replicate 128 0)) 128))
     None False"

definition selftest_deps :: "(nat \<Rightarrow> u8) \<Rightarrow> (memory_storage, unit, memory_transport) deps" where
  "selftest_deps junk = sketch_deps memory_vt memory_transport_vt junk"

text \<open>\<open>setup\<close> prints one of two messages; \<open>response\<close> is the uninitialised local array.\<close>

definition selftest_setup ::
  "(nat \<Rightarrow> u8) \<Rightarrow> u8 list \<Rightarrow> u32 \<Rightarrow> u32 \<Rightarrow> (memory_storage, unit, memory_transport) protocol \<Rightarrow>
   (string \<times> (memory_storage, unit, memory_transport) protocol) option" where
  "selftest_setup junk response millis1 millis2 p = do {
     (_, p) \<leftarrow> protocol_begin (selftest_deps junk) p millis1;
     let request = (replicate kPacketSize 0)[0 := 0x01];
     p \<leftarrow> protocol_task (selftest_deps junk) (p\<lparr>p_transport := memory_inject (p_transport p) request\<rparr>) millis2;
     let (got, response, t) = memory_takeResponse (p_transport p) response;
     Some (if got \<and> response ! 1 = 0 \<and> response ! 2 = kProtocolVersion
           then ''VIA core is ready. Add a native USB Raw HID Transport next.'' else ''VIA core self-test failed.'',
           p\<lparr>p_transport := t\<rparr>) }"

definition selftest_loop ::
  "(nat \<Rightarrow> u8) \<Rightarrow> u32 \<Rightarrow> (memory_storage, unit, memory_transport) protocol \<Rightarrow> (memory_storage, unit, memory_transport) protocol option" where
  "selftest_loop junk millis p = protocol_task (selftest_deps junk) p millis"

end
