(* ===== verification/Sketch_Facts.thy ===== *)
theory Sketch_Facts
  imports Sketches Key_Press Roundtrip
begin

text \<open>What the sketches need of the components: their configurations pass the checks of
  \<open>Protocol::begin\<close> wherever the linker puts the arrays, and a turn of the loop keeps the invariants
  of protocol and keyboard together, whatever the world does in between.\<close>

section \<open>Contracts\<close>

interpretation no_custom: custom_contract no_custom "\<lambda>_. True" 0
  by unfold_locales
     (auto simp: no_custom_def custom_save_def custom_stateSize_def custom_saveState_def custom_loadState_def)

lemma sketch_deps_sel [simp]:
  "d_storage (sketch_deps st tv junk) = st" "d_custom (sketch_deps st tv junk) = no_custom"
  "d_transport (sketch_deps st tv junk) = tv"
  by (simp_all add: sketch_deps_def)

lemma sketch_env: "storage_contract st sinv view \<Longrightarrow> protocol_env (sketch_deps st tv junk) sinv view (\<lambda>_. True) 0"
  using no_custom.custom_contract_axioms by (simp add: protocol_env_def)

lemma sketch_protocol_loop:
  "storage_contract st sinv view \<Longrightarrow> transport_contract tv \<Longrightarrow> protocol_loop (sketch_deps st tv junk) sinv view (\<lambda>_. True) 0"
  using sketch_env by (simp add: protocol_loop_def)

section \<open>Placement\<close>

definition apart :: "u32 \<Rightarrow> nat \<Rightarrow> u32 \<Rightarrow> nat \<Rightarrow> bool" where
  "apart a n b m \<longleftrightarrow> unat a + n \<le> 2 ^ 32 \<and> unat b + m \<le> 2 ^ 32 \<and> (unat a + n \<le> unat b \<or> unat b + m \<le> unat a)"

lemma apart_no_overlap:
  assumes "apart a n b m" and "n < 2 ^ 32" "m < 2 ^ 32"
  shows "\<not> rangesOverlap a (of_nat n) b (of_nat m)"
proof -
  have u: "unat (of_nat n :: u32) = n" "unat (of_nat m :: u32) = m" using assms(2,3) by (simp_all add: unat_of_nat)
  with assms(1) show ?thesis by (subst rangesOverlap_iff) (auto simp: apart_def)
qed

text \<open>The arrays exist and the staging buffer lies apart from the others.\<close>

definition placed :: "config \<Rightarrow> bool" where
  "placed c \<longleftrightarrow> cfg_keymap c \<noteq> 0 \<and> cfg_defaultKeymap c \<noteq> 0 \<and> (cfg_macroBytes c \<noteq> 0 \<longrightarrow> cfg_macros c \<noteq> 0) \<and>
     (cfg_encoderCount c \<noteq> 0 \<longrightarrow> cfg_encoderMap c \<noteq> 0 \<and> cfg_defaultEncoderMap c \<noteq> 0) \<and> cfg_loadBuffer c \<noteq> 0 \<and>
     (let b = cfg_loadBuffer c; n = unat (cfg_loadBufferBytes c)
      in apart b n (cfg_keymap c) (keymapBytes c) \<and> apart b n (cfg_defaultKeymap c) (keymapBytes c) \<and>
         apart b n (cfg_encoderMap c) (encoderMapBytes c) \<and> apart b n (cfg_defaultEncoderMap c) (encoderMapBytes c) \<and>
         apart b n (cfg_macros c) (unat (cfg_macroBytes c)))"

text \<open>A staging buffer of exactly the payload's size is accepted.\<close>

lemma placed_starts:
  assumes c: "p_config p = c" and pl: "placed c" and dims: "cfg_rows c \<noteq> 0" "cfg_columns c \<noteq> 0" "cfg_layers c \<noteq> 0"
    and n: "payloadSize c 0 = unat (cfg_loadBufferBytes c)" "payloadSize c 0 \<le> 65523" and cv: "p_customValue p = None"
  shows "begin_ok d p" "stateBytes d p = Some (payloadSize c 0, 0)" "loadBufferValid c (payloadSize c 0)"
proof -
  show sb: "stateBytes d p = Some (payloadSize c 0, 0)"
    using n(2) cv c by (simp add: stateBytes_iff custom_bytes_def kMaxCustomStateSize_def kHeaderSize_def)
  have bytes: "keymapBytes c < 2 ^ 32" "encoderMapBytes c < 2 ^ 32" "unat (cfg_macroBytes c) < 2 ^ 32" "payloadSize c 0 < 2 ^ 32"
    using n(2) unat_u16_less [of "cfg_macroBytes c"] by (simp_all add: payloadSize_def)
  have m: "ucast (cfg_macroBytes c) = (of_nat (unat (cfg_macroBytes c)) :: u32)" by simp
  show lb: "loadBufferValid c (payloadSize c 0)"
    using pl bytes n(1) apart_no_overlap [OF _ bytes(4)]
    unfolding loadBufferValid_def placed_def Let_def m by (simp del: of_nat_unat)
  show "begin_ok d p" using pl dims sb lb c by (auto simp: begin_ok_def Let_def placed_def)
qed

section \<open>Starting\<close>

context protocol_env
begin

lemma begin_keeps:
  assumes "env_inv sinv cinv p"
  shows "\<exists>p'. protocol_begin d p now = Some (begin_ok d p, p') \<and> env_inv sinv cinv p' \<and> keeps p p' \<and>
    (begin_ok d p \<longrightarrow> \<not> p_dirty p')"
  using assms
proof (cases rule: begin_cases [where now = now])
  case refused
  with assms show ?thesis by simp
next
  case (restored q)
  obtain ok q' where "load d p = Some (ok, q')" "sound sinv cinv p q'" using load_sound [OF assms] by blast
  with restored show ?thesis by (auto simp: sound_def keeps_def env_inv_def wf_protocol_def)
next
  case (defaults buf q)
  have "env_inv sinv cinv (emit e q\<lparr>p_dirty := False, p_saveAt := t\<rparr>)" for e t
    using defaults(3) by (simp add: env_inv_def wf_protocol_def frame)
  with defaults show ?thesis by (auto simp: keeps_def frame)
qed

end

section \<open>Protocol and keyboard together\<close>

text \<open>The protocol keeps the size of its keymap, which is all the keyboard's invariant asks of it.\<close>

definition pair_inv :: "('s \<Rightarrow> bool) \<Rightarrow> ('s, unit, 't) protocol \<Rightarrow> ('a, 'h) keyboard \<Rightarrow> bool" where
  "pair_inv sinv p k \<longleftrightarrow> task_inv sinv (\<lambda>_. True) p \<and> kb_inv (p_keymap p) k \<and> no_stuck_key k \<and> report_current k"

lemma kb_inv_keymap: "length km' = length km \<Longrightarrow> kb_inv km k \<Longrightarrow> kb_inv km' k"
  by (simp add: kb_inv_def keys_wf_def)

lemma keymap_length: "task_inv sinv cinv p \<Longrightarrow> length (p_keymap p) = keyCount (p_config p)"
  by (simp add: task_inv_def env_inv_def wf_protocol_def)

lemma keys_turn_sound:
  assumes loop: "protocol_loop d sinv view (\<lambda>_. True) csize" and port: "matrix_port vt" and hid: "keyboard_port hv pend"
    and inv: "pair_inv sinv (sk_protocol s) (sk_keyboard s)"
  shows "\<exists>p k. keys_turn d vt hv now s = Some (s\<lparr>sk_protocol := p, sk_keyboard := k\<rparr>) \<and> pair_inv sinv p k \<and>
    p_config p = p_config (sk_protocol s) \<and> kb_rows k = kb_rows (sk_keyboard s) \<and> kb_columns k = kb_columns (sk_keyboard s)"
proof -
  obtain p where p: "protocol_task d (sk_protocol s) now = Some p" "task_inv sinv (\<lambda>_. True) p"
    "p_config p = p_config (sk_protocol s)"
    using protocol_loop.task_total [OF loop, of "sk_protocol s" now] inv by (auto simp: pair_inv_def)
  have len: "length (p_keymap p) = length (p_keymap (sk_protocol s))"
    using keymap_length [OF p(2)] keymap_length [of sinv "\<lambda>_. True" "sk_protocol s"] p(3) inv by (simp add: pair_inv_def)
  have k0: "kb_inv (p_keymap p) (sk_keyboard s)" "no_stuck_key (sk_keyboard s)" "report_current (sk_keyboard s)"
    using kb_inv_keymap [OF len] inv by (auto simp: pair_inv_def)
  from keyboard_turn_sound [OF port hid k0(1,2), of now] k0(3) p show ?thesis
    by (fastforce simp: keys_turn_def pair_inv_def)
qed

definition sketch_inv :: "('s \<Rightarrow> bool) \<Rightarrow> ('s, 't, 'a, 'h, 'v, 'z) sketch_scheme \<Rightarrow> bool" where
  "sketch_inv sinv s \<longleftrightarrow> pair_inv sinv (sk_protocol s) (sk_keyboard s)"

text \<open>What happens on pins, radio and host does not reach the invariants.\<close>

lemma kb_world [simp]:
  "kb_inv km (k\<lparr>kb_matrix := m\<lparr>mx_io := io\<rparr>, kb_hid := h\<rparr>) = kb_inv km (k\<lparr>kb_matrix := m\<rparr>)"
  "kb_inv km (k\<lparr>kb_matrix := m\<lparr>mx_io := io\<rparr>\<rparr>) = kb_inv km (k\<lparr>kb_matrix := m\<rparr>)"
  "no_stuck_key (k\<lparr>kb_matrix := m\<lparr>mx_io := io\<rparr>, kb_hid := h\<rparr>) = no_stuck_key (k\<lparr>kb_matrix := m\<rparr>)"
  "no_stuck_key (k\<lparr>kb_matrix := m\<lparr>mx_io := io\<rparr>\<rparr>) = no_stuck_key (k\<lparr>kb_matrix := m\<rparr>)"
  "report_current (k\<lparr>kb_matrix := m', kb_hid := h\<rparr>) = report_current k"
  "report_current (k\<lparr>kb_matrix := m'\<rparr>) = report_current k"
  "kb_inv km (k\<lparr>kb_hid := h\<rparr>) = kb_inv km k" "no_stuck_key (k\<lparr>kb_hid := h\<rparr>) = no_stuck_key k"
  "report_current (k\<lparr>kb_hid := h\<rparr>) = report_current k"
  by (simp_all add: kb_inv_def no_stuck_key_def report_current_def buildReport_def latest_report_def active_codes_def
      mx_inv_def row_count_def col_count_def)

lemma task_inv_transport [simp]: "task_inv sinv cinv (p\<lparr>p_transport := t\<rparr>) = task_inv sinv cinv p"
  by (simp add: task_inv_def env_inv_def wf_protocol_def)

lemma world_step_inv: "sketch_inv sinv s \<Longrightarrow> sketch_inv sinv (world_step tn s)"
  by (simp add: sketch_inv_def pair_inv_def world_step_def Let_def)

lemma pins_inv: "sketch_inv sinv s \<Longrightarrow>
    sketch_inv sinv (s\<lparr>sk_keyboard := (sk_keyboard s)\<lparr>kb_matrix := (kb_matrix (sk_keyboard s))\<lparr>mx_io := io\<rparr>\<rparr>\<rparr>)"
  by (simp add: sketch_inv_def pair_inv_def)

lemma encoder_turn_inv: "sketch_inv sinv s \<Longrightarrow> sketch_inv sinv (encoder_turn ar pa pb now s)"
  by (simp add: encoder_turn_def Let_def sketch_inv_def pair_inv_def split: prod.splits)

lemma turns_sound:
  assumes "\<And>now s. Q s \<Longrightarrow> \<exists>s'. loop now s = Some s' \<and> Q s'" and "\<And>tn s. Q s \<Longrightarrow> Q (world_step tn s)" and "Q s"
  shows "\<exists>s'. turns loop tns s = Some s' \<and> Q s'"
  using assms(3)
proof (induction tns arbitrary: s)
  case (Cons tn tns)
  obtain s1 where "loop (tn_now tn) (world_step tn s) = Some s1" "Q s1" using assms(1,2) Cons.prems by blast
  with Cons.IH show ?case by fastforce
qed simp

section \<open>Construction\<close>

lemma new_matrix:
  assumes "length prev = 8" "unat (mc_rows cfg) \<le> 8" "unat (mc_columns cfg) \<le> 32"
    "length (mc_rowPins cfg) = unat (mc_rows cfg)" "length (mc_columnPins cfg) = unat (mc_columns cfg)" "n = unat (mc_rows cfg)"
  shows "\<exists>m. matrix_new cfg (replicate n 0) (replicate n 0) (replicate n 0) (replicate n 0) a prev = Some m \<and>
    mx_inv m \<and> mx_config m = cfg \<and> mx_changedRows m = replicate n 0"
proof -
  have "for_up 0 (unat (mc_rows cfg)) (\<lambda>r prev. arr_set prev r 0) prev =
      Some (replicate (unat (mc_rows cfg)) 0 @ drop (unat (mc_rows cfg)) prev)"
    using assms(1,2) by (intro clear_counts) simp
  then show ?thesis using assms by (auto simp: matrix_new_def mx_inv_def row_count_def col_count_def)
qed

text \<open>Objects that fit together start with the invariant.\<close>

lemma new_pair_inv:
  assumes env: "env_inv sinv (\<lambda>_. True) p" and p: "p_config p = c" "\<not> p_bootloaderPending p"
    and m: "mx_inv m" "row_count m = unat (cfg_rows c)" "col_count m = unat (cfg_columns c)"
      "mx_changedRows m = replicate (unat (cfg_rows c)) 0"
    and size: "unat (cfg_rows c) * unat (cfg_columns c) < 256" "unat (cfg_layers c) \<le> 32" "0 < keyCount c"
    and k: "k = keyboard_new (cfg_rows c) (cfg_columns c) m (cfg_layers c) h
      (Some (replicate (unat (cfg_rows c) * unat (cfg_columns c)) 0)) cb"
  shows "pair_inv sinv p k"
proof -
  have "length (p_keymap p) = unat (cfg_layers c) * unat (cfg_rows c) * unat (cfg_columns c)"
    using env p(1) by (simp add: env_inv_def wf_protocol_def keyCount_nat ac_simps)
  from keyboard_new_sound [OF m size(1,2) this refl, of h cb] env p size(3) show ?thesis
    by (simp add: pair_inv_def task_inv_def k)
qed

section \<open>The set-up of the ESP32 sketches\<close>

definition sketch_ok :: "('s \<Rightarrow> bool) \<Rightarrow> u8 \<Rightarrow> u8 \<Rightarrow> ('s, 't, 'a, 'h, 'v, 'z) sketch_scheme \<Rightarrow> bool" where
  "sketch_ok sinv rows cols s \<longleftrightarrow> sketch_inv sinv s \<and> kb_rows (sk_keyboard s) = rows \<and> kb_columns (sk_keyboard s) = cols"

lemma sketch_ok_steps:
  "sketch_ok sinv rows cols s \<Longrightarrow> sketch_ok sinv rows cols (world_step tn s)"
  "sketch_ok sinv rows cols e \<Longrightarrow> sketch_ok sinv rows cols (encoder_turn ar pa pb now e)"
  by (auto simp: sketch_ok_def intro: world_step_inv encoder_turn_inv)
    (auto simp: world_step_def encoder_turn_def Let_def split: prod.splits)

lemma keys_turn_ok:
  assumes "protocol_loop d sinv view (\<lambda>_. True) csize" and "matrix_port vt" and "keyboard_port hv pend"
    and "sketch_ok sinv rows cols s"
  shows "\<exists>p k. keys_turn d vt hv now s = Some (s\<lparr>sk_protocol := p, sk_keyboard := k\<rparr>) \<and>
    sketch_ok sinv rows cols (s\<lparr>sk_protocol := p, sk_keyboard := k\<rparr>) \<and> no_stuck_key k"
  using keys_turn_sound [OF assms(1-3), of s now] assms(4)
  by (auto simp: sketch_ok_def sketch_inv_def pair_inv_def)

text \<open>As a byte store of RAM the NVS store needs nothing of its library but that \<open>getBytes\<close> fills the
  buffer it is given.\<close>

definition shadow_inv :: "'n nvs_storage \<Rightarrow> bool" where
  "shadow_inv s \<longleftrightarrow> length (nv_shadow s) = kNvsCapacity"

interpretation nvs_shadow: storage_contract "nvs_vt pf" shadow_inv nv_shadow
  by unfold_locales (auto simp: nvs_vt_def nvs_defs shadow_inv_def split: if_splits prod.splits)

lemma shadow_begin:
  assumes lib: "\<And>n key buf. length (snd (pf_getBytes pf n key buf)) = length buf"
    and inv: "shadow_inv s" and b: "nvs_begin pf s ns = (ok, s')"
  shows "shadow_inv s'"
proof -
  obtain opened n where o: "pf_begin pf (nv_prefs s) ns False = (opened, n)" by fastforce
  from lib [of n nvs_key "nv_shadow s"] inv b o show ?thesis
    by (auto simp: nvs_begin_def shadow_inv_def split: if_splits prod.splits)
qed

text \<open>Changing the collaborators' states keeps the invariant of the pair.\<close>

lemma pair_inv_storage:
  "pair_inv sinv p k \<Longrightarrow> sinv st \<Longrightarrow> pair_inv sinv (p\<lparr>p_storage := Some st\<rparr>) k"
  by (simp add: pair_inv_def task_inv_def env_inv_def wf_protocol_def)

lemma setup_radio_ok:
  "sketch_ok sinv rows cols s \<Longrightarrow> p_config (sk_protocol s) = c \<Longrightarrow> p_customValue (sk_protocol s) = None \<Longrightarrow>
   ble_setup_radio nh ng na name man s = (ok, s') \<Longrightarrow>
   sketch_ok sinv rows cols s' \<and> p_config (sk_protocol s') = c \<and> p_customValue (sk_protocol s') = None \<and>
   kb_activeCodes (sk_keyboard s') = kb_activeCodes (sk_keyboard s)"
  by (auto simp: ble_setup_radio_def Let_def sketch_ok_def sketch_inv_def pair_inv_def split: prod.splits if_splits)

lemma setup_core_ok:
  assumes env: "protocol_env d sinv view (\<lambda>_. True) csize" and inv: "sketch_ok sinv rows cols s"
    and dims: "0 < rows" "0 < cols"
  shows "\<exists>s'. setup_core d now s = Some (begin_ok d (sk_protocol s), s') \<and> sketch_ok sinv rows cols s' \<and>
    sk_keyboard s' = sk_keyboard s"
proof -
  have i: "pair_inv sinv (sk_protocol s) (sk_keyboard s)" using inv by (simp add: sketch_ok_def sketch_inv_def)
  then have e: "env_inv sinv (\<lambda>_. True) (sk_protocol s)" by (simp add: pair_inv_def task_inv_def)
  obtain p where p: "protocol_begin d (sk_protocol s) now = Some (begin_ok d (sk_protocol s), p)"
    "env_inv sinv (\<lambda>_. True) p" "keeps (sk_protocol s) p" using protocol_env.begin_keeps [OF env e, of now] by blast
  have t: "task_inv sinv (\<lambda>_. True) p" using i p by (auto simp: pair_inv_def task_inv_def keeps_def)
  have len: "length (p_keymap p) = length (p_keymap (sk_protocol s))"
    using keymap_length [OF t] keymap_length [of sinv "\<lambda>_. True" "sk_protocol s"] i p(3) by (auto simp: pair_inv_def keeps_def)
  have "pair_inv sinv p (sk_keyboard s)" using i t kb_inv_keymap [OF len, of "sk_keyboard s"] by (simp add: pair_inv_def)
  moreover have "keyboard_begin (sk_keyboard s)"
    using i inv dims by (auto simp: keyboard_begin_def pair_inv_def kb_inv_def sketch_ok_def)
  ultimately show ?thesis using p(1) inv by (simp add: setup_core_def sketch_ok_def sketch_inv_def)
qed

lemma ble_setup_ok:
  assumes lib: "\<And>n key buf. length (snd (pf_getBytes pf n key buf)) = length buf"
    and inv: "sketch_ok shadow_inv rows cols s"
    and c: "p_config (sk_protocol s) = c" "p_customValue (sk_protocol s) = None" "p_storage (sk_protocol s) \<noteq> None"
    and dims: "0 < rows" "0 < cols"
    and start: "\<And>p. p_config p = c \<Longrightarrow> p_customValue p = None \<Longrightarrow>
      begin_ok (sketch_deps (nvs_vt pf) (ble_transport_vt ng) junk) p"
  shows "\<exists>ok s'. ble_setup pf nh ng na junk name man now s = Some (ok, s') \<and>
    sketch_ok shadow_inv rows cols s' \<and>
    (ok \<longleftrightarrow> fst (ble_setup_store pf s) \<and> fst (ble_setup_radio nh ng na name man (snd (ble_setup_store pf s))))"
proof -
  obtain st where st: "p_storage (sk_protocol s) = Some st" using c(3) by blast
  have pi: "pair_inv shadow_inv (sk_protocol s) (sk_keyboard s)" using inv by (simp add: sketch_ok_def sketch_inv_def)
  then have "shadow_inv st" using st by (simp add: pair_inv_def task_inv_def env_inv_def)
  obtain ok1 st1 where b: "nvs_begin pf st ''via'' = (ok1, st1)" by fastforce
  have st1: "shadow_inv st1" by (rule shadow_begin [OF lib \<open>shadow_inv st\<close> b])
  let ?s1 = "s\<lparr>sk_protocol := (sk_protocol s)\<lparr>p_storage := Some st1\<rparr>\<rparr>"
  have s1: "ble_setup_store pf s = (ok1, ?s1)" using st b by (simp add: ble_setup_store_def)
  have i1: "sketch_ok shadow_inv rows cols ?s1"
    using inv pair_inv_storage [OF pi st1] by (simp add: sketch_ok_def sketch_inv_def)
  obtain ok2 s2 where r: "ble_setup_radio nh ng na name man ?s1 = (ok2, s2)" by fastforce
  have i2: "sketch_ok shadow_inv rows cols s2" "p_config (sk_protocol s2) = c" "p_customValue (sk_protocol s2) = None"
    using setup_radio_ok [OF i1 _ _ r, of c] c by simp_all
  have env: "protocol_env (sketch_deps (nvs_vt pf) (ble_transport_vt ng) junk) shadow_inv nv_shadow (\<lambda>_. True) 0"
    by (rule sketch_env [OF nvs_shadow.storage_contract_axioms])
  obtain s3 where "setup_core (sketch_deps (nvs_vt pf) (ble_transport_vt ng) junk) now s2 =
      Some (begin_ok (sketch_deps (nvs_vt pf) (ble_transport_vt ng) junk) (sk_protocol s2), s3)" "sketch_ok shadow_inv rows cols s3"
    using setup_core_ok [OF env i2(1) dims] by blast
  with start [OF i2(2,3)] s1 r i1 i2(1) show ?thesis by (cases ok1; cases ok2) (auto simp: ble_setup_def)
qed

end
