(* ===== verification/Sketch_Runs.thy ===== *)
theory Sketch_Runs
  imports Sketch_Facts
begin

text \<open>Runs of the sketches: their global objects start with the invariant, and the loops keep it.\<close>

section \<open>The two ESP32 sketches\<close>

lemma wroom_sizes:
  "payloadSize (wroom_config ad) 0 = 196" "keyCount (wroom_config ad) = 90" "encoderMapBytes (wroom_config ad) = 12"
  "length wroom_defaultKeymap = 90" "length wroom_defaultEncoderMap = 6"
  by (simp_all add: payloadSize_def keymapBytes_def keyCount_nat encoderMapBytes_nat wroom_config_def
      wroom_defaultKeymap_def wroom_defaultEncoderMap_def)

lemma wroom_start:
  assumes "placed (wroom_config ad)" "p_config p = wroom_config ad" "p_customValue p = None"
  shows "begin_ok d p"
  using assms(2,1) by (rule placed_starts) (simp_all add: assms(3) wroom_sizes, simp_all add: wroom_config_def)

text \<open>A protocol as a static initialiser leaves it.\<close>

lemma protocol_new_inv:
  assumes "length km = keyCount c" "length dkm = keyCount c" "2 * length em = encoderMapBytes c" "2 * length dem = encoderMapBytes c"
    "length ma = unat (cfg_macroBytes c)" "length lb = unat (cfg_loadBufferBytes c)" "length junk = kPacketSize" "sinv st"
  shows "env_inv sinv (\<lambda>_. True) (protocol_new c km dkm em dem ma lb junk t (Some st) None cb)"
  using assms by (simp add: env_inv_def wf_protocol_def protocol_new_def)

lemma protocol_new_sel [simp]:
  "p_config (protocol_new c km dkm em dem ma lb junk t st cv cb) = c"
  "p_storage (protocol_new c km dkm em dem ma lb junk t st cv cb) = st"
  "p_customValue (protocol_new c km dkm em dem ma lb junk t st cv cb) = cv"
  "p_transport (protocol_new c km dkm em dem ma lb junk t st cv cb) = t"
  "\<not> p_responsePending (protocol_new c km dkm em dem ma lb junk t st cv cb)"
  "\<not> p_bootloaderPending (protocol_new c km dkm em dem ma lb junk t st cv cb)"
  "\<not> p_dirty (protocol_new c km dkm em dem ma lb junk t st cv cb)"
  by (simp_all add: protocol_new_def)

lemma keyboard_new_sel [simp]:
  "kb_rows (keyboard_new rows cols m layers h codes cb) = rows"
  "kb_columns (keyboard_new rows cols m layers h codes cb) = cols"
  "kb_matrix (keyboard_new rows cols m layers h codes cb) = m"
  by (simp_all add: keyboard_new_def)

lemma wroom_matrix:
  assumes "length prev = 8"
  shows "\<exists>m. matrix_new wroom_matrixConfig (replicate 5 0) (replicate 5 0) (replicate 5 0) (replicate 5 0) a prev = Some m \<and>
    mx_inv m \<and> mx_config m = wroom_matrixConfig \<and> mx_changedRows m = replicate 5 0"
  by (rule new_matrix) (use assms in \<open>simp_all add: wroom_matrixConfig_def\<close>)

lemma wroom_pair:
  assumes "mx_inv m" "mx_config m = wroom_matrixConfig" "mx_changedRows m = replicate 5 0"
    and "env_inv sinv (\<lambda>_. True) p" "p_config p = wroom_config ad" "\<not> p_bootloaderPending p"
  shows "pair_inv sinv p (keyboard_new 5 6 m (cfg_layers (wroom_config ad)) h (Some (replicate 30 0)) True)"
proof -
  have d: "cfg_rows (wroom_config ad) = 5" "cfg_columns (wroom_config ad) = 6" "cfg_layers (wroom_config ad) = 3"
    by (simp_all add: wroom_config_def)
  have r: "row_count m = 5" "col_count m = 6" by (simp_all add: assms(2) row_count_def col_count_def wroom_matrixConfig_def)
  show ?thesis unfolding d by (rule new_pair_inv [OF assms(4-6,1), unfolded d]) (simp_all add: r assms(3) wroom_sizes)
qed

lemma wroom_new_ok:
  assumes "length prev = 8" "length junk = kPacketSize"
  shows "\<exists>s. wroom_new ad mutex prev junk n g a b v = Some s \<and> sketch_ok shadow_inv 5 6 s \<and>
    p_config (sk_protocol s) = wroom_config ad \<and> p_customValue (sk_protocol s) = None \<and>
    p_storage (sk_protocol s) = Some (nvs_new n)"
proof -
  obtain m where m: "matrix_new wroom_matrixConfig (replicate 5 0) (replicate 5 0) (replicate 5 0) (replicate 5 0) a prev = Some m"
    "mx_inv m" "mx_config m = wroom_matrixConfig" "mx_changedRows m = replicate 5 0"
    using wroom_matrix [OF assms(1), of a] by (elim exE conjE)
  define p where "p = protocol_new (wroom_config ad) (replicate 90 0) wroom_defaultKeymap (replicate 6 0)
         wroom_defaultEncoderMap [] (replicate 196 0) junk (ble_transport_new mutex None g) (Some (nvs_new n)) (None :: unit option) False"
  have e: "env_inv shadow_inv (\<lambda>_. True) p" unfolding p_def
    by (rule protocol_new_inv) (simp_all add: assms wroom_sizes shadow_inv_def nvs_new_def, simp_all add: wroom_config_def)
  have c: "p_config p = wroom_config ad" "\<not> p_bootloaderPending p" "p_customValue p = None" "p_storage p = Some (nvs_new n)"
    by (simp_all add: p_def)
  have new: "wroom_new ad mutex prev junk n g a b v = Some \<lparr>sk_protocol = p, sk_keyboard = keyboard_new 5 6 m
      (cfg_layers (wroom_config ad)) (ble_keyboard_new b) (Some (replicate 30 0)) True, sk_app = v, ek_encoder = encoder_new\<rparr>"
    by (simp only: wroom_new_def m(1) p_def Option.bind.bind_lunit)
  from wroom_pair [OF m(2-4) e c(1,2)] c(1,3,4) show ?thesis
    by (intro exI conjI) (rule new, simp_all add: sketch_ok_def sketch_inv_def)
qed

lemma wroom_setup_ok:
  assumes lib: "\<And>n key buf. length (snd (pf_getBytes pf n key buf)) = length buf"
    and pl: "placed (wroom_config ad)" and inv: "sketch_ok shadow_inv 5 6 s"
    and c: "p_config (sk_protocol s) = wroom_config ad" "p_customValue (sk_protocol s) = None" "p_storage (sk_protocol s) \<noteq> None"
  shows "\<exists>ok s'. wroom_setup pf nh ng na ar junk now s = Some (ok, s') \<and> sketch_ok shadow_inv 5 6 s' \<and>
    (ok \<longleftrightarrow> fst (ble_setup_store pf s) \<and>
       fst (ble_setup_radio nh ng na ''AirVIA WROOM32'' ''AirVIA'' (snd (ble_setup_store pf s))))"
proof -
  have d: "(0 :: u8) < 5" "(0 :: u8) < 6" by simp_all
  obtain ok s' where s': "ble_setup pf nh ng na junk ''AirVIA WROOM32'' ''AirVIA'' now s = Some (ok, s')"
    "sketch_ok shadow_inv 5 6 s'" "ok \<longleftrightarrow> fst (ble_setup_store pf s) \<and>
       fst (ble_setup_radio nh ng na ''AirVIA WROOM32'' ''AirVIA'' (snd (ble_setup_store pf s)))"
    using ble_setup_ok [OF lib inv c d wroom_start [OF pl], of nh ng na junk "''AirVIA WROOM32''" "''AirVIA''" now] by blast
  let ?k = "sk_keyboard s'"
  have "sketch_ok shadow_inv 5 6 (s'\<lparr>sk_keyboard := ?k\<lparr>kb_matrix := (kb_matrix ?k)\<lparr>mx_io := io\<rparr>\<rparr>\<rparr>)" for io
    using s'(2) pins_inv [of shadow_inv s' io] by (simp add: sketch_ok_def)
  with s' show ?thesis by (simp add: wroom_setup_def Let_def)
qed

lemma wroom_loop_ok:
  assumes "protocol_loop d sinv view (\<lambda>_. True) csize" and "matrix_port (esp32_io ar)" and "keyboard_port hv pend"
    and "sketch_ok sinv rows cols s"
  shows "\<exists>s'. wroom_loop d ar hv now s = Some s' \<and> sketch_ok sinv rows cols s'"
  using keys_turn_ok [OF assms, of now] sketch_ok_steps(2) by (auto simp: wroom_loop_def)

section \<open>Sleep in the S3 sketch\<close>

lemma hasChanged_quiet:
  assumes "mx_inv m" "mx_changedRows m = replicate (row_count m) 0"
  shows "hasChanged m = Some (False, m)"
proof -
  have "for_up 0 (row_count m) (\<lambda>r any. do {
       v \<leftarrow> (if any then Some 0 else arr_get (mx_changedRows m) r); Some (any \<or> v \<noteq> 0) }) False = Some False"
  proof -
    have "\<exists>any. for_up 0 (row_count m) (\<lambda>r any. do {
       v \<leftarrow> (if any then Some 0 else arr_get (mx_changedRows m) r); Some (any \<or> v \<noteq> 0) }) False = Some any \<and> any = False"
      by (rule for_up_total) (use assms(2) in \<open>auto simp: mem\<close>)
    then show ?thesis by blast
  qed
  then show ?thesis by (simp add: hasChanged_def)
qed

text \<open>After \<open>keyboard.task\<close> no change is outstanding, so the sketch reports activity.\<close>

definition s3_ok :: "('s \<Rightarrow> bool) \<Rightarrow> ('s, 't, 'a, 'h, 'v) s3_sketch \<Rightarrow> bool" where
  "s3_ok sinv s \<longleftrightarrow> sketch_ok sinv 5 15 s \<and> battery_inv (s3_battery s) \<and> ba_adcBits (s3_battery s) = 12"

lemma power_turn_runs:
  assumes inv: "s3_ok sinv s" and held: "no_stuck_key (sk_keyboard s)"
  shows "\<exists>s'. power_turn d analogRead now s = Some (Running s') \<and> s3_ok sinv s'"
proof -
  let ?k = "sk_keyboard s" and ?m = "kb_matrix (sk_keyboard s)"
  obtain raw io where r: "analogRead (mx_io ?m) 47 = (raw, io)" by fastforce
  obtain b where b: "battery_update raw (s3_battery s) = Some b" "battery_inv b" "ba_adcBits b = 12"
    using battery_update_inv [of "s3_battery s" raw] inv by (auto simp: s3_ok_def)
  have kb: "kb_inv (p_keymap (sk_protocol s)) ?k" using inv by (simp add: s3_ok_def sketch_ok_def sketch_inv_def pair_inv_def)
  have mx: "mx_inv ?m" "row_count ?m = unat (kb_rows ?k)" using kb by (simp_all add: kb_inv_def)
  have "hasChanged (?m\<lparr>mx_io := io\<rparr>) = Some (False, ?m\<lparr>mx_io := io\<rparr>)"
    by (rule hasChanged_quiet) (use mx held in \<open>simp_all add: mx_inv_def row_count_def col_count_def no_stuck_key_def\<close>)
  moreover have "s3_ok sinv (s\<lparr>sk_keyboard := ?k\<lparr>kb_matrix := ?m\<lparr>mx_io := io\<rparr>\<rparr>, s3_battery := b, s3_sleepMgr := sl\<rparr>)" for sl
    using inv b(2,3) by (simp add: s3_ok_def sketch_ok_def sketch_inv_def pair_inv_def)
  ultimately show ?thesis using r b(1) by (simp add: power_turn_def sleep_update_def Let_def)
qed

lemma s3_world: "s3_ok sinv s \<Longrightarrow> s3_ok sinv (world_step tn s)"
  using sketch_ok_steps(1) [of sinv 5 15 s tn] by (simp add: s3_ok_def) (simp add: world_step_def Let_def)

lemma s3_body_runs:
  assumes loop: "protocol_loop d sinv view (\<lambda>_. True) csize" and port: "matrix_port vt" and hid: "keyboard_port hv pend"
    and inv: "s3_ok sinv s"
  shows "\<exists>s'. s3_body d vt ar analogRead hv now s = Some (Running s') \<and> s3_ok sinv s'"
proof -
  have "sketch_ok sinv 5 15 s" using inv by (simp add: s3_ok_def)
  from keys_turn_ok [OF loop port hid this, of now] obtain p k where
    k: "keys_turn d vt hv now s = Some (s\<lparr>sk_protocol := p, sk_keyboard := k\<rparr>)"
    "sketch_ok sinv 5 15 (s\<lparr>sk_protocol := p, sk_keyboard := k\<rparr>)" "no_stuck_key k" by blast
  let ?s = "encoder_turn ar 4 3 now (s\<lparr>sk_protocol := p, sk_keyboard := k\<rparr>)"
  have "s3_ok sinv ?s" using sketch_ok_steps(2) [OF k(2), of ar 4 3 now] inv
    by (simp add: s3_ok_def) (simp add: encoder_turn_def Let_def split: prod.splits)
  moreover have "no_stuck_key (sk_keyboard ?s)"
    using k(3) by (simp add: encoder_turn_def Let_def split: prod.splits)
  ultimately show ?thesis using power_turn_runs [of sinv ?s d analogRead now] k(1) by (simp add: s3_body_def)
qed

fun s3_run ::
  "(u32 \<Rightarrow> ('s, 't, 'a, 'h, 'v) s3_sketch \<Rightarrow> ('s, 't, 'a, 'h, 'v) s3_sketch outcome option) \<Rightarrow>
   ('t, 'a, 'h) turn list \<Rightarrow> ('s, 't, 'a, 'h, 'v) s3_sketch \<Rightarrow> ('s, 't, 'a, 'h, 'v) s3_sketch outcome option" where
  "s3_run loop [] s = Some (Running s)"
| "s3_run loop (tn # tns) s = do {
     r \<leftarrow> loop (tn_now tn) (world_step tn s);
     (case r of Running s' \<Rightarrow> s3_run loop tns s' | Asleep s' \<Rightarrow> Some (Asleep s')) }"

lemma s3_run_runs:
  assumes loop: "protocol_loop d sinv view (\<lambda>_. True) csize" and port: "matrix_port vt" and hid: "keyboard_port hv pend"
    and inv: "s3_ok sinv s"
  shows "\<exists>s'. s3_run (s3_body d vt ar analogRead hv) tns s = Some (Running s') \<and> s3_ok sinv s'"
  using inv
proof (induction tns arbitrary: s)
  case (Cons tn tns)
  obtain s1 where "s3_body d vt ar analogRead hv (tn_now tn) (world_step tn s) = Some (Running s1)" "s3_ok sinv s1"
    using s3_body_runs [OF loop port hid s3_world [OF Cons.prems]] by blast
  with Cons.IH show ?case by simp
qed simp

lemma s3_sizes:
  "payloadSize (s3_config ad) 0 = 604" "keyCount (s3_config ad) = 300" "encoderMapBytes (s3_config ad) = 0"
  by (simp_all add: payloadSize_def keymapBytes_def keyCount_nat encoderMapBytes_nat s3_config_def)

lemma s3_start:
  assumes "placed (s3_config ad)" "p_config p = s3_config ad" "p_customValue p = None"
  shows "begin_ok d p"
  using assms(2,1) by (rule placed_starts) (simp_all add: assms(3) s3_sizes, simp_all add: s3_config_def)

text \<open>The shared set-up leaves the other globals alone.\<close>

lemma ble_setup_frame:
  "ble_setup pf nh ng na junk name man now s = Some (ok, s') \<Longrightarrow> s3_battery s' = s3_battery s"
  by (auto simp: ble_setup_def ble_setup_store_def ble_setup_radio_def setup_core_def Let_def
      split: option.splits prod.splits bool.splits if_splits bind_splits)

lemma s3_matrix:
  assumes "length prev = 8"
  shows "\<exists>m. matrix_new s3_matrixConfig (replicate 5 0) (replicate 5 0) (replicate 5 0) (replicate 5 0) a prev = Some m \<and>
    mx_inv m \<and> mx_config m = s3_matrixConfig \<and> mx_changedRows m = replicate 5 0"
  by (rule new_matrix) (use assms in \<open>simp_all add: s3_matrixConfig_def\<close>)

lemma s3_pair:
  assumes "mx_inv m" "mx_config m = s3_matrixConfig" "mx_changedRows m = replicate 5 0"
    and "env_inv sinv (\<lambda>_. True) p" "p_config p = s3_config ad" "\<not> p_bootloaderPending p"
  shows "pair_inv sinv p (keyboard_new 5 15 m (cfg_layers (s3_config ad)) h (Some (replicate 75 0)) True)"
proof -
  have d: "cfg_rows (s3_config ad) = 5" "cfg_columns (s3_config ad) = 15" "cfg_layers (s3_config ad) = 4"
    by (simp_all add: s3_config_def)
  have r: "row_count m = 5" "col_count m = 15" by (simp_all add: assms(2) row_count_def col_count_def s3_matrixConfig_def)
  show ?thesis unfolding d by (rule new_pair_inv [OF assms(4-6,1), unfolded d]) (simp_all add: r assms(3) s3_sizes)
qed

lemma s3_new_ok:
  assumes "length prev = 8" "length junk = kPacketSize"
  shows "\<exists>s. s3_new ad mutex prev junk n g a b v = Some s \<and> s3_ok shadow_inv s \<and>
    p_config (sk_protocol s) = s3_config ad \<and> p_customValue (sk_protocol s) = None \<and>
    p_storage (sk_protocol s) = Some (nvs_new n) \<and> s3_battery s = battery_new"
proof -
  obtain m where m: "matrix_new s3_matrixConfig (replicate 5 0) (replicate 5 0) (replicate 5 0) (replicate 5 0) a prev = Some m"
    "mx_inv m" "mx_config m = s3_matrixConfig" "mx_changedRows m = replicate 5 0"
    using s3_matrix [OF assms(1), of a] by (elim exE conjE)
  define p where "p = protocol_new (s3_config ad) (replicate 300 0) (replicate 300 0) [] [] [] (replicate 604 0) junk
         (ble_transport_new mutex None g) (Some (nvs_new n)) (None :: unit option) False"
  have e: "env_inv shadow_inv (\<lambda>_. True) p" unfolding p_def
    by (rule protocol_new_inv) (simp_all add: assms s3_sizes shadow_inv_def nvs_new_def, simp_all add: s3_config_def)
  have c: "p_config p = s3_config ad" "\<not> p_bootloaderPending p" "p_customValue p = None" "p_storage p = Some (nvs_new n)"
    by (simp_all add: p_def)
  have a: "ba_adcBits battery_new = 12" by (simp add: battery_new_def)
  have new: "s3_new ad mutex prev junk n g a b v = Some \<lparr>sk_protocol = p, sk_keyboard = keyboard_new 5 15 m
      (cfg_layers (s3_config ad)) (ble_keyboard_new b) (Some (replicate 75 0)) True, sk_app = v, ek_encoder = encoder_new,
      s3_battery = battery_new, s3_sleepMgr = sleep_new\<rparr>"
    by (simp only: s3_new_def m(1) p_def Option.bind.bind_lunit)
  from s3_pair [OF m(2-4) e c(1,2)] c(1,3,4) battery_inv_new a show ?thesis
    by (intro exI conjI) (rule new, simp_all add: s3_ok_def sketch_ok_def sketch_inv_def)
qed

lemma calibrated: "battery_inv (setCalibration 3200 4200 battery_new) \<and> ba_adcBits (setCalibration 3200 4200 battery_new) = 12"
  using battery_inv_new by (simp add: battery_inv_def setCalibration_def battery_new_def)

lemma s3_setup_ok:
  assumes lib: "\<And>n key buf. length (snd (pf_getBytes pf n key buf)) = length buf"
    and pl: "placed (s3_config ad)" and inv: "s3_ok shadow_inv s" and bat: "s3_battery s = battery_new"
    and c: "p_config (sk_protocol s) = s3_config ad" "p_customValue (sk_protocol s) = None" "p_storage (sk_protocol s) \<noteq> None"
  shows "\<exists>ok s'. s3_setup pf nh ng na junk now s = Some (ok, s') \<and> s3_ok shadow_inv s'"
proof -
  have i: "sketch_ok shadow_inv 5 15 s" using inv by (simp add: s3_ok_def)
  have d: "(0 :: u8) < 5" "(0 :: u8) < 15" by simp_all
  obtain ok s' where s': "ble_setup pf nh ng na junk ''AirVIA S3'' ''VIA-Arduino'' now s = Some (ok, s')" "sketch_ok shadow_inv 5 15 s'"
    using ble_setup_ok [OF lib i c d s3_start [OF pl], of nh ng na junk "''AirVIA S3''" "''VIA-Arduino''" now] by blast
  have bat': "s3_battery s' = battery_new" using ble_setup_frame [OF s'(1)] bat by simp
  have "s3_ok shadow_inv (s'\<lparr>s3_battery := setCalibration 3200 4200 battery_new, s3_sleepMgr := sl\<rparr>)" for sl
    using s'(2) calibrated by (simp add: s3_ok_def sketch_ok_def sketch_inv_def)
  moreover have "s3_ok shadow_inv s'" using s'(2) bat' battery_inv_new by (simp add: s3_ok_def) (simp add: battery_new_def)
  ultimately show ?thesis using s'(1) bat' by (simp add: s3_setup_def)
qed

end
