(* ===== verification/Sketch_Boards.thy ===== *)
theory Sketch_Boards
  imports Sketch_Runs
begin

text \<open>The other boards: the nice!nano, whose loop never scans; the RP2040, whose settings survive a
  power cycle; and the self-test of the core.\<close>

section \<open>A keyboard that is never scanned\<close>

text \<open>No change is outstanding and the last report is the one of the active keys.\<close>

definition quiet :: "('a, 'h) keyboard \<Rightarrow> bool" where
  "quiet k \<longleftrightarrow> mx_changedRows (kb_matrix k) = replicate (row_count (kb_matrix k)) 0 \<and> \<not> kb_reportPending k \<and>
     buildReport k = Some (kb_lastAcceptedReport k)"

lemma drain_leds_send: "drain_leds (hv\<lparr>hid_send := f\<rparr>) k = drain_leds hv k" if "keyboard_port hv pend"
proof (induction "pend (kb_hid k)" arbitrary: k rule: less_induct)
  case less
  obtain o1 h1 where t: "hid_takeHostLeds hv (kb_hid k) = (o1, h1)" by fastforce
  show ?case
  proof (cases o1)
    case None
    then show ?thesis by (simp add: drain_leds.simps [of _ k] t)
  next
    case (Some l)
    have "pend h1 < pend (kb_hid k)" using keyboard_port.leds_dry [OF that] t Some by simp
    then show ?thesis using less
      by (simp add: drain_leds.simps [of "hv\<lparr>hid_send := f\<rparr>" k] drain_leds.simps [of hv k] t Some)
  qed
qed

lemma quiet_frame:
  "same_keys k k' \<Longrightarrow> kb_reportPending k' = kb_reportPending k \<Longrightarrow> kb_lastAcceptedReport k' = kb_lastAcceptedReport k \<Longrightarrow>
   quiet k \<Longrightarrow> quiet k'"
  using same_keys_facts(4) [of k k'] by (simp add: quiet_def same_keys_def)

text \<open>One task of such a keyboard does not use \<open>send\<close> at all.\<close>

lemma quiet_task:
  assumes port: "keyboard_port hv pend" and inv: "kb_inv keymap k" and q: "quiet k"
  shows "\<exists>k'. (\<forall>send. keyboard_task (hv\<lparr>hid_send := send\<rparr>) keymap k = Some k') \<and> same_keys k k' \<and> quiet k' \<and>
    (\<exists>k1. drain_leds hv k = Some k1 \<and> kb_hid k' = kb_hid k1)"
proof -
  let ?m = "kb_matrix k"
  obtain h leds evs where d: "drain_leds hv k =
      Some (k\<lparr>kb_hid := h, kb_lastHostLeds := leds, kb_events := kb_events k @ map HostLedsChanged evs\<rparr>)" (is "_ = Some ?k1")
    using keyboard_port.drain_leds_total [OF port, of k] by blast
  have f: "finish_report (hv\<lparr>hid_send := send\<rparr>) ?k1 = ?k1" for send using q by (simp add: finish_report_def quiet_def)
  have mx: "mx_inv ?m" "row_count ?m = unat (kb_rows k)" using inv by (simp_all add: kb_inv_def)
  obtain cRows where c: "changedRows_mask ?m = Some cRows"
    "\<And>r. bit cRows r \<longleftrightarrow> r < row_count ?m \<and> mx_changedRows ?m ! r \<noteq> 0"
    using changedRows_mask_bits [OF mx(1)] by blast
  have "cRows = 0" using c(2) q by (intro bit_word_eqI) (auto simp: quiet_def)
  let ?k2 = "if kb_wasSuspended k \<and> \<not> hid_suspended hv h then ?k1\<lparr>kb_wasSuspended := False, kb_wakeRequested := False\<rparr>
    else ?k1\<lparr>kb_wasSuspended := hid_suspended hv h\<rparr>"
  obtain saved where saved: "save_changed ?k1 = Some saved" using save_changed_eq [of ?k1] mx by auto
  obtain b where b: "hasChanged ?m = Some (b, ?m\<lparr>mx_changedRows := replicate (row_count ?m) 0\<rparr>)"
    using hasChanged_eq [OF mx(1)] by blast
  then have same: "hasChanged ?m = Some (b, ?m)" using q by (simp add: quiet_def)
  obtain codes where codes: "kb_activeCodes k = Some codes" using inv by (auto simp: kb_inv_def)
  have rep: "buildReport (?k1\<lparr>kb_matrix := ?m, kb_layerState := kb_layerState k, kb_activeCodes := Some codes, kb_wasSuspended := False,
      kb_wakeRequested := False\<rparr>) = Some (kb_lastAcceptedReport k)"
    using q codes by (simp add: quiet_def buildReport_def active_codes_def)
  have "keyboard_task (hv\<lparr>hid_send := send\<rparr>) keymap k = Some ?k2" for send
    using q d f [of send] c(1) \<open>cRows = 0\<close> saved same codes rep
    by (simp add: keyboard_task_def drain_leds_send [OF port] Let_def change_phase_def report_phase_def apply_changes_def
        send_desired_def quiet_def active_codes_def)
  moreover have "same_keys k ?k2" by (simp add: same_keys_def)
  moreover from this have "quiet ?k2" by (rule quiet_frame) (use q in simp_all)
  moreover have "kb_hid ?k2 = kb_hid ?k1" by simp
  ultimately show ?thesis using d by blast
qed

section \<open>nice!nano\<close>

definition nano_ok :: "('f fs_storage, 't, 'a, 'h, 'v) sketch \<Rightarrow> bool" where
  "nano_ok s \<longleftrightarrow> sketch_ok fs_inv 2 3 s \<and> quiet (sk_keyboard s) \<and> active_codes (sk_keyboard s) = replicate 6 0"

lemma world_keys [simp]:
  "quiet (sk_keyboard (world_step tn s)) = quiet (sk_keyboard s)"
  "active_codes (sk_keyboard (world_step tn s)) = active_codes (sk_keyboard s)"
  by (simp_all add: world_step_def Let_def quiet_def active_codes_def buildReport_def row_count_def)

lemma nano_world: "nano_ok s \<Longrightarrow> nano_ok (world_step tn s)"
  using sketch_ok_steps(1) [of fs_inv 2 3 s tn] by (simp add: nano_ok_def)

lemma nano_loop_ok:
  assumes loop: "protocol_loop d fs_inv view (\<lambda>_. True) csize" and port: "keyboard_port hv pend" and ok: "nano_ok s"
  shows "\<exists>s'. (\<forall>send. nano_loop d (hv\<lparr>hid_send := send\<rparr>) now s = Some s') \<and> nano_ok s'"
proof -
  have i: "pair_inv fs_inv (sk_protocol s) (sk_keyboard s)" and q: "quiet (sk_keyboard s)"
    using ok by (auto simp: nano_ok_def sketch_ok_def sketch_inv_def)
  obtain p where p: "protocol_task d (sk_protocol s) now = Some p" "task_inv fs_inv (\<lambda>_. True) p"
    "p_config p = p_config (sk_protocol s)"
    using protocol_loop.task_total [OF loop, of "sk_protocol s" now] i by (auto simp: pair_inv_def)
  have len: "length (p_keymap p) = length (p_keymap (sk_protocol s))"
    using keymap_length [OF p(2)] keymap_length [of fs_inv "\<lambda>_. True" "sk_protocol s"] p(3) i by (simp add: pair_inv_def)
  then have kb: "kb_inv (p_keymap p) (sk_keyboard s)" using i kb_inv_keymap by (auto simp: pair_inv_def)
  obtain k where k: "\<forall>send. keyboard_task (hv\<lparr>hid_send := send\<rparr>) (p_keymap p) (sk_keyboard s) = Some k"
    "same_keys (sk_keyboard s) k" "quiet k" using quiet_task [OF port kb q] by blast
  have "report_current k" using k(3) by (simp add: report_current_def latest_report_def quiet_def)
  then have "pair_inv fs_inv p k" using i p(2) kb same_keys_facts(1,3) [OF k(2)] by (simp add: pair_inv_def)
  then have "nano_ok (s\<lparr>sk_protocol := p, sk_keyboard := k\<rparr>)"
    using ok k(2,3) same_keys_facts(5) [OF k(2)] by (simp add: nano_ok_def sketch_ok_def sketch_inv_def same_keys_def)
  with p(1) k(1) show ?thesis by (intro exI [of _ "s\<lparr>sk_protocol := p, sk_keyboard := k\<rparr>"]) (simp add: nano_loop_def)
qed

lemma turns_same:
  assumes "\<And>now s. Q s \<Longrightarrow> \<exists>s'. (\<forall>x. loop x now s = Some s') \<and> Q s'" and "\<And>tn s. Q s \<Longrightarrow> Q (world_step tn s)" and "Q s"
  shows "\<exists>s'. (\<forall>x. turns (loop x) tns s = Some s') \<and> Q s'"
  using assms(3)
proof (induction tns arbitrary: s)
  case (Cons tn tns)
  obtain s1 where "\<forall>x. loop x (tn_now tn) (world_step tn s) = Some s1" "Q s1" using assms(1,2) Cons.prems by blast
  with Cons.IH show ?case by fastforce
qed simp

lemma nano_sizes: "keyCount (nano_config ad) = 12" "encoderMapBytes (nano_config ad) = 0" "length nano_defaultKeymap = 12"
  by (simp_all add: keyCount_nat encoderMapBytes_nat nano_config_def nano_defaultKeymap_def)

definition sized_staging :: "'f fs_storage \<Rightarrow> bool" where
  "sized_staging s \<longleftrightarrow> length (if_staging s) = if_capacity s"

lemma nano_new_ok:
  assumes arrays: "length prev = 8" "length junk = kPacketSize" and new: "nano_new ad D mutex prev junk f g a b v = Some s"
  shows "sketch_ok sized_staging 2 3 s \<and> quiet (sk_keyboard s) \<and> active_codes (sk_keyboard s) = replicate 6 0"
proof -
  have "\<exists>m. matrix_new (nano_matrixConfig D) (replicate 2 0) (replicate 2 0) (replicate 2 0) (replicate 2 0) a prev = Some m \<and>
    mx_inv m \<and> mx_config m = nano_matrixConfig D \<and> mx_changedRows m = replicate 2 0"
    by (rule new_matrix) (use arrays in \<open>simp_all add: nano_matrixConfig_def\<close>)
  then obtain m where m: "matrix_new (nano_matrixConfig D) (replicate 2 0) (replicate 2 0) (replicate 2 0) (replicate 2 0) a prev = Some m"
    "mx_inv m" "mx_config m = nano_matrixConfig D" "mx_changedRows m = replicate 2 0" by (elim exE conjE)
  have r: "row_count m = 2" "col_count m = 3" by (simp_all add: m(3) row_count_def col_count_def nano_matrixConfig_def)
  define p where "p = protocol_new (nano_config ad) (replicate 12 0) nano_defaultKeymap [] [] [] (replicate 28 0) junk
         (nrf_transport_new mutex None g) (Some (fs_new (replicate 4096 0) 4096 f)) (None :: unit option) False"
  have e: "env_inv sized_staging (\<lambda>_. True) p" unfolding p_def
    by (rule protocol_new_inv) (simp_all add: arrays nano_sizes sized_staging_def fs_new_def, simp_all add: nano_config_def)
  have c: "p_config p = nano_config ad" "\<not> p_bootloaderPending p" by (simp_all add: p_def)
  have d: "cfg_rows (nano_config ad) = 2" "cfg_columns (nano_config ad) = 3" "cfg_layers (nano_config ad) = 2"
    by (simp_all add: nano_config_def)
  let ?k = "keyboard_new 2 3 m (cfg_layers (nano_config ad)) (nrf_keyboard_new None b) (Some (replicate 6 0)) True"
  have pair: "pair_inv sized_staging p ?k"
    unfolding d by (rule new_pair_inv [OF e c m(2), unfolded d]) (simp_all add: r m(4) nano_sizes)
  then have "quiet ?k" using m(4) r by (simp add: pair_inv_def report_current_def latest_report_def quiet_def keyboard_new_def)
  moreover have "s = \<lparr>sk_protocol = p, sk_keyboard = ?k, sk_app = v\<rparr>"
    using new by (simp only: nano_new_def m(1) p_def Option.bind.bind_lunit option.inject)
  moreover have "active_codes ?k = replicate 6 0" by (simp add: active_codes_def keyboard_new_def)
  ultimately show ?thesis using pair by (simp add: sketch_ok_def sketch_inv_def)
qed

lemma fs_begin_ok: "sized_staging s \<Longrightarrow> fs_begin lf s = (True, s') \<Longrightarrow> fs_inv s'"
  by (auto simp: fs_begin_def fs_inv_def fs_blank_def sized_staging_def Let_def split: prod.splits option.splits bool.splits if_splits)

lemma quiet_hid [simp]:
  "quiet (k\<lparr>kb_hid := h\<rparr>) = quiet k" "active_codes (k\<lparr>kb_hid := h\<rparr>) = active_codes k"
  by (simp_all add: quiet_def buildReport_def active_codes_def)

lemma nano_setup_ok:
  assumes ok: "sketch_ok sized_staging 2 3 s" "quiet (sk_keyboard s)" "active_codes (sk_keyboard s) = replicate 6 0"
    and run: "nano_setup lf bh bg ba junk now s = Some (True, s')"
  shows "nano_ok s'"
proof -
  have pi: "pair_inv sized_staging (sk_protocol s) (sk_keyboard s)" using ok(1) by (simp add: sketch_ok_def sketch_inv_def)
  let ?d = "sketch_deps (fs_vt lf) (nrf_transport_vt bg) junk"
  obtain v h t st st1 s2 where parts: "p_storage (sk_protocol s) = Some st" "fs_begin lf st = (True, st1)"
    "setup_core ?d now (s\<lparr>sk_app := v, sk_keyboard := (sk_keyboard s)\<lparr>kb_hid := h\<rparr>,
       sk_protocol := (sk_protocol s)\<lparr>p_transport := t, p_storage := Some st1\<rparr>\<rparr>) = Some (True, s2)"
    "s' = s2\<lparr>sk_app := nano_startAdvertising ba (sk_app s2)\<rparr>"
    using run by (auto simp: nano_setup_def Let_def split: prod.splits option.splits if_splits bind_splits)
  let ?s1 = "s\<lparr>sk_app := v, sk_keyboard := (sk_keyboard s)\<lparr>kb_hid := h\<rparr>,
       sk_protocol := (sk_protocol s)\<lparr>p_transport := t, p_storage := Some st1\<rparr>\<rparr>"
  have "sized_staging st" using pi parts(1) by (simp add: pair_inv_def task_inv_def env_inv_def)
  then have st1: "fs_inv st1" using parts(2) by (rule fs_begin_ok)
  then have i1: "sketch_ok fs_inv 2 3 ?s1"
    using ok(1) by (simp add: sketch_ok_def sketch_inv_def pair_inv_def task_inv_def env_inv_def wf_protocol_def)
  have env: "protocol_env ?d fs_inv if_staging (\<lambda>_. True) 0" by (rule sketch_env [OF fs_contract.storage_contract_axioms])
  have dims: "(0 :: u8) < 2" "(0 :: u8) < 3" by simp_all
  obtain ok3 s3 where "setup_core ?d now ?s1 = Some (ok3, s3)" "sketch_ok fs_inv 2 3 s3" "sk_keyboard s3 = sk_keyboard ?s1"
    using setup_core_ok [OF env i1 dims, of now] by (elim exE conjE)
  with parts(3,4) ok(2,3) show ?thesis by (simp add: nano_ok_def sketch_ok_def sketch_inv_def)
qed

section \<open>RP2040\<close>

text \<open>The sketch has no custom value, so that any invariant of it is vacuous.\<close>

interpretation absent: custom_contract no_custom "\<lambda>_. False" 0
  by unfold_locales simp_all

definition pico_inv :: "addresses \<Rightarrow> ('e eeprom_storage, unit, 'u raw_hid) protocol \<Rightarrow> bool" where
  "pico_inv ad p \<longleftrightarrow> task_inv (\<lambda>s. es_started s \<and> es_length s = 1024) (\<lambda>_. False) p \<and> p_config p = pico_config ad"

lemma pico_sizes:
  "payloadSize (pico_config ad) 0 = 540" "keyCount (pico_config ad) = 12" "encoderMapBytes (pico_config ad) = 0"
  by (simp_all add: payloadSize_def keymapBytes_def keyCount_nat encoderMapBytes_nat pico_config_def)

context eeprom_library
begin

lemma pico_env: "protocol_env (pico_deps ee tu junk) (\<lambda>s. es_started s \<and> es_length s = 1024) eeprom_view (\<lambda>_. False) 0"
  using sized_contract [of 1024] absent.custom_contract_axioms
  by (simp add: protocol_env_def pico_deps_def eeprom_inv_def)

lemma pico_loop_env: "protocol_loop (pico_deps ee tu junk) (\<lambda>s. es_started s \<and> es_length s = 1024) eeprom_view (\<lambda>_. False) 0"
  using pico_env [of tu junk] raw_link.transport_contract_axioms [of tu] by (simp add: protocol_loop_def pico_deps_def)

text \<open>\<open>setup\<close> up to \<open>keyboard.begin\<close>.\<close>

lemma pico_setup_eq:
  assumes arrays: "length noise = kPacketSize"
  obtains h st where "pico_setup ee tk tu junk now (pico_new ad noise e u) =
      protocol_begin (pico_deps ee tu junk) ((pico_new ad noise e u)\<lparr>p_storage := Some st, p_transport := h\<rparr>) now"
    "pico_inv ad ((pico_new ad noise e u)\<lparr>p_storage := Some st, p_transport := h\<rparr>)"
    "eeprom_view st = map (stored e) [0..<1024]" "es_length st = 1024"
proof -
  obtain ok st where b: "eeprom_begin ee (eeprom_new 1024 e) = (ok, st)" by fastforce
  note st = begin_view [OF b]
  have v: "eeprom_view st = map (stored e) [0..<1024]" "es_length st = 1024"
    using st by (simp_all add: eeprom_stored_def eeprom_new_def)
  let ?p = "pico_new ad noise e u"
  have new: "env_inv (\<lambda>_. True) (\<lambda>_. True) ?p" unfolding pico_new_def
    by (rule protocol_new_inv) (simp_all add: arrays pico_sizes, simp_all add: pico_config_def pico_defaultKeymap_def)
  have sel: "p_config ?p = pico_config ad" "p_customValue ?p = None" "\<not> p_bootloaderPending ?p"
    "p_storage ?p = Some (eeprom_new 1024 e)" by (simp_all add: pico_new_def)
  have "pico_inv ad (?p\<lparr>p_storage := Some st, p_transport := h\<rparr>)" for h
    using new sel st v(2) by (simp add: pico_inv_def task_inv_def env_inv_def wf_protocol_def eeprom_inv_def pico_sizes)
  with v show thesis using that [of _ st] b sel(4) by (simp add: pico_setup_def Let_def)
qed

lemma pico_loops_inv:
  assumes "pico_inv ad p" and "pico_loops (pico_deps ee tu junk) tns p = Some p'"
  shows "pico_inv ad p'"
  using assms
proof (induction tns arbitrary: p)
  case (Cons tn tns)
  obtain now host where tn: "tn = (now, host)" by fastforce
  have "task_inv (\<lambda>s. es_started s \<and> es_length s = 1024) (\<lambda>_. False) (p\<lparr>p_transport := host (p_transport p)\<rparr>)"
    using Cons.prems(1) by (simp add: pico_inv_def)
  from protocol_loop.task_total [OF pico_loop_env this, of tu junk now] Cons.prems Cons.IH tn show ?case
    by (auto simp: pico_inv_def split: bind_splits)
qed simp

lemma pico_setup_ok:
  assumes "length noise = kPacketSize" and run: "pico_setup ee tk tu junk now (pico_new ad noise e u) = Some (ok, p)"
  shows "pico_inv ad p"
proof -
  obtain h st where s: "pico_setup ee tk tu junk now (pico_new ad noise e u) =
      protocol_begin (pico_deps ee tu junk) ((pico_new ad noise e u)\<lparr>p_storage := Some st, p_transport := h\<rparr>) now"
    "pico_inv ad ((pico_new ad noise e u)\<lparr>p_storage := Some st, p_transport := h\<rparr>)" (is "pico_inv ad ?p")
    using pico_setup_eq [OF assms(1)] by metis
  then have "env_inv (\<lambda>s. es_started s \<and> es_length s = 1024) (\<lambda>_. False) ?p" by (simp add: pico_inv_def task_inv_def)
  from protocol_env.begin_keeps [OF pico_env this, of tu junk now] s run show ?thesis
    by (auto simp: pico_inv_def task_inv_def keeps_def)
qed

text \<open>What a successful save leaves in the EEPROM.\<close>

lemma pico_saved:
  assumes inv: "pico_inv ad p" and save: "save (pico_deps ee tu junk) p = Some (True, p1)" and s: "p_storage p1 = Some s"
  shows "\<exists>rest. map (stored (es_eeprom s)) [0..<1024] = record_bytes (live_payload p []) @ rest"
proof -
  have p: "env_inv (\<lambda>s. es_started s \<and> es_length s = 1024) (\<lambda>_. False) p" "0 < keyCount (p_config p)"
    using inv by (simp_all add: pico_inv_def task_inv_def pico_sizes)
  then have none: "p_customValue p = None" by (cases "p_customValue p") (simp_all add: env_inv_def)
  obtain s0 s1 s2 bytes n cs where r: "p_storage p = Some s0" "stateBytes (pico_deps ee tu junk) p = Some (bytes, n)"
    "length cs = n" "es_started s2 \<and> es_length s2 = 1024" "st_commit (d_storage (pico_deps ee tu junk)) s1 = (True, s2)"
    "eeprom_view s2 = eeprom_view s1" "p1 = p\<lparr>p_storage := Some s2, p_dirty := False\<rparr>"
    "eeprom_view s2 = record_bytes (live_payload p cs) @ drop (kHeaderSize + bytes) (eeprom_view s0)"
    using protocol_env.save_True [OF pico_env p save] by metis
  have "n = 0" using r(2) none by (simp add: stateBytes_iff custom_bytes_def)
  then have cs: "cs = []" using r(3) by simp
  have c: "eeprom_commit ee s1 = (True, s2)" using r(5) by (simp add: pico_deps_def eeprom_vt_def)
  then have "es_started s1" by (simp add: eeprom_commit_def split: if_splits)
  then have "eeprom_stored s2 = eeprom_view s2" using eeprom_durability(2) [OF _ c] r(6) by simp
  moreover have "s = s2" using r(7) s by simp
  ultimately show ?thesis using r(4,8) cs by (auto simp: eeprom_stored_def)
qed

text \<open>What a start makes of it.\<close>

lemma pico_restart:
  assumes noise: "length noise = kPacketSize" and pl: "placed (pico_config ad)"
    and st: "map (stored e) [0..<1024] = record_bytes (payload_bytes km em ma lo []) @ rest"
    and fits: "payload_fits (pico_config ad) km em ma"
  shows "\<exists>q. pico_setup ee tk tu junk now (pico_new ad noise e u) = Some (True, q) \<and>
    p_keymap q = km \<and> p_macros q = ma \<and> p_layoutOptions q = lo"
proof -
  let ?d = "pico_deps ee tu junk"
  obtain h s where s: "pico_setup ee tk tu junk now (pico_new ad noise e u) =
      protocol_begin ?d ((pico_new ad noise e u)\<lparr>p_storage := Some s, p_transport := h\<rparr>) now"
    "pico_inv ad ((pico_new ad noise e u)\<lparr>p_storage := Some s, p_transport := h\<rparr>)" (is "pico_inv ad ?p")
    "eeprom_view s = map (stored e) [0..<1024]"
    using pico_setup_eq [OF noise] by metis
  have inv: "env_inv (\<lambda>s. es_started s \<and> es_length s = 1024) (\<lambda>_. False) ?p" using s(2) by (simp add: pico_inv_def task_inv_def)
  have c: "p_config ?p = pico_config ad" "p_customValue ?p = None" by (simp_all add: pico_new_def)
  have b: "begin_ok ?d ?p" "stateBytes ?d ?p = Some (payloadSize (pico_config ad) 0, 0)"
    "loadBufferValid (p_config ?p) (payloadSize (pico_config ad) 0)"
    using placed_starts [OF c(1) pl _ _ _ _ _ c(2)] c(1) by (simp_all add: pico_sizes) (simp_all add: pico_config_def)
  obtain buf where l: "load ?d ?p = Some (True, (emit (LayoutOptionsChanged lo)
      (?p\<lparr>p_loadBuffer := buf, p_keymap := km, p_encoderMap := em, p_macros := ma, p_layoutOptions := lo,
         p_customValue := p_customValue ?p\<rparr>))\<lparr>p_dirty := False\<rparr>)"
    using protocol_env.load_record [OF pico_env inv _ b(2,3) _ _ s(3) [unfolded st], of "p_customValue ?p"] fits c(1) by auto
  show ?thesis
    by (rule protocol_env.begin_cases [OF pico_env inv, of tu junk now]) (use b(1) l s(1) in \<open>auto simp: frame\<close>)
qed

end

section \<open>The self-test\<close>

lemma selftest_sizes: "keyCount (selftest_config ad) = 4" "encoderMapBytes (selftest_config ad) = 0"
  by (simp_all add: keyCount_nat encoderMapBytes_nat selftest_config_def)

text \<open>The exchange of one request for the version.\<close>

lemma version_exchange:
  assumes d: "d_transport d = memory_transport_vt" and p: "\<not> p_responsePending p" "\<not> p_bootloaderPending p" "\<not> p_dirty p"
    "length (p_pendingResponse p) = kPacketSize" "p_transport p = memory_transport_new"
  shows "\<exists>p'. protocol_task d (p\<lparr>p_transport := memory_inject (p_transport p) ((replicate kPacketSize 0)[0 := 0x01])\<rparr>) now = Some p' \<and>
    mt_responseReady (p_transport p') \<and> mt_response (p_transport p') = (replicate kPacketSize 0)[0 := 0x01, 1 := 0, 2 := kProtocolVersion]"
proof -
  let ?req = "(replicate kPacketSize 0)[0 := 0x01 :: u8]"
  have l: "length ?req = kPacketSize" by simp
  have h: "?req ! 0 = 0x01" "?req[1 := 0, 2 := kProtocolVersion] ! 0 = 0x01" by (simp_all add: kPacketSize_def)
  have r: "process d q ?req now = Some (True, ?req[1 := 0, 2 := kProtocolVersion], q)" for q
    using h by (simp add: process_def process_cmd_def)
  let ?q = "p\<lparr>p_transport := (memory_inject memory_transport_new ?req)\<lparr>mt_requestReady := False\<rparr>, p_pendingResponse := ?req\<rparr>"
  have "tp_receive (d_transport d) (memory_inject memory_transport_new ?req) (p_pendingResponse p) =
      (True, ?req, (memory_inject memory_transport_new ?req)\<lparr>mt_requestReady := False\<rparr>)"
    using p(4) l by (simp add: d memory_transport_vt_def memory_receive_def memory_inject_def overwrite_all)
  then have "task_receive d (p\<lparr>p_transport := memory_inject (p_transport p) ?req\<rparr>) now =
      Some (?q\<lparr>p_pendingResponse := ?req[1 := 0, 2 := kProtocolVersion], p_bootloaderPending := False, p_responsePending := True\<rparr>)"
    using p r [of ?q] h by (simp add: task_receive_def Let_def)
  then show ?thesis using p(3)
    by (simp add: protocol_task_def task_send_def task_jump_def task_save_def d memory_transport_vt_def memory_send_def)
qed

lemma selftest_env: "protocol_env (selftest_deps noise) memory_inv memory_view (\<lambda>_. True) 0"
  unfolding selftest_deps_def by (rule sketch_env [OF memory.storage_contract_axioms])

lemma selftest_started:
  assumes "length junk = kPacketSize"
  shows "\<exists>ok p. protocol_begin (selftest_deps noise) (selftest_new ad junk) now = Some (ok, p) \<and> \<not> p_dirty p \<and>
    \<not> p_responsePending p \<and> \<not> p_bootloaderPending p \<and> length (p_pendingResponse p) = kPacketSize \<and>
    p_transport p = memory_transport_new"
proof -
  have e: "env_inv memory_inv (\<lambda>_. True) (selftest_new ad junk)" unfolding selftest_new_def
    by (rule protocol_new_inv)
      (simp_all add: assms selftest_sizes memory_inv_def memory_storage_new_def, simp_all add: selftest_config_def)
  have sel: "\<not> p_dirty (selftest_new ad junk)" "\<not> p_responsePending (selftest_new ad junk)"
    "\<not> p_bootloaderPending (selftest_new ad junk)" "p_pendingResponse (selftest_new ad junk) = junk"
    "p_transport (selftest_new ad junk) = memory_transport_new"
    by (simp_all add: selftest_new_def protocol_new_def)
  show ?thesis
    by (rule protocol_env.begin_cases [OF selftest_env e, of noise now])
      (use protocol_env.begin_keeps [OF selftest_env e, of noise now] sel assms in \<open>auto simp: keeps_def\<close>)
qed

end
