(* ===== verification/Demo_Sketch.thy ===== *)
theory Demo_Sketch
  imports Sketch_Boards Demo_Keyboard
begin

text \<open>A placement of the arrays and libraries that answer every call: the input of the witnesses of
  theory \<open>Sketch_Theorems\<close>.\<close>

definition spots :: addresses where
  "spots = \<lparr>ad_keymap = 0x20000000, ad_defaultKeymap = 0x08000000, ad_macros = 0x20001000,
     ad_encoderMap = 0x20002000, ad_defaultEncoderMap = 0x08001000, ad_loadBuffer = 0x20003000\<rparr>"

lemma spots_placed: "placed (wroom_config spots)" "placed (s3_config spots)" "placed (pico_config spots)" "placed (nano_config spots)"
  by (simp_all add: placed_def apart_def spots_def Let_def keymapBytes_def keyCount_nat encoderMapBytes_nat
      wroom_config_def s3_config_def pico_config_def nano_config_def)

definition spots_prefs :: fake_prefs where "spots_prefs = \<lparr>fp_store = Map.empty, fp_open = None\<rparr>"

lemma fake_getBytes_length: "length (snd (pf_getBytes fake_preferences n key buf)) = length buf"
  by (simp add: fake_preferences_def fake_getBytes_def Let_def overwrite_def split: option.split)

definition tiny_gatt :: "unit nimble_gatt" where
  "tiny_gatt = \<lparr>ng_connectedCount = (\<lambda>_. 0), ng_setServerCallbacks = (\<lambda>n. n), ng_createService = (\<lambda>n. (True, n)),
     ng_createCharacteristic = (\<lambda>n _. (True, n)), ng_setValue = (\<lambda>n _ _. n), ng_notify = (\<lambda>n _ _. (True, n)), ng_mutexTake = (\<lambda>_. True)\<rparr>"

definition tiny_app :: "nimble_call list nimble_app" where
  "tiny_app = \<lparr>na_call = (\<lambda>v c. v @ [c]), na_createServer = (\<lambda>v. (True, v)), na_getAdvertising = (\<lambda>v. (True, v))\<rparr>"

definition tiny_bluefruit :: "bluefruit_call list bluefruit_app" where
  "tiny_bluefruit = \<lparr>ba_call = (\<lambda>v c. v @ [c]), ba_begin = (\<lambda>v _ _. (True, v))\<rparr>"

definition tiny_bluefruit_hid :: "unit bluefruit_hid" where
  "tiny_bluefruit_hid = \<lparr>bh_connected = (\<lambda>_. True), bh_keyboardReport = (\<lambda>b _ _. (True, b)), bh_setLedCallback = (\<lambda>b. b)\<rparr>"

definition tiny_bluefruit_gatt :: "unit bluefruit_gatt" where
  "tiny_bluefruit_gatt = \<lparr>bg_connected = (\<lambda>_. False), bg_service_begin = (\<lambda>b. b), bg_characteristic_begin = (\<lambda>b _. b),
     bg_write = (\<lambda>b _ _. b), bg_notifyEnabled = (\<lambda>_ _. False), bg_notify = (\<lambda>b _ _. (True, b)), bg_mutexTake = (\<lambda>_. True)\<rparr>"

definition tiny_tinyusb :: "unit tinyusb" where
  "tiny_tinyusb = \<lparr>tu_isInitialized = (\<lambda>_. True), tu_deviceBegin = (\<lambda>u. u), tu_setup = (\<lambda>u _. u), tu_begin = (\<lambda>u. (True, u)),
     tu_ready = (\<lambda>_. True), tu_sendReport = (\<lambda>u _ _. (True, u)), tu_keyboardReport = (\<lambda>u _ _ _. (True, u))\<rparr>"

definition open_board :: board where "open_board = \<lparr>bd_modes = [], bd_outs = [], bd_closed = []\<rparr>"

definition idle_turn :: "u32 \<Rightarrow> ('t, 'a, 'h) turn" where
  "idle_turn now = \<lparr>tn_now = now, tn_radio = (\<lambda>t. t), tn_pins = (\<lambda>a. a), tn_host = (\<lambda>h. h)\<rparr>"

definition tiny_nano :: "(fake_fs fs_storage, unit nrf_transport, board, unit nrf_keyboard, bluefruit_call list) sketch option" where
  "tiny_nano = nano_new spots of_nat True (replicate 8 0) (replicate 32 0)
     \<lparr>ff_files = Map.empty, ff_handles = Map.empty, ff_next = 0, ff_beginOk = True, ff_writeFail = False, ff_corrupt = False\<rparr> () open_board () []"

lemma tiny_nano_setup:
  "map_option (\<lambda>s. map_option fst (nano_setup calm_littlefs tiny_bluefruit_hid tiny_bluefruit_gatt tiny_bluefruit (\<lambda>_. 0) 5 s)) tiny_nano =
    Some (Some True)"
  by code_simp

definition tiny_pico :: "(emulated_eeprom eeprom_storage, unit, unit raw_hid) protocol" where
  "tiny_pico = pico_new spots (replicate 32 0) \<lparr>em_ram = (\<lambda>_. 0), em_flash = (\<lambda>_. 0)\<rparr> ()"

lemma tiny_pico_setup:
  "map_option (\<lambda>(ok, p). (ok, p_storage p \<noteq> None)) (pico_setup emulated tiny_tinyusb tiny_tinyusb (\<lambda>_. 0) 5 tiny_pico) =
    Some (True, True)"
  by code_simp

text \<open>The emulation never refuses a commit.\<close>

lemma tiny_pico_save:
  assumes inv: "pico_inv ad p" and s: "p_storage p \<noteq> None"
  shows "\<exists>p1 s1. save (pico_deps emulated tu junk) p = Some (True, p1) \<and> p_storage p1 = Some s1"
proof -
  let ?d = "pico_deps emulated tu junk"
  obtain s0 where s0: "p_storage p = Some s0" using s by blast
  have e: "env_inv (\<lambda>s. es_started s \<and> es_length s = 1024) (\<lambda>_. False) p" and c: "p_config p = pico_config ad"
    using inv by (simp_all add: pico_inv_def task_inv_def)
  then have none: "p_customValue p = None" by (cases "p_customValue p") (simp_all add: env_inv_def)
  have "es_length s0 = 1024" using e s0 by (simp add: env_inv_def)
  then have st: "stateBytes ?d p = Some (540, 0)" "0 < keyCount (p_config p)" "kHeaderSize + 540 \<le> length (emulated.eeprom_view s0)"
    "custom_saved ?d p 0 = (True, [])"
    using none c by (simp_all add: stateBytes_iff custom_bytes_def pico_sizes kHeaderSize_def emulated.eeprom_view_def
        custom_saved_def kMaxCustomStateSize_def)
  obtain s1 ok s2 where r: "st_commit (d_storage ?d) s1 = (ok, s2)"
    "writeState ?d p = Some (ok, if ok then p\<lparr>p_storage := Some s2, p_dirty := False\<rparr> else p\<lparr>p_storage := Some s2\<rparr>)"
    "es_started s2 \<and> es_length s2 = 1024"
    using protocol_env.writeState_cases [OF emulated.pico_env e s0 st] by metis
  have "ok" using r(1,3) by (auto simp: pico_deps_def eeprom_vt_def eeprom_commit_def emulated_def split: if_splits)
  with r(2) s0 show ?thesis by (simp add: save_def)
qed

end
