(* ===== verification/Sketch_Theorems.thy ===== *)
theory Sketch_Theorems
  imports Demo_Sketch Input_Theorems
begin

text \<open>
  The example sketches as whole programs: what holds from the static initialisers through \<open>setup\<close>
  and any number of turns of \<open>loop\<close>, whatever the radio, the switches and the host do in between.
\<close>

section \<open>ESP32-WROOM-32\<close>

text \<open>C7. The WROOM sketch is well typed: from its initialisers, \<open>setup\<close> and every sequence of turns
  of \<open>loop\<close> return without an access outside an array, also when \<open>setup\<close> gives up early; all
  arrays keep their sizes, no key sticks, and the set-up goes through exactly when the NVS
  library and the Bluetooth library do.\<close>
theorem wroom_runs:
  assumes lib: "\<And>n key buf. length (snd (pf_getBytes pf n key buf)) = length buf"
    and place: "placed (wroom_config ad)" and arrays: "length prev = 8" "length junk = kPacketSize"
  shows "\<exists>s0 ok s1. wroom_new ad mutex prev junk n g a b v = Some s0 \<and>
    wroom_setup pf nh ng na ar noise now s0 = Some (ok, s1) \<and>
    (ok \<longleftrightarrow> fst (ble_setup_store pf s0) \<and>
       fst (ble_setup_radio nh ng na ''AirVIA WROOM32'' ''AirVIA'' (snd (ble_setup_store pf s0)))) \<and>
    (\<exists>s2. turns (wroom_loop (sketch_deps (nvs_vt pf) (ble_transport_vt ng) noise) ar (ble_hid_vt nh)) tns s1 = Some s2 \<and>
       wf_protocol (sk_protocol s2) \<and> kb_inv (p_keymap (sk_protocol s2)) (sk_keyboard s2) \<and> no_stuck_key (sk_keyboard s2) \<and>
       kb_rows (sk_keyboard s2) = 5 \<and> kb_columns (sk_keyboard s2) = 6)"
proof -
  obtain s0 where s0: "wroom_new ad mutex prev junk n g a b v = Some s0" "sketch_ok shadow_inv 5 6 s0"
    "p_config (sk_protocol s0) = wroom_config ad" "p_customValue (sk_protocol s0) = None"
    "p_storage (sk_protocol s0) = Some (nvs_new n)"
    using wroom_new_ok [OF arrays, of ad mutex n g a b v] by (elim exE conjE)
  have st: "p_storage (sk_protocol s0) \<noteq> None" using s0(5) by simp
  obtain ok s1 where s1: "wroom_setup pf nh ng na ar noise now s0 = Some (ok, s1)" "sketch_ok shadow_inv 5 6 s1"
    "ok \<longleftrightarrow> fst (ble_setup_store pf s0) \<and>
       fst (ble_setup_radio nh ng na ''AirVIA WROOM32'' ''AirVIA'' (snd (ble_setup_store pf s0)))"
    using wroom_setup_ok [OF lib place s0(2-4) st, of nh ng na ar noise now] by (elim exE conjE)
  let ?loop = "wroom_loop (sketch_deps (nvs_vt pf) (ble_transport_vt ng) noise) ar (ble_hid_vt nh)"
  have "\<exists>s2. turns ?loop tns s1 = Some s2 \<and> sketch_ok shadow_inv 5 6 s2"
  proof (rule turns_sound [where Q = "sketch_ok shadow_inv 5 6"])
    show "\<exists>s'. ?loop now s = Some s' \<and> sketch_ok shadow_inv 5 6 s'" if "sketch_ok shadow_inv 5 6 s" for now s
      by (rule wroom_loop_ok [OF sketch_protocol_loop [OF nvs_shadow.storage_contract_axioms ble_link.transport_contract_axioms]
            esp32_pins.matrix_port_axioms ble_keyboard.keyboard_port_axioms that])
  qed (use s1(2) sketch_ok_steps(1) in blast)+
  with s0(1) s1(1,3) show ?thesis
    by (fastforce simp: sketch_ok_def sketch_inv_def pair_inv_def task_inv_def env_inv_def)
qed

lemma wroom_runs_witness:
  "\<exists>s0 ok s1 s2. wroom_new spots True (replicate 8 0) (replicate 32 0) spots_prefs () open_board [] [] = Some s0 \<and>
    wroom_setup fake_preferences tiny_ble tiny_gatt tiny_app board_arduino (\<lambda>_. 0) 5 s0 = Some (ok, s1) \<and>
    turns (wroom_loop (sketch_deps (nvs_vt fake_preferences) (ble_transport_vt tiny_gatt) (\<lambda>_. 0)) board_arduino (ble_hid_vt tiny_ble))
      [idle_turn 6, idle_turn 20] s1 = Some s2 \<and> no_stuck_key (sk_keyboard s2)"
  using wroom_runs [OF fake_getBytes_length spots_placed(1), of "replicate 8 0" "replicate 32 0" True spots_prefs "()" open_board "[]" "[]"
      tiny_ble tiny_gatt tiny_app board_arduino "\<lambda>_. 0" 5 "[idle_turn 6, idle_turn 20]"]
  by (auto simp: kPacketSize_def)

section \<open>ESP32-S3\<close>

text \<open>The first turn on the adapter of the package: the settling delay of the scan calls itself.\<close>
lemma s3_turn_hangs:
  assumes loop: "protocol_loop d sinv view (\<lambda>_. True) csize" and inv: "s3_ok sinv s"
  shows "s3_loop d ar analogRead hv now s = None"
proof -
  have pi: "pair_inv sinv (sk_protocol s) (sk_keyboard s)" and dims: "kb_rows (sk_keyboard s) = 5" "kb_columns (sk_keyboard s) = 15"
    using inv by (auto simp: s3_ok_def sketch_ok_def sketch_inv_def)
  then have "row_count (kb_matrix (sk_keyboard s)) = 5" "col_count (kb_matrix (sk_keyboard s)) = 15"
    by (simp_all add: pair_inv_def kb_inv_def)
  then have "matrix_scan (esp32s3_io ar) (kb_matrix (sk_keyboard s)) = None"
    by (intro scan_stuck) (simp_all add: esp32s3_io_def)
  moreover obtain p where "protocol_task d (sk_protocol s) now = Some p"
    using protocol_loop.task_total [OF loop, of "sk_protocol s" now] pi by (auto simp: pair_inv_def)
  ultimately show ?thesis by (simp add: s3_loop_def s3_body_def keys_turn_def keyboard_turn_def matrix_task_def)
qed

text \<open>C35. The S3 sketch never sleeps, and for two reasons.  Its \<open>setup\<close> returns from the initialisers;
  then the first turn of \<open>loop\<close> as the sketch is written never ends, because the delay of the
  adapter it declares calls itself.  With that delay replaced by the delay of the Arduino core every
  turn ends, and still no sequence of turns ends asleep, however long no key is touched:
  \<open>keyboard.task\<close> has acknowledged all changes by the time the sketch asks \<open>hasChanged\<close>, and it
  hands the negation to the sleep manager as activity.  The hypotheses are that \<open>getBytes\<close> leaves the
  size of its buffer and that the linker gives the arrays addresses.\<close>
theorem s3_never_sleeps:
  assumes lib: "\<And>n key buf. length (snd (pf_getBytes pf n key buf)) = length buf"
    and place: "placed (s3_config ad)" and arrays: "length prev = 8" "length junk = kPacketSize"
  shows "\<exists>s0 ok s1. s3_new ad mutex prev junk n g a b v = Some s0 \<and> s3_setup pf nh ng na noise now s0 = Some (ok, s1) \<and>
    (\<forall>tn tns. s3_run (s3_loop (sketch_deps (nvs_vt pf) (ble_transport_vt ng) noise) ar analogRead (s3_hid_vt nh)) (tn # tns) s1 = None) \<and>
    (\<forall>tns. \<exists>s2. s3_run (s3_body (sketch_deps (nvs_vt pf) (ble_transport_vt ng) noise)
        ((esp32s3_io ar)\<lparr>io_delayMicroseconds := global_delay ar\<rparr>) ar analogRead (s3_hid_vt nh)) tns s1 = Some (Running s2))"
proof -
  obtain s0 where s0: "s3_new ad mutex prev junk n g a b v = Some s0" "s3_ok shadow_inv s0"
    "p_config (sk_protocol s0) = s3_config ad" "p_customValue (sk_protocol s0) = None"
    "p_storage (sk_protocol s0) = Some (nvs_new n)" "s3_battery s0 = battery_new"
    using s3_new_ok [OF arrays, of ad mutex n g a b v] by (elim exE conjE)
  have st: "p_storage (sk_protocol s0) \<noteq> None" using s0(5) by simp
  obtain ok s1 where s1: "s3_setup pf nh ng na noise now s0 = Some (ok, s1)" "s3_ok shadow_inv s1"
    using s3_setup_ok [OF lib place s0(2,6,3,4) st, of nh ng na noise now] by (elim exE conjE)
  have port: "matrix_port ((esp32s3_io ar)\<lparr>io_delayMicroseconds := global_delay ar\<rparr>)"
    by unfold_locales (simp add: global_delay_def)
  note loop = sketch_protocol_loop [OF nvs_shadow.storage_contract_axioms [of pf] ble_link.transport_contract_axioms [of ng], of noise]
  have "s3_run (s3_loop (sketch_deps (nvs_vt pf) (ble_transport_vt ng) noise) ar analogRead (s3_hid_vt nh)) (tn # tns) s1 = None" for tn tns
    by (simp add: s3_turn_hangs [OF loop s3_world [OF s1(2)]])
  moreover have "\<exists>s2. s3_run (s3_body (sketch_deps (nvs_vt pf) (ble_transport_vt ng) noise)
        ((esp32s3_io ar)\<lparr>io_delayMicroseconds := global_delay ar\<rparr>) ar analogRead (s3_hid_vt nh)) tns s1 = Some (Running s2)" for tns
    using s3_run_runs [OF loop port s3_keyboard.keyboard_port_axioms [of nh] s1(2), where ar = ar and analogRead = analogRead and tns = tns]
    by (elim exE conjE) (rule exI)
  ultimately show ?thesis using s0(1) s1(1) by blast
qed

lemma s3_never_sleeps_witness:
  "\<exists>s0 ok s1 s2. s3_new spots True (replicate 8 0) (replicate 32 0) spots_prefs () open_board [] [] = Some s0 \<and>
    s3_setup fake_preferences tiny_ble tiny_gatt tiny_app (\<lambda>_. 0) 5 s0 = Some (ok, s1) \<and>
    s3_run (s3_loop (sketch_deps (nvs_vt fake_preferences) (ble_transport_vt tiny_gatt) (\<lambda>_. 0))
      board_arduino (\<lambda>io _. (2000, io)) (s3_hid_vt tiny_ble)) [idle_turn 6] s1 = None \<and>
    s3_run (s3_body (sketch_deps (nvs_vt fake_preferences) (ble_transport_vt tiny_gatt) (\<lambda>_. 0)) level_s3_io
      board_arduino (\<lambda>io _. (2000, io)) (s3_hid_vt tiny_ble)) [idle_turn 6, idle_turn 400000, idle_turn 800000] s1 = Some (Running s2)"
proof -
  obtain s0 ok s1 where "s3_new spots True (replicate 8 0) (replicate 32 0) spots_prefs () open_board [] [] = Some s0"
    "s3_setup fake_preferences tiny_ble tiny_gatt tiny_app (\<lambda>_. 0) 5 s0 = Some (ok, s1)"
    "\<And>tn tns. s3_run (s3_loop (sketch_deps (nvs_vt fake_preferences) (ble_transport_vt tiny_gatt) (\<lambda>_. 0))
      board_arduino (\<lambda>io _. (2000, io)) (s3_hid_vt tiny_ble)) (tn # tns) s1 = None"
    "\<And>tns. \<exists>s2. s3_run (s3_body (sketch_deps (nvs_vt fake_preferences) (ble_transport_vt tiny_gatt) (\<lambda>_. 0)) level_s3_io
      board_arduino (\<lambda>io _. (2000, io)) (s3_hid_vt tiny_ble)) tns s1 = Some (Running s2)"
    using s3_never_sleeps [OF fake_getBytes_length spots_placed(2), of "replicate 8 0" "replicate 32 0" True
        spots_prefs "()" open_board "[]" "[]" tiny_ble tiny_gatt tiny_app "\<lambda>_. 0" 5 board_arduino "\<lambda>io _. (2000, io)"]
    unfolding level_s3_io_def [symmetric] by (auto simp: kPacketSize_def)
  then show ?thesis by blast
qed

section \<open>nice!nano v2\<close>

text \<open>C36. The nice!nano sketch never types: after a successful \<open>setup\<close>, whatever the switches do, every
  run of its loop leaves all keys inactive and ends in the same state with any function in place of
  \<open>send\<close>, so that no report reaches the host: the loop does not call \<open>matrix.task\<close>.\<close>
theorem nano_never_types:
  assumes arrays: "length prev = 8" "length junk = kPacketSize"
    and new: "nano_new ad D mutex prev junk f g a b v = Some s0"
    and run: "nano_setup lf bh bg ba noise now s0 = Some (True, s1)"
  shows "\<exists>s2. active_codes (sk_keyboard s2) = replicate 6 0 \<and>
    (\<forall>send. turns (nano_loop (sketch_deps (fs_vt lf) (nrf_transport_vt bg) noise) ((nrf_hid_vt bh)\<lparr>hid_send := send\<rparr>)) tns s1 = Some s2)"
proof -
  have ok: "nano_ok s1" using nano_setup_ok [OF _ _ _ run] nano_new_ok [OF arrays new] by blast
  have "\<exists>s2. (\<forall>send. turns (nano_loop (sketch_deps (fs_vt lf) (nrf_transport_vt bg) noise) ((nrf_hid_vt bh)\<lparr>hid_send := send\<rparr>)) tns s1 =
      Some s2) \<and> nano_ok s2"
    by (rule turns_same [where Q = nano_ok and loop = "\<lambda>send. nano_loop (sketch_deps (fs_vt lf) (nrf_transport_vt bg) noise)
          ((nrf_hid_vt bh)\<lparr>hid_send := send\<rparr>)", OF nano_loop_ok nano_world ok])
      (rule sketch_protocol_loop [OF fs_contract.storage_contract_axioms nrf_link.transport_contract_axioms]
        nrf_keyboard.keyboard_port_axioms)+
  then show ?thesis by (auto simp: nano_ok_def)
qed

lemma nano_never_types_witness:
  "\<exists>s0 s1 s2. tiny_nano = Some s0 \<and>
    nano_setup calm_littlefs tiny_bluefruit_hid tiny_bluefruit_gatt tiny_bluefruit (\<lambda>_. 0) 5 s0 = Some (True, s1) \<and>
    active_codes (sk_keyboard s2) = replicate 6 0 \<and>
    (\<forall>send. turns (nano_loop (sketch_deps (fs_vt calm_littlefs) (nrf_transport_vt tiny_bluefruit_gatt) (\<lambda>_. 0))
       ((nrf_hid_vt tiny_bluefruit_hid)\<lparr>hid_send := send\<rparr>))
       [(idle_turn 6)\<lparr>tn_pins := (\<lambda>b. b\<lparr>bd_closed := [(0, 2)]\<rparr>)\<rparr>, idle_turn 30] s1 = Some s2)"
proof -
  obtain s0 s1 where s: "tiny_nano = Some s0"
    "nano_setup calm_littlefs tiny_bluefruit_hid tiny_bluefruit_gatt tiny_bluefruit (\<lambda>_. 0) 5 s0 = Some (True, s1)"
    using tiny_nano_setup by auto
  have l: "length (replicate 8 (0 :: u32)) = 8" "length (replicate 32 (0 :: u8)) = kPacketSize" by (simp_all add: kPacketSize_def)
  from nano_never_types [OF l s(1) [unfolded tiny_nano_def] s(2)] s show ?thesis by blast
qed

section \<open>RP2040\<close>

text \<open>C8. Settings survive a power cycle on the RP2040: over any EEPROM library that keeps what it
  commits, after any use of the sketch and a save that reports success, a restart of the whole
  sketch on an EEPROM with the stored content (the RAM, USB and noise being arbitrary) starts with
  the keymap, macros and layout options of the moment of the save.\<close>
theorem pico_survives_power_cycle:
  assumes lib: "eeprom_library ee cells stored" and place: "placed (pico_config ad)"
    and arrays: "length noise = kPacketSize" "length noise' = kPacketSize"
    and setup0: "pico_setup ee tk tu junk now (pico_new ad noise e u) = Some (ok, p0)"
    and use: "pico_loops (pico_deps ee tu junk) tns p0 = Some p" and save: "save (pico_deps ee tu junk) p = Some (True, p1)"
    and cut: "p_storage p1 = Some s1" "stored e' = stored (es_eeprom s1)"
  shows "\<exists>q. pico_setup ee tk tu junk' now' (pico_new ad noise' e' u') = Some (True, q) \<and>
    p_keymap q = p_keymap p \<and> p_macros q = p_macros p \<and> p_layoutOptions q = p_layoutOptions p"
proof -
  have inv: "pico_inv ad p"
    using eeprom_library.pico_setup_ok [OF lib arrays(1) setup0] eeprom_library.pico_loops_inv [OF lib _ use] by blast
  then have "wf_protocol p" "p_config p = pico_config ad" by (simp_all add: pico_inv_def task_inv_def env_inv_def)
  then have fits: "payload_fits (pico_config ad) (p_keymap p) (p_encoderMap p) (p_macros p)" using wf_payload_fits by metis
  obtain rest where "map (stored e') [0..<1024] = record_bytes (live_payload p []) @ rest"
    using eeprom_library.pico_saved [OF lib inv save cut(1)] cut(2) by auto
  from eeprom_library.pico_restart [OF lib arrays(2) place this [unfolded live_payload_def] fits] show ?thesis .
qed

lemma pico_survives_power_cycle_witness:
  "\<exists>ok p0 p1 s1 q. pico_setup emulated tiny_tinyusb tiny_tinyusb (\<lambda>_. 0) 5 tiny_pico = Some (ok, p0) \<and>
    save (pico_deps emulated tiny_tinyusb (\<lambda>_. 0)) p0 = Some (True, p1) \<and> p_storage p1 = Some s1 \<and>
    pico_setup emulated tiny_tinyusb tiny_tinyusb (\<lambda>_. 0) 9
      (pico_new spots (replicate 32 1) ((es_eeprom s1)\<lparr>em_ram := (\<lambda>_. 7)\<rparr>) ()) = Some (True, q) \<and> p_keymap q = p_keymap p0"
proof -
  obtain ok p0 where p0: "pico_setup emulated tiny_tinyusb tiny_tinyusb (\<lambda>_. 0) 5 tiny_pico = Some (ok, p0)" "p_storage p0 \<noteq> None"
    using tiny_pico_setup by auto
  note run = p0(1) [unfolded tiny_pico_def]
  have l: "length (replicate 32 (n :: u8)) = kPacketSize" for n by (simp add: kPacketSize_def)
  obtain p1 s1 where p1: "save (pico_deps emulated tiny_tinyusb (\<lambda>_. 0)) p0 = Some (True, p1)" "p_storage p1 = Some s1"
    using tiny_pico_save [OF emulated.pico_setup_ok [OF l run] p0(2), of tiny_tinyusb "\<lambda>_. 0"] by blast
  have "pico_loops (pico_deps emulated tiny_tinyusb (\<lambda>_. 0)) [] p0 = Some p0"
    "em_flash ((es_eeprom s1)\<lparr>em_ram := (\<lambda>_. 7)\<rparr>) = em_flash (es_eeprom s1)" by simp_all
  from pico_survives_power_cycle [OF emulated.eeprom_library_axioms spots_placed(3) l l run this(1) p1 this(2)]
  obtain q where "pico_setup emulated tiny_tinyusb tiny_tinyusb (\<lambda>_. 0) 9
      (pico_new spots (replicate 32 1) ((es_eeprom s1)\<lparr>em_ram := (\<lambda>_. 7)\<rparr>) ()) = Some (True, q)" "p_keymap q = p_keymap p0" by blast
  with p0(1) p1 show ?thesis by blast
qed

section \<open>Protocol self-test\<close>

text \<open>The self-test reports that the core is ready: wherever the linker puts the arrays, the
  request for the protocol version is answered within one task by the version.\<close>
theorem selftest_ready:
  assumes arrays: "length junk = kPacketSize" "length response = kPacketSize"
  shows "\<exists>p. selftest_setup noise response now now' (selftest_new ad junk) =
    Some (''VIA core is ready. Add a native USB Raw HID Transport next.'', p)"
proof -
  obtain ok p where p: "protocol_begin (selftest_deps noise) (selftest_new ad junk) now = Some (ok, p)" "\<not> p_dirty p"
    "\<not> p_responsePending p" "\<not> p_bootloaderPending p" "length (p_pendingResponse p) = kPacketSize" "p_transport p = memory_transport_new"
    using selftest_started [OF arrays(1), of noise ad now] by (elim exE conjE)
  have d: "d_transport (selftest_deps noise) = memory_transport_vt" by (simp add: selftest_deps_def)
  let ?reply = "(replicate kPacketSize 0)[0 := 0x01, 1 := 0, 2 := kProtocolVersion]"
  obtain p' where p': "protocol_task (selftest_deps noise)
      (p\<lparr>p_transport := memory_inject (p_transport p) ((replicate kPacketSize 0)[0 := 0x01])\<rparr>) now' = Some p'"
    "mt_responseReady (p_transport p')" "mt_response (p_transport p') = ?reply"
    using version_exchange [OF d p(3,4,2,5,6), of now'] by (elim exE conjE)
  have "?reply ! 1 = 0" "?reply ! 2 = kProtocolVersion" by (simp_all add: kPacketSize_def)
  moreover have "overwrite response 0 ?reply = ?reply" by (rule overwrite_all) (simp add: arrays)
  ultimately show ?thesis using p(1) p' by (simp add: selftest_setup_def memory_takeResponse_def Let_def)
qed

lemma selftest_ready_witness:
  "\<exists>p. selftest_setup (\<lambda>_. 0) (replicate 32 7) 5 6 (selftest_new spots (replicate 32 3)) =
    Some (''VIA core is ready. Add a native USB Raw HID Transport next.'', p)"
  by (rule selftest_ready) (simp_all add: kPacketSize_def)

text \<open>Its loop goes on for ever.\<close>

lemma selftest_loop_runs:
  assumes "task_inv memory_inv (\<lambda>_. True) p"
  shows "\<exists>p'. selftest_loop noise now p = Some p' \<and> task_inv memory_inv (\<lambda>_. True) p'"
proof -
  have "protocol_loop (selftest_deps noise) memory_inv memory_view (\<lambda>_. True) 0" unfolding selftest_deps_def
    by (rule sketch_protocol_loop [OF memory.storage_contract_axioms memory_link.transport_contract_axioms])
  from protocol_loop.task_total [OF this assms] show ?thesis by (auto simp: selftest_loop_def)
qed

section \<open>The pins\<close>

text \<open>The columns float: all keyboard sketches scan with the rows driven and the columns read, and no
  call of \<open>matrix.task\<close> on the ESP32 or nRF52 adapter turns on the pull-up of a column pin: after
  any scans a column pin is a pulled-up input only if it was one before, and the sketches configure
  none.\<close>
theorem columns_left_floating:
  assumes ar: "arduino_pins ar mode out closed" and vt: "vt = esp32_io ar \<or> vt = nrf52_io ar"
    and inv: "mx_inv m" and dir: "mc_direction (mx_config m) = ColToRow"
    and apart: "set (mc_rowPins (mx_config m)) \<inter> set (mc_columnPins (mx_config m)) = {}"
  shows "\<exists>m'. matrix_task vt m now = Some m' \<and> mx_config m' = mx_config m \<and>
    (\<forall>c \<in> set (mc_columnPins (mx_config m)). mode (mx_io m') c = INPUT_PULLUP \<longleftrightarrow> mode (mx_io m) c = INPUT_PULLUP)"
proof -
  have port: "matrix_port vt" using vt esp32_pins.matrix_port_axioms nrf52_pins.matrix_port_axioms by blast
  obtain m1 m' where m: "matrix_scan vt m = Some m1" "same_config m m1" "matrix_task vt m now = Some m'" "mx_config m' = mx_config m"
    using matrix_port.matrix_task_total [OF port inv, of now] by blast
  have "matrix_debounce m1 now = Some m'" using m(1,3) by (simp add: matrix_task_def)
  then have io: "mx_io m' = mx_io m1" using debounce_inv [OF same_config_inv [OF m(2) inv]] by blast
  have "c \<in> pulled_pins mode (mx_io m1) \<longleftrightarrow> c \<in> pulled_pins mode (mx_io m)" if "c \<in> set (mc_columnPins (mx_config m))" for c
    using arduino_pins.adapter_other_pins [OF ar _ dir, of m1 c] m(1) vt apart that by blast
  with m(3,4) io show ?thesis by (auto simp: pulled_pins_def)
qed

lemma columns_left_floating_witness:
  "\<exists>m'. matrix_task (esp32_io board_arduino) (tiny_matrix ColToRow 5 [(1, 3)]) 7 = Some m' \<and>
    board_mode (mx_io m') 3 \<noteq> INPUT_PULLUP"
proof -
  have "board_mode (mx_io (tiny_matrix ColToRow 5 [(1, 3)])) 3 \<noteq> INPUT_PULLUP"
    by (simp add: tiny_matrix_def board_mode_def)
  moreover have "mc_direction (mx_config (tiny_matrix ColToRow 5 [(1, 3)])) = ColToRow"
    "set (mc_rowPins (mx_config (tiny_matrix ColToRow 5 [(1, 3)]))) \<inter> set (mc_columnPins (mx_config (tiny_matrix ColToRow 5 [(1, 3)]))) = {}"
    "3 \<in> set (mc_columnPins (mx_config (tiny_matrix ColToRow 5 [(1, 3)])))"
    by (simp_all add: tiny_matrix_def tiny_config_def)
  ultimately show ?thesis
    using columns_left_floating [OF board.arduino_pins_axioms _ tiny_matrix_inv, of "esp32_io board_arduino" ColToRow 5 "[(1, 3)]" 7]
    by blast
qed

end
