(* ===== verification/Stm32_Sketch.thy ===== *)
theory Stm32_Sketch
  imports Sketch_Boards Usb_Device Boot
begin

text \<open>
  The sketch \<open>examples/STM32F103_Keyboard_MVP\<close>.  One USB device object is the transport of the
  protocol and the HID port of the keyboard and of the boot coordinator; it is kept once, in
  \<open>sm_usb\<close>, and lent to the component that runs.  The sketch calls a constructor
  \<open>Keyboard(matrix, protocol, usb, keyboardCallbacks, activeCodes, 6, 18)\<close> that the class does not
  have; the model builds the keyboard with the constructor of \<open>VIA_Keyboard.h\<close> from the same objects.
\<close>

text \<open>The pin names are numbers of the board package.\<close>

definition stm32_matrixConfig :: "(string \<Rightarrow> pin) \<Rightarrow> matrix_config" where
  "stm32_matrixConfig pin = \<lparr>mc_rows = 6, mc_columns = 18,
     mc_rowPins = map pin [''PB10'', ''PB11'', ''PB12'', ''PB13'', ''PB14'', ''PB15''],
     mc_columnPins = map pin [''PA0'', ''PA1'', ''PA2'', ''PA3'', ''PA4'', ''PA5'', ''PA6'', ''PA7'',
       ''PA8'', ''PA9'', ''PA10'', ''PA15'', ''PB0'', ''PB1'', ''PB3'', ''PB4'', ''PB5'', ''PB6''],
     mc_direction = ColToRow, mc_settleUs = 30, mc_debounceMs = 5\<rparr>"

definition stm32_config :: "addresses \<Rightarrow> config" where
  "stm32_config ad = \<lparr>cfg_rows = 6, cfg_columns = 18, cfg_layers = 4, cfg_keymap = ad_keymap ad,
     cfg_defaultKeymap = ad_defaultKeymap ad, cfg_macros = 0, cfg_macroBytes = 0, cfg_macroCount = 0,
     cfg_firmwareVersion = 1, cfg_autoSaveMs = 750, cfg_defaultLayoutOptions = 0, cfg_encoderCount = 0,
     cfg_encoderMap = 0, cfg_defaultEncoderMap = 0, cfg_loadBuffer = 0, cfg_loadBufferBytes = 0,
     cfg_matrixStateEnabled = False, cfg_eepromResetEnabled = False, cfg_bootloaderEnabled = False\<rparr>"

record ('a, 'l) stm32_sketch =
  sm_usb :: "'l usb_world"
  sm_protocol :: "(unit, unit, 'l usb_world) protocol"
  sm_keyboard :: "('a, 'l usb_world) keyboard"
  sm_boot :: boot_state

text \<open>The protocol has no storage: the table is never used.\<close>

definition no_storage :: "unit storage_vt" where
  "no_storage = \<lparr>st_capacity = (\<lambda>_. 0), st_read = (\<lambda>s _ buf. (False, buf, s)), st_write = (\<lambda>s _ _. (False, s)),
     st_commit = Pair False, st_erase = Pair False\<rparr>"

text \<open>The object \<open>usb\<close> is device 0.\<close>

definition stm32_deps :: "'l usb_ll \<Rightarrow> (nat \<Rightarrow> u8) \<Rightarrow> (unit, unit, 'l usb_world) deps" where
  "stm32_deps ll junk = sketch_deps no_storage (usb_transport ll 0) junk"

definition stm32_new :: "addresses \<Rightarrow> (string \<Rightarrow> pin) \<Rightarrow> u32 list \<Rightarrow> u8 list \<Rightarrow> 'a \<Rightarrow> 'l \<Rightarrow> ('a, 'l) stm32_sketch option" where
  "stm32_new ad pin prev junk a l = do {
     m \<leftarrow> matrix_new (stm32_matrixConfig pin) (replicate 6 0) (replicate 6 0) (replicate 6 0) (replicate 6 0) a prev;
     let w = \<lparr>uw_active = None, uw_dev = (\<lambda>_. usb_device_new), uw_ll = l\<rparr>;
     Some \<lparr>sm_usb = w,
       sm_protocol = protocol_new (stm32_config ad) (replicate 432 0) (replicate 432 0) [] [] [] [] junk w None None False,
       sm_keyboard = keyboard_new 6 18 m (cfg_layers (stm32_config ad)) w (Some (replicate 108 0)) True,
       sm_boot = BIdle\<rparr> }"

text \<open>The components with the device lent to them.\<close>

definition lent_protocol :: "('a, 'l) stm32_sketch \<Rightarrow> (unit, unit, 'l usb_world) protocol" where
  "lent_protocol s = (sm_protocol s)\<lparr>p_transport := sm_usb s\<rparr>"

definition lent_keyboard :: "('a, 'l) stm32_sketch \<Rightarrow> ('a, 'l usb_world) keyboard" where
  "lent_keyboard s = (sm_keyboard s)\<lparr>kb_hid := sm_usb s\<rparr>"

definition lent_boot :: "('a, 'l) stm32_sketch \<Rightarrow> (unit, unit, 'l usb_world, 'l usb_world) boot" where
  "lent_boot s = \<lparr>bc_protocol = lent_protocol s, bc_hid = sm_usb s, bc_state = sm_boot s\<rparr>"

text \<open>\<open>setup\<close> ignores the three results; \<open>keyboard.begin\<close> changes nothing.\<close>

definition stm32_setup ::
  "'l usb_ll \<Rightarrow> (nat \<Rightarrow> u8) \<Rightarrow> u32 \<Rightarrow> ('a, 'l) stm32_sketch \<Rightarrow> ('a, 'l) stm32_sketch option" where
  "stm32_setup ll junk millis s = do {
     let s = s\<lparr>sm_usb := snd (usb_begin ll 0 (sm_usb s))\<rparr>;
     (_, p) \<leftarrow> protocol_begin (stm32_deps ll junk) (lent_protocol s) millis;
     Some (s\<lparr>sm_protocol := p, sm_usb := p_transport p\<rparr>) }"

section \<open>The four calls of the loop\<close>

datatype 'x stm32_outcome = Looping 'x | InBootloader u32 u32

definition stm32_usb_call :: "('a, 'l) stm32_sketch \<Rightarrow> ('a, 'l) stm32_sketch" where
  "stm32_usb_call s = s\<lparr>sm_usb := usb_task 0 (sm_usb s)\<rparr>"

definition stm32_protocol_call ::
  "(unit, unit, 'l usb_world) deps \<Rightarrow> u32 \<Rightarrow> ('a, 'l) stm32_sketch \<Rightarrow> ('a, 'l) stm32_sketch option" where
  "stm32_protocol_call d now s = do {
     p \<leftarrow> protocol_task d (lent_protocol s) now;
     Some (s\<lparr>sm_protocol := p, sm_usb := p_transport p\<rparr>) }"

definition stm32_keyboard_call :: "'l usb_world hid_vt \<Rightarrow> ('a, 'l) stm32_sketch \<Rightarrow> ('a, 'l) stm32_sketch option" where
  "stm32_keyboard_call hv s = do {
     k \<leftarrow> keyboard_task hv (p_keymap (sm_protocol s)) (lent_keyboard s);
     Some (s\<lparr>sm_keyboard := k, sm_usb := kb_hid k\<rparr>) }"

definition stm32_boot_call ::
  "(unit, unit, 'l usb_world) deps \<Rightarrow> 'l usb_world hid_vt \<Rightarrow> (u32 \<Rightarrow> u32) \<Rightarrow> ('a, 'l) stm32_sketch \<Rightarrow>
   ('a, 'l) stm32_sketch stm32_outcome option" where
  "stm32_boot_call d hv mem s =
     map_option (\<lambda>r. case r of
         Running b \<Rightarrow> Looping (s\<lparr>sm_protocol := bc_protocol b, sm_usb := bc_hid b, sm_boot := bc_state b\<rparr>)
       | Jumped msp entry b \<Rightarrow> InBootloader msp entry)
       (boot_task d hv mem (lent_boot s))"

text \<open>\<open>irq n\<close> is what interrupts do to the device before the call of number \<open>n\<close>.\<close>

definition stm32_irq :: "('l usb_world \<Rightarrow> 'l usb_world) \<Rightarrow> ('a, 'l) stm32_sketch \<Rightarrow> ('a, 'l) stm32_sketch" where
  "stm32_irq f s = s\<lparr>sm_usb := f (sm_usb s)\<rparr>"

definition stm32_loop ::
  "(unit, unit, 'l usb_world) deps \<Rightarrow> 'l usb_world hid_vt \<Rightarrow> (u32 \<Rightarrow> u32) \<Rightarrow> (nat \<Rightarrow> 'l usb_world \<Rightarrow> 'l usb_world) \<Rightarrow> u32 \<Rightarrow>
   ('a, 'l) stm32_sketch \<Rightarrow> ('a, 'l) stm32_sketch stm32_outcome option" where
  "stm32_loop d hv mem irq now s = do {
     let s = stm32_usb_call (stm32_irq (irq 0) s);
     s \<leftarrow> stm32_protocol_call d now (stm32_irq (irq 1) s);
     s \<leftarrow> stm32_keyboard_call hv (stm32_irq (irq 2) s);
     stm32_boot_call d hv mem (stm32_irq (irq 3) s) }"

text \<open>Turns of the loop; between two of them switches move too, which nothing reads.\<close>

fun stm32_turns ::
  "((nat \<Rightarrow> 'l usb_world \<Rightarrow> 'l usb_world) \<Rightarrow> u32 \<Rightarrow> ('a, 'l) stm32_sketch \<Rightarrow> ('a, 'l) stm32_sketch stm32_outcome option) \<Rightarrow>
   ((nat \<Rightarrow> 'l usb_world \<Rightarrow> 'l usb_world) \<times> u32) list \<Rightarrow> ('a, 'l) stm32_sketch \<Rightarrow> ('a, 'l) stm32_sketch stm32_outcome option" where
  "stm32_turns loop [] s = Some (Looping s)"
| "stm32_turns loop ((irq, now) # tns) s = do {
     r \<leftarrow> loop irq now s;
     (case r of Looping s' \<Rightarrow> stm32_turns loop tns s' | InBootloader msp entry \<Rightarrow> Some (InBootloader msp entry)) }"

section \<open>Contracts\<close>

interpretation stm32_store: storage_contract no_storage "\<lambda>_. False" "\<lambda>_. []"
  by unfold_locales simp_all

lemma stm32_protocol_loop: "protocol_loop (stm32_deps ll junk) (\<lambda>_. False) (\<lambda>_. []) (\<lambda>_. True) 0"
  unfolding stm32_deps_def by (rule sketch_protocol_loop [OF stm32_store.storage_contract_axioms usb_link.transport_contract_axioms])

lemma stm32_env: "protocol_env (stm32_deps ll junk) (\<lambda>_. False) (\<lambda>_. []) (\<lambda>_. True) 0"
  unfolding stm32_deps_def by (rule sketch_env [OF stm32_store.storage_contract_axioms])

section \<open>What the sketch keeps\<close>

definition stm32_ok :: "('a, 'l) stm32_sketch \<Rightarrow> bool" where
  "stm32_ok s \<longleftrightarrow> pair_inv (\<lambda>_. False) (sm_protocol s) (sm_keyboard s) \<and> quiet (sm_keyboard s) \<and>
     kb_rows (sm_keyboard s) = 6 \<and> kb_columns (sm_keyboard s) = 18 \<and>
     active_codes (sm_keyboard s) = replicate 108 0 \<and> sm_boot s = BIdle"

lemma stm32_ok_usb [simp]: "stm32_ok (s\<lparr>sm_usb := w\<rparr>) = stm32_ok s"
  by (simp add: stm32_ok_def)

lemma stm32_calls_usb: "stm32_ok (stm32_usb_call s) = stm32_ok s" "stm32_ok (stm32_irq f s) = stm32_ok s"
  by (simp_all add: stm32_usb_call_def stm32_irq_def)

lemma pair_inv_lent: "pair_inv sinv p k \<Longrightarrow> pair_inv sinv (p\<lparr>p_transport := t\<rparr>) (k\<lparr>kb_hid := h\<rparr>)"
  by (simp add: pair_inv_def)

lemma stm32_protocol_call_ok:
  assumes "stm32_ok s"
  shows "\<exists>p. protocol_task (stm32_deps ll junk) (lent_protocol s) now = Some p \<and>
    stm32_protocol_call (stm32_deps ll junk) now s = Some (s\<lparr>sm_protocol := p, sm_usb := p_transport p\<rparr>) \<and>
    stm32_ok (s\<lparr>sm_protocol := p, sm_usb := p_transport p\<rparr>)"
proof -
  have t: "task_inv (\<lambda>_. False) (\<lambda>_. True) (lent_protocol s)"
    using assms by (simp add: stm32_ok_def pair_inv_def lent_protocol_def)
  obtain p where p: "protocol_task (stm32_deps ll junk) (lent_protocol s) now = Some p" "task_inv (\<lambda>_. False) (\<lambda>_. True) p"
    "p_config p = p_config (lent_protocol s)"
    using protocol_loop.task_total [OF stm32_protocol_loop t] by blast
  have "length (p_keymap p) = length (p_keymap (sm_protocol s))"
    using keymap_length [OF p(2)] keymap_length [OF t] p(3) by (simp add: lent_protocol_def)
  then have "kb_inv (p_keymap p) (sm_keyboard s)"
    using assms kb_inv_keymap by (auto simp: stm32_ok_def pair_inv_def)
  with p assms show ?thesis by (simp add: stm32_protocol_call_def stm32_ok_def pair_inv_def)
qed

lemma stm32_keyboard_call_ok:
  assumes "stm32_ok s"
  shows "\<exists>k. (\<forall>send. stm32_keyboard_call ((usb_hid ll 0)\<lparr>hid_send := send\<rparr>) s = Some (s\<lparr>sm_keyboard := k, sm_usb := kb_hid k\<rparr>)) \<and>
    stm32_ok (s\<lparr>sm_keyboard := k, sm_usb := kb_hid k\<rparr>) \<and>
    (\<exists>k1. drain_leds (usb_hid ll 0) (lent_keyboard s) = Some k1 \<and> kb_hid k = kb_hid k1)"
proof -
  have k0: "kb_inv (p_keymap (sm_protocol s)) (lent_keyboard s)" "quiet (lent_keyboard s)"
    using assms by (simp_all add: stm32_ok_def pair_inv_def lent_keyboard_def)
  obtain k where k: "\<forall>send. keyboard_task ((usb_hid ll 0)\<lparr>hid_send := send\<rparr>) (p_keymap (sm_protocol s)) (lent_keyboard s) = Some k"
    "same_keys (lent_keyboard s) k" "quiet k" "\<exists>k1. drain_leds (usb_hid ll 0) (lent_keyboard s) = Some k1 \<and> kb_hid k = kb_hid k1"
    using quiet_task [OF usb_keyboard.keyboard_port_axioms k0] by blast
  have "report_current k" using k(3) by (simp add: report_current_def latest_report_def quiet_def)
  then have "pair_inv (\<lambda>_. False) (sm_protocol s) k"
    using assms k0(1) same_keys_facts(1,3) [OF k(2)] by (simp add: stm32_ok_def pair_inv_def lent_keyboard_def)
  then have "stm32_ok (s\<lparr>sm_keyboard := k, sm_usb := kb_hid k\<rparr>)"
    using assms k(2,3) same_keys_facts(5) [OF k(2)] by (simp add: stm32_ok_def same_keys_def lent_keyboard_def)
  with k(1,4) show ?thesis by (auto simp: stm32_keyboard_call_def)
qed

text \<open>Nothing calls \<open>boot.request\<close>, so that \<open>boot.task\<close> does nothing.\<close>

lemma stm32_boot_call_idle:
  "stm32_ok s \<Longrightarrow> \<exists>p. p = lent_protocol s \<and> stm32_boot_call d hv mem s = Some (Looping (s\<lparr>sm_protocol := p\<rparr>)) \<and>
    stm32_ok (s\<lparr>sm_protocol := p\<rparr>)"
  by (simp add: stm32_boot_call_def boot_task_def lent_boot_def stm32_ok_def lent_protocol_def pair_inv_def)

lemma stm32_loop_ok:
  assumes "stm32_ok s"
  shows "\<exists>s'. (\<forall>send. stm32_loop (stm32_deps ll junk) ((usb_hid ll 0)\<lparr>hid_send := send\<rparr>) mem irq now s = Some (Looping s')) \<and> stm32_ok s'"
proof -
  let ?s0 = "stm32_irq (irq 1) (stm32_usb_call (stm32_irq (irq 0) s))"
  have "stm32_ok ?s0" using assms by (simp add: stm32_calls_usb)
  from stm32_protocol_call_ok [OF this] obtain s1 where
    s1: "stm32_protocol_call (stm32_deps ll junk) now ?s0 = Some s1" "stm32_ok s1" by blast
  then have "stm32_ok (stm32_irq (irq 2) s1)" by (simp add: stm32_calls_usb)
  from stm32_keyboard_call_ok [OF this] obtain s2 where
    s2: "\<forall>send. stm32_keyboard_call ((usb_hid ll 0)\<lparr>hid_send := send\<rparr>) (stm32_irq (irq 2) s1) = Some s2" "stm32_ok s2" by blast
  then have "stm32_ok (stm32_irq (irq 3) s2)" by (simp add: stm32_calls_usb)
  from stm32_boot_call_idle [OF this] s1 s2 show ?thesis by (simp add: stm32_loop_def Let_def)
qed

lemma stm32_turns_ok:
  assumes "stm32_ok s"
  shows "\<exists>s'. (\<forall>send. stm32_turns (stm32_loop (stm32_deps ll junk) ((usb_hid ll 0)\<lparr>hid_send := send\<rparr>) mem) tns s = Some (Looping s')) \<and> stm32_ok s'"
  using assms
proof (induction tns arbitrary: s)
  case (Cons tn tns)
  obtain irq now where tn: "tn = (irq, now)" by fastforce
  obtain s1 where "\<forall>send. stm32_loop (stm32_deps ll junk) ((usb_hid ll 0)\<lparr>hid_send := send\<rparr>) mem irq now s = Some (Looping s1)" "stm32_ok s1"
    using stm32_loop_ok [OF Cons.prems] by blast
  with Cons.IH [of s1] tn show ?case by simp
qed simp

end
