(* ===== verification/Usb_Interrupts.thy ===== *)
theory Usb_Interrupts
  imports Usb_Device
begin

text \<open>
  The methods of \<open>UsbDevice\<close> statement by statement.  The handlers of the class run as interrupts
  between any two statements of the firmware, which is why the flags are \<open>volatile\<close>.  A method is
  cut where it touches what a handler shares with it: the test of the flags, the copy into or out of
  the shared buffer, the call of the USB stack, the store of the flag.  The transfers in flight are
  ghost state: the bytes the peripheral was told to send and the host has not collected.
\<close>

section \<open>The statements\<close>

definition usb_report_guard :: "nat \<Rightarrow> 'l usb_world \<Rightarrow> bool" where
  "usb_report_guard i w \<longleftrightarrow> uw_active w = Some i \<and> ud_configured (uw_dev w i) \<and> \<not> ud_kb_tx_busy (uw_dev w i)"

definition usb_report_fill :: "nat \<Rightarrow> report \<Rightarrow> 'l usb_world \<Rightarrow> 'l usb_world" where
  "usb_report_fill i r w = upd_dev i (\<lambda>d. d\<lparr>ud_kb_buf := report_bytes r\<rparr>) w"

definition usb_report_start :: "'l usb_ll \<Rightarrow> nat \<Rightarrow> 'l usb_world \<Rightarrow> bool \<times> 'l usb_world" where
  "usb_report_start ll i w =
     (case ll_transmit ll (uw_ll w) kKeyboardEpIn (take kKeyboardReportSize (ud_kb_buf (uw_dev w i))) of
        (ok, l) \<Rightarrow> (ok, w\<lparr>uw_ll := l\<rparr>))"

definition usb_report_mark :: "nat \<Rightarrow> 'l usb_world \<Rightarrow> 'l usb_world" where
  "usb_report_mark i w = upd_dev i (\<lambda>d. d\<lparr>ud_kb_tx_busy := True\<rparr>) w"

definition usb_packet_guard :: "nat \<Rightarrow> 'l usb_world \<Rightarrow> bool" where
  "usb_packet_guard i w \<longleftrightarrow> uw_active w = Some i \<and> ud_configured (uw_dev w i) \<and> \<not> ud_via_tx_busy (uw_dev w i)"

definition usb_packet_fill :: "nat \<Rightarrow> u8 list \<Rightarrow> 'l usb_world \<Rightarrow> 'l usb_world" where
  "usb_packet_fill i pkt w = upd_dev i (\<lambda>d. d\<lparr>ud_via_in_buf := take kPacketSize pkt\<rparr>) w"

definition usb_packet_start :: "'l usb_ll \<Rightarrow> nat \<Rightarrow> 'l usb_world \<Rightarrow> bool \<times> 'l usb_world" where
  "usb_packet_start ll i w =
     (case ll_transmit ll (uw_ll w) kViaEpIn (ud_via_in_buf (uw_dev w i)) of (ok, l) \<Rightarrow> (ok, w\<lparr>uw_ll := l\<rparr>))"

definition usb_packet_mark :: "nat \<Rightarrow> 'l usb_world \<Rightarrow> 'l usb_world" where
  "usb_packet_mark i w = upd_dev i (\<lambda>d. d\<lparr>ud_via_tx_busy := True\<rparr>) w"

definition usb_poll_guard :: "nat \<Rightarrow> 'l usb_world \<Rightarrow> bool" where
  "usb_poll_guard i w \<longleftrightarrow> uw_active w = Some i \<and> ud_via_rx_ready (uw_dev w i)"

definition usb_poll_copy :: "nat \<Rightarrow> 'l usb_world \<Rightarrow> u8 list" where
  "usb_poll_copy i w = take kPacketSize (ud_via_out_buf (uw_dev w i))"

definition usb_poll_clear :: "nat \<Rightarrow> 'l usb_world \<Rightarrow> 'l usb_world" where
  "usb_poll_clear i w = upd_dev i (\<lambda>d. d\<lparr>ud_via_rx_ready := False\<rparr>) w"

text \<open>Without an interrupt in between the statements are the methods.\<close>

lemmas usb_statements = usb_report_guard_def usb_report_fill_def usb_report_start_def usb_report_mark_def
  usb_packet_guard_def usb_packet_fill_def usb_packet_start_def usb_packet_mark_def
  usb_poll_guard_def usb_poll_copy_def usb_poll_clear_def

lemma usb_send_report_statements:
  "usb_send_report ll i w r =
     (if \<not> usb_report_guard i w then (False, w)
      else case usb_report_start ll i (usb_report_fill i r w) of (ok, w') \<Rightarrow> (ok, if ok then usb_report_mark i w' else w'))"
  by (simp add: usb_send_report_def usb_statements Let_def split: prod.split)

lemma usb_send_packet_statements:
  "usb_send_packet ll i w pkt =
     (if \<not> usb_packet_guard i w then (False, w)
      else case usb_packet_start ll i (usb_packet_fill i pkt w) of (ok, w') \<Rightarrow> (ok, if ok then usb_packet_mark i w' else w'))"
  by (simp add: usb_send_packet_def usb_statements Let_def split: prod.split)

lemma usb_receive_statements:
  "usb_receive i w pkt =
     (if \<not> usb_poll_guard i w then (False, pkt, w) else (True, overwrite pkt 0 (usb_poll_copy i w), usb_poll_clear i w))"
  by (auto simp: usb_receive_def usb_statements)

section \<open>Firmware and interrupts interleaved\<close>

text \<open>Where the firmware is: outside the methods, between two statements of one, or inside the \<open>memcpy\<close>
  of \<open>receive\<close> with the bytes copied so far.\<close>

datatype usb_pc = AtRest | ReportFilled | ReportStarted | PacketFilled | PacketStarted | PacketCopying "u8 list" | LedsRead u8

record 'l usb_system =
  us_world :: "'l usb_world"
  us_pc :: usb_pc
  us_report_flight :: "u8 list option"
  us_packet_flight :: "u8 list option"

abbreviation us_dev :: "nat \<Rightarrow> 'l usb_system \<Rightarrow> usb_device" where
  "us_dev i s \<equiv> uw_dev (us_world s) i"

text \<open>The statements of the two \<open>send\<close> methods, of \<open>receive\<close> and of \<open>takeHostLeds\<close>, in the order of the
  source.\<close>

inductive usb_firmware :: "'l usb_ll \<Rightarrow> nat \<Rightarrow> 'l usb_system \<Rightarrow> 'l usb_system \<Rightarrow> bool" for ll i where
  report_fill: "us_pc s = AtRest \<Longrightarrow> usb_report_guard i (us_world s) \<Longrightarrow> length (rp_keys r) = 6 \<Longrightarrow>
    usb_firmware ll i s (s\<lparr>us_world := usb_report_fill i r (us_world s), us_pc := ReportFilled\<rparr>)"
| report_start: "us_pc s = ReportFilled \<Longrightarrow> usb_report_start ll i (us_world s) = (True, w) \<Longrightarrow>
    usb_firmware ll i s (s\<lparr>us_world := w, us_pc := ReportStarted, us_report_flight := Some (ud_kb_buf (us_dev i s))\<rparr>)"
| report_refused: "us_pc s = ReportFilled \<Longrightarrow> usb_report_start ll i (us_world s) = (False, w) \<Longrightarrow>
    usb_firmware ll i s (s\<lparr>us_world := w, us_pc := AtRest\<rparr>)"
| report_mark: "us_pc s = ReportStarted \<Longrightarrow>
    usb_firmware ll i s (s\<lparr>us_world := usb_report_mark i (us_world s), us_pc := AtRest\<rparr>)"
| packet_fill: "us_pc s = AtRest \<Longrightarrow> usb_packet_guard i (us_world s) \<Longrightarrow> length pkt = kPacketSize \<Longrightarrow>
    usb_firmware ll i s (s\<lparr>us_world := usb_packet_fill i pkt (us_world s), us_pc := PacketFilled\<rparr>)"
| packet_start: "us_pc s = PacketFilled \<Longrightarrow> usb_packet_start ll i (us_world s) = (True, w) \<Longrightarrow>
    usb_firmware ll i s (s\<lparr>us_world := w, us_pc := PacketStarted, us_packet_flight := Some (ud_via_in_buf (us_dev i s))\<rparr>)"
| packet_refused: "us_pc s = PacketFilled \<Longrightarrow> usb_packet_start ll i (us_world s) = (False, w) \<Longrightarrow>
    usb_firmware ll i s (s\<lparr>us_world := w, us_pc := AtRest\<rparr>)"
| packet_mark: "us_pc s = PacketStarted \<Longrightarrow>
    usb_firmware ll i s (s\<lparr>us_world := usb_packet_mark i (us_world s), us_pc := AtRest\<rparr>)"
| poll_enter: "us_pc s = AtRest \<Longrightarrow> usb_poll_guard i (us_world s) \<Longrightarrow>
    usb_firmware ll i s (s\<lparr>us_pc := PacketCopying []\<rparr>)"
| poll_byte: "us_pc s = PacketCopying bs \<Longrightarrow> length bs < kPacketSize \<Longrightarrow>
    usb_firmware ll i s (s\<lparr>us_pc := PacketCopying (bs @ [ud_via_out_buf (us_dev i s) ! length bs])\<rparr>)"
| poll_clear: "us_pc s = PacketCopying bs \<Longrightarrow> length bs = kPacketSize \<Longrightarrow>
    usb_firmware ll i s (s\<lparr>us_world := usb_poll_clear i (us_world s), us_pc := AtRest\<rparr>)"
| leds_read: "us_pc s = AtRest \<Longrightarrow> uw_active (us_world s) = Some i \<Longrightarrow> ud_led_ready (us_dev i s) \<Longrightarrow>
    usb_firmware ll i s (s\<lparr>us_pc := LedsRead (hd (ud_led_buf (us_dev i s)))\<rparr>)"
| leds_clear: "us_pc s = LedsRead leds \<Longrightarrow>
    usb_firmware ll i s (s\<lparr>us_world := upd_dev i (\<lambda>d. d\<lparr>ud_led_ready := False\<rparr>) (us_world s), us_pc := AtRest\<rparr>)"

text \<open>The handlers as interrupts.  A completion interrupt comes only for a transfer in flight; a bus
  reset drops the transfers.\<close>

datatype usb_event = Firmware | BusReset | Configured | ClassRequest setup_request | HostLeds u8 | ReportSent | PacketSent
  | HostPacket "u8 list"

inductive usb_interrupt :: "'l usb_ll \<Rightarrow> nat \<Rightarrow> usb_event \<Rightarrow> 'l usb_system \<Rightarrow> 'l usb_system \<Rightarrow> bool" for ll i where
  irq_reset: "classDeInit (us_world s) = (ok, w) \<Longrightarrow>
    usb_interrupt ll i BusReset s (s\<lparr>us_world := w, us_report_flight := None, us_packet_flight := None\<rparr>)"
| irq_configured: "classInit ll (us_world s) = (ok, w) \<Longrightarrow> usb_interrupt ll i Configured s (s\<lparr>us_world := w\<rparr>)"
| irq_setup: "classSetup ll rq (us_world s) = (ok, w) \<Longrightarrow> usb_interrupt ll i (ClassRequest rq) s (s\<lparr>us_world := w\<rparr>)"
| irq_leds: "ep0RxReady (upd_dev i (\<lambda>d. d\<lparr>ud_led_buf := [leds]\<rparr>) (us_world s)) = (ok, w) \<Longrightarrow>
    usb_interrupt ll i (HostLeds leds) s (s\<lparr>us_world := w\<rparr>)"
| irq_report_sent: "us_report_flight s = Some bs \<Longrightarrow> dataIn (kKeyboardEpIn AND 0x7F) (us_world s) = (ok, w) \<Longrightarrow>
    usb_interrupt ll i ReportSent s (s\<lparr>us_world := w, us_report_flight := None\<rparr>)"
| irq_packet_sent: "us_packet_flight s = Some bs \<Longrightarrow> dataIn (kViaEpIn AND 0x7F) (us_world s) = (ok, w) \<Longrightarrow>
    usb_interrupt ll i PacketSent s (s\<lparr>us_world := w, us_packet_flight := None\<rparr>)"
| irq_host_packet: "length pkt = kPacketSize \<Longrightarrow>
    dataOut ll (kViaEpOut AND 0x7F) (upd_dev i (\<lambda>d. d\<lparr>ud_via_out_buf := pkt\<rparr>) (us_world s)) = (ok, w) \<Longrightarrow>
    usb_interrupt ll i (HostPacket pkt) s (s\<lparr>us_world := w\<rparr>)"

text \<open>Both, with a host that may write its buffer at any time: for what holds whatever the host does.\<close>

inductive usb_irq_step :: "'l usb_ll \<Rightarrow> nat \<Rightarrow> 'l usb_system \<Rightarrow> 'l usb_system \<Rightarrow> bool" for ll i where
  firmware: "usb_firmware ll i s s' \<Longrightarrow> usb_irq_step ll i s s'"
| interrupt: "usb_interrupt ll i ev s s' \<Longrightarrow> usb_irq_step ll i s s'"

inductive_cases usb_irq_stepE: "usb_irq_step ll i s s'"

lemma usb_endpoints [simp]:
  "kKeyboardEpIn AND 0x7F = 1" "kViaEpIn AND 0x7F = 2" "kViaEpOut AND 0x7F = 2"
  by (simp_all add: kKeyboardEpIn_def kViaEpIn_def kViaEpOut_def)

section \<open>What holds at every statement\<close>

definition usb_flights :: "nat \<Rightarrow> 'l usb_system \<Rightarrow> bool" where
  "usb_flights i s \<longleftrightarrow> uw_active (us_world s) = Some i \<and> usb_buffers (us_dev i s) \<and>
     (\<forall>bs. us_report_flight s = Some bs \<longrightarrow> ud_kb_buf (us_dev i s) = bs \<and> (ud_kb_tx_busy (us_dev i s) \<or> us_pc s = ReportStarted)) \<and>
     (\<forall>bs. us_packet_flight s = Some bs \<longrightarrow> ud_via_in_buf (us_dev i s) = bs \<and> (ud_via_tx_busy (us_dev i s) \<or> us_pc s = PacketStarted)) \<and>
     (us_pc s = ReportFilled \<longrightarrow> us_report_flight s = None) \<and> (us_pc s = PacketFilled \<longrightarrow> us_packet_flight s = None)"

lemma usb_flights_firmware: "usb_firmware ll i s s' \<Longrightarrow> usb_flights i s \<Longrightarrow> usb_flights i s'"
  by (induction rule: usb_firmware.induct)
     (auto simp: usb_flights_def usb_statements usb_defs usb_buffers_def report_bytes_def kKeyboardReportSize_def
       kPacketSize_def split: prod.splits if_splits)

lemma usb_flights_interrupt: "usb_interrupt ll i ev s s' \<Longrightarrow> usb_flights i s \<Longrightarrow> usb_flights i s'"
  by (induction rule: usb_interrupt.induct)
     (auto simp: usb_flights_def usb_defs usb_buffers_def kPacketSize_def split: if_splits)

lemma usb_flights_step: "usb_irq_step ll i s s' \<Longrightarrow> usb_flights i s \<Longrightarrow> usb_flights i s'"
  by (blast elim: usb_irq_stepE intro: usb_flights_firmware usb_flights_interrupt)

lemma usb_flights_run: "(usb_irq_step ll i)\<^sup>*\<^sup>* s s' \<Longrightarrow> usb_flights i s \<Longrightarrow> usb_flights i s'"
  by (induction rule: rtranclp_induct) (auto dest: usb_flights_step)

section \<open>A keyboard that stays silent\<close>

text \<open>The flag says busy and no transfer is in flight that could clear it.\<close>

definition usb_wedged :: "nat \<Rightarrow> 'l usb_system \<Rightarrow> bool" where
  "usb_wedged i s \<longleftrightarrow> uw_active (us_world s) = Some i \<and> ud_kb_tx_busy (us_dev i s) \<and> us_report_flight s = None \<and>
     us_pc s \<noteq> ReportFilled \<and> us_pc s \<noteq> ReportStarted"

lemma usb_wedged_firmware: "usb_firmware ll i s s' \<Longrightarrow> usb_wedged i s \<Longrightarrow> usb_wedged i s'"
  by (induction rule: usb_firmware.induct)
     (auto simp: usb_wedged_def usb_statements usb_defs split: prod.splits if_splits)

lemma usb_wedged_interrupt: "usb_interrupt ll i ev s s' \<Longrightarrow> usb_wedged i s \<Longrightarrow> usb_wedged i s'"
  by (induction rule: usb_interrupt.induct) (auto simp: usb_wedged_def usb_defs split: if_splits)

lemma usb_wedged_refuses:
  "usb_wedged i s \<Longrightarrow> usb_send_report ll i (us_world s) r = (False, us_world s) \<and> \<not> fst (usb_sendComplete i (us_world s))"
  by (simp add: usb_wedged_def usb_send_report_def usb_sendComplete_def)

end
