(* ===== verification/Stm32_Facts.thy ===== *)
theory Stm32_Facts
  imports Stm32_Sketch Usb_Interrupts
begin

text \<open>The STM32F103 sketch from its static initialisers on, and the exchange of one VIA packet over
  its USB device.\<close>

section \<open>Starting\<close>

lemma stm32_sizes:
  "payloadSize (stm32_config ad) 0 = 868" "keyCount (stm32_config ad) = 432" "encoderMapBytes (stm32_config ad) = 0"
  by (simp_all add: payloadSize_def keymapBytes_def keyCount_nat encoderMapBytes_nat stm32_config_def)

lemma stm32_new_ok:
  assumes arrays: "length prev = 8" "length junk = kPacketSize"
  shows "\<exists>s. stm32_new ad pin prev junk a l = Some s \<and> stm32_ok s \<and> p_config (sm_protocol s) = stm32_config ad \<and>
    p_customValue (sm_protocol s) = None \<and> \<not> p_responsePending (sm_protocol s) \<and> \<not> p_bootloaderPending (sm_protocol s) \<and>
    sm_usb s = \<lparr>uw_active = None, uw_dev = (\<lambda>_. usb_device_new), uw_ll = l\<rparr>"
proof -
  have "\<exists>m. matrix_new (stm32_matrixConfig pin) (replicate 6 0) (replicate 6 0) (replicate 6 0) (replicate 6 0) a prev = Some m \<and>
    mx_inv m \<and> mx_config m = stm32_matrixConfig pin \<and> mx_changedRows m = replicate 6 0"
    by (rule new_matrix) (use arrays in \<open>simp_all add: stm32_matrixConfig_def\<close>)
  then obtain m where m: "matrix_new (stm32_matrixConfig pin) (replicate 6 0) (replicate 6 0) (replicate 6 0) (replicate 6 0) a prev = Some m"
    "mx_inv m" "mx_config m = stm32_matrixConfig pin" "mx_changedRows m = replicate 6 0" by (elim exE conjE)
  have r: "row_count m = 6" "col_count m = 18" by (simp_all add: m(3) row_count_def col_count_def stm32_matrixConfig_def)
  define w where "w = \<lparr>uw_active = None, uw_dev = (\<lambda>_. usb_device_new), uw_ll = l\<rparr>"
  define p where "p = protocol_new (stm32_config ad) (replicate 432 0) (replicate 432 0) [] [] [] [] junk w (None :: unit option)
    (None :: unit option) False"
  have e: "env_inv (\<lambda>_. False) (\<lambda>_. True) p" using stm32_sizes arrays
    by (simp add: p_def env_inv_def wf_protocol_def protocol_new_def, simp add: stm32_config_def)
  have c: "p_config p = stm32_config ad" "\<not> p_bootloaderPending p" "p_customValue p = None" "\<not> p_responsePending p"
    by (simp_all add: p_def)
  have d: "cfg_rows (stm32_config ad) = 6" "cfg_columns (stm32_config ad) = 18" "cfg_layers (stm32_config ad) = 4"
    by (simp_all add: stm32_config_def)
  let ?k = "keyboard_new 6 18 m (cfg_layers (stm32_config ad)) w (Some (replicate 108 0)) True"
  have pair: "pair_inv (\<lambda>_. False) p ?k"
    unfolding d by (rule new_pair_inv [OF e c(1,2) m(2), unfolded d]) (simp_all add: r m(4) stm32_sizes)
  then have "quiet ?k" using m(4) r by (simp add: pair_inv_def report_current_def latest_report_def quiet_def keyboard_new_def)
  moreover have "active_codes ?k = replicate 108 0" by (simp add: active_codes_def keyboard_new_def)
  moreover have "stm32_new ad pin prev junk a l = Some \<lparr>sm_usb = w, sm_protocol = p, sm_keyboard = ?k, sm_boot = BIdle\<rparr>"
    by (simp only: stm32_new_def m(1) p_def w_def Option.bind.bind_lunit Let_def)
  ultimately show ?thesis using pair c by (intro exI conjI) (assumption, simp_all add: stm32_ok_def w_def)
qed

text \<open>Whether the start of the USB stack and the checks of the protocol succeed or not, the invariants
  hold afterwards; with arrays at addresses other than null the checks succeed.\<close>

lemma stm32_begin_ok:
  assumes "ad_keymap ad \<noteq> 0" "ad_defaultKeymap ad \<noteq> 0" "p_config p = stm32_config ad" "p_customValue p = None" "p_storage p = None"
  shows "begin_ok d p"
proof -
  have "stateBytes d p = Some (868, 0)"
    using assms by (simp add: stateBytes_iff custom_bytes_def kMaxCustomStateSize_def kHeaderSize_def stm32_sizes)
  then show ?thesis using assms by (simp add: begin_ok_def Let_def stm32_config_def)
qed

lemma stm32_setup_ok:
  assumes ok: "stm32_ok s"
  shows "\<exists>s'. stm32_setup ll junk now s = Some s' \<and> stm32_ok s' \<and> sm_usb s' = snd (usb_begin ll 0 (sm_usb s)) \<and>
    p_responsePending (sm_protocol s') = p_responsePending (sm_protocol s) \<and> p_config (sm_protocol s') = p_config (sm_protocol s)"
proof -
  let ?d = "stm32_deps ll junk" and ?s = "s\<lparr>sm_usb := snd (usb_begin ll 0 (sm_usb s))\<rparr>"
  have t: "task_inv (\<lambda>_. False) (\<lambda>_. True) (lent_protocol ?s)" using ok by (simp add: stm32_ok_def pair_inv_def lent_protocol_def)
  then have e: "env_inv (\<lambda>_. False) (\<lambda>_. True) (lent_protocol ?s)" by (simp add: task_inv_def)
  obtain p where p: "protocol_begin ?d (lent_protocol ?s) now = Some (begin_ok ?d (lent_protocol ?s), p)"
    "env_inv (\<lambda>_. False) (\<lambda>_. True) p" "keeps (lent_protocol ?s) p"
    using protocol_env.begin_keeps [OF stm32_env e, of ll junk now] by blast
  have tp: "task_inv (\<lambda>_. False) (\<lambda>_. True) p" using t p(2,3) by (auto simp: task_inv_def keeps_def)
  have c: "p_config p = p_config (sm_protocol s)" "p_transport p = sm_usb ?s" "p_responsePending p = p_responsePending (sm_protocol s)"
    using p(3) by (simp_all add: keeps_def lent_protocol_def)
  have "length (p_keymap p) = length (p_keymap (sm_protocol s))"
    using keymap_length [OF tp] keymap_length [OF t] c(1) by (simp add: lent_protocol_def)
  then have "kb_inv (p_keymap p) (sm_keyboard s)" using ok kb_inv_keymap by (auto simp: stm32_ok_def pair_inv_def)
  then have "stm32_ok (s\<lparr>sm_protocol := p\<rparr>)" using ok tp by (simp add: stm32_ok_def pair_inv_def)
  then have "stm32_ok (?s\<lparr>sm_protocol := p, sm_usb := p_transport p\<rparr>)" by (simp add: stm32_ok_def)
  moreover have "stm32_setup ll junk now s = Some (?s\<lparr>sm_protocol := p, sm_usb := p_transport p\<rparr>)"
    using p(1) by (simp add: stm32_setup_def Let_def)
  ultimately show ?thesis using c by (intro exI conjI) (assumption, simp_all)
qed

section \<open>One exchange\<close>

text \<open>What the VIA side of device \<open>i\<close> consists of.\<close>

definition via_endpoint :: "nat \<Rightarrow> 'l usb_world \<Rightarrow> nat option \<times> bool \<times> u8 list \<times> bool \<times> u8 list \<times> bool" where
  "via_endpoint i w = (uw_active w, ud_configured (uw_dev w i), ud_via_in_buf (uw_dev w i), ud_via_tx_busy (uw_dev w i),
     ud_via_out_buf (uw_dev w i), ud_via_rx_ready (uw_dev w i))"

lemma takeHostLeds_endpoint: "via_endpoint i (snd (usb_takeHostLeds i w)) = via_endpoint i w"
  by (simp add: via_endpoint_def usb_takeHostLeds_def upd_dev_def)

lemma drain_leds_endpoint:
  "drain_leds (usb_hid ll i) k = Some k1 \<Longrightarrow> via_endpoint i (kb_hid k1) = via_endpoint i (kb_hid k)"
proof (induction "of_bool (ud_led_ready (uw_dev (kb_hid k) i)) :: nat" arbitrary: k rule: less_induct)
  case less
  obtain leds w where t: "hid_takeHostLeds (usb_hid ll i) (kb_hid k) = (leds, w)" by fastforce
  then have e: "via_endpoint i w = via_endpoint i (kb_hid k)"
    using takeHostLeds_endpoint [of i "kb_hid k"] by (simp add: usb_hid_def)
  show ?case
  proof (cases leds)
    case None
    with less.prems t e show ?thesis by (auto simp: drain_leds.simps [of _ k])
  next
    case (Some l)
    define k' where "k' = (if kb_callbacks k \<and> l \<noteq> kb_lastHostLeds k
      then k\<lparr>kb_hid := w, kb_lastHostLeds := l, kb_events := kb_events k @ [HostLedsChanged l]\<rparr> else k\<lparr>kb_hid := w\<rparr>)"
    have h: "kb_hid k' = w" by (simp add: k'_def)
    then have "(of_bool (ud_led_ready (uw_dev (kb_hid k') i)) :: nat) < of_bool (ud_led_ready (uw_dev (kb_hid k) i))"
      using usb_keyboard.leds_dry [of ll i "kb_hid k" l w] t Some by simp
    moreover have "drain_leds (usb_hid ll i) k' = Some k1"
      using less.prems t Some by (simp add: drain_leds.simps [of _ k] k'_def)
    ultimately show ?thesis using less.hyps [of k'] h e by simp
  qed
qed

text \<open>A request that waits in the endpoint is taken, processed and answered by one task.\<close>

lemma stm32_task_exchange:
  assumes inv: "task_inv (\<lambda>_. False) (\<lambda>_. True) p" and quiet: "phase_of p = Quiet"
    and cfg: "\<not> cfg_bootloaderEnabled (p_config p)"
    and usb: "via_endpoint 0 (p_transport p) = (Some 0, True, out, False, pkt, True)" "length pkt = kPacketSize"
    and ll: "\<And>l bs. fst (ll_transmit ll l kViaEpIn bs)"
  shows "\<exists>ok reply q p'. process (stm32_deps ll junk)
      (p\<lparr>p_transport := usb_poll_clear 0 (p_transport p), p_pendingResponse := pkt\<rparr>) pkt now = Some (ok, reply, q) \<and>
    protocol_task (stm32_deps ll junk) p now = Some p' \<and>
    via_endpoint 0 (p_transport p') = (Some 0, True, reply, True, pkt, False) \<and>
    phase_of p' = Quiet \<and> p_keymap p' = p_keymap q \<and> length reply = kPacketSize"
proof -
  let ?d = "stm32_deps ll junk" and ?w = "usb_poll_clear 0 (p_transport p)"
  let ?p = "p\<lparr>p_transport := ?w, p_pendingResponse := pkt\<rparr>"
  have d: "d_transport ?d = usb_transport ll 0" by (simp add: stm32_deps_def)
  have len: "length (p_pendingResponse p) = kPacketSize" using inv by (simp add: task_inv_def env_inv_def wf_protocol_def)
  have u: "uw_active (p_transport p) = Some 0" "ud_configured (uw_dev (p_transport p) 0)" "\<not> ud_via_tx_busy (uw_dev (p_transport p) 0)"
    "ud_via_rx_ready (uw_dev (p_transport p) 0)" "ud_via_out_buf (uw_dev (p_transport p) 0) = pkt"
    using usb(1) by (simp_all add: via_endpoint_def)
  have recv: "tp_receive (d_transport ?d) (p_transport p) (p_pendingResponse p) = (True, pkt, ?w)"
    using u len usb(2) by (simp add: d usb_transport_def usb_receive_def usb_poll_clear_def overwrite_all)
  have e: "env_inv (\<lambda>_. False) (\<lambda>_. True) ?p" "0 < keyCount (p_config ?p)"
    using inv usb(2) by (simp_all add: task_inv_def env_inv_wire)
  obtain reply q where pr: "process ?d ?p pkt now = Some (reply ! 0 \<noteq> 0xFF, reply, q)" "length reply = kPacketSize"
    "sound (\<lambda>_. False) (\<lambda>_. True) ?p q" by (rule protocol_env.process_sound [OF stm32_env e usb(2)])
  have k: "p_transport q = ?w" "p_config q = p_config p" using pr(3) keeps_wire [of ?p q] by (simp_all add: sound_def)
  have st: "p_storage q = None" using pr(3) by (cases "p_storage q") (simp_all add: sound_def env_inv_def)
  have q: "\<not> p_responsePending p" "\<not> p_bootloaderPending p" using quiet by (auto simp: phase_of_def split: if_splits)
  let ?q = "q\<lparr>p_pendingResponse := reply, p_bootloaderPending := False, p_responsePending := True\<rparr>"
  have r: "task_receive ?d p now = Some ?q" using q recv pr(1) cfg by (simp add: task_receive_def)
  obtain l where l: "ll_transmit ll (uw_ll (p_transport p)) kViaEpIn reply = (True, l)"
    using ll [of "uw_ll (p_transport p)" reply] by (cases "ll_transmit ll (uw_ll (p_transport p)) kViaEpIn reply") simp
  define w2 where "w2 = snd (tp_send (d_transport ?d) ?w reply)"
  have send: "tp_send (d_transport ?d) ?w reply = (True, w2)" "via_endpoint 0 w2 = (Some 0, True, reply, True, pkt, False)"
    using u l pr(2) by (simp_all add: w2_def d usb_transport_def usb_send_packet_def usb_poll_clear_def upd_dev_def via_endpoint_def)
  let ?p' = "?q\<lparr>p_transport := w2, p_responsePending := False\<rparr>"
  have "task_send ?d ?q = ?p'" using send(1) k(1) by (simp add: task_send_def)
  moreover have "task_save ?d ?p' now = Some ?p'" using st by (simp add: task_save_def save_def)
  ultimately have "protocol_task ?d p now = Some ?p'" using r by (simp add: protocol_task_def task_jump_def)
  with pr(1,2) send(2) show ?thesis by (intro exI conjI) (assumption | simp add: phase_of_def)+
qed

end
