(* ===== verification/Usb_Bus.thy ===== *)
theory Usb_Bus
  imports Usb_Interrupts
begin

text \<open>
  Runs of the USB device with the order of the events in view.  The state of the stack is extended by
  whether the OUT endpoint of VIA is armed: \<open>USBD_LL_PrepareReceive\<close> arms it, the packet it takes and a
  bus reset disarm it, and the host can deliver a packet only to an armed endpoint.  These runs are
  for what can happen; \<open>usb_irq_step\<close>, with a host that writes at any time, is for what always holds.
\<close>

section \<open>The endpoint\<close>

definition armed_ll :: "'l usb_ll \<Rightarrow> ('l \<times> bool) usb_ll" where
  "armed_ll ll = \<lparr>
     ll_init = (\<lambda>(l, a). case ll_init ll l of (ok, l') \<Rightarrow> (ok, (l', a))),
     ll_start = (\<lambda>(l, a). case ll_start ll l of (ok, l') \<Rightarrow> (ok, (l', a))),
     ll_transmit = (\<lambda>(l, a) ep bs. case ll_transmit ll l ep bs of (ok, l') \<Rightarrow> (ok, (l', a))),
     ll_prepareReceive = (\<lambda>(l, a) ep n. (ll_prepareReceive ll l ep n, a \<or> ep = kViaEpOut \<and> n = kPacketSize)),
     ll_ctlReceiveData = (\<lambda>(l, a) n. (ll_ctlReceiveData ll l n, a)),
     ll_ctlSendData = (\<lambda>(l, a) bs. (ll_ctlSendData ll l bs, a))\<rparr>"

definition armed :: "('l \<times> bool) usb_system \<Rightarrow> bool" where
  "armed s \<longleftrightarrow> snd (uw_ll (us_world s))"

definition disarm :: "('l \<times> bool) usb_system \<Rightarrow> ('l \<times> bool) usb_system" where
  "disarm s = s\<lparr>us_world := (us_world s)\<lparr>uw_ll := (fst (uw_ll (us_world s)), False)\<rparr>\<rparr>"

lemma disarm_sel [simp]:
  "us_pc (disarm s) = us_pc s" "us_dev i (disarm s) = us_dev i s" "uw_active (us_world (disarm s)) = uw_active (us_world s)"
  "us_report_flight (disarm s) = us_report_flight s" "us_packet_flight (disarm s) = us_packet_flight s" "\<not> armed (disarm s)"
  by (simp_all add: disarm_def armed_def)

section \<open>Runs\<close>

inductive usb_bus_step ::
  "'l usb_ll \<Rightarrow> nat \<Rightarrow> usb_event \<Rightarrow> ('l \<times> bool) usb_system \<Rightarrow> ('l \<times> bool) usb_system \<Rightarrow> bool" for ll i where
  statement: "usb_firmware (armed_ll ll) i s s' \<Longrightarrow> usb_bus_step ll i Firmware s s'"
| host_packet: "armed s \<Longrightarrow> usb_interrupt (armed_ll ll) i (HostPacket pkt) (disarm s) s' \<Longrightarrow> usb_bus_step ll i (HostPacket pkt) s s'"
| bus_reset: "usb_interrupt (armed_ll ll) i BusReset (disarm s) s' \<Longrightarrow> usb_bus_step ll i BusReset s s'"
| other_event: "usb_interrupt (armed_ll ll) i ev s s' \<Longrightarrow> ev \<noteq> BusReset \<Longrightarrow> (\<And>pkt. ev \<noteq> HostPacket pkt) \<Longrightarrow> usb_bus_step ll i ev s s'"

inductive usb_bus_run ::
  "'l usb_ll \<Rightarrow> nat \<Rightarrow> usb_event list \<Rightarrow> ('l \<times> bool) usb_system \<Rightarrow> ('l \<times> bool) usb_system \<Rightarrow> bool" for ll i where
  run_nil: "usb_bus_run ll i [] s s"
| run_cons: "usb_bus_step ll i ev s s' \<Longrightarrow> usb_bus_run ll i evs s' s'' \<Longrightarrow> usb_bus_run ll i (ev # evs) s s''"

inductive_simps usb_bus_run_nil [simp]: "usb_bus_run ll i [] s s'"

inductive_simps usb_bus_run_cons [simp]: "usb_bus_run ll i (ev # evs) s s'"

lemma usb_bus_run_two: "usb_bus_step ll i ev s s' \<Longrightarrow> usb_bus_step ll i ev' s' s'' \<Longrightarrow> usb_bus_run ll i [ev, ev'] s s''"
  by auto

lemma usb_bus_run_append: "usb_bus_run ll i (evs @ evs') s s'' \<longleftrightarrow> (\<exists>s'. usb_bus_run ll i evs s s' \<and> usb_bus_run ll i evs' s' s'')"
  by (induction evs arbitrary: s) auto

lemma usb_bus_wedged: "usb_bus_step ll i ev s s' \<Longrightarrow> usb_wedged i s \<Longrightarrow> usb_wedged i s'"
proof (induction rule: usb_bus_step.induct)
  case (host_packet s pkt s')
  moreover have "usb_wedged i (disarm s)" using host_packet.prems by (simp add: usb_wedged_def)
  ultimately show ?case using usb_wedged_interrupt by blast
next
  case (bus_reset s s')
  moreover have "usb_wedged i (disarm s)" using bus_reset.prems by (simp add: usb_wedged_def)
  ultimately show ?case using usb_wedged_interrupt by blast
qed (use usb_wedged_firmware usb_wedged_interrupt in blast)+

lemma usb_bus_run_wedged: "usb_bus_run ll i evs s s' \<Longrightarrow> usb_wedged i s \<Longrightarrow> usb_wedged i s'"
  by (induction rule: usb_bus_run.induct) (auto dest: usb_bus_wedged)

lemma armed_transmit [simp]: "fst (ll_transmit (armed_ll ll) la ep bs) = fst (ll_transmit ll (fst la) ep bs)"
  by (simp add: armed_ll_def split: prod.split)

section \<open>How the keyboard falls silent\<close>

text \<open>The first two statements of \<open>send\<close>: the copy and the call of the stack.\<close>

lemma usb_send_starts:
  assumes start: "us_pc s = AtRest" "usb_report_guard i (us_world s)" "length (rp_keys r) = 6"
    and accepts: "\<And>l bs. fst (ll_transmit ll l kKeyboardEpIn bs)"
  shows "\<exists>s'. usb_bus_run ll i [Firmware, Firmware] s s' \<and> us_pc s' = ReportStarted \<and> uw_active (us_world s') = Some i \<and>
    ud_configured (us_dev i s') \<and> us_report_flight s' = Some (report_bytes r)"
proof -
  let ?w = "usb_report_fill i r (us_world s)"
  define a where "a = s\<lparr>us_world := ?w, us_pc := ReportFilled\<rparr>"
  have a: "usb_firmware (armed_ll ll) i s a" unfolding a_def by (rule usb_firmware.report_fill [OF start])
  have "fst (usb_report_start (armed_ll ll) i ?w)" using accepts by (simp add: usb_report_start_def case_prod_beta)
  then obtain w where w: "usb_report_start (armed_ll ll) i ?w = (True, w)" by (cases "usb_report_start (armed_ll ll) i ?w") auto
  define b where "b = a\<lparr>us_world := w, us_pc := ReportStarted, us_report_flight := Some (ud_kb_buf (us_dev i a))\<rparr>"
  have b: "usb_firmware (armed_ll ll) i a b" unfolding b_def by (rule usb_firmware.report_start) (simp_all add: a_def w)
  have "uw_active w = Some i \<and> ud_configured (uw_dev w i)" using w start(2)
    by (auto simp: usb_statements upd_dev_def split: prod.splits)
  with a b show ?thesis
    by (intro exI [of _ b]) (auto intro: usb_bus_step.statement simp: b_def a_def usb_report_fill_def upd_dev_def)
qed

lemma usb_mark_step:
  assumes "us_pc s = ReportStarted"
  shows "usb_bus_step ll i Firmware s (s\<lparr>us_world := usb_report_mark i (us_world s), us_pc := AtRest\<rparr>)"
  using assms by (intro usb_bus_step.statement usb_firmware.report_mark)

lemma usb_sent_step:
  assumes "us_report_flight s = Some bs" "uw_active (us_world s) = Some i"
  shows "usb_bus_step ll i ReportSent s
    (s\<lparr>us_world := upd_dev i (\<lambda>d. d\<lparr>ud_kb_tx_busy := False\<rparr>) (us_world s), us_report_flight := None\<rparr>)"
proof -
  have "dataIn (kKeyboardEpIn AND 0x7F) (us_world s) = (True, upd_dev i (\<lambda>d. d\<lparr>ud_kb_tx_busy := False\<rparr>) (us_world s))"
    using assms(2) by (simp add: dataIn_def)
  from usb_interrupt.irq_report_sent [OF assms(1) this, of "armed_ll ll"] show ?thesis by (rule usb_bus_step.other_event) simp_all
qed

text \<open>The completion interrupt before the store of the flag, and after it.\<close>

lemma usb_early_completion:
  assumes "us_pc s = ReportStarted" "us_report_flight s = Some bs" "uw_active (us_world s) = Some i"
  shows "\<exists>s'. usb_bus_run ll i [ReportSent, Firmware] s s' \<and> usb_wedged i s'"
proof -
  let ?s = "s\<lparr>us_world := upd_dev i (\<lambda>d. d\<lparr>ud_kb_tx_busy := False\<rparr>) (us_world s), us_report_flight := None\<rparr>"
  have "us_pc ?s = ReportStarted" using assms(1) by simp
  from usb_bus_run_two [OF usb_sent_step [OF assms(2,3)] usb_mark_step [OF this]] show ?thesis
    by (intro exI conjI, assumption) (simp add: usb_wedged_def usb_report_mark_def upd_dev_def assms(3))
qed

lemma usb_late_completion:
  assumes "us_pc s = ReportStarted" "us_report_flight s = Some bs" "uw_active (us_world s) = Some i" "ud_configured (us_dev i s)"
  shows "\<exists>s'. usb_bus_run ll i [Firmware, ReportSent] s s' \<and> us_pc s' = AtRest \<and> usb_report_guard i (us_world s')"
proof -
  let ?s = "s\<lparr>us_world := usb_report_mark i (us_world s), us_pc := AtRest\<rparr>"
  have "us_report_flight ?s = Some bs" "uw_active (us_world ?s) = Some i"
    using assms(2,3) by (simp_all add: usb_report_mark_def upd_dev_def)
  from usb_bus_run_two [OF usb_mark_step [OF assms(1)] usb_sent_step [OF this]] show ?thesis
    by (intro exI conjI, assumption) (simp_all add: usb_report_guard_def usb_report_mark_def upd_dev_def assms(3,4))
qed

text \<open>A bus reset drops the transfer and keeps the flag.\<close>

lemma usb_reset_wedges:
  assumes "us_pc s = AtRest" "uw_active (us_world s) = Some i" "ud_kb_tx_busy (us_dev i s)"
  shows "\<exists>s'. usb_bus_run ll i [BusReset] s s' \<and> usb_wedged i s'"
proof -
  obtain ok w where w: "classDeInit (us_world (disarm s)) = (ok, w)" by fastforce
  let ?s = "(disarm s)\<lparr>us_world := w, us_report_flight := None, us_packet_flight := None\<rparr>"
  have "usb_bus_step ll i BusReset s ?s" by (intro usb_bus_step.bus_reset usb_interrupt.irq_reset [OF w])
  moreover have "usb_wedged i ?s" using assms w by (auto simp: usb_wedged_def classDeInit_def upd_dev_def)
  ultimately show ?thesis by auto
qed

section \<open>A request read while the next one arrives\<close>

lemma usb_host_step:
  assumes "armed s" "uw_active (us_world s) = Some i" "length pkt = kPacketSize"
  shows "\<exists>s'. usb_bus_step ll i (HostPacket pkt) s s' \<and> armed s' \<and> us_pc s' = us_pc s \<and> uw_active (us_world s') = Some i \<and>
    ud_via_out_buf (us_dev i s') = pkt \<and> ud_via_rx_ready (us_dev i s')"
proof -
  obtain ok w where w: "dataOut (armed_ll ll) (kViaEpOut AND 0x7F) (upd_dev i (\<lambda>d. d\<lparr>ud_via_out_buf := pkt\<rparr>) (us_world (disarm s))) = (ok, w)"
    by fastforce
  let ?s = "(disarm s)\<lparr>us_world := w\<rparr>"
  have "usb_bus_step ll i (HostPacket pkt) s ?s"
    by (intro usb_bus_step.host_packet usb_interrupt.irq_host_packet [OF assms(3) w] assms(1))
  moreover have "armed ?s \<and> uw_active w = Some i \<and> ud_via_out_buf (uw_dev w i) = pkt \<and> ud_via_rx_ready (uw_dev w i)"
    using w assms(2) by (auto simp: dataOut_def upd_dev_def Let_def armed_def disarm_def armed_ll_def split: option.splits)
  ultimately show ?thesis by (intro exI [of _ ?s]) simp
qed

lemma usb_copy_run:
  assumes "us_pc s = PacketCopying bs" "length bs + n \<le> kPacketSize" "length (ud_via_out_buf (us_dev i s)) = kPacketSize"
  shows "usb_bus_run ll i (replicate n Firmware) s
    (s\<lparr>us_pc := PacketCopying (bs @ take n (drop (length bs) (ud_via_out_buf (us_dev i s))))\<rparr>)"
  using assms
proof (induction n arbitrary: s bs)
  case 0
  then have "s\<lparr>us_pc := PacketCopying bs\<rparr> = s" by (cases s) simp
  then show ?case by simp
next
  case (Suc n)
  let ?out = "ud_via_out_buf (us_dev i s)" and ?bs = "bs @ [ud_via_out_buf (us_dev i s) ! length bs]"
  have "usb_bus_step ll i Firmware s (s\<lparr>us_pc := PacketCopying ?bs\<rparr>)"
    by (intro usb_bus_step.statement usb_firmware.poll_byte) (use Suc.prems in simp_all)
  moreover have "usb_bus_run ll i (replicate n Firmware) (s\<lparr>us_pc := PacketCopying ?bs\<rparr>)
      (s\<lparr>us_pc := PacketCopying (?bs @ take n (drop (Suc (length bs)) ?out))\<rparr>)"
    using Suc.IH [of "s\<lparr>us_pc := PacketCopying ?bs\<rparr>" ?bs] Suc.prems by simp
  moreover have "drop (length bs) ?out = ?out ! length bs # drop (Suc (length bs)) ?out"
    using Suc.prems by (intro Cons_nth_drop_Suc [symmetric]) simp
  ultimately show ?case by auto
qed

text \<open>The copy that began after the first packet ends with bytes of the second.\<close>

lemma usb_poll_begins:
  assumes "us_pc s = AtRest" "usb_poll_guard i (us_world s)" "n \<le> kPacketSize" "length (ud_via_out_buf (us_dev i s)) = kPacketSize"
  shows "usb_bus_run ll i (replicate (Suc n) Firmware) s (s\<lparr>us_pc := PacketCopying (take n (ud_via_out_buf (us_dev i s)))\<rparr>)"
proof -
  have "usb_bus_step ll i Firmware s (s\<lparr>us_pc := PacketCopying []\<rparr>)"
    by (intro usb_bus_step.statement usb_firmware.poll_enter) (use assms in simp_all)
  moreover have "usb_bus_run ll i (replicate n Firmware) (s\<lparr>us_pc := PacketCopying []\<rparr>)
      (s\<lparr>us_pc := PacketCopying (take n (ud_via_out_buf (us_dev i s)))\<rparr>)"
    using usb_copy_run [of "s\<lparr>us_pc := PacketCopying []\<rparr>" "[]" n i ll] assms(3,4) by simp
  ultimately show ?thesis by auto
qed

lemma usb_poll_tears:
  assumes start: "us_pc s = AtRest" "uw_active (us_world s) = Some i" "armed s"
    and n: "n \<le> kPacketSize" "length pkt1 = kPacketSize" "length pkt2 = kPacketSize"
  shows "\<exists>s1 s2. usb_bus_run ll i
      (HostPacket pkt1 # replicate (Suc n) Firmware @ HostPacket pkt2 # replicate (kPacketSize - n) Firmware) s s1 \<and>
    us_pc s1 = PacketCopying (take n pkt1 @ drop n pkt2) \<and> uw_active (us_world s1) = Some i \<and>
    usb_bus_step ll i Firmware s1 s2 \<and> us_pc s2 = AtRest \<and> \<not> usb_poll_guard i (us_world s2)"
proof -
  obtain a where a: "usb_bus_step ll i (HostPacket pkt1) s a" "armed a" "us_pc a = AtRest" "uw_active (us_world a) = Some i"
    "ud_via_out_buf (us_dev i a) = pkt1" "ud_via_rx_ready (us_dev i a)"
    using usb_host_step [OF start(3,2) n(2)] start(1) by metis
  define b where "b = a\<lparr>us_pc := PacketCopying (take n pkt1)\<rparr>"
  have b: "usb_bus_run ll i (replicate (Suc n) Firmware) a b" "armed b" "uw_active (us_world b) = Some i"
    using usb_poll_begins [of a i n ll] a n(1,2) by (simp_all add: usb_poll_guard_def b_def armed_def del: replicate_Suc)
  obtain c where c: "usb_bus_step ll i (HostPacket pkt2) b c" "us_pc c = PacketCopying (take n pkt1)"
    "uw_active (us_world c) = Some i" "ud_via_out_buf (us_dev i c) = pkt2"
    using usb_host_step [OF b(2,3) n(3)] by (metis b_def usb_system.select_convs(2) usb_system.surjective usb_system.update_convs(2))
  define e where "e = c\<lparr>us_pc := PacketCopying (take n pkt1 @ drop n pkt2)\<rparr>"
  have e: "usb_bus_run ll i (replicate (kPacketSize - n) Firmware) c e"
    using usb_copy_run [OF c(2), of "kPacketSize - n" i ll] n c(4) by (simp add: e_def)
  have "usb_bus_step ll i Firmware e (e\<lparr>us_world := usb_poll_clear i (us_world e), us_pc := AtRest\<rparr>)"
    by (intro usb_bus_step.statement usb_firmware.poll_clear [where bs = "take n pkt1 @ drop n pkt2"])
      (use n in \<open>simp_all add: e_def\<close>)
  moreover have "usb_bus_run ll i
      (HostPacket pkt1 # replicate (Suc n) Firmware @ HostPacket pkt2 # replicate (kPacketSize - n) Firmware) s e"
    using a(1) b(1) c(1) e by (auto simp: usb_bus_run_append simp del: replicate_Suc)
  ultimately show ?thesis using c(3)
    by (intro exI [of _ e] exI [of _ "e\<lparr>us_world := usb_poll_clear i (us_world e), us_pc := AtRest\<rparr>"])
      (auto simp: e_def usb_poll_guard_def usb_poll_clear_def upd_dev_def)
qed

end
