(* ===== verification/Stm32_Theorems.thy ===== *)
theory Stm32_Theorems
  imports Stm32_Facts Usb_Bus Demo_Platform Demo_Sketch
begin

text \<open>
  The USB device under interrupts at every statement, and the STM32F103 sketch as a whole program.
\<close>

section \<open>The USB device under interrupts\<close>

text \<open>C18. Transfers at every statement: however the statements of the firmware and the interrupts of
  the USB stack interleave, the buffers keep their sizes, and the bytes of a report or packet in
  flight are still in the buffer the peripheral reads, until it is collected or a bus reset drops
  it.\<close>
theorem usb_flights_undisturbed:
  assumes run: "(usb_irq_step ll i)\<^sup>*\<^sup>* s s'" and start: "uw_active (us_world s) = Some i" "usb_buffers (us_dev i s)"
    "us_pc s = AtRest" "us_report_flight s = None" "us_packet_flight s = None"
  shows "usb_buffers (us_dev i s') \<and> (us_report_flight s' \<noteq> None \<longrightarrow> us_report_flight s' = Some (ud_kb_buf (us_dev i s'))) \<and>
    (us_packet_flight s' \<noteq> None \<longrightarrow> us_packet_flight s' = Some (ud_via_in_buf (us_dev i s')))"
proof -
  have "usb_flights i s" using start by (simp add: usb_flights_def)
  with run have "usb_flights i s'" by (rule usb_flights_run)
  then show ?thesis by (auto simp: usb_flights_def)
qed

definition tiny_system :: "bool \<Rightarrow> unit usb_system" where
  "tiny_system got = \<lparr>us_world = upd_dev 0 (\<lambda>d. d\<lparr>ud_via_rx_ready := got\<rparr>) (tiny_device False), us_pc = AtRest,
     us_report_flight = None, us_packet_flight = None\<rparr>"

lemma tiny_system_sel [simp]:
  "uw_active (us_world (tiny_system b)) = Some 0" "us_pc (tiny_system b) = AtRest"
  "us_report_flight (tiny_system b) = None" "us_packet_flight (tiny_system b) = None"
  "us_dev 0 (tiny_system b) = usb_device_new\<lparr>ud_configured := True, ud_kb_tx_busy := False, ud_via_rx_ready := b\<rparr>"
  by (simp_all add: tiny_system_def tiny_device_def upd_dev_def)

lemma tiny_buffers [simp]: "usb_buffers (usb_device_new\<lparr>ud_configured := c, ud_kb_tx_busy := t, ud_via_rx_ready := b\<rparr>)"
  using usb_buffers_new by (simp add: usb_buffers_def)

lemma usb_flights_undisturbed_witness:
  "\<exists>s. (usb_irq_step tiny_usb 0)\<^sup>*\<^sup>* (tiny_system False) s \<and> us_report_flight s = Some (ud_kb_buf (us_dev 0 s))"
proof -
  let ?s0 = "tiny_system False"
  define a where "a = ?s0\<lparr>us_world := usb_report_fill 0 empty_report (us_world ?s0), us_pc := ReportFilled\<rparr>"
  have a: "usb_irq_step tiny_usb 0 ?s0 a" unfolding a_def
    by (rule usb_irq_step.firmware, rule usb_firmware.report_fill) (simp_all add: usb_report_guard_def empty_report_def)
  define b where "b = a\<lparr>us_world := us_world a, us_pc := ReportStarted, us_report_flight := Some (ud_kb_buf (us_dev 0 a))\<rparr>"
  have b: "usb_irq_step tiny_usb 0 a b" unfolding b_def
    by (rule usb_irq_step.firmware, rule usb_firmware.report_start) (simp_all add: a_def usb_report_start_def tiny_usb_def)
  have run: "(usb_irq_step tiny_usb 0)\<^sup>*\<^sup>* ?s0 b" using a b by (meson converse_rtranclp_into_rtranclp rtranclp.rtrancl_refl)
  from usb_flights_undisturbed [OF run] tiny_buffers have "us_report_flight b \<noteq> None \<longrightarrow> us_report_flight b = Some (ud_kb_buf (us_dev 0 b))"
    by simp
  moreover have "us_report_flight b \<noteq> None" by (simp add: b_def)
  ultimately show ?thesis using run by blast
qed

text \<open>The device after the host has configured it: \<open>classInit\<close> has armed the endpoint of VIA.\<close>

definition tiny_bus :: "(unit \<times> bool) usb_system" where
  "tiny_bus = \<lparr>us_world = snd (classInit (armed_ll tiny_usb)
       \<lparr>uw_active = Some 0, uw_dev = (\<lambda>_. usb_device_new), uw_ll = ((), False)\<rparr>),
     us_pc = AtRest, us_report_flight = None, us_packet_flight = None\<rparr>"

lemma tiny_bus_sel [simp]:
  "uw_active (us_world tiny_bus) = Some 0" "us_pc tiny_bus = AtRest" "armed tiny_bus" "usb_report_guard 0 (us_world tiny_bus)"
  by (simp_all add: tiny_bus_def classInit_def armed_ll_def armed_def usb_report_guard_def upd_dev_def usb_device_new_def)

text \<open>C39. The keyboard can fall silent for good: \<open>send\<close> stores the busy flag after it has started
  the transfer.  From a device that is ready to send, the first two statements of \<open>send\<close> put the
  report in flight.  When the completion interrupt comes next, before the store of the flag, every
  later state, whatever statements and interrupts lead to it, refuses every report, and \<open>sendComplete\<close>
  stays false; there is no bus reset in that run.  When the same interrupt comes after the store the
  device is ready again.  The hypothesis on the USB stack is that it accepts the transfer.\<close>
theorem usb_keyboard_falls_silent:
  assumes start: "us_pc s = AtRest" "usb_report_guard i (us_world s)" "length (rp_keys r) = 6"
    and accepts: "\<And>l bs. fst (ll_transmit ll l kKeyboardEpIn bs)"
  shows "\<exists>s1. usb_bus_run ll i [Firmware, Firmware] s s1 \<and> us_report_flight s1 = Some (report_bytes r) \<and>
    (\<exists>s2. usb_bus_run ll i [ReportSent, Firmware] s1 s2 \<and> (\<forall>evs s3. usb_bus_run ll i evs s2 s3 \<longrightarrow>
      (\<forall>r'. usb_send_report (armed_ll ll) i (us_world s3) r' = (False, us_world s3)) \<and> \<not> fst (usb_sendComplete i (us_world s3)))) \<and>
    (\<exists>s2. usb_bus_run ll i [Firmware, ReportSent] s1 s2 \<and> us_pc s2 = AtRest \<and> usb_report_guard i (us_world s2))"
proof -
  obtain s1 where s1: "usb_bus_run ll i [Firmware, Firmware] s s1" "us_pc s1 = ReportStarted" "uw_active (us_world s1) = Some i"
    "ud_configured (us_dev i s1)" "us_report_flight s1 = Some (report_bytes r)"
    using usb_send_starts [OF start accepts] by blast
  obtain s2 where "usb_bus_run ll i [ReportSent, Firmware] s1 s2" "usb_wedged i s2"
    using usb_early_completion [OF s1(2,5,3)] by blast
  with usb_late_completion [OF s1(2,5,3,4), of ll] s1(1,5) show ?thesis
    using usb_bus_run_wedged usb_wedged_refuses by blast
qed

lemma usb_keyboard_falls_silent_witness:
  "\<exists>s1 s2. usb_bus_run tiny_usb 0 [Firmware, Firmware] tiny_bus s1 \<and> us_report_flight s1 = Some (replicate 8 0) \<and>
    usb_bus_run tiny_usb 0 [ReportSent, Firmware] s1 s2 \<and>
    usb_send_report (armed_ll tiny_usb) 0 (us_world s2) empty_report = (False, us_world s2)"
proof -
  have start: "length (rp_keys empty_report) = 6" "\<And>l bs. fst (ll_transmit tiny_usb l kKeyboardEpIn bs)"
    by (simp_all add: empty_report_def tiny_usb_def)
  have "report_bytes empty_report = replicate 8 0" by code_simp
  with usb_keyboard_falls_silent [OF tiny_bus_sel(2,4) start] usb_bus_run.run_nil show ?thesis by metis
qed

text \<open>C40. Torn requests: \<open>dataOut\<close> arms the endpoint again before \<open>receive\<close> has copied the buffer, so
  that the host may deliver the next packet into it.  From an armed device at rest, for every \<open>n\<close>:
  the first packet arrives, \<open>receive\<close> sees the flag and copies \<open>n\<close> bytes, the second packet arrives,
  and \<open>receive\<close> ends with the first \<open>n\<close> bytes of the first packet and the rest of the second.  Its
  last statement then clears the flag of the second packet, which is never delivered.\<close>
theorem usb_requests_can_tear:
  assumes start: "us_pc s = AtRest" "uw_active (us_world s) = Some i" "armed s"
    and n: "n \<le> kPacketSize" "length pkt1 = kPacketSize" "length pkt2 = kPacketSize"
  shows "\<exists>s1 s2. usb_bus_run ll i
      (HostPacket pkt1 # replicate (Suc n) Firmware @ HostPacket pkt2 # replicate (kPacketSize - n) Firmware) s s1 \<and>
    us_pc s1 = PacketCopying (take n pkt1 @ drop n pkt2) \<and>
    usb_bus_step ll i Firmware s1 s2 \<and> us_pc s2 = AtRest \<and> (\<forall>buf. usb_receive i (us_world s2) buf = (False, buf, us_world s2))"
proof -
  obtain s1 s2 where "usb_bus_run ll i
      (HostPacket pkt1 # replicate (Suc n) Firmware @ HostPacket pkt2 # replicate (kPacketSize - n) Firmware) s s1"
    "us_pc s1 = PacketCopying (take n pkt1 @ drop n pkt2)" "usb_bus_step ll i Firmware s1 s2" "us_pc s2 = AtRest"
    "\<not> usb_poll_guard i (us_world s2)"
    using usb_poll_tears [OF start n, of ll] by blast
  moreover from this(5) have "usb_receive i (us_world s2) buf = (False, buf, us_world s2)" for buf
    by (simp add: usb_receive_statements)
  ultimately show ?thesis by blast
qed

lemma usb_requests_can_tear_witness:
  "\<exists>s1. usb_bus_run tiny_usb 0 (HostPacket (replicate 32 1) # replicate 17 Firmware @ HostPacket (replicate 32 2) # replicate 16 Firmware)
      tiny_bus s1 \<and> us_pc s1 = PacketCopying (replicate 16 1 @ replicate 16 2)"
proof -
  have n: "(16 :: nat) \<le> kPacketSize" "length (replicate 32 (1 :: u8)) = kPacketSize" "length (replicate 32 (2 :: u8)) = kPacketSize"
    by (simp_all add: kPacketSize_def)
  have "take 16 (replicate 32 (1 :: u8)) @ drop 16 (replicate 32 2) = replicate 16 1 @ replicate 16 2"
    "Suc 16 = 17" "kPacketSize - 16 = 16" by (simp_all add: kPacketSize_def)
  with usb_requests_can_tear [OF tiny_bus_sel(2,1,3) n, of tiny_usb] show ?thesis by metis
qed

section \<open>The STM32F103 sketch\<close>

text \<open>The STM32F103 sketch: from its initialisers through \<open>setup\<close> and any turns of \<open>loop\<close>, with
  interrupts that do anything to the USB device before each of the four calls, every call returns
  without an access outside an array and the bootloader is never entered; the loop does not call
  \<open>matrix.task\<close>, so that all keys stay inactive and the run is the same with any function in place
  of \<open>send\<close>: no report reaches the host.\<close>
theorem stm32_runs_and_never_types:
  assumes arrays: "length prev = 8" "length junk = kPacketSize"
  shows "\<exists>s0 s1 s2. stm32_new ad pin prev junk a l = Some s0 \<and> stm32_setup ll noise now s0 = Some s1 \<and>
    wf_protocol (sm_protocol s2) \<and> kb_inv (p_keymap (sm_protocol s2)) (sm_keyboard s2) \<and>
    active_codes (sm_keyboard s2) = replicate 108 0 \<and>
    (\<forall>send. stm32_turns (stm32_loop (stm32_deps ll noise) ((usb_hid ll 0)\<lparr>hid_send := send\<rparr>) mem) tns s1 = Some (Looping s2))"
proof -
  obtain s0 where s0: "stm32_new ad pin prev junk a l = Some s0" "stm32_ok s0"
    using stm32_new_ok [OF arrays, of ad pin a l] by blast
  obtain s1 where s1: "stm32_setup ll noise now s0 = Some s1" "stm32_ok s1" using stm32_setup_ok [OF s0(2), of ll noise now] by blast
  obtain s2 where s2: "\<forall>send. stm32_turns (stm32_loop (stm32_deps ll noise) ((usb_hid ll 0)\<lparr>hid_send := send\<rparr>) mem) tns s1 = Some (Looping s2)"
    "stm32_ok s2" using stm32_turns_ok [OF s1(2), of ll noise mem tns] by blast
  then have "wf_protocol (sm_protocol s2) \<and> kb_inv (p_keymap (sm_protocol s2)) (sm_keyboard s2) \<and>
    active_codes (sm_keyboard s2) = replicate 108 0"
    by (simp add: stm32_ok_def pair_inv_def task_inv_def env_inv_def)
  with s0(1) s1(1) s2(1) show ?thesis by blast
qed

lemma stm32_runs_and_never_types_witness:
  "\<exists>s0 s1 s2. stm32_new spots (of_nat \<circ> length) (replicate 8 0) (replicate 32 0) open_board () = Some s0 \<and>
    stm32_setup tiny_usb (\<lambda>_. 0) 5 s0 = Some s1 \<and>
    stm32_turns (stm32_loop (stm32_deps tiny_usb (\<lambda>_. 0)) ((usb_hid tiny_usb 0)\<lparr>hid_send := (\<lambda>w _. (False, w))\<rparr>) (\<lambda>_. 0))
      [(\<lambda>_ w. w, 6), (\<lambda>_ w. snd (classInit tiny_usb w), 7)] s1 = Some (Looping s2) \<and>
    active_codes (sm_keyboard s2) = replicate 108 0"
  using stm32_runs_and_never_types [of "replicate 8 0" "replicate 32 0" spots "of_nat \<circ> length" open_board "()" tiny_usb "\<lambda>_. 0" 5
      "\<lambda>_. 0" "[(\<lambda>_ w. w, 6), (\<lambda>_ w. snd (classInit tiny_usb w), 7)]"]
  by (simp add: kPacketSize_def) blast

text \<open>C19. VIA over USB, end to end: when the device is configured and idle, a packet of the host waits
  and the protocol owes no reply, one turn of the sketch's loop processes the packet and starts the
  transfer of exactly the reply of \<open>process\<close>, with the keymap as \<open>process\<close> left it.\<close>
theorem stm32_answers_host:
  assumes ok: "stm32_ok s" and cfg: "p_config (sm_protocol s) = stm32_config ad" and quiet: "\<not> p_responsePending (sm_protocol s)"
      "\<not> p_bootloaderPending (sm_protocol s)"
    and usb: "via_endpoint 0 (sm_usb s) = (Some 0, True, out, False, pkt, True)" "length pkt = kPacketSize"
    and ll: "\<And>l bs. fst (ll_transmit ll l kViaEpIn bs)"
  shows "\<exists>ok reply q s'. process (stm32_deps ll noise)
      ((sm_protocol s)\<lparr>p_transport := usb_poll_clear 0 (sm_usb s), p_pendingResponse := pkt\<rparr>) pkt now = Some (ok, reply, q) \<and>
    stm32_loop (stm32_deps ll noise) (usb_hid ll 0) mem (\<lambda>_ w. w) now s = Some (Looping s') \<and>
    via_endpoint 0 (sm_usb s') = (Some 0, True, reply, True, pkt, False) \<and> p_keymap (sm_protocol s') = p_keymap q"
proof -
  have irq: "stm32_irq (\<lambda>w. w) x = x" "stm32_usb_call x = x" for x :: "('a, 'b) stm32_sketch"
    by (simp_all add: stm32_irq_def stm32_usb_call_def usb_task_def)
  have t: "task_inv (\<lambda>_. False) (\<lambda>_. True) (lent_protocol s)" using ok by (simp add: stm32_ok_def pair_inv_def lent_protocol_def)
  have pre: "phase_of (lent_protocol s) = Quiet" "\<not> cfg_bootloaderEnabled (p_config (lent_protocol s))"
    "via_endpoint 0 (p_transport (lent_protocol s)) = (Some 0, True, out, False, pkt, True)"
    using quiet cfg usb(1) by (simp_all add: phase_of_def lent_protocol_def stm32_config_def)
  obtain okp reply q p where x: "process (stm32_deps ll noise) ((lent_protocol s)\<lparr>p_transport := usb_poll_clear 0 (p_transport (lent_protocol s)),
      p_pendingResponse := pkt\<rparr>) pkt now = Some (okp, reply, q)" "protocol_task (stm32_deps ll noise) (lent_protocol s) now = Some p"
    "via_endpoint 0 (p_transport p) = (Some 0, True, reply, True, pkt, False)" "p_keymap p = p_keymap q"
    using stm32_task_exchange [OF t pre usb(2) ll, of noise now] by blast
  let ?s1 = "s\<lparr>sm_protocol := p, sm_usb := p_transport p\<rparr>"
  have s1: "stm32_protocol_call (stm32_deps ll noise) now s = Some ?s1" "stm32_ok ?s1"
    using stm32_protocol_call_ok [OF ok, of ll noise now] x(2) by auto
  obtain k k1 where k: "\<forall>send. stm32_keyboard_call ((usb_hid ll 0)\<lparr>hid_send := send\<rparr>) ?s1 = Some (?s1\<lparr>sm_keyboard := k, sm_usb := kb_hid k\<rparr>)"
    "stm32_ok (?s1\<lparr>sm_keyboard := k, sm_usb := kb_hid k\<rparr>)" "drain_leds (usb_hid ll 0) (lent_keyboard ?s1) = Some k1" "kb_hid k = kb_hid k1"
    using stm32_keyboard_call_ok [OF s1(2), of ll] by blast
  have "(usb_hid ll 0)\<lparr>hid_send := hid_send (usb_hid ll 0)\<rparr> = usb_hid ll 0" by simp
  then have k': "stm32_keyboard_call (usb_hid ll 0) ?s1 = Some (?s1\<lparr>sm_keyboard := k, sm_usb := kb_hid k\<rparr>)" using k(1) by metis
  have e: "via_endpoint 0 (kb_hid k) = (Some 0, True, reply, True, pkt, False)"
    using drain_leds_endpoint [OF k(3)] k(4) x(3) by (simp add: lent_keyboard_def)
  have loop: "stm32_loop (stm32_deps ll noise) (usb_hid ll 0) mem (\<lambda>_ w. w) now s =
      stm32_boot_call (stm32_deps ll noise) (usb_hid ll 0) mem (?s1\<lparr>sm_keyboard := k, sm_usb := kb_hid k\<rparr>)"
    using s1(1) k' by (simp add: stm32_loop_def irq Let_def)
  from stm32_boot_call_idle [OF k(2)] x(1,4) e loop show ?thesis by (auto simp: lent_protocol_def)
qed

text \<open>A device that was enumerated and has received a packet.\<close>

definition waiting_usb :: "u8 list \<Rightarrow> unit usb_world" where
  "waiting_usb pkt = upd_dev 0 (\<lambda>d. d\<lparr>ud_via_out_buf := pkt, ud_via_rx_ready := True\<rparr>) (tiny_device False)"

lemma stm32_answers_host_witness:
  "\<exists>s s' reply. stm32_new spots (of_nat \<circ> length) (replicate 8 0) (replicate 32 0) open_board () = Some s \<and>
    stm32_loop (stm32_deps tiny_usb (\<lambda>_. 0)) (usb_hid tiny_usb 0) (\<lambda>_. 0) (\<lambda>_ w. w) 5
      (s\<lparr>sm_usb := waiting_usb (replicate 32 1)\<rparr>) = Some (Looping s') \<and>
    via_endpoint 0 (sm_usb s') = (Some 0, True, reply, True, replicate 32 1, False)"
proof -
  have l: "length (replicate 8 (0 :: u32)) = 8" "length (replicate 32 (n :: u8)) = kPacketSize" for n by (simp_all add: kPacketSize_def)
  obtain s where s: "stm32_new spots (of_nat \<circ> length) (replicate 8 0) (replicate 32 0) open_board () = Some s" "stm32_ok s"
    "p_config (sm_protocol s) = stm32_config spots" "\<not> p_responsePending (sm_protocol s)" "\<not> p_bootloaderPending (sm_protocol s)"
    using stm32_new_ok [OF l(1) l(2), of spots "of_nat \<circ> length" 0 open_board "()"] by blast
  let ?s = "s\<lparr>sm_usb := waiting_usb (replicate 32 1)\<rparr>"
  have pre: "stm32_ok ?s" "p_config (sm_protocol ?s) = stm32_config spots" "\<not> p_responsePending (sm_protocol ?s)"
    "\<not> p_bootloaderPending (sm_protocol ?s)"
    "via_endpoint 0 (sm_usb ?s) = (Some 0, True, replicate kPacketSize 0, False, replicate 32 1, True)"
    "length (replicate 32 (1 :: u8)) = kPacketSize" "\<And>l bs. fst (ll_transmit tiny_usb l kViaEpIn bs)"
    using s by (simp_all add: waiting_usb_def via_endpoint_def upd_dev_def tiny_device_def usb_device_new_def tiny_usb_def kPacketSize_def)
  from stm32_answers_host [OF pre, of "\<lambda>_. 0" 5 "\<lambda>_. 0"] s(1) show ?thesis by blast
qed

section \<open>The bootloader without storage\<close>

text \<open>A sketch without storage that has a changed keymap cannot reach the bootloader: the save fails
  and the coordinator goes back to idle.\<close>

lemma stm32_boot_blocked:
  assumes "p_storage (sm_protocol s) = None" "p_dirty (sm_protocol s)" "sm_boot s = BDirtySave"
  shows "stm32_boot_call d hv mem s = Some (Looping (s\<lparr>sm_protocol := lent_protocol s, sm_boot := BIdle\<rparr>))"
  using assms by (simp add: stm32_boot_call_def boot_task_def boot_save_def lent_boot_def lent_protocol_def save_def)

end
