(* ===== verification/Spec2Isabelle.thy ===== *)
theory Spec2Isabelle
  imports Core_Theorems Input_Theorems Key_Theorems Platform_Theorems Fs_Corruptor Sketch_Theorems Stm32_Theorems
begin

text \<open>
  VIA-Arduino is firmware for keyboards: an Arduino library in C++ that speaks the VIA configuration
  protocol, scans and debounces a key matrix, resolves layers, sends HID reports, and keeps its
  settings in the non-volatile memory of four families of boards, together with example sketches
  that put the parts together.  This development models the library (\<open>src/src\<close>) and the sketches
  (\<open>src/examples\<close>, \<open>src/extras\<close>) as functions on records and proves what makes them correct.
\<close>

section \<open>How the program works\<close>

text \<open>
  A sketch owns a \<open>Protocol\<close>, a \<open>Matrix\<close> and a \<open>Keyboard\<close> and calls \<open>task\<close> of each in its \<open>loop\<close>.
  \<^item> \<open>Protocol\<close> receives one 32-byte packet from a \<open>Transport\<close>, processes it in place, keeps the reply
    until the transport takes it, saves changed settings after a delay, and enters the bootloader
    only after the reply to the request has left.  Settings are the keymap, the encoder map, the
    macros, the layout options and the state of a \<open>CustomValue\<close> such as the RGB light; they are
    written as one record with a CRC through a \<open>Storage\<close>, and staged in a buffer when read.
  \<^item> \<open>Matrix\<close> drives rows or columns through a \<open>MatrixIO\<close>, debounces the rows it read and marks the
    changed bits.
  \<^item> \<open>Keyboard\<close> consumes the marks, asks the layer state and the protocol's keymap for the code of each
    key, and hands reports to a \<open>KeyboardHID\<close>.
  \<^item> Adapters implement the interfaces: stores on EEPROM, STM32F1 flash, ESP32 NVS and the nRF52 file
    system; transports and keyboards over STM32F1 USB, TinyUSB, NimBLE and Bluefruit.
\<close>

section \<open>How it is modelled\<close>

text \<open>
  A class is a record of its fields, a method a function on that record that returns it changed.  An
  abstract class is a record of functions over the state of the deriving class (\<open>storage_vt\<close>,
  \<open>transport_vt\<close>, \<open>custom_vt\<close>, \<open>matrix_io\<close>, \<open>hid_vt\<close>).  Machine integers keep their width as words and
  wrap; sizes that the code computes in \<open>size_t\<close> are natural numbers.  A function whose code can
  leave an array, shift by the width or more, call through a null pointer or fail to return gives
  an option, \<open>None\<close> being that behaviour, so that \<open>f x = Some y\<close> says that it does not happen.  Output
  buffers are passed in and returned; a callback is recorded as an event.  Loops over indices are
  \<open>for_up\<close> of theory \<open>Prelude\<close>, which counts: no fuel is used.  Two loops of the code need not end,
  the draining of LED reports (\<open>drain_leds\<close>) and the delay that calls itself (\<open>member_delay\<close>); they are
  partial functions, for which termination is proved under the contract of the HID port, and
  non-termination for every argument.

  Third-party libraries are parameters: the pin functions of the Arduino core, the EEPROM,
  Preferences and LittleFS libraries, flash memory, NimBLE, Bluefruit, TinyUSB and the STM32 USB
  device library.  Where a property depends on them, a locale states the documented behaviour it
  uses, and the locale is interpreted on an instance, the fakes of the repository's tests where it
  has them.  The locales are:
  \<^item> \<open>transport_contract\<close>, \<open>storage_contract\<close>, \<open>atomic_storage\<close>, \<open>custom_contract\<close>, \<open>custom_persistent\<close>
    (\<open>Interfaces\<close>): what \<open>Protocol\<close> asks of its collaborators.  Every store, transport and custom value
    of the library is an interpretation.
  \<^item> \<open>protocol_env\<close>, \<open>protocol_loop\<close>, \<open>tapped_loop\<close>, \<open>atomic_env\<close> (\<open>Persist\<close>, \<open>Main_Loop\<close>, \<open>Roundtrip\<close>): the core
    over such collaborators.
  \<^item> \<open>matrix_port\<close>, \<open>switch_matrix\<close>, \<open>arduino_pins\<close> (\<open>Matrix\<close>, \<open>Matrix_Scan\<close>, \<open>Gpio\<close>): a port that returns from
    its delays; one whose pulled-up pins read what the switches connect; the pin functions.
  \<^item> \<open>keyboard_port\<close> (\<open>Keyboard_Task\<close>): a HID port whose LED reports run dry.
  \<^item> \<open>mailbox\<close>, \<open>counting_mailbox\<close> (\<open>Mailbox\<close>): the one-packet slot between an interrupt or radio task and
    the main loop.
  \<^item> \<open>eeprom_library\<close>, \<open>blob_store\<close>, \<open>nor_flash\<close>, \<open>file_directory\<close>, \<open>file_faults\<close>, \<open>file_library\<close>,
    \<open>file_append\<close>: the memories; of the file system in three degrees, one in which every call may fail or
    damage a file, one that works, and one that opens for writing at the end.
\<close>

section \<open>Which theory models what\<close>

text \<open>
  \<^item> \<open>Prelude\<close>: types of the widths the code uses, array access with bounds, counted loops with their
    rules, bytes and words; the collections \<open>mem\<close>, \<open>enc\<close> and \<open>frame\<close> of rewrite rules.
  \<^item> \<open>Interfaces\<close>: the abstract classes of \<open>VIA_Protocol.h\<close>.  \<open>Crc\<close>: the three CRC-32 loops, their
    agreement and the detection of bursts.
  \<^item> \<open>Protocol\<close>, \<open>Persist\<close>, \<open>Reset\<close>, \<open>Dispatch\<close>: class \<open>Protocol\<close> of \<open>VIA_Protocol.cpp\<close>; its data and sizes, \<open>save\<close> and
    \<open>load\<close>, \<open>begin\<close> and \<open>factoryReset\<close>, \<open>process\<close> and \<open>task\<close>.  \<open>Core_Invariant\<close>, \<open>Commands\<close>, \<open>Roundtrip\<close>, \<open>Main_Loop\<close>: the
    invariant of every operation, each command on every branch, save and load, and the refinement
    of the exchange of packets by the step relation \<open>wire_step\<close>.
  \<^item> \<open>Memory_Store\<close>, \<open>Eeprom_Store\<close>, \<open>Nvs_Store\<close>, \<open>Flash_Store\<close> with \<open>Flash_Facts\<close>, \<open>Flash_Power\<close> and \<open>Flash_Protocol\<close>,
    \<open>Fs_Store\<close> with \<open>Fs_Facts\<close>: \<open>VIA_Memory.h\<close>, \<open>VIA_EEPROMStorage.h\<close>, \<open>VIA_ESP32_NVS.h\<close>, \<open>VIA_STM32F1_Flash\<close>,
    \<open>VIA_nRF52_InternalFS\<close>; what survives a power cut, where \<open>Flash_Power\<close> runs an update over
    a supply that ends after any erase of a page or programming of a byte.  \<open>Fs_Corruptor\<close>: the recovery test of the last.
  \<^item> \<open>Keycodes\<close>, \<open>Layers\<close>: \<open>VIA_Keycodes.h\<close> and class \<open>LayerState\<close>.  \<open>Matrix\<close>, \<open>Matrix_Scan\<close>, \<open>Gpio\<close>: \<open>VIA_Matrix\<close>
    and the four \<open>MatrixIOArduino\<close> classes.
  \<^item> \<open>Keyboard\<close>, \<open>Keyboard_Report\<close>, \<open>Keyboard_Keys\<close>, \<open>Keyboard_Task\<close>, \<open>Key_Press\<close>, \<open>Keyboard_Log\<close>:
    \<open>VIA_Keyboard.cpp\<close>; the report, the three passes over changed keys, the task with its invariant, one
    key going down and up, and a recorder in front of the HID port (\<open>hid_tap\<close>), which logs every report
    handed to \<open>send\<close> and every answer of \<open>sendComplete\<close>, so that theorems speak of what the port was given.
  \<^item> \<open>Usb_Device\<close>, \<open>Descriptors\<close>, \<open>Raw_Hid\<close>, \<open>Ble_Hid\<close>, \<open>Ble_Transport\<close>, \<open>Mailbox\<close>: the USB device of the STM32F1
    with its step relation, the descriptor tables read by an interpreter of HID items, TinyUSB,
    the Bluetooth keyboards and transports.  \<open>Usb_Interrupts\<close>: the methods of the USB device cut into
    statements, equal to the methods when nothing interrupts, and the relation \<open>usb_irq_step\<close> in which
    the handlers run between any two of them and the host writes at any time, for what always holds.
    \<open>Usb_Bus\<close>: runs with a list of events, in which a packet needs an endpoint that
    \<open>USBD_LL_PrepareReceive\<close> armed, for what can happen.  \<open>Ble_Session\<close>: the callbacks of NimBLE, and what the end
    of a connection does to requests and replies.
  \<^item> \<open>Rgb_Light\<close>, \<open>Encoder\<close>, \<open>Power_State\<close>, \<open>Boot\<close>: \<open>VIA_RGBLight\<close>, \<open>VIA_Encoder.h\<close>, \<open>VIA_Battery.h\<close> with
    \<open>VIA_SleepMgr.h\<close>, \<open>VIA_STM32F1_Boot\<close>.
  \<^item> \<open>Sketches\<close>: the example sketches with their tables, global objects, \<open>setup\<close> and \<open>loop\<close>.  \<open>Sketch_Facts\<close>,
    \<open>Sketch_Runs\<close>, \<open>Sketch_Boards\<close>: protocol and keyboard together through any turns of the loop, while
    radio, switches and host do what they like in between.  \<open>Stm32_Sketch\<close>, \<open>Stm32_Facts\<close>: the STM32F103
    sketch, whose protocol, keyboard and boot coordinator share one USB device, and the exchange of
    one VIA packet over it.
  \<^item> \<open>Demo\<close>, \<open>Demo_Keyboard\<close>, \<open>Demo_Platform\<close>, \<open>Demo_Sketch\<close>: concrete configurations, the inputs of the witnesses.
  \<^item> \<open>Core_Theorems\<close>, \<open>Input_Theorems\<close>, \<open>Key_Theorems\<close>, \<open>Platform_Theorems\<close>, \<open>Sketch_Theorems\<close>,
    \<open>Stm32_Theorems\<close>: the properties, each
    with an application to a concrete input.
\<close>

section \<open>What is shown\<close>

text \<open>
  For the core: no packet makes \<open>process\<close> leave an array, the state stays well formed, each command does
  what the protocol says and nothing else, settings come back as they were saved, a damaged record
  is rejected and a failed reset changes nothing durable (though it resets the custom value); the main loop answers each request once
  and jumps to the bootloader after the reply.  For the input path: the scan sees the closed
  switches, stable rows were steady for the debounce time, the topmost layer answers, the report
  holds the active keys, no key sticks, the report last handed to the host is the report of the active keys, and a
  remapped key sends its new code.  For the platforms: an update of the flash cut short anywhere and
  a commit to a file that fails anywhere leave one of the two contents, never a mixture, the bytes of a USB transfer in flight stay as they were sent
  however interrupts fall between the statements, mailboxes keep their order and lose only packets
  that find the slot taken, which are counted, or do not obtain the mutex.  For the sketches: the
  WROOM sketch as a whole runs without leaving an array, the settings of the RP2040 sketch survive a
  power cycle, and a VIA packet that reaches the STM32F103 sketch is answered within one turn.

  Bounds assumed where they matter: at most 8 rows and 32 columns (the arrays of \<open>Matrix\<close> and
  \<open>Keyboard\<close> have 8 entries and rows are 32 bits), rows times columns below 256 (the code counts keys
  in 8 bits), at most 32 layers, at most 65535 bytes of record, at most 32 battery samples.

  Some theorems show that the code does not do what it means to: adapters with inverted polarity, a
  delay that calls itself, columns that are never pulled up, a flash store on which no save
  succeeds, a completion interrupt or a bus reset that silences the USB keyboard for good, requests
  torn by the next one, a Bluetooth reply that reaches the next peer, modified keys without their
  modifiers, a sketch whose first turn hangs and which would not sleep if it did not, and two that
  never scan.  Their statements describe the code as it is.
\<close>

section \<open>Not modelled\<close>

text \<open>
  The umbrella header (includes only); the test programs, whose fakes are used as instances.  The
  \<open>STM32F103_Keyboard_MVP\<close> sketch calls a constructor of \<open>Keyboard\<close> that fits no declaration of the
  library; its keyboard is built with the constructor the library has, from the same objects, and
  the rest of the sketch is modelled as written.  \<open>VIA_ESP32S3_NVS.h\<close> and \<open>VIA_ESP32S3_BLE_ViaTransport.h\<close> are aliases of the ESP32
  classes.  Disabling interrupts around a copy is modelled by the atomicity of the operation it
  protects; the mutex of the Bluetooth transports is an argument of each operation that says
  whether it was obtained.  The order in which C++ evaluates the two \<open>digitalRead\<close> arguments of
  \<open>encoder.update\<close> is not specified; the model reads the first argument first.  In a power cut a page is erased or not and a byte
  programmed or not; the copies of \<open>memcpy\<close> that an interrupt can split are split at bytes.  The
  plain accessors of the classes are the field selectors of the records.  What remains of the library beside that is
  includes, comments, guards of the preprocessor and the declarations of the methods modelled here.
\<close>

end
